(* ===== verification/PT_Prelude.thy ===== *)
theory PT_Prelude
  imports Main "HOL-Library.Word" "HOL-Library.Monad_Syntax"
begin

text \<open>
  The vocabulary shared by every component of the PTEditor model: the machine integers of the C
  sources, the C shift operators with their undefined cases, and byte-addressed physical memory with
  the little-endian 64-bit accesses that both supported architectures perform.  The lemma collections
  \<open>bit_field_simps\<close> (bit fields) and \<open>mem_simps\<close> (memory) carry the component proofs.
\<close>

unbundle bit_operations_syntax

section \<open>Machine integers\<close>

text \<open>
  The sources are built for x86-64 and ARMv8, so \<open>size_t\<close>, \<open>unsigned long\<close> and pointers are 64 bits
  wide, \<open>int\<close> and \<open>pid_t\<close> 32 bits, \<open>unsigned char\<close> 8 bits.
\<close>

type_synonym u8 = "8 word"
type_synonym i32 = "32 word"
type_synonym u64 = "64 word"
type_synonym mem = "u64 \<Rightarrow> u8"

datatype arch = X86_64 | AArch64

named_theorems bit_field_simps \<open>bit-level characterisations of the entry operations\<close>
named_theorems mem_simps \<open>reading physical memory after a write\<close>

text \<open>
  \<open>1ull << n\<close> and \<open>x << n\<close> on \<open>int\<close>: a shift count outside the width of the (promoted) left operand
  is undefined behaviour, the value \<open>None\<close> of the model.
\<close>

definition c_shl_ull :: "u64 \<Rightarrow> int \<Rightarrow> u64 option" where
  "c_shl_ull x n = (if 0 \<le> n \<and> n < 64 then Some (push_bit (nat n) x) else None)"

definition c_shl_int :: "i32 \<Rightarrow> int \<Rightarrow> i32 option" where
  "c_shl_int x n = (if 0 \<le> n \<and> n < 32 then Some (push_bit (nat n) x) else None)"

text \<open>\<open>1ull << n\<close> for a constant in-range \<open>n\<close>.\<close>

definition ull_bit :: "nat \<Rightarrow> u64" where
  "ull_bit n = push_bit n 1"

text \<open>The integer conversions of C: \<open>int\<close> to \<open>size_t\<close> sign-extends.\<close>

definition size_of_int :: "i32 \<Rightarrow> u64" where
  "size_of_int x = scast x"

definition c_bool :: "bool \<Rightarrow> u64" where
  "c_bool b = (if b then 1 else 0)"

section \<open>Bits\<close>

lemma bit_c_bool [bit_field_simps]: "bit (c_bool b) n \<longleftrightarrow> b \<and> n = 0"
  by (simp add: c_bool_def bit_1_iff)

lemma low_mask_eq: "push_bit n 1 - 1 = (mask n :: u64)"
  by (simp add: mask_eq_exp_minus_1 push_bit_eq_mult)

lemma bit_low_mask [bit_field_simps]:
  "bit (push_bit n 1 - 1 :: u64) k \<longleftrightarrow> k < 64 \<and> k < n"
  unfolding low_mask_eq by (simp add: bit_mask_iff)

lemma and_bit_neq_0: "(x AND push_bit n 1 :: u64) \<noteq> 0 \<longleftrightarrow> bit x n"
  by (metis and_exp_eq_0_iff_not_bit push_bit_of_1)

lemma bit_ull_bit [bit_field_simps]: "bit (ull_bit n) k \<longleftrightarrow> k = n \<and> n < 64"
  by (auto simp: ull_bit_def bit_simps)

lemma and_ull_bit: "x AND ull_bit n = 0 \<longleftrightarrow> \<not> bit x n"
  using and_bit_neq_0 [of x n] by (auto simp: ull_bit_def)

lemma c_shl_ull_1: "c_shl_ull 1 n = (if 0 \<le> n \<and> n < 64 then Some (ull_bit (nat n)) else None)"
  by (simp add: c_shl_ull_def ull_bit_def)

lemma unat_exp: "w < 64 \<Longrightarrow> unat (2 ^ w :: u64) = 2 ^ w"
proof -
  assume w: "w < 64"
  then have "(2 :: nat) ^ w < 2 ^ 64" by (intro power_strict_increasing) simp_all
  moreover have "unat (of_nat (2 ^ w) :: u64) = 2 ^ w mod 2 ^ 64"
    by (subst unat_of_nat) simp
  ultimately show ?thesis by (simp add: mod_less)
qed

lemma u64_eqI: "(\<And>n. n < 64 \<Longrightarrow> bit x n = bit (y :: u64) n) \<Longrightarrow> x = y"
  by (rule bit_word_eqI) simp

section \<open>Byte-addressed physical memory\<close>

definition load_bytes :: "mem \<Rightarrow> u64 \<Rightarrow> nat \<Rightarrow> u8 list" where
  "load_bytes m a n = map (\<lambda>i. m (a + of_nat i)) [0..<n]"

primrec store_bytes :: "mem \<Rightarrow> u64 \<Rightarrow> u8 list \<Rightarrow> mem" where
  "store_bytes m a [] = m"
| "store_bytes m a (b # bs) = store_bytes (m(a := b)) (a + 1) bs"

primrec le64 :: "u8 list \<Rightarrow> u64" where
  "le64 [] = 0"
| "le64 (b # bs) = ucast b OR push_bit 8 (le64 bs)"

definition bytes64 :: "u64 \<Rightarrow> u8 list" where
  "bytes64 v = map (\<lambda>i. ucast (drop_bit (8 * i) v)) [0..<8]"

definition load64 :: "mem \<Rightarrow> u64 \<Rightarrow> u64" where
  "load64 m a = le64 (load_bytes m a 8)"

definition store64 :: "mem \<Rightarrow> u64 \<Rightarrow> u64 \<Rightarrow> mem" where
  "store64 m a v = store_bytes m a (bytes64 v)"

lemma length_load_bytes [simp]: "length (load_bytes m a n) = n"
  by (simp add: load_bytes_def)

lemma length_bytes64 [simp]: "length (bytes64 v) = 8"
  by (simp add: bytes64_def)

lemma upt_8: "[0..<8] = [0, 1, 2, 3, 4, 5, 6, 7 :: nat]"
  by (simp add: upt_rec)


lemma bit_le64:
  "bit (le64 bs) n \<longleftrightarrow> n < 64 \<and> n div 8 < length bs \<and> bit (bs ! (n div 8)) (n mod 8)"
proof (induction bs arbitrary: n)
  case Nil
  then show ?case by simp
next
  case (Cons b bs)
  show ?case
  proof (cases "n < 8")
    case True
    then show ?thesis by (auto simp: bit_simps)
  next
    case False
    then have n: "n div 8 = Suc ((n - 8) div 8)" "n mod 8 = (n - 8) mod 8"
      by (simp_all add: le_div_geq le_mod_geq)
    from False show ?thesis
      by (auto simp: bit_simps Cons.IH n dest: bit_imp_le_length)
  qed
qed

lemma le64_bytes64 [simp]: "le64 (bytes64 v) = v"
proof (rule u64_eqI)
  fix n :: nat
  assume "n < 64"
  then have "n div 8 < 8" by simp
  with \<open>n < 64\<close> show "bit (le64 (bytes64 v)) n = bit v n"
    by (simp add: bit_le64 bytes64_def bit_simps)
qed

lemma bytes64_le64: "length bs = 8 \<Longrightarrow> bytes64 (le64 bs) = bs"
proof (rule nth_equalityI)
  fix i
  assume "length bs = 8" and "i < length (bytes64 (le64 bs))"
  then have i: "i < 8" by simp
  show "bytes64 (le64 bs) ! i = bs ! i"
  proof (rule bit_word_eqI)
    fix n :: nat
    assume "n < LENGTH(8)"
    then have n: "n < 8" by simp
    then have "8 * i + n < 64" "(8 * i + n) div 8 = i" "(8 * i + n) mod 8 = n"
      using i by simp_all
    then show "bit (bytes64 (le64 bs) ! i) n = bit (bs ! i) n"
      using i n \<open>length bs = 8\<close> by (simp add: bytes64_def bit_simps bit_le64)
  qed
qed simp

lemma unat_pred: "(w :: u64) \<noteq> 0 \<Longrightarrow> unat w = Suc (unat (w - 1))"
  by unat_arith

lemma store_bytes_apply:
  "length bs \<le> 2 ^ 64 \<Longrightarrow>
   store_bytes m a bs x = (if unat (x - a) < length bs then bs ! unat (x - a) else m x)"
proof (induction bs arbitrary: m a)
  case Nil
  then show ?case by simp
next
  case (Cons b bs)
  show ?case
  proof (cases "x = a")
    case True
    have "unat (- 1 :: u64) = 2 ^ 64 - 1"
      by (simp add: unsigned_minus_1_eq_mask mask_eq_exp_minus_1)
    then have "unat (a - (a + 1)) = 2 ^ 64 - 1"
      by simp
    with Cons.prems have "\<not> unat (a - (a + 1)) < length bs" by simp
    with True Cons show ?thesis by simp
  next
    case False
    then have "x - a \<noteq> 0" by simp
    moreover have "x - (a + 1) = (x - a) - 1" by simp
    ultimately have "unat (x - a) = Suc (unat (x - (a + 1)))"
      by (metis unat_pred)
    with False Cons show ?thesis by simp
  qed
qed

lemma load_bytes_store_bytes:
  "length bs \<le> 2 ^ 64 \<Longrightarrow> load_bytes (store_bytes m a bs) a (length bs) = bs"
  by (rule nth_equalityI) (simp_all add: load_bytes_def store_bytes_apply unat_of_nat)

lemma load64_store64_same [mem_simps]: "load64 (store64 m a v) a = v"
  using load_bytes_store_bytes [of "bytes64 v" m a] by (simp add: load64_def store64_def)

text \<open>
  Two 64-bit accesses do not overlap when their addresses are at least eight bytes apart on the
  address circle; distinct aligned addresses always are.
\<close>

definition apart :: "u64 \<Rightarrow> u64 \<Rightarrow> bool" where
  "apart a b \<longleftrightarrow> 8 \<le> unat (b - a) \<and> 8 \<le> unat (a - b)"

definition aligned8 :: "u64 \<Rightarrow> bool" where
  "aligned8 a \<longleftrightarrow> unat a mod 8 = 0"

lemma apart_sym: "apart a b \<longleftrightarrow> apart b a"
  by (auto simp: apart_def)

lemma apart_neq: "apart a b \<Longrightarrow> a \<noteq> b"
  by (auto simp: apart_def)

lemma unat_neg: "(d :: u64) \<noteq> 0 \<Longrightarrow> unat (- d) = 2 ^ 64 - unat d"
  using unat_sub_if' [of 0 d] by (auto simp: unat_eq_zero)

lemma unat_add_small:
  fixes d :: u64
  assumes "unat d + i < 2 ^ 64"
  shows "unat (d + of_nat i) = unat d + i"
proof -
  have "d + of_nat i = (of_nat (unat d + i) :: u64)"
    by simp
  moreover have "unat (of_nat (unat d + i) :: u64) = (unat d + i) mod 2 ^ 64"
    by (subst unat_of_nat) simp
  ultimately show ?thesis using assms by (simp only: mod_less)
qed

lemma unat_add_apart:
  assumes "apart a b" and "i < 8"
  shows "8 \<le> unat (b + of_nat i - a)"
proof -
  have lo: "8 \<le> unat (b - a)" and hi: "8 \<le> unat (- (b - a))"
    using assms(1) unfolding apart_def by simp_all
  have "b - a \<noteq> 0"
  proof
    assume "b - a = 0"
    with lo show False by (simp only: unat_0)
  qed
  then have "unat (- (b - a)) = 2 ^ 64 - unat (b - a)" by (rule unat_neg)
  with hi assms(2) have "unat (b - a) + i < 2 ^ 64" by linarith
  then have "unat (b - a + of_nat i) = unat (b - a) + i" by (rule unat_add_small)
  with lo have "8 \<le> unat (b - a + of_nat i)" by linarith
  moreover have "b + of_nat i - a = b - a + of_nat i" by (rule add_diff_eq [symmetric, THEN trans]) simp
  ultimately show ?thesis by (simp only:)
qed

lemma load64_store64_apart [mem_simps]:
  assumes "apart a b"
  shows "load64 (store64 m a v) b = load64 m b"
proof -
  have "\<not> unat (b + of_nat i - a) < 8" if "i < 8" for i
    using unat_add_apart [OF assms that] by simp
  then have "load_bytes (store64 m a v) b 8 = load_bytes m b 8"
    by (simp add: load_bytes_def store64_def store_bytes_apply)
  then show ?thesis by (simp add: load64_def)
qed

lemma aligned8_sum: "aligned8 a \<Longrightarrow> aligned8 b \<Longrightarrow> aligned8 (a + b)"
  by (simp add: aligned8_def unat_word_ariths mod_mod_cancel) presburger

lemma aligned8_uminus: "aligned8 a \<Longrightarrow> aligned8 (- a)"
  by (cases "a = 0") (simp_all add: aligned8_def unat_neg mod_eq_0_iff_dvd dvd_diff_nat)

lemma aligned8_ge: "aligned8 d \<Longrightarrow> d \<noteq> 0 \<Longrightarrow> 8 \<le> unat d"
proof -
  assume "aligned8 d" and "d \<noteq> 0"
  then have "unat d \<noteq> 0" and "unat d mod 8 = 0"
    by (simp_all add: aligned8_def unat_eq_zero)
  then show "8 \<le> unat d" by presburger
qed

lemma aligned8_apart:
  assumes "aligned8 a" and "aligned8 b" and "a \<noteq> b"
  shows "apart a b"
proof -
  have "aligned8 (b - a)" "aligned8 (a - b)"
    using assms aligned8_sum aligned8_uminus by (metis diff_conv_add_uminus)+
  with assms(3) show ?thesis by (simp add: apart_def aligned8_ge)
qed

lemma aligned8_mult8: "aligned8 (x * 8)"
  by (simp add: aligned8_def unat_word_ariths mod_mod_cancel)
end
