(* ===== verification/PT_Entry.thy ===== *)
theory PT_Entry
  imports PT_Prelude
begin

text \<open>
  The data model of \<open>module/pteditor.h\<close> and \<open>ptedit.h\<close>: the structure exchanged between the library
  and the kernel part, the valid-mask bits, the page-table bit numbers and memory types of both
  architectures, and the bit-field structures behind \<open>ptedit_cast\<close>.  A bit-field structure is a
  record with one 64-bit member per C member (all are declared \<open>size_t\<close>) and a layout, the list of
  the declared widths; the System V and AAPCS64 ABIs allocate the members from bit 0 upwards.
\<close>

section \<open>The entry structure\<close>

record ptedit_entry_t =
  pid :: u64
  vaddr :: u64
  pgd :: u64
  p4d :: u64
  pud :: u64
  pmd :: u64
  pte :: u64
  valid :: u64

definition zero_entry :: ptedit_entry_t where
  "zero_entry = \<lparr>pid = 0, vaddr = 0, pgd = 0, p4d = 0, pud = 0, pmd = 0, pte = 0, valid = 0\<rparr>"

text \<open>The Intel names of the anonymous unions are the same storage.\<close>

abbreviation pml5 :: "ptedit_entry_t \<Rightarrow> u64" where "pml5 \<equiv> pgd"
abbreviation pml4 :: "ptedit_entry_t \<Rightarrow> u64" where "pml4 \<equiv> p4d"
abbreviation pdpt :: "ptedit_entry_t \<Rightarrow> u64" where "pdpt \<equiv> pud"
abbreviation pd :: "ptedit_entry_t \<Rightarrow> u64" where "pd \<equiv> pmd"

record ptedit_page_t =
  page_pfn :: u64
  page_vaddr :: u64
  page_size :: u64
  page_buffer :: "u8 list"

record ptedit_paging_t =
  paging_pid :: u64
  paging_root :: u64

record ptedit_invalidate_tlb_args_t =
  args_pid :: i32
  args_address :: u64

datatype level = PGD | P4D | PUD | PMD | PTE

fun valid_bit :: "level \<Rightarrow> nat" where
  "valid_bit PGD = 0"
| "valid_bit P4D = 1"
| "valid_bit PUD = 2"
| "valid_bit PMD = 3"
| "valid_bit PTE = 4"

definition valid_mask :: "level \<Rightarrow> u64" where
  "valid_mask l = ull_bit (valid_bit l)"

definition has_valid :: "u64 \<Rightarrow> level \<Rightarrow> bool" where
  "has_valid v l \<longleftrightarrow> v AND valid_mask l \<noteq> 0"

fun entry_of :: "level \<Rightarrow> ptedit_entry_t \<Rightarrow> u64" where
  "entry_of PGD e = pgd e"
| "entry_of P4D e = p4d e"
| "entry_of PUD e = pud e"
| "entry_of PMD e = pmd e"
| "entry_of PTE e = pte e"

lemma has_valid_bit: "has_valid v l \<longleftrightarrow> bit v (valid_bit l)"
  by (simp add: has_valid_def valid_mask_def and_ull_bit)

lemma valid_bit_inject [simp]: "valid_bit k = valid_bit l \<longleftrightarrow> k = l"
  by (cases k; cases l) simp_all

lemma has_valid_simps [simp]:
  "\<not> has_valid 0 l"
  "has_valid (v OR valid_mask k) l \<longleftrightarrow> has_valid v l \<or> k = l"
  "has_valid (valid_mask k) l \<longleftrightarrow> k = l"
proof -
  have len: "valid_bit l < 64" by (cases l) simp_all
  show "\<not> has_valid 0 l" by (simp add: has_valid_def)
  show "has_valid (v OR valid_mask k) l \<longleftrightarrow> has_valid v l \<or> k = l"
    using len by (auto simp: has_valid_bit valid_mask_def bit_field_simps bit_simps)
  show "has_valid (valid_mask k) l \<longleftrightarrow> k = l"
    using len by (auto simp: has_valid_bit valid_mask_def bit_field_simps bit_simps)
qed

section \<open>Bit numbers and memory types\<close>

text \<open>The bits of a page-table entry on x86.\<close>

datatype x86_bit =
    PRESENT | RW | USER | PWT | PCD | ACCESSED | DIRTY | PSE | PAT | GLOBAL
  | SOFTW1 | SOFTW2 | SOFTW3 | PAT_LARGE | SOFTW4
  | PKEY_BIT0 | PKEY_BIT1 | PKEY_BIT2 | PKEY_BIT3 | NX

fun x86_bit_nr :: "x86_bit \<Rightarrow> nat" where
  "x86_bit_nr PRESENT = 0"
| "x86_bit_nr RW = 1"
| "x86_bit_nr USER = 2"
| "x86_bit_nr PWT = 3"
| "x86_bit_nr PCD = 4"
| "x86_bit_nr ACCESSED = 5"
| "x86_bit_nr DIRTY = 6"
| "x86_bit_nr PSE = 7"
| "x86_bit_nr PAT = 7"
| "x86_bit_nr GLOBAL = 8"
| "x86_bit_nr SOFTW1 = 9"
| "x86_bit_nr SOFTW2 = 10"
| "x86_bit_nr SOFTW3 = 11"
| "x86_bit_nr PAT_LARGE = 12"
| "x86_bit_nr SOFTW4 = 58"
| "x86_bit_nr PKEY_BIT0 = 59"
| "x86_bit_nr PKEY_BIT1 = 60"
| "x86_bit_nr PKEY_BIT2 = 61"
| "x86_bit_nr PKEY_BIT3 = 62"
| "x86_bit_nr NX = 63"

text \<open>The bits of a page-table entry on ARMv8.\<close>

datatype arm_bit =
    TYPE_BIT0 | TYPE_BIT1 | MAIR_BIT0 | MAIR_BIT1 | MAIR_BIT2 | NON_SECURE
  | PERMISSION_BIT0 | PERMISSION_BIT1 | SHARE_BIT0 | SHARE_BIT1 | ARM_ACCESSED | NOT_GLOBAL
  | CONTIGUOUS | PXN | XN | ARM_SOFTW nat

fun arm_bit_nr :: "arm_bit \<Rightarrow> nat" where
  "arm_bit_nr TYPE_BIT0 = 0"
| "arm_bit_nr TYPE_BIT1 = 1"
| "arm_bit_nr MAIR_BIT0 = 2"
| "arm_bit_nr MAIR_BIT1 = 3"
| "arm_bit_nr MAIR_BIT2 = 4"
| "arm_bit_nr NON_SECURE = 5"
| "arm_bit_nr PERMISSION_BIT0 = 6"
| "arm_bit_nr PERMISSION_BIT1 = 7"
| "arm_bit_nr SHARE_BIT0 = 8"
| "arm_bit_nr SHARE_BIT1 = 9"
| "arm_bit_nr ARM_ACCESSED = 10"
| "arm_bit_nr NOT_GLOBAL = 11"
| "arm_bit_nr CONTIGUOUS = 52"
| "arm_bit_nr PXN = 53"
| "arm_bit_nr XN = 54"
| "arm_bit_nr (ARM_SOFTW n) = 54 + n"

datatype memory_type = UC | WC | WT | WP | WB | UCMINUS

text \<open>\<open>PTEDIT_MT_*\<close>: the ARM list has no write-combining, write-protected and UC- types.\<close>

fun mt_value :: "arch \<Rightarrow> memory_type \<Rightarrow> u8 option" where
  "mt_value X86_64 UC = Some 0"
| "mt_value X86_64 WC = Some 1"
| "mt_value X86_64 WT = Some 4"
| "mt_value X86_64 WP = Some 5"
| "mt_value X86_64 WB = Some 6"
| "mt_value X86_64 UCMINUS = Some 7"
| "mt_value AArch64 UC = Some 0x44"
| "mt_value AArch64 WT = Some 0xbb"
| "mt_value AArch64 WB = Some 0xff"
| "mt_value AArch64 _ = None"

definition PTEDIT_PAGE_PRESENT :: "arch \<Rightarrow> u64" where
  "PTEDIT_PAGE_PRESENT A = (case A of X86_64 \<Rightarrow> 1 | AArch64 \<Rightarrow> 3)"

section \<open>Bit-field structures\<close>

definition bitfield :: "nat list \<Rightarrow> u64 \<Rightarrow> nat \<Rightarrow> u64" where
  "bitfield L v i = take_bit (L ! i) (drop_bit (sum_list (take i L)) v)"

fun pack :: "nat list \<Rightarrow> u64 list \<Rightarrow> u64" where
  "pack (w # L) (x # xs) = take_bit w x OR push_bit w (pack L xs)"
| "pack _ _ = 0"

definition fits :: "nat list \<Rightarrow> u64 list \<Rightarrow> bool" where
  "fits L xs \<longleftrightarrow> list_all2 (\<lambda>w x. take_bit w x = x) L xs"

text \<open>PGD (and P4D, PUD, PMD) entries on x86.\<close>

record ptedit_pgd_x86 =
  xpgd_present :: u64
  xpgd_writeable :: u64
  xpgd_user_access :: u64
  xpgd_write_through :: u64
  xpgd_cache_disabled :: u64
  xpgd_accessed :: u64
  xpgd_ignored_3 :: u64
  xpgd_size :: u64
  xpgd_ignored_2 :: u64
  xpgd_pfn :: u64
  xpgd_reserved_1 :: u64
  xpgd_ignored_1 :: u64
  xpgd_execution_disabled :: u64

definition pgd_x86_layout :: "nat list" where
  "pgd_x86_layout = [1, 1, 1, 1, 1, 1, 1, 1, 4, 28, 12, 11, 1]"

definition cast_pgd_x86 :: "u64 \<Rightarrow> ptedit_pgd_x86" where
  "cast_pgd_x86 v =
     (let f = bitfield pgd_x86_layout v in
      \<lparr>xpgd_present = f 0, xpgd_writeable = f 1, xpgd_user_access = f 2,
        xpgd_write_through = f 3, xpgd_cache_disabled = f 4, xpgd_accessed = f 5,
        xpgd_ignored_3 = f 6, xpgd_size = f 7, xpgd_ignored_2 = f 8,
        xpgd_pfn = f 9, xpgd_reserved_1 = f 10, xpgd_ignored_1 = f 11,
        xpgd_execution_disabled = f 12\<rparr>)"

definition members_pgd_x86 :: "ptedit_pgd_x86 \<Rightarrow> u64 list" where
  "members_pgd_x86 s =
      [xpgd_present s, xpgd_writeable s, xpgd_user_access s,
        xpgd_write_through s, xpgd_cache_disabled s, xpgd_accessed s,
        xpgd_ignored_3 s, xpgd_size s, xpgd_ignored_2 s,
        xpgd_pfn s, xpgd_reserved_1 s, xpgd_ignored_1 s,
        xpgd_execution_disabled s]"

text \<open>PMD entries that map a 2 MB page on x86.\<close>

record ptedit_pmd_large_x86 =
  xpmdl_present :: u64
  xpmdl_writeable :: u64
  xpmdl_user_access :: u64
  xpmdl_write_through :: u64
  xpmdl_cache_disabled :: u64
  xpmdl_accessed :: u64
  xpmdl_dirty :: u64
  xpmdl_size :: u64
  xpmdl_global :: u64
  xpmdl_ignored_2 :: u64
  xpmdl_pat :: u64
  xpmdl_reserved_2 :: u64
  xpmdl_pfn :: u64
  xpmdl_reserved_1 :: u64
  xpmdl_ignored_1 :: u64
  xpmdl_execution_disabled :: u64

definition pmd_large_x86_layout :: "nat list" where
  "pmd_large_x86_layout = [1, 1, 1, 1, 1, 1, 1, 1, 1, 3, 1, 8, 19, 12, 11, 1]"

definition cast_pmd_large_x86 :: "u64 \<Rightarrow> ptedit_pmd_large_x86" where
  "cast_pmd_large_x86 v =
     (let f = bitfield pmd_large_x86_layout v in
      \<lparr>xpmdl_present = f 0, xpmdl_writeable = f 1, xpmdl_user_access = f 2,
        xpmdl_write_through = f 3, xpmdl_cache_disabled = f 4, xpmdl_accessed = f 5,
        xpmdl_dirty = f 6, xpmdl_size = f 7, xpmdl_global = f 8,
        xpmdl_ignored_2 = f 9, xpmdl_pat = f 10, xpmdl_reserved_2 = f 11,
        xpmdl_pfn = f 12, xpmdl_reserved_1 = f 13, xpmdl_ignored_1 = f 14,
        xpmdl_execution_disabled = f 15\<rparr>)"

definition members_pmd_large_x86 :: "ptedit_pmd_large_x86 \<Rightarrow> u64 list" where
  "members_pmd_large_x86 s =
      [xpmdl_present s, xpmdl_writeable s, xpmdl_user_access s,
        xpmdl_write_through s, xpmdl_cache_disabled s, xpmdl_accessed s,
        xpmdl_dirty s, xpmdl_size s, xpmdl_global s,
        xpmdl_ignored_2 s, xpmdl_pat s, xpmdl_reserved_2 s,
        xpmdl_pfn s, xpmdl_reserved_1 s, xpmdl_ignored_1 s,
        xpmdl_execution_disabled s]"

text \<open>Page-table entries on x86.\<close>

record ptedit_pte_x86 =
  xpte_present :: u64
  xpte_writeable :: u64
  xpte_user_access :: u64
  xpte_write_through :: u64
  xpte_cache_disabled :: u64
  xpte_accessed :: u64
  xpte_dirty :: u64
  xpte_size :: u64
  xpte_global :: u64
  xpte_ignored_2 :: u64
  xpte_pfn :: u64
  xpte_reserved_1 :: u64
  xpte_ignored_1 :: u64
  xpte_execution_disabled :: u64

definition pte_x86_layout :: "nat list" where
  "pte_x86_layout = [1, 1, 1, 1, 1, 1, 1, 1, 1, 3, 28, 12, 11, 1]"

definition cast_pte_x86 :: "u64 \<Rightarrow> ptedit_pte_x86" where
  "cast_pte_x86 v =
     (let f = bitfield pte_x86_layout v in
      \<lparr>xpte_present = f 0, xpte_writeable = f 1, xpte_user_access = f 2,
        xpte_write_through = f 3, xpte_cache_disabled = f 4, xpte_accessed = f 5,
        xpte_dirty = f 6, xpte_size = f 7, xpte_global = f 8,
        xpte_ignored_2 = f 9, xpte_pfn = f 10, xpte_reserved_1 = f 11,
        xpte_ignored_1 = f 12, xpte_execution_disabled = f 13\<rparr>)"

definition members_pte_x86 :: "ptedit_pte_x86 \<Rightarrow> u64 list" where
  "members_pte_x86 s =
      [xpte_present s, xpte_writeable s, xpte_user_access s,
        xpte_write_through s, xpte_cache_disabled s, xpte_accessed s,
        xpte_dirty s, xpte_size s, xpte_global s,
        xpte_ignored_2 s, xpte_pfn s, xpte_reserved_1 s,
        xpte_ignored_1 s, xpte_execution_disabled s]"

text \<open>Table entries on ARMv8.\<close>

record ptedit_pgd_arm =
  apgd_present :: u64
  apgd_ignored_1 :: u64
  apgd_pfn :: u64
  apgd_reserved :: u64
  apgd_ignored_2 :: u64
  apgd_pxn_table :: u64
  apgd_xn_table :: u64
  apgd_ap_table :: u64
  apgd_ns_table :: u64

definition pgd_arm_layout :: "nat list" where
  "pgd_arm_layout = [2, 10, 36, 4, 7, 1, 1, 2, 1]"

definition cast_pgd_arm :: "u64 \<Rightarrow> ptedit_pgd_arm" where
  "cast_pgd_arm v =
     (let f = bitfield pgd_arm_layout v in
      \<lparr>apgd_present = f 0, apgd_ignored_1 = f 1, apgd_pfn = f 2,
        apgd_reserved = f 3, apgd_ignored_2 = f 4, apgd_pxn_table = f 5,
        apgd_xn_table = f 6, apgd_ap_table = f 7, apgd_ns_table = f 8\<rparr>)"

definition members_pgd_arm :: "ptedit_pgd_arm \<Rightarrow> u64 list" where
  "members_pgd_arm s =
      [apgd_present s, apgd_ignored_1 s, apgd_pfn s,
        apgd_reserved s, apgd_ignored_2 s, apgd_pxn_table s,
        apgd_xn_table s, apgd_ap_table s, apgd_ns_table s]"

text \<open>PGD entries that map a large page on ARMv8.\<close>

record ptedit_pgd_large_arm =
  apgdl_present :: u64
  apgdl_memory_attributes_index :: u64
  apgdl_non_secure :: u64
  apgdl_access_permissions :: u64
  apgdl_shareability_field :: u64
  apgdl_access_flag :: u64
  apgdl_not_global :: u64
  apgdl_reserved_1 :: u64
  apgdl_pfn :: u64
  apgdl_reserved_2 :: u64
  apgdl_contiguous :: u64
  apgdl_privileged_execute_never :: u64
  apgdl_execute_never :: u64
  apgdl_ingored_1 :: u64
  apgdl_ignored_2 :: u64

definition pgd_large_arm_layout :: "nat list" where
  "pgd_large_arm_layout = [2, 3, 1, 2, 2, 1, 1, 18, 18, 4, 1, 1, 1, 4, 5]"

definition cast_pgd_large_arm :: "u64 \<Rightarrow> ptedit_pgd_large_arm" where
  "cast_pgd_large_arm v =
     (let f = bitfield pgd_large_arm_layout v in
      \<lparr>apgdl_present = f 0, apgdl_memory_attributes_index = f 1, apgdl_non_secure = f 2,
        apgdl_access_permissions = f 3, apgdl_shareability_field = f 4, apgdl_access_flag = f 5,
        apgdl_not_global = f 6, apgdl_reserved_1 = f 7, apgdl_pfn = f 8,
        apgdl_reserved_2 = f 9, apgdl_contiguous = f 10, apgdl_privileged_execute_never = f 11,
        apgdl_execute_never = f 12, apgdl_ingored_1 = f 13, apgdl_ignored_2 = f 14\<rparr>)"

definition members_pgd_large_arm :: "ptedit_pgd_large_arm \<Rightarrow> u64 list" where
  "members_pgd_large_arm s =
      [apgdl_present s, apgdl_memory_attributes_index s, apgdl_non_secure s,
        apgdl_access_permissions s, apgdl_shareability_field s, apgdl_access_flag s,
        apgdl_not_global s, apgdl_reserved_1 s, apgdl_pfn s,
        apgdl_reserved_2 s, apgdl_contiguous s, apgdl_privileged_execute_never s,
        apgdl_execute_never s, apgdl_ingored_1 s, apgdl_ignored_2 s]"

text \<open>PMD entries that map a large page on ARMv8.\<close>

record ptedit_pmd_large_arm =
  apmdl_present :: u64
  apmdl_memory_attributes_index :: u64
  apmdl_non_secure :: u64
  apmdl_access_permissions :: u64
  apmdl_shareability_field :: u64
  apmdl_access_flag :: u64
  apmdl_not_global :: u64
  apmdl_reserved_1 :: u64
  apmdl_pfn :: u64
  apmdl_reserved_2 :: u64
  apmdl_contiguous :: u64
  apmdl_privileged_execute_never :: u64
  apmdl_execute_never :: u64
  apmdl_ingored_1 :: u64
  apmdl_ignored_2 :: u64

definition pmd_large_arm_layout :: "nat list" where
  "pmd_large_arm_layout = [2, 3, 1, 2, 2, 1, 1, 9, 27, 4, 1, 1, 1, 4, 5]"

definition cast_pmd_large_arm :: "u64 \<Rightarrow> ptedit_pmd_large_arm" where
  "cast_pmd_large_arm v =
     (let f = bitfield pmd_large_arm_layout v in
      \<lparr>apmdl_present = f 0, apmdl_memory_attributes_index = f 1, apmdl_non_secure = f 2,
        apmdl_access_permissions = f 3, apmdl_shareability_field = f 4, apmdl_access_flag = f 5,
        apmdl_not_global = f 6, apmdl_reserved_1 = f 7, apmdl_pfn = f 8,
        apmdl_reserved_2 = f 9, apmdl_contiguous = f 10, apmdl_privileged_execute_never = f 11,
        apmdl_execute_never = f 12, apmdl_ingored_1 = f 13, apmdl_ignored_2 = f 14\<rparr>)"

definition members_pmd_large_arm :: "ptedit_pmd_large_arm \<Rightarrow> u64 list" where
  "members_pmd_large_arm s =
      [apmdl_present s, apmdl_memory_attributes_index s, apmdl_non_secure s,
        apmdl_access_permissions s, apmdl_shareability_field s, apmdl_access_flag s,
        apmdl_not_global s, apmdl_reserved_1 s, apmdl_pfn s,
        apmdl_reserved_2 s, apmdl_contiguous s, apmdl_privileged_execute_never s,
        apmdl_execute_never s, apmdl_ingored_1 s, apmdl_ignored_2 s]"

text \<open>Page-table entries on ARMv8.\<close>

record ptedit_pte_arm =
  apte_present :: u64
  apte_memory_attributes_index :: u64
  apte_non_secure :: u64
  apte_access_permissions :: u64
  apte_shareability_field :: u64
  apte_access_flag :: u64
  apte_not_global :: u64
  apte_pfn :: u64
  apte_reserved_1 :: u64
  apte_contiguous :: u64
  apte_privileged_execute_never :: u64
  apte_execute_never :: u64
  apte_ingored_1 :: u64
  apte_ignored_2 :: u64

definition pte_arm_layout :: "nat list" where
  "pte_arm_layout = [2, 3, 1, 2, 2, 1, 1, 36, 4, 1, 1, 1, 4, 5]"

definition cast_pte_arm :: "u64 \<Rightarrow> ptedit_pte_arm" where
  "cast_pte_arm v =
     (let f = bitfield pte_arm_layout v in
      \<lparr>apte_present = f 0, apte_memory_attributes_index = f 1, apte_non_secure = f 2,
        apte_access_permissions = f 3, apte_shareability_field = f 4, apte_access_flag = f 5,
        apte_not_global = f 6, apte_pfn = f 7, apte_reserved_1 = f 8,
        apte_contiguous = f 9, apte_privileged_execute_never = f 10, apte_execute_never = f 11,
        apte_ingored_1 = f 12, apte_ignored_2 = f 13\<rparr>)"

definition members_pte_arm :: "ptedit_pte_arm \<Rightarrow> u64 list" where
  "members_pte_arm s =
      [apte_present s, apte_memory_attributes_index s, apte_non_secure s,
        apte_access_permissions s, apte_shareability_field s, apte_access_flag s,
        apte_not_global s, apte_pfn s, apte_reserved_1 s,
        apte_contiguous s, apte_privileged_execute_never s, apte_execute_never s,
        apte_ingored_1 s, apte_ignored_2 s]"

text \<open>
  The members the library reads through \<open>ptedit_cast\<close>.  On both architectures \<open>ptedit_p4d_t\<close>,
  \<open>ptedit_pud_t\<close> and \<open>ptedit_pmd_t\<close> are \<open>ptedit_pgd_t\<close>; the \<open>size\<close> member exists on x86 only.
\<close>

definition cast_present :: "arch \<Rightarrow> u64 \<Rightarrow> u64" where
  "cast_present A e =
     (case A of X86_64 \<Rightarrow> xpgd_present (cast_pgd_x86 e) | AArch64 \<Rightarrow> apgd_present (cast_pgd_arm e))"

definition cast_pfn :: "arch \<Rightarrow> u64 \<Rightarrow> u64" where
  "cast_pfn A e =
     (case A of X86_64 \<Rightarrow> xpgd_pfn (cast_pgd_x86 e) | AArch64 \<Rightarrow> apgd_pfn (cast_pgd_arm e))"

definition cast_size :: "u64 \<Rightarrow> u64" where
  "cast_size e = xpgd_size (cast_pgd_x86 e)"

definition cast_pte_present :: "arch \<Rightarrow> u64 \<Rightarrow> u64" where
  "cast_pte_present A e =
     (case A of X86_64 \<Rightarrow> xpte_present (cast_pte_x86 e) | AArch64 \<Rightarrow> apte_present (cast_pte_arm e))"

definition cast_pte_pfn :: "arch \<Rightarrow> u64 \<Rightarrow> u64" where
  "cast_pte_pfn A e =
     (case A of X86_64 \<Rightarrow> xpte_pfn (cast_pte_x86 e) | AArch64 \<Rightarrow> apte_pfn (cast_pte_arm e))"

subsection \<open>Members and memory images\<close>

lemma bitfield_0: "bitfield (w # L) v 0 = take_bit w v"
  by (simp add: bitfield_def)

lemma bitfield_Suc: "bitfield (w # L) v (Suc i) = bitfield L (drop_bit w v) i"
  by (simp add: bitfield_def add.commute)

lemma pack_bitfields:
  "pack L (map (bitfield L v) [0..<length L]) = take_bit (sum_list L) v"
proof (induction L arbitrary: v)
  case Nil
  then show ?case by simp
next
  case (Cons w L)
  have "map (bitfield (w # L) v) [0..<length (w # L)] =
        take_bit w v # map (bitfield L (drop_bit w v)) [0..<length L]"
    by (simp add: map_upt_Suc bitfield_0 bitfield_Suc del: upt_Suc)
  then have "pack (w # L) (map (bitfield (w # L) v) [0..<length (w # L)]) =
        take_bit w v OR push_bit w (take_bit (sum_list L) (drop_bit w v))"
    by (simp add: Cons.IH del: upt_Suc)
  also have "\<dots> = take_bit (w + sum_list L) v"
    by (rule u64_eqI) (auto simp: bit_simps)
  finally show ?case by simp
qed

lemma sum_list_take_nth: "i < length L \<Longrightarrow> sum_list (take i L) + L ! i \<le> sum_list (L :: nat list)"
proof -
  assume "i < length L"
  then have "sum_list (take i L) + L ! i = sum_list (take (Suc i) L)"
    by (simp add: take_Suc_conv_app_nth)
  also have "\<dots> \<le> sum_list (take (Suc i) L) + sum_list (drop (Suc i) L)" by simp
  also have "\<dots> = sum_list L" by (metis append_take_drop_id sum_list_append)
  finally show ?thesis .
qed

lemma bitfield_cong:
  assumes "i < length L" and "\<And>n. n < sum_list L \<Longrightarrow> n < 64 \<Longrightarrow> bit u n = bit v n"
  shows "bitfield L u i = bitfield L v i"
proof (rule u64_eqI)
  fix n :: nat
  assume "n < 64"
  show "bit (bitfield L u i) n = bit (bitfield L v i) n"
  proof (cases "n < L ! i \<and> sum_list (take i L) + n < 64")
    case True
    with sum_list_take_nth [OF assms(1)] have "bit u (sum_list (take i L) + n) = bit v (sum_list (take i L) + n)"
      by (intro assms(2)) auto
    with True show ?thesis by (simp add: bitfield_def bit_simps)
  next
    case False
    then show ?thesis by (auto simp: bitfield_def bit_simps dest: bit_imp_le_length)
  qed
qed

lemma bitfield_pack:
  "length xs = length L \<Longrightarrow> i < length L \<Longrightarrow> sum_list L \<le> 64 \<Longrightarrow>
   bitfield L (pack L xs) i = take_bit (L ! i) (xs ! i)"
proof (induction L arbitrary: xs i)
  case Nil
  then show ?case by simp
next
  case (Cons w L)
  then obtain x ys where xs: "xs = x # ys" "length ys = length L"
    by (cases xs) auto
  show ?case
  proof (cases i)
    case 0
    have "take_bit w (take_bit w x OR push_bit w (pack L ys)) = take_bit w x"
      by (rule u64_eqI) (auto simp: bit_simps)
    then show ?thesis by (simp add: 0 xs bitfield_0)
  next
    case (Suc j)
    have "bitfield L (drop_bit w (take_bit w x OR push_bit w (pack L ys))) j =
          bitfield L (pack L ys) j"
      using Cons.prems Suc by (intro bitfield_cong) (auto simp: bit_simps)
    with Suc Cons xs show ?thesis by (simp add: bitfield_Suc)
  qed
qed


lemma bitfields_pack:
  assumes "fits L xs" and "sum_list L = 64"
  shows "map (bitfield L (pack L xs)) [0..<length L] = xs"
proof (rule nth_equalityI)
  from assms(1) have len: "length xs = length L"
    by (auto simp: fits_def dest: list_all2_lengthD)
  then show "length (map (bitfield L (pack L xs)) [0..<length L]) = length xs" by simp
  fix i
  assume "i < length (map (bitfield L (pack L xs)) [0..<length L])"
  then have i: "i < length L" by simp
  with assms(1) have "take_bit (L ! i) (xs ! i) = xs ! i"
    by (auto simp: fits_def list_all2_conv_all_nth)
  with i len assms(2) show "map (bitfield L (pack L xs)) [0..<length L] ! i = xs ! i"
    by (simp add: bitfield_pack)
qed

lemma pack_bitfields_64: "sum_list L = 64 \<Longrightarrow> pack L (map (bitfield L v) [0..<length L]) = v"
  by (simp add: pack_bitfields take_bit_word_eq_self)

lemma upt_layout:
  "[0..<9] = [0, 1, 2, 3, 4, 5, 6, 7, 8 :: nat]"
  "[0..<13] = [0, 1, 2, 3, 4, 5, 6, 7, 8, 9, 10, 11, 12 :: nat]"
  "[0..<14] = [0, 1, 2, 3, 4, 5, 6, 7, 8, 9, 10, 11, 12, 13 :: nat]"
  "[0..<15] = [0, 1, 2, 3, 4, 5, 6, 7, 8, 9, 10, 11, 12, 13, 14 :: nat]"
  "[0..<16] = [0, 1, 2, 3, 4, 5, 6, 7, 8, 9, 10, 11, 12, 13, 14, 15 :: nat]"
  by (simp_all add: upt_rec)

lemma layout_lengths:
  "length pgd_x86_layout = 13"
  "length pmd_large_x86_layout = 16"
  "length pte_x86_layout = 14"
  "length pgd_arm_layout = 9"
  "length pgd_large_arm_layout = 15"
  "length pmd_large_arm_layout = 15"
  "length pte_arm_layout = 14"
  by (simp_all add: pgd_x86_layout_def pmd_large_x86_layout_def pte_x86_layout_def pgd_arm_layout_def pgd_large_arm_layout_def pmd_large_arm_layout_def pte_arm_layout_def)

text \<open>
  What makes a C bit-field structure of 64 bits: reading a word through the structure yields the slices
  of the layout, and a structure is determined by its members.
\<close>

locale bitfield_struct =
  fixes layout :: "nat list" and cast :: "u64 \<Rightarrow> 's" and members :: "'s \<Rightarrow> u64 list"
  assumes layout_64: "sum_list layout = 64"
    and members_cast: "members (cast v) = map (bitfield layout v) [0..<length layout]"
    and members_inject: "members s = members t \<Longrightarrow> s = t"
begin

lemma pack_cast: "pack layout (members (cast v)) = v"
  by (simp add: members_cast pack_bitfields_64 layout_64)

lemma cast_pack: "fits layout (members s) \<Longrightarrow> cast (pack layout (members s)) = s"
  by (rule members_inject) (simp add: members_cast bitfields_pack layout_64)

lemma cast_inject: "cast v = cast w \<longleftrightarrow> v = w"
  using pack_cast by metis

end

interpretation pgd_x86: bitfield_struct pgd_x86_layout cast_pgd_x86 members_pgd_x86
proof
  show "members_pgd_x86 (cast_pgd_x86 v) = map (bitfield pgd_x86_layout v) [0..<length pgd_x86_layout]" for v
    by (simp add: members_pgd_x86_def cast_pgd_x86_def layout_lengths upt_layout Let_def)
qed (simp_all add: pgd_x86_layout_def members_pgd_x86_def)

interpretation pmd_large_x86: bitfield_struct pmd_large_x86_layout cast_pmd_large_x86 members_pmd_large_x86
proof
  show "members_pmd_large_x86 (cast_pmd_large_x86 v) = map (bitfield pmd_large_x86_layout v) [0..<length pmd_large_x86_layout]" for v
    by (simp add: members_pmd_large_x86_def cast_pmd_large_x86_def layout_lengths upt_layout Let_def)
qed (simp_all add: pmd_large_x86_layout_def members_pmd_large_x86_def)

interpretation pte_x86: bitfield_struct pte_x86_layout cast_pte_x86 members_pte_x86
proof
  show "members_pte_x86 (cast_pte_x86 v) = map (bitfield pte_x86_layout v) [0..<length pte_x86_layout]" for v
    by (simp add: members_pte_x86_def cast_pte_x86_def layout_lengths upt_layout Let_def)
qed (simp_all add: pte_x86_layout_def members_pte_x86_def)

interpretation pgd_arm: bitfield_struct pgd_arm_layout cast_pgd_arm members_pgd_arm
proof
  show "members_pgd_arm (cast_pgd_arm v) = map (bitfield pgd_arm_layout v) [0..<length pgd_arm_layout]" for v
    by (simp add: members_pgd_arm_def cast_pgd_arm_def layout_lengths upt_layout Let_def)
qed (simp_all add: pgd_arm_layout_def members_pgd_arm_def)

interpretation pgd_large_arm: bitfield_struct pgd_large_arm_layout cast_pgd_large_arm members_pgd_large_arm
proof
  show "members_pgd_large_arm (cast_pgd_large_arm v) = map (bitfield pgd_large_arm_layout v) [0..<length pgd_large_arm_layout]" for v
    by (simp add: members_pgd_large_arm_def cast_pgd_large_arm_def layout_lengths upt_layout Let_def)
qed (simp_all add: pgd_large_arm_layout_def members_pgd_large_arm_def)

interpretation pmd_large_arm: bitfield_struct pmd_large_arm_layout cast_pmd_large_arm members_pmd_large_arm
proof
  show "members_pmd_large_arm (cast_pmd_large_arm v) = map (bitfield pmd_large_arm_layout v) [0..<length pmd_large_arm_layout]" for v
    by (simp add: members_pmd_large_arm_def cast_pmd_large_arm_def layout_lengths upt_layout Let_def)
qed (simp_all add: pmd_large_arm_layout_def members_pmd_large_arm_def)

interpretation pte_arm: bitfield_struct pte_arm_layout cast_pte_arm members_pte_arm
proof
  show "members_pte_arm (cast_pte_arm v) = map (bitfield pte_arm_layout v) [0..<length pte_arm_layout]" for v
    by (simp add: members_pte_arm_def cast_pte_arm_def layout_lengths upt_layout Let_def)
qed (simp_all add: pte_arm_layout_def members_pte_arm_def)

subsection \<open>The members as bit slices\<close>

lemma cast_present_bits:
  "cast_present A e = take_bit (case A of X86_64 \<Rightarrow> 1 | AArch64 \<Rightarrow> 2) e"
  by (simp add: cast_present_def cast_pgd_x86_def cast_pgd_arm_def Let_def bitfield_def
      pgd_x86_layout_def pgd_arm_layout_def split: arch.split)

lemma cast_pte_present_bits: "cast_pte_present A e = cast_present A e"
  by (simp add: cast_pte_present_def cast_present_def cast_pgd_x86_def cast_pgd_arm_def
      cast_pte_x86_def cast_pte_arm_def Let_def bitfield_def pgd_x86_layout_def
      pgd_arm_layout_def pte_x86_layout_def pte_arm_layout_def split: arch.split)

lemma cast_pfn_bits:
  "cast_pfn A e = take_bit (case A of X86_64 \<Rightarrow> 28 | AArch64 \<Rightarrow> 36) (drop_bit 12 e)"
  by (simp add: cast_pfn_def cast_pgd_x86_def cast_pgd_arm_def Let_def bitfield_def
      pgd_x86_layout_def pgd_arm_layout_def split: arch.split)

lemma cast_pte_pfn_bits: "cast_pte_pfn A e = cast_pfn A e"
  by (simp add: cast_pte_pfn_def cast_pfn_def cast_pgd_x86_def cast_pgd_arm_def
      cast_pte_x86_def cast_pte_arm_def Let_def bitfield_def pgd_x86_layout_def
      pgd_arm_layout_def pte_x86_layout_def pte_arm_layout_def split: arch.split)

lemma cast_size_bits: "cast_size e = of_bool (bit e 7)"
  by (simp add: cast_size_def cast_pgd_x86_def Let_def bitfield_def pgd_x86_layout_def
      eval_nat_numeral take_bit_Suc bit_iff_odd_drop_bit mod_2_eq_odd)

lemma cast_size_eq_0: "cast_size e = 0 \<longleftrightarrow> \<not> bit e 7"
  by (simp add: cast_size_bits)

lemma cast_pfn_bit [bit_field_simps]:
  "bit (cast_pfn A e) n \<longleftrightarrow> n < (case A of X86_64 \<Rightarrow> 28 | AArch64 \<Rightarrow> 36) \<and> bit e (12 + n)"
  by (auto simp: cast_pfn_bits bit_simps)

section \<open>Properties of the bit-field structures\<close>

text \<open>
  On x86 an entry read through one of the bit-field structures and written back is the same 64-bit
  word, and conversely a structure whose members fit their declared widths is recovered from the word
  it is stored as; so \<open>ptedit_cast\<close> loses nothing and distinct words give distinct structures.
\<close>

theorem cast_roundtrip_x86:
  assumes "fits pgd_x86_layout (members_pgd_x86 g)" and "fits pmd_large_x86_layout (members_pmd_large_x86 h)"
    and "fits pte_x86_layout (members_pte_x86 t)"
  shows "pack pgd_x86_layout (members_pgd_x86 (cast_pgd_x86 v)) = v
    \<and> pack pmd_large_x86_layout (members_pmd_large_x86 (cast_pmd_large_x86 v)) = v
    \<and> pack pte_x86_layout (members_pte_x86 (cast_pte_x86 v)) = v
    \<and> cast_pgd_x86 (pack pgd_x86_layout (members_pgd_x86 g)) = g
    \<and> cast_pmd_large_x86 (pack pmd_large_x86_layout (members_pmd_large_x86 h)) = h
    \<and> cast_pte_x86 (pack pte_x86_layout (members_pte_x86 t)) = t"
  using assms
  by (simp add: pgd_x86.pack_cast pmd_large_x86.pack_cast pte_x86.pack_cast
      pgd_x86.cast_pack pmd_large_x86.cast_pack pte_x86.cast_pack)

lemma fits_cast_0:
  "fits pgd_x86_layout (members_pgd_x86 (cast_pgd_x86 0))"
  "fits pmd_large_x86_layout (members_pmd_large_x86 (cast_pmd_large_x86 0))"
  "fits pgd_arm_layout (members_pgd_arm (cast_pgd_arm 0))"
  "fits pgd_large_arm_layout (members_pgd_large_arm (cast_pgd_large_arm 0))"
  "fits pmd_large_arm_layout (members_pmd_large_arm (cast_pmd_large_arm 0))"
  by (simp_all add: pgd_x86.members_cast pmd_large_x86.members_cast pgd_arm.members_cast
      pgd_large_arm.members_cast pmd_large_arm.members_cast fits_def list_all2_conv_all_nth bitfield_def)

theorem cast_roundtrip_x86_witness:
  "cast_pte_x86 (pack pte_x86_layout [1, 1, 1, 0, 0, 1, 1, 0, 0, 0, 5, 0, 0, 1]) =
    \<lparr>xpte_present = 1, xpte_writeable = 1, xpte_user_access = 1, xpte_write_through = 0,
     xpte_cache_disabled = 0, xpte_accessed = 1, xpte_dirty = 1, xpte_size = 0, xpte_global = 0,
     xpte_ignored_2 = 0, xpte_pfn = 5, xpte_reserved_1 = 0, xpte_ignored_1 = 0,
     xpte_execution_disabled = 1\<rparr>"
proof -
  let ?t = "\<lparr>xpte_present = 1, xpte_writeable = 1, xpte_user_access = 1, xpte_write_through = 0,
     xpte_cache_disabled = 0, xpte_accessed = 1, xpte_dirty = 1, xpte_size = 0, xpte_global = 0,
     xpte_ignored_2 = 0, xpte_pfn = 5, xpte_reserved_1 = 0, xpte_ignored_1 = 0,
     xpte_execution_disabled = 1\<rparr>"
  have "fits pte_x86_layout (members_pte_x86 ?t)"
    by (simp add: fits_def pte_x86_layout_def members_pte_x86_def)
  from cast_roundtrip_x86 [OF fits_cast_0(1,2) this] show ?thesis
    by (simp add: members_pte_x86_def)
qed

text \<open>
  The same for the four structures of ARMv8: table entries, large pages at the PGD and the PMD
  level, and page-table entries.
\<close>

theorem cast_roundtrip_arm:
  assumes "fits pgd_arm_layout (members_pgd_arm g)" and "fits pgd_large_arm_layout (members_pgd_large_arm gl)"
    and "fits pmd_large_arm_layout (members_pmd_large_arm ml)" and "fits pte_arm_layout (members_pte_arm t)"
  shows "pack pgd_arm_layout (members_pgd_arm (cast_pgd_arm v)) = v
    \<and> pack pgd_large_arm_layout (members_pgd_large_arm (cast_pgd_large_arm v)) = v
    \<and> pack pmd_large_arm_layout (members_pmd_large_arm (cast_pmd_large_arm v)) = v
    \<and> pack pte_arm_layout (members_pte_arm (cast_pte_arm v)) = v
    \<and> cast_pgd_arm (pack pgd_arm_layout (members_pgd_arm g)) = g
    \<and> cast_pgd_large_arm (pack pgd_large_arm_layout (members_pgd_large_arm gl)) = gl
    \<and> cast_pmd_large_arm (pack pmd_large_arm_layout (members_pmd_large_arm ml)) = ml
    \<and> cast_pte_arm (pack pte_arm_layout (members_pte_arm t)) = t"
  using assms
  by (simp add: pgd_arm.pack_cast pgd_large_arm.pack_cast pmd_large_arm.pack_cast pte_arm.pack_cast
      pgd_arm.cast_pack pgd_large_arm.cast_pack pmd_large_arm.cast_pack pte_arm.cast_pack)

theorem cast_roundtrip_arm_witness:
  "cast_pte_arm (pack pte_arm_layout [3, 4, 0, 1, 3, 1, 1, 0x12345, 0, 0, 1, 1, 0, 0]) =
    \<lparr>apte_present = 3, apte_memory_attributes_index = 4, apte_non_secure = 0,
     apte_access_permissions = 1, apte_shareability_field = 3, apte_access_flag = 1,
     apte_not_global = 1, apte_pfn = 0x12345, apte_reserved_1 = 0, apte_contiguous = 0,
     apte_privileged_execute_never = 1, apte_execute_never = 1, apte_ingored_1 = 0, apte_ignored_2 = 0\<rparr>"
proof -
  let ?t = "\<lparr>apte_present = 3, apte_memory_attributes_index = 4, apte_non_secure = 0,
     apte_access_permissions = 1, apte_shareability_field = 3, apte_access_flag = 1,
     apte_not_global = 1, apte_pfn = 0x12345, apte_reserved_1 = 0, apte_contiguous = 0,
     apte_privileged_execute_never = 1, apte_execute_never = 1, apte_ingored_1 = 0, apte_ignored_2 = 0\<rparr>"
  have "fits pte_arm_layout (members_pte_arm ?t)"
    by (simp add: fits_def pte_arm_layout_def members_pte_arm_def take_bit_eq_mask mask_numeral)
  from cast_roundtrip_arm [OF fits_cast_0(3-5) this] show ?thesis
    by (simp add: members_pte_arm_def)
qed

end
