(* ===== verification/PT_Linux.thy ===== *)
theory PT_Linux
  imports PT_Entry
begin

text \<open>
  The Linux kernel module, \<open>module/pteditor.c\<close>.  What the module calls of Linux is not part of the
  repository: it is collected in the record \<open>linux\<close>, an argument of every definition (process lookup,
  the page-table accessors of the running kernel, the direct map of physical memory).  Calls without a
  result (locks, TLB flushes, log messages) are recorded in the trace of the module state in the order
  they are made.
\<close>

section \<open>What the module uses of Linux\<close>

record task =
  task_mm :: "nat option"
  task_active_mm :: "nat option"

record linux =
  cfg_arch :: arch
  cfg_4_11 :: bool
  current_mm :: "nat option"
  current_active_mm :: nat
  current_nr :: i32
  find_vpid :: "i32 \<Rightarrow> nat option"
  pid_task :: "nat \<Rightarrow> task option"
  phys_to_virt :: "u64 \<Rightarrow> u64"
  virt_to_phys :: "u64 \<Rightarrow> u64"
  pgd_offset :: "u64 \<Rightarrow> u64 \<Rightarrow> u64"
  p4d_offset :: "mem \<Rightarrow> u64 \<Rightarrow> u64 \<Rightarrow> u64"
  pud_offset :: "mem \<Rightarrow> u64 \<Rightarrow> u64 \<Rightarrow> u64"
  pmd_offset :: "mem \<Rightarrow> u64 \<Rightarrow> u64 \<Rightarrow> u64"
  pte_offset :: "mem \<Rightarrow> u64 \<Rightarrow> u64 \<Rightarrow> u64 option"
  pgd_none :: "u64 \<Rightarrow> bool"
  pgd_bad :: "u64 \<Rightarrow> bool"
  p4d_none :: "u64 \<Rightarrow> bool"
  p4d_bad :: "u64 \<Rightarrow> bool"
  pud_none :: "u64 \<Rightarrow> bool"
  pud_leaf :: "u64 \<Rightarrow> bool"
  pmd_none :: "u64 \<Rightarrow> bool"
  pmd_leaf :: "u64 \<Rightarrow> bool"
  set_pgd :: "mem \<Rightarrow> u64 \<Rightarrow> u64 \<Rightarrow> mem"
  set_p4d :: "mem \<Rightarrow> u64 \<Rightarrow> u64 \<Rightarrow> mem"
  set_pud :: "mem \<Rightarrow> u64 \<Rightarrow> u64 \<Rightarrow> mem"
  set_pmd :: "mem \<Rightarrow> u64 \<Rightarrow> u64 \<Rightarrow> mem"
  set_pte :: "mem \<Rightarrow> u64 \<Rightarrow> u64 \<Rightarrow> mem"
  find_vma :: "nat option \<Rightarrow> u64 \<Rightarrow> u64 option"
  ttbr0_el1 :: u64
  this_cpu :: nat

datatype kevent =
    Read_lock nat | Read_unlock nat | Write_lock nat | Write_unlock nat
  | Flush_tlb_range nat u64 u64 nat bool
  | Flush_tlb_page_all_cpus u64 u64
  | Tlbi_all_cpus
  | Pr_crit_unsupported
  | Pr_warn string

datatype tlb_fn = Tlb_null | Tlb_kernel | Tlb_custom

section \<open>The state of the module\<close>

record kstate =
  phys :: mem
  mm_pgd :: "nat \<Rightarrow> u64"
  pat_msr :: "nat \<Rightarrow> u64"
  trace :: "kevent list"
  device_busy :: bool
  mm_is_locked :: bool
  invalidate_tlb_fn :: tlb_fn
  real_page_size :: nat
  real_page_shift :: nat
  misc_registered :: bool
  devmem_probe :: bool
  has_umem :: bool
  proc_umem :: bool

definition emit :: "kevent \<Rightarrow> 'a kstate_scheme \<Rightarrow> 'a kstate_scheme" where
  "emit e s = s\<lparr>trace := trace s @ [e]\<rparr>"

definition kread :: "linux \<Rightarrow> mem \<Rightarrow> u64 \<Rightarrow> u64" where
  "kread K m p = load64 m (virt_to_phys K p)"

section \<open>Opening and closing the device\<close>

definition EBUSY :: int where "EBUSY = 16"
definition ENXIO :: int where "ENXIO = 6"

definition device_open :: "'a kstate_scheme \<Rightarrow> int \<times> 'a kstate_scheme" where
  "device_open s = (if device_busy s then (- EBUSY, s) else (0, s\<lparr>device_busy := True\<rparr>))"

definition device_release :: "'a kstate_scheme \<Rightarrow> int \<times> 'a kstate_scheme" where
  "device_release s = (0, s\<lparr>device_busy := False\<rparr>)"

section \<open>Processes\<close>

definition get_mm :: "linux \<Rightarrow> u64 \<Rightarrow> nat option" where
  "get_mm K p =
     (if p \<noteq> 0 then
        (case find_vpid K (ucast p) of
           None \<Rightarrow> None
         | Some vpid \<Rightarrow>
             (case pid_task K vpid of
                None \<Rightarrow> None
              | Some task \<Rightarrow>
                  (case task_mm task of Some mm \<Rightarrow> Some mm | None \<Rightarrow> task_active_mm task)))
      else (case current_mm K of Some mm \<Rightarrow> Some mm | None \<Rightarrow> Some (current_active_mm K)))"

section \<open>TLB invalidation\<close>

definition invalidate_tlb_custom :: "linux \<Rightarrow> i32 \<Rightarrow> u64 \<Rightarrow> 'a kstate_scheme \<Rightarrow> 'a kstate_scheme" where
  "invalidate_tlb_custom K p addr s =
     (case cfg_arch K of X86_64 \<Rightarrow> emit Pr_crit_unsupported s | AArch64 \<Rightarrow> emit Tlbi_all_cpus s)"

definition invalidate_tlb_kernel :: "linux \<Rightarrow> i32 \<Rightarrow> u64 \<Rightarrow> 'a kstate_scheme \<Rightarrow> 'a kstate_scheme" where
  "invalidate_tlb_kernel K p addr s =
     (case cfg_arch K of
        X86_64 \<Rightarrow>
          (case get_mm K (size_of_int p) of
             None \<Rightarrow> s
           | Some mm \<Rightarrow>
               emit (Flush_tlb_range mm addr (addr + of_nat (real_page_size s)) (real_page_shift s) False) s)
      | AArch64 \<Rightarrow>
          (case find_vma K (current_mm K) addr of
             None \<Rightarrow> s
           | Some vm_start \<Rightarrow>
               if addr < vm_start then s else emit (Flush_tlb_page_all_cpus vm_start addr) s))"

definition invalidate_tlb :: "linux \<Rightarrow> i32 \<Rightarrow> u64 \<Rightarrow> 'a kstate_scheme \<Rightarrow> 'a kstate_scheme" where
  "invalidate_tlb K p addr s =
     (case invalidate_tlb_fn s of
        Tlb_kernel \<Rightarrow> invalidate_tlb_kernel K p addr s
      | Tlb_custom \<Rightarrow> invalidate_tlb_custom K p addr s
      | Tlb_null \<Rightarrow> s)"

section \<open>Memory types\<close>

text \<open>
  On x86 the register is written and read in two 32-bit halves; \<open>int low\<close> is widened to \<open>size_t\<close> with
  its sign.
\<close>

definition pat_low :: "u64 \<Rightarrow> i32" where
  "pat_low w = ucast (w AND 0xffffffff)"

definition pat_high :: "u64 \<Rightarrow> i32" where
  "pat_high w = ucast (drop_bit 32 w AND 0xffffffff)"

definition wrmsr :: "i32 \<Rightarrow> i32 \<Rightarrow> u64" where
  "wrmsr eax edx = ucast eax OR push_bit 32 (ucast edx)"

definition set_pat_cpu :: "linux \<Rightarrow> u64 \<Rightarrow> u64" where
  "set_pat_cpu K w = (case cfg_arch K of X86_64 \<Rightarrow> wrmsr (pat_low w) (pat_high w) | AArch64 \<Rightarrow> w)"

definition set_pat :: "linux \<Rightarrow> u64 \<Rightarrow> 'a kstate_scheme \<Rightarrow> 'a kstate_scheme" where
  "set_pat K w s = s\<lparr>pat_msr := (\<lambda>cpu. set_pat_cpu K w)\<rparr>"

definition get_pat :: "linux \<Rightarrow> 'a kstate_scheme \<Rightarrow> u64" where
  "get_pat K s =
     (case cfg_arch K of
        X86_64 \<Rightarrow>
          (let msr = pat_msr s (this_cpu K);
               low = (ucast msr :: i32);
               high = (ucast (drop_bit 32 msr) :: i32)
           in size_of_int low OR push_bit 32 (size_of_int high))
      | AArch64 \<Rightarrow> pat_msr s (this_cpu K))"

section \<open>Resolving and updating an address\<close>

record vm_t =
  vm_pid :: u64
  vm_pgd :: "u64 option"
  vm_p4d :: "u64 option"
  vm_pud :: "u64 option"
  vm_pmd :: "u64 option"
  vm_pte :: "u64 option"
  vm_valid :: u64

definition fresh_vm :: "u64 \<Rightarrow> vm_t" where
  "fresh_vm p = \<lparr>vm_pid = p, vm_pgd = None, vm_p4d = None, vm_pud = None, vm_pmd = None,
                 vm_pte = None, vm_valid = 0\<rparr>"

text \<open>
  The walk of \<open>resolve_vm\<close> from the PUD on, which both kernel versions share, and from the PGD.  The
  integer is the value the function returns; a level whose entry is rejected keeps a null pointer.
\<close>

definition resolve_vm_pud :: "linux \<Rightarrow> mem \<Rightarrow> u64 \<Rightarrow> u64 \<Rightarrow> vm_t \<Rightarrow> int \<times> vm_t" where
  "resolve_vm_pud K m addr parent e =
     (let pudp = pud_offset K m parent addr in
      if pud_none K (kread K m pudp) then (1, e)
      else
        let e = e\<lparr>vm_pud := Some pudp, vm_valid := vm_valid e OR valid_mask PUD\<rparr>;
            pmdp = pmd_offset K m pudp addr in
        if pmd_none K (kread K m pmdp) \<or> pud_leaf K (kread K m pudp) then (1, e)
        else
          let e = e\<lparr>vm_pmd := Some pmdp, vm_valid := vm_valid e OR valid_mask PMD\<rparr> in
          case pte_offset K m pmdp addr of
            None \<Rightarrow> (1, e)
          | Some ptep \<Rightarrow>
              if pmd_leaf K (kread K m pmdp) then (1, e)
              else (0, e\<lparr>vm_pte := Some ptep, vm_valid := vm_valid e OR valid_mask PTE\<rparr>))"

definition resolve_vm_walk :: "linux \<Rightarrow> mem \<Rightarrow> u64 \<Rightarrow> u64 \<Rightarrow> vm_t \<Rightarrow> int \<times> vm_t" where
  "resolve_vm_walk K m base addr e =
     (let pgdp = pgd_offset K base addr in
      if pgd_none K (kread K m pgdp) \<or> pgd_bad K (kread K m pgdp) then (1, e)
      else
        let e = e\<lparr>vm_pgd := Some pgdp, vm_valid := vm_valid e OR valid_mask PGD\<rparr> in
        if cfg_4_11 K then
          let p4dp = p4d_offset K m pgdp addr in
          if p4d_none K (kread K m p4dp) \<or> p4d_bad K (kread K m p4dp) then (1, e)
          else resolve_vm_pud K m addr p4dp
                 (e\<lparr>vm_p4d := Some p4dp, vm_valid := vm_valid e OR valid_mask P4D\<rparr>)
        else resolve_vm_pud K m addr pgdp e)"

definition resolve_vm ::
  "linux \<Rightarrow> u64 \<Rightarrow> u64 \<Rightarrow> bool \<Rightarrow> 'a kstate_scheme \<Rightarrow> int \<times> vm_t \<times> 'a kstate_scheme" where
  "resolve_vm K addr p lock s =
     (case get_mm K p of
        None \<Rightarrow> (1, fresh_vm p, s)
      | Some mm \<Rightarrow>
          (let s = (if lock then emit (Read_lock mm) s else s);
               (r, e) = resolve_vm_walk K (phys s) (mm_pgd s mm) addr (fresh_vm p);
               s = (if lock then emit (Read_unlock mm) s else s)
           in (r, e, s)))"

definition update_level ::
  "(mem \<Rightarrow> u64 \<Rightarrow> u64 \<Rightarrow> mem) \<Rightarrow> level \<Rightarrow> string \<Rightarrow> u64 \<Rightarrow> u64 option \<Rightarrow> u64 \<Rightarrow> u64 \<Rightarrow>
   'a kstate_scheme \<Rightarrow> 'a kstate_scheme" where
  "update_level setter l msg old_valid ptr new_valid v s =
     (if has_valid old_valid l \<and> has_valid new_valid l then
        (case ptr of
           None \<Rightarrow> s
         | Some q \<Rightarrow> (emit (Pr_warn msg) s)\<lparr>phys := setter (phys s) q v\<rparr>)
      else s)"

definition update_entries ::
  "linux \<Rightarrow> ptedit_entry_t \<Rightarrow> vm_t \<Rightarrow> 'a kstate_scheme \<Rightarrow> 'a kstate_scheme" where
  "update_entries K new old s =
     (let s = update_level (set_pgd K) PGD ''Updating PGD'' (vm_valid old) (vm_pgd old) (valid new) (pgd new) s;
          s = (if cfg_4_11 K
               then update_level (set_p4d K) P4D ''Updating P4D'' (vm_valid old) (vm_p4d old) (valid new) (p4d new) s
               else s);
          s = update_level (set_pud K) PUD ''Updating PUD'' (vm_valid old) (vm_pud old) (valid new) (pud new) s;
          s = update_level (set_pmd K) PMD ''Updating PMD'' (vm_valid old) (vm_pmd old) (valid new) (pmd new) s;
          s = update_level (set_pte K) PTE ''Updating PTE'' (vm_valid old) (vm_pte old) (valid new) (pte new) s
      in s)"

definition update_vm :: "linux \<Rightarrow> ptedit_entry_t \<Rightarrow> bool \<Rightarrow> 'a kstate_scheme \<Rightarrow> int \<times> 'a kstate_scheme" where
  "update_vm K new lock s =
     (case get_mm K (pid new) of
        None \<Rightarrow> (1, s)
      | Some mm \<Rightarrow>
          (let s = (if lock then emit (Write_lock mm) s else s);
               (r, old, s) = resolve_vm K (vaddr new) (pid new) False s;
               s = update_entries K new old s;
               s = invalidate_tlb K (ucast (vm_pid old)) (vaddr new) s;
               s = (if lock then emit (Write_unlock mm) s else s)
           in (0, s)))"

definition vm_to_user :: "linux \<Rightarrow> mem \<Rightarrow> ptedit_entry_t \<Rightarrow> vm_t \<Rightarrow> ptedit_entry_t" where
  "vm_to_user K m user vm =
     (let user = (if cfg_4_11 K then
                    (case vm_p4d vm of Some q \<Rightarrow> user\<lparr>p4d := kread K m q\<rparr> | None \<Rightarrow> user) else user);
          user = (case vm_pgd vm of Some q \<Rightarrow> user\<lparr>pgd := kread K m q\<rparr> | None \<Rightarrow> user);
          user = (case vm_pmd vm of Some q \<Rightarrow> user\<lparr>pmd := kread K m q\<rparr> | None \<Rightarrow> user);
          user = (case vm_pud vm of Some q \<Rightarrow> user\<lparr>pud := kread K m q\<rparr> | None \<Rightarrow> user);
          user = (case vm_pte vm of Some q \<Rightarrow> user\<lparr>pte := kread K m q\<rparr> | None \<Rightarrow> user)
      in user\<lparr>valid := vm_valid vm\<rparr>)"

section \<open>The device interface\<close>

text \<open>
  A request is the command with the structure \<open>from_user\<close> copies in (the library passes the address
  of a live local, for which the copy succeeds); the reply is the returned value and what \<open>to_user\<close>
  copies back.
\<close>

datatype ioctl_req =
    CMD_VM_RESOLVE ptedit_entry_t
  | CMD_VM_UPDATE ptedit_entry_t
  | CMD_VM_LOCK
  | CMD_VM_UNLOCK
  | CMD_READ_PAGE ptedit_page_t
  | CMD_WRITE_PAGE ptedit_page_t
  | CMD_GET_ROOT ptedit_paging_t
  | CMD_SET_ROOT ptedit_paging_t
  | CMD_GET_PAGESIZE
  | CMD_INVALIDATE_TLB u64
  | CMD_GET_PAT
  | CMD_SET_PAT u64
  | CMD_SWITCH_TLB_INVALIDATION u64
  | CMD_INVALIDATE_TLB_PID ptedit_invalidate_tlb_args_t
  | CMD_OTHER nat

datatype ioctl_out = Out_none | Out_entry ptedit_entry_t | Out_bytes "u8 list"
  | Out_paging ptedit_paging_t | Out_word u64

definition TLB_INVALIDATION_KERNEL :: i32 where "TLB_INVALIDATION_KERNEL = 0"
definition TLB_INVALIDATION_CUSTOM :: i32 where "TLB_INVALIDATION_CUSTOM = 1"

type_synonym 'a ioctl_res = "int \<times> ioctl_out \<times> 'a kstate_scheme"

definition ioctl_vm_resolve :: "linux \<Rightarrow> ptedit_entry_t \<Rightarrow> 'a kstate_scheme \<Rightarrow> 'a ioctl_res" where
  "ioctl_vm_resolve K vm_user s =
     (let (r, vm, s) = resolve_vm K (vaddr vm_user) (pid vm_user) (\<not> mm_is_locked s) s
      in (0, Out_entry (vm_to_user K (phys s) vm_user vm), s))"

definition ioctl_vm_update :: "linux \<Rightarrow> ptedit_entry_t \<Rightarrow> 'a kstate_scheme \<Rightarrow> 'a ioctl_res" where
  "ioctl_vm_update K vm_user s =
     (let (r, s) = update_vm K vm_user (\<not> mm_is_locked s) s in (0, Out_none, s))"

definition ioctl_vm_lock :: "linux \<Rightarrow> 'a kstate_scheme \<Rightarrow> 'a ioctl_res" where
  "ioctl_vm_lock K s =
     (let mm = current_active_mm K in
      if mm_is_locked s then (- 1, Out_none, emit (Pr_warn ''VM is already locked'') s)
      else (0, Out_none, (emit (Read_lock mm) (emit (Write_lock mm) s))\<lparr>mm_is_locked := True\<rparr>))"

definition ioctl_vm_unlock :: "linux \<Rightarrow> 'a kstate_scheme \<Rightarrow> 'a ioctl_res" where
  "ioctl_vm_unlock K s =
     (let mm = current_active_mm K in
      if \<not> mm_is_locked s then (- 1, Out_none, emit (Pr_warn ''VM is not locked'') s)
      else (0, Out_none, (emit (Read_unlock mm) (emit (Write_unlock mm) s))\<lparr>mm_is_locked := False\<rparr>))"

definition ioctl_read_page :: "linux \<Rightarrow> ptedit_page_t \<Rightarrow> 'a kstate_scheme \<Rightarrow> 'a ioctl_res" where
  "ioctl_read_page K page s =
     (let p = phys_to_virt K (page_pfn page * of_nat (real_page_size s))
      in (0, Out_bytes (load_bytes (phys s) (virt_to_phys K p) (real_page_size s)), s))"

definition ioctl_write_page :: "linux \<Rightarrow> ptedit_page_t \<Rightarrow> 'a kstate_scheme \<Rightarrow> 'a ioctl_res" where
  "ioctl_write_page K page s =
     (let p = phys_to_virt K (page_pfn page * of_nat (real_page_size s))
      in (0, Out_none,
          s\<lparr>phys := store_bytes (phys s) (virt_to_phys K p) (take (real_page_size s) (page_buffer page))\<rparr>))"

definition ioctl_get_root :: "linux \<Rightarrow> ptedit_paging_t \<Rightarrow> 'a kstate_scheme \<Rightarrow> 'a ioctl_res" where
  "ioctl_get_root K paging s =
     (let mm = get_mm K (paging_pid paging) in
      if cfg_arch K = AArch64 \<and> (case mm of None \<Rightarrow> True | Some m \<Rightarrow> mm_pgd s m = 0) then
        (0, Out_paging (paging\<lparr>paging_root := ttbr0_el1 K AND size_of_int (NOT 1)\<rparr>), s)
      else
        (case mm of
           None \<Rightarrow> (1, Out_none, s)
         | Some m \<Rightarrow>
             (let s = (if \<not> mm_is_locked s then emit (Read_lock m) s else s);
                  paging = paging\<lparr>paging_root := virt_to_phys K (mm_pgd s m)\<rparr>;
                  s = (if \<not> mm_is_locked s then emit (Read_unlock m) s else s)
              in (0, Out_paging paging, s))))"

definition ioctl_set_root :: "linux \<Rightarrow> ptedit_paging_t \<Rightarrow> 'a kstate_scheme \<Rightarrow> 'a ioctl_res" where
  "ioctl_set_root K paging s =
     (case get_mm K (paging_pid paging) of
        None \<Rightarrow> (1, Out_none, s)
      | Some m \<Rightarrow>
          (let s = (if \<not> mm_is_locked s then emit (Write_lock m) s else s);
               s = s\<lparr>mm_pgd := (mm_pgd s)(m := phys_to_virt K (paging_root paging))\<rparr>;
               s = (if \<not> mm_is_locked s then emit (Write_unlock m) s else s)
           in (0, Out_none, s)))"

definition ioctl_switch_tlb :: "linux \<Rightarrow> u64 \<Rightarrow> 'a kstate_scheme \<Rightarrow> 'a ioctl_res" where
  "ioctl_switch_tlb K param s =
     (let i = (ucast param :: i32) in
      if i \<noteq> TLB_INVALIDATION_KERNEL \<and> i \<noteq> TLB_INVALIDATION_CUSTOM then (- 1, Out_none, s)
      else if cfg_arch K = X86_64 \<and> i = TLB_INVALIDATION_CUSTOM then
        (0, Out_none, emit (Pr_warn ''Custom TLB invalidation is not supported on this CPU! Request ignored.'') s)
      else (0, Out_none,
            s\<lparr>invalidate_tlb_fn := (if i = TLB_INVALIDATION_KERNEL then Tlb_kernel else Tlb_custom)\<rparr>))"

fun device_ioctl :: "linux \<Rightarrow> ioctl_req \<Rightarrow> 'a kstate_scheme \<Rightarrow> 'a ioctl_res" where
  "device_ioctl K (CMD_VM_RESOLVE vm_user) s = ioctl_vm_resolve K vm_user s"
| "device_ioctl K (CMD_VM_UPDATE vm_user) s = ioctl_vm_update K vm_user s"
| "device_ioctl K CMD_VM_LOCK s = ioctl_vm_lock K s"
| "device_ioctl K CMD_VM_UNLOCK s = ioctl_vm_unlock K s"
| "device_ioctl K (CMD_READ_PAGE page) s = ioctl_read_page K page s"
| "device_ioctl K (CMD_WRITE_PAGE page) s = ioctl_write_page K page s"
| "device_ioctl K (CMD_GET_ROOT paging) s = ioctl_get_root K paging s"
| "device_ioctl K (CMD_SET_ROOT paging) s = ioctl_set_root K paging s"
| "device_ioctl K CMD_GET_PAGESIZE s = (int (real_page_size s), Out_none, s)"
| "device_ioctl K (CMD_INVALIDATE_TLB_PID args) s =
     (0, Out_none, invalidate_tlb K (args_pid args) (args_address args) s)"
| "device_ioctl K (CMD_INVALIDATE_TLB param) s =
     (0, Out_none, invalidate_tlb K (current_nr K) param s)"
| "device_ioctl K CMD_GET_PAT s = (0, Out_word (get_pat K s), s)"
| "device_ioctl K (CMD_SET_PAT w) s = (0, Out_none, set_pat K w s)"
| "device_ioctl K (CMD_SWITCH_TLB_INVALIDATION param) s = ioctl_switch_tlb K param s"
| "device_ioctl K (CMD_OTHER nr) s = (- 1, Out_none, s)"

section \<open>Loading and unloading\<close>

text \<open>What the running kernel answers while the module loads.\<close>

record boot =
  kprobe_lookup :: bool
  kallsyms_addr :: u64
  misc_register_ret :: int
  kallsyms_lookup :: "string \<Rightarrow> u64"
  tcr_el1 :: u64
  kretprobe_ret :: int

definition initial_kstate :: "mem \<Rightarrow> (nat \<Rightarrow> u64) \<Rightarrow> (nat \<Rightarrow> u64) \<Rightarrow> kstate" where
  "initial_kstate m roots pats =
     \<lparr>phys = m, mm_pgd = roots, pat_msr = pats, trace = [], device_busy = False,
      mm_is_locked = False, invalidate_tlb_fn = Tlb_null, real_page_size = 4096,
      real_page_shift = 12, misc_registered = False, devmem_probe = False, has_umem = False,
      proc_umem = False\<rparr>"

definition set_page_size :: "u64 \<Rightarrow> 'a kstate_scheme \<Rightarrow> 'a kstate_scheme" where
  "set_page_size tcr s =
     (let g = drop_bit 14 tcr AND 3 in
      if g = 1 then s\<lparr>real_page_size := 64 * 1024, real_page_shift := 16\<rparr>
      else if g = 2 then s\<lparr>real_page_size := 16 * 1024, real_page_shift := 14\<rparr>
      else s)"

definition setup_umem :: "boot \<Rightarrow> 'a kstate_scheme \<Rightarrow> 'a kstate_scheme" where
  "setup_umem B s =
     (if kallsyms_lookup B ''memory_lseek'' = 0 \<or> kallsyms_lookup B ''read_mem'' = 0
         \<or> kallsyms_lookup B ''write_mem'' = 0 \<or> kallsyms_lookup B ''mmap_mem'' = 0
      then s else s\<lparr>proc_umem := True, has_umem := True\<rparr>)"

definition pteditor_init :: "linux \<Rightarrow> boot \<Rightarrow> 'a kstate_scheme \<Rightarrow> int \<times> 'a kstate_scheme" where
  "pteditor_init K B s =
     (if kprobe_lookup B \<and> kallsyms_addr B = 0 then (- ENXIO, s)
      else if misc_register_ret B \<noteq> 0 then (- ENXIO, s)
      else
        let s = s\<lparr>misc_registered := True\<rparr> in
        if cfg_arch K = X86_64 \<and> kallsyms_lookup B ''flush_tlb_mm_range'' = 0 then (- ENXIO, s)
        else
          let s = s\<lparr>invalidate_tlb_fn := Tlb_kernel\<rparr>;
              s = (if cfg_arch K = AArch64 then set_page_size (tcr_el1 B) s else s);
              s = (if kretprobe_ret B < 0 then s else s\<lparr>devmem_probe := True\<rparr>);
              s = setup_umem B s
          in (0, s))"

definition pteditor_exit :: "'a kstate_scheme \<Rightarrow> 'a kstate_scheme" where
  "pteditor_exit s =
     (let s = s\<lparr>misc_registered := False\<rparr>;
          s = s\<lparr>devmem_probe := False\<rparr>
      in if has_umem s then s\<lparr>proc_umem := False\<rparr> else s)"

definition devmem_bypass :: "u64 \<Rightarrow> u64" where
  "devmem_bypass result = (if result = 0 then 1 else result)"

end
