(* ===== verification/PT_Fields.thy ===== *)
theory PT_Fields
  imports PT_Entry
begin

text \<open>
  The pure operations of \<open>ptedit.c\<close> on one page-table entry: reading and replacing the page-frame
  number, and reading and replacing the memory-type index of normal and of huge pages.  Every
  operation is characterised bit by bit (collection \<open>bit_field_simps\<close>), so that frame conditions and
  round trips follow by rewriting.
\<close>

section \<open>Page-frame numbers\<close>

definition pfn_width :: "arch \<Rightarrow> nat" where
  "pfn_width A = (case A of X86_64 \<Rightarrow> 40 | AArch64 \<Rightarrow> 36)"

definition ptedit_set_pfn :: "arch \<Rightarrow> u64 \<Rightarrow> u64 \<Rightarrow> u64" where
  "ptedit_set_pfn A entry pfn =
     (let entry = entry AND NOT (push_bit 12 (push_bit (pfn_width A) 1 - 1))
      in entry OR push_bit 12 pfn)"

definition ptedit_get_pfn :: "arch \<Rightarrow> u64 \<Rightarrow> u64" where
  "ptedit_get_pfn A entry = drop_bit 12 (entry AND push_bit 12 (push_bit (pfn_width A) 1 - 1))"

section \<open>Memory-type indices\<close>

definition ptedit_apply_mt :: "arch \<Rightarrow> u64 \<Rightarrow> u8 \<Rightarrow> u64" where
  "ptedit_apply_mt A entry mt =
     (case A of
        X86_64 \<Rightarrow>
          (let entry = entry AND NOT (ull_bit (x86_bit_nr PWT) OR ull_bit (x86_bit_nr PCD)
                                      OR ull_bit (x86_bit_nr PAT));
               entry = (if mt AND 1 \<noteq> 0 then entry OR ull_bit (x86_bit_nr PWT) else entry);
               entry = (if mt AND 2 \<noteq> 0 then entry OR ull_bit (x86_bit_nr PCD) else entry);
               entry = (if mt AND 4 \<noteq> 0 then entry OR ull_bit (x86_bit_nr PAT) else entry)
           in entry)
      | AArch64 \<Rightarrow>
          (let entry = entry AND size_of_int (NOT 0x1c)
           in entry OR size_of_int (push_bit 2 (ucast (mt AND 7)))))"

definition ptedit_apply_mt_huge :: "arch \<Rightarrow> u64 \<Rightarrow> u8 \<Rightarrow> u64" where
  "ptedit_apply_mt_huge A entry mt =
     (case A of
        X86_64 \<Rightarrow>
          (let entry = entry AND NOT (ull_bit (x86_bit_nr PWT) OR ull_bit (x86_bit_nr PCD)
                                      OR ull_bit (x86_bit_nr PAT_LARGE));
               entry = (if mt AND 1 \<noteq> 0 then entry OR ull_bit (x86_bit_nr PWT) else entry);
               entry = (if mt AND 2 \<noteq> 0 then entry OR ull_bit (x86_bit_nr PCD) else entry);
               entry = (if mt AND 4 \<noteq> 0 then entry OR ull_bit (x86_bit_nr PAT_LARGE) else entry)
           in entry)
      | AArch64 \<Rightarrow>
          (let entry = entry AND size_of_int (NOT 0x1c)
           in entry OR size_of_int (push_bit 2 (ucast (mt AND 7)))))"

definition ptedit_extract_mt :: "arch \<Rightarrow> u64 \<Rightarrow> u8" where
  "ptedit_extract_mt A entry =
     (case A of
        X86_64 \<Rightarrow>
          ucast (c_bool (entry AND ull_bit (x86_bit_nr PWT) \<noteq> 0)
                 OR push_bit 1 (c_bool (entry AND ull_bit (x86_bit_nr PCD) \<noteq> 0))
                 OR push_bit 2 (c_bool (entry AND ull_bit (x86_bit_nr PAT) \<noteq> 0)))
      | AArch64 \<Rightarrow> ucast (drop_bit 2 entry AND 7))"

definition ptedit_extract_mt_huge :: "arch \<Rightarrow> u64 \<Rightarrow> u8" where
  "ptedit_extract_mt_huge A entry =
     (case A of
        X86_64 \<Rightarrow>
          ucast (c_bool (entry AND ull_bit (x86_bit_nr PWT) \<noteq> 0)
                 OR push_bit 1 (c_bool (entry AND ull_bit (x86_bit_nr PCD) \<noteq> 0))
                 OR push_bit 2 (c_bool (entry AND ull_bit (x86_bit_nr PAT_LARGE) \<noteq> 0)))
      | AArch64 \<Rightarrow> ucast (drop_bit 2 entry AND 7))"

text \<open>The bits that hold the memory-type index of a normal and of a huge page.\<close>

definition mt_bits :: "arch \<Rightarrow> nat list" where
  "mt_bits A = (case A of X86_64 \<Rightarrow> [3, 4, 7] | AArch64 \<Rightarrow> [2, 3, 4])"

definition mt_bits_huge :: "arch \<Rightarrow> nat list" where
  "mt_bits_huge A = (case A of X86_64 \<Rightarrow> [3, 4, 12] | AArch64 \<Rightarrow> [2, 3, 4])"

section \<open>Bit-level characterisations\<close>

lemma pfn_width_le: "12 + pfn_width A \<le> 52"
  by (simp add: pfn_width_def split: arch.split)

lemma bit_set_pfn [bit_field_simps]:
  "bit (ptedit_set_pfn A entry pfn) n \<longleftrightarrow>
     n < 64 \<and> (if 12 \<le> n \<and> n < 12 + pfn_width A then bit pfn (n - 12)
               else bit entry n \<or> 12 \<le> n \<and> bit pfn (n - 12))"
  using pfn_width_le [of A] unfolding ptedit_set_pfn_def Let_def low_mask_eq
  by (auto simp: bit_simps dest: bit_imp_le_length)

lemma bit_get_pfn [bit_field_simps]:
  "bit (ptedit_get_pfn A entry) n \<longleftrightarrow> n < pfn_width A \<and> bit entry (12 + n)"
  using pfn_width_le [of A] unfolding ptedit_get_pfn_def low_mask_eq
  by (auto simp: bit_simps dest: bit_imp_le_length)

lemma less_exp_bit:
  fixes x :: u64
  assumes "x < 2 ^ w" and "w < 64" and "bit x n"
  shows "n < w"
proof -
  have "unat x < 2 ^ w"
    using assms(1) unat_exp [OF assms(2)] by (simp add: word_less_nat_alt)
  moreover have "bit (unat x) n"
    using assms(3) by (simp add: bit_unsigned_iff bit_imp_le_length)
  ultimately show ?thesis
    by (metis bit_take_bit_iff take_bit_nat_eq_self)
qed

lemma mt_and_bits:
  "(mt AND 1 \<noteq> (0 :: u8)) = bit mt 0" "(mt AND 2 \<noteq> (0 :: u8)) = bit mt 1"
  "(mt AND 4 \<noteq> (0 :: u8)) = bit mt 2"
  using and_exp_eq_0_iff_not_bit [of mt 0] and_exp_eq_0_iff_not_bit [of mt 1]
    and_exp_eq_0_iff_not_bit [of mt 2]
  by simp_all

lemma nth_mt_bits:
  "i < 3 \<Longrightarrow> mt_bits A ! i < 64"
  "i < 3 \<Longrightarrow> mt_bits_huge A ! i < 64"
  by (auto simp: mt_bits_def mt_bits_huge_def less_Suc_eq numeral_3_eq_3 split: arch.split)

lemma arm_mt_mask: "size_of_int (NOT 0x1c) = NOT (push_bit 2 (mask 3))"
  by (simp add: size_of_int_def mask_numeral)

lemma arm_mt_value: "size_of_int (push_bit 2 (ucast (mt AND 7))) = push_bit 2 (take_bit 3 (ucast (mt :: u8)))"
proof -
  have "mt AND 7 = take_bit 3 mt"
    by (simp add: take_bit_eq_mask mask_numeral)
  then show ?thesis
    by (simp only:, intro u64_eqI) (auto simp: size_of_int_def bit_simps dest: bit_imp_le_length)
qed

lemma bit_apply_mt [bit_field_simps]:
  "bit (ptedit_apply_mt A entry mt) n =
     (case A of X86_64 \<Rightarrow> if n = 3 then bit mt 0 else if n = 4 then bit mt 1
                          else if n = 7 then bit mt 2 else bit entry n
      | AArch64 \<Rightarrow> if n = 2 then bit mt 0 else if n = 3 then bit mt 1
                   else if n = 4 then bit mt 2 else bit entry n)"
proof (cases A)
  case X86_64
  then show ?thesis
    by (auto simp: ptedit_apply_mt_def Let_def mt_and_bits bit_simps bit_field_simps
        dest: bit_imp_le_length)
next
  case AArch64
  have "bit (ptedit_apply_mt A entry mt) n =
     (n < 64 \<and> (bit entry n \<and> \<not> (2 \<le> n \<and> n - 2 < 3) \<or> 2 \<le> n \<and> n - 2 < 3 \<and> bit mt (n - 2)))"
    using AArch64 unfolding ptedit_apply_mt_def arm_mt_mask arm_mt_value
    by (auto simp: bit_simps dest: bit_imp_le_length)
  then show ?thesis
    using AArch64 by (auto dest: bit_imp_le_length)
qed

lemma bit_apply_mt_huge [bit_field_simps]:
  "bit (ptedit_apply_mt_huge A entry mt) n =
     (case A of X86_64 \<Rightarrow> if n = 3 then bit mt 0 else if n = 4 then bit mt 1
                          else if n = 12 then bit mt 2 else bit entry n
      | AArch64 \<Rightarrow> if n = 2 then bit mt 0 else if n = 3 then bit mt 1
                   else if n = 4 then bit mt 2 else bit entry n)"
proof (cases A)
  case X86_64
  then show ?thesis
    by (auto simp: ptedit_apply_mt_huge_def Let_def mt_and_bits bit_simps bit_field_simps
        dest: bit_imp_le_length)
next
  case AArch64
  then have "ptedit_apply_mt_huge A entry mt = ptedit_apply_mt A entry mt"
    by (simp add: ptedit_apply_mt_huge_def ptedit_apply_mt_def)
  with AArch64 show ?thesis by (simp add: bit_apply_mt)
qed

lemma bit_three_flags:
  "bit (ucast (c_bool a OR push_bit 1 (c_bool b) OR push_bit 2 (c_bool c)) :: u8) i \<longleftrightarrow>
     i = 0 \<and> a \<or> i = 1 \<and> b \<or> i = 2 \<and> c"
  by (simp only: bit_ucast_iff bit_or_iff bit_push_bit_iff bit_c_bool) auto

lemma less_3: "(i :: nat) < 3 \<longleftrightarrow> i = 0 \<or> i = 1 \<or> i = 2"
  by auto

lemma bit_extract_mt [bit_field_simps]:
  "bit (ptedit_extract_mt A entry) i \<longleftrightarrow> i < 3 \<and> bit entry (mt_bits A ! i)"
proof (cases A)
  case X86_64
  show ?thesis
    unfolding X86_64 ptedit_extract_mt_def arch.case bit_three_flags
    by (auto simp: mt_bits_def and_ull_bit less_3)
next
  case AArch64
  have "drop_bit 2 entry AND 7 = take_bit 3 (drop_bit 2 entry)"
    by (simp add: take_bit_eq_mask mask_numeral)
  with AArch64 show ?thesis
    by (auto simp: ptedit_extract_mt_def mt_bits_def bit_simps less_Suc_eq
        eval_nat_numeral)
qed

lemma bit_extract_mt_huge [bit_field_simps]:
  "bit (ptedit_extract_mt_huge A entry) i \<longleftrightarrow> i < 3 \<and> bit entry (mt_bits_huge A ! i)"
proof (cases A)
  case X86_64
  show ?thesis
    unfolding X86_64 ptedit_extract_mt_huge_def arch.case bit_three_flags
    by (auto simp: mt_bits_huge_def and_ull_bit less_3)
next
  case AArch64
  then have "ptedit_extract_mt_huge A entry = ptedit_extract_mt A entry" "mt_bits_huge A = mt_bits A"
    by (simp_all add: ptedit_extract_mt_huge_def ptedit_extract_mt_def mt_bits_def mt_bits_huge_def)
  then show ?thesis by (simp add: bit_extract_mt)
qed

lemma bit_and_7: "bit (mt AND 7 :: u8) i \<longleftrightarrow> i < 3 \<and> bit mt i"
proof -
  have "mt AND 7 = take_bit 3 mt"
    by (simp add: take_bit_eq_mask mask_numeral)
  then show ?thesis by (simp add: bit_take_bit_iff)
qed

section \<open>Laws of the page-frame number\<close>

lemma pfn_bit_bound: "(pfn :: u64) < 2 ^ pfn_width A \<Longrightarrow> bit pfn n \<Longrightarrow> n < pfn_width A"
  using less_exp_bit [of pfn "pfn_width A" n] pfn_width_le [of A] by simp

lemma get_set_pfn_iff: "ptedit_get_pfn A (ptedit_set_pfn A entry pfn) = take_bit (pfn_width A) pfn"
  using pfn_width_le [of A] by (intro u64_eqI) (auto simp: bit_field_simps bit_simps)

lemma set_get_pfn: "ptedit_set_pfn A entry (ptedit_get_pfn A entry) = entry"
  using pfn_width_le [of A] by (intro u64_eqI) (auto simp: bit_field_simps)

lemma set_set_pfn:
  "x < 2 ^ pfn_width A \<Longrightarrow> ptedit_set_pfn A (ptedit_set_pfn A entry x) y = ptedit_set_pfn A entry y"
  by (intro u64_eqI) (auto simp: bit_field_simps dest: pfn_bit_bound)

lemma take_bit_less_exp64: "w < 64 \<Longrightarrow> take_bit w (x :: u64) < 2 ^ w"
  by (simp add: word_less_nat_alt unat_exp unsigned_take_bit_eq)

lemma get_pfn_bound: "ptedit_get_pfn A entry < 2 ^ pfn_width A"
proof -
  have "ptedit_get_pfn A entry = take_bit (pfn_width A) (ptedit_get_pfn A entry)"
    by (intro u64_eqI) (auto simp: bit_field_simps bit_simps)
  moreover have "take_bit (pfn_width A) (ptedit_get_pfn A entry) < 2 ^ pfn_width A"
    using pfn_width_le [of A] by (simp add: take_bit_less_exp64)
  ultimately show ?thesis by simp
qed

lemma cast_pfn_x86_iff:
  "cast_pfn X86_64 entry = ptedit_get_pfn X86_64 entry \<longleftrightarrow> ptedit_get_pfn X86_64 entry < 2 ^ 28"
proof -
  have trunc: "cast_pfn X86_64 entry = take_bit 28 (ptedit_get_pfn X86_64 entry)"
    by (intro u64_eqI) (auto simp: bit_field_simps bit_simps pfn_width_def)
  show ?thesis
    using take_bit_less_exp64 [of 28 "ptedit_get_pfn X86_64 entry"]
      less_exp_bit [of "ptedit_get_pfn X86_64 entry" 28]
    by (auto simp: trunc intro!: u64_eqI simp: bit_take_bit_iff)
qed

lemma cast_pfn_arm: "cast_pfn AArch64 entry = ptedit_get_pfn AArch64 entry"
  by (intro u64_eqI) (auto simp: bit_field_simps pfn_width_def)

section \<open>Properties\<close>

text \<open>
  Replacing the page-frame number of an entry and reading it back yields the new number whenever
  it fits the architecture's field, and no bit outside the field changes; a later replacement
  overrides an earlier one.
\<close>

theorem set_pfn_roundtrip:
  assumes "pfn < 2 ^ pfn_width A"
  shows "ptedit_get_pfn A (ptedit_set_pfn A entry pfn) = pfn
    \<and> (\<forall>n. \<not> (12 \<le> n \<and> n < 12 + pfn_width A) \<longrightarrow>
           bit (ptedit_set_pfn A entry pfn) n = bit entry n)
    \<and> ptedit_set_pfn A (ptedit_set_pfn A entry pfn) (ptedit_get_pfn A entry) = entry"
proof (intro conjI allI impI)
  show "ptedit_get_pfn A (ptedit_set_pfn A entry pfn) = pfn"
    using assms by (intro u64_eqI) (auto simp: get_set_pfn_iff bit_simps dest: pfn_bit_bound)
  show "bit (ptedit_set_pfn A entry pfn) n = bit entry n"
    if "\<not> (12 \<le> n \<and> n < 12 + pfn_width A)" for n
    using that pfn_bit_bound [OF assms, of "n - 12"]
    by (auto simp: bit_field_simps dest: bit_imp_le_length)
  show "ptedit_set_pfn A (ptedit_set_pfn A entry pfn) (ptedit_get_pfn A entry) = entry"
    by (simp add: set_set_pfn [OF assms] set_get_pfn)
qed

theorem set_pfn_roundtrip_witness:
  "ptedit_get_pfn X86_64 (ptedit_set_pfn X86_64 0x8000000000000067 0x1234) = 0x1234"
  using set_pfn_roundtrip [of "0x1234" X86_64 "0x8000000000000067"]
  by (simp add: pfn_width_def)

text \<open>
  A page-frame number that does not fit is not masked by \<open>ptedit_set_pfn\<close>: every bit of it beyond
  the field is set in the attribute bits above the field (on x86 the protection keys and NX), while
  attribute bits that were set stay set.
\<close>

theorem set_pfn_overflow:
  assumes "12 + pfn_width A \<le> n" and "n < 64"
  shows "bit (ptedit_set_pfn A entry pfn) n \<longleftrightarrow> bit entry n \<or> bit pfn (n - 12)"
  using assms by (simp add: bit_field_simps)

theorem set_pfn_overflow_witness:
  "bit (ptedit_set_pfn X86_64 0x67 (push_bit 51 1)) 63"
  using set_pfn_overflow [of X86_64 63 "0x67" "push_bit 51 1"]
  by (simp add: pfn_width_def bit_push_bit_iff del: push_bit_of_1)

text \<open>
  The page-frame member of the structure that \<open>ptedit_cast\<close> gives access to agrees with
  \<open>ptedit_get_pfn\<close> exactly when the frame lies below the 40-bit physical addresses its 28 bits can
  hold on x86; on ARMv8 (36 bits in both) they always agree, for table entries and for PTEs.
\<close>

theorem cast_pfn_eq_get_pfn:
  "(cast_pfn X86_64 entry = ptedit_get_pfn X86_64 entry \<longleftrightarrow> ptedit_get_pfn X86_64 entry < 2 ^ 28)
   \<and> cast_pte_pfn X86_64 entry = cast_pfn X86_64 entry
   \<and> cast_pfn AArch64 entry = ptedit_get_pfn AArch64 entry
   \<and> cast_pte_pfn AArch64 entry = ptedit_get_pfn AArch64 entry"
  by (simp add: cast_pfn_x86_iff cast_pfn_arm cast_pte_pfn_bits)

text \<open>
  C27. Applying a memory-type index to an entry and extracting it again yields the index reduced to
  three bits, for normal and for huge pages on both architectures; applying changes no bit outside
  the three index bits, and re-applying the extracted index restores the entry.
\<close>

theorem apply_extract_mt:
  "ptedit_extract_mt A (ptedit_apply_mt A entry mt) = mt AND 7
   \<and> ptedit_extract_mt_huge A (ptedit_apply_mt_huge A entry mt) = mt AND 7
   \<and> (\<forall>n. n \<notin> set (mt_bits A) \<longrightarrow> bit (ptedit_apply_mt A entry mt) n = bit entry n)
   \<and> (\<forall>n. n \<notin> set (mt_bits_huge A) \<longrightarrow> bit (ptedit_apply_mt_huge A entry mt) n = bit entry n)
   \<and> ptedit_apply_mt A (ptedit_apply_mt A entry mt) (ptedit_extract_mt A entry) = entry
   \<and> ptedit_apply_mt_huge A (ptedit_apply_mt_huge A entry mt) (ptedit_extract_mt_huge A entry) = entry"
proof (intro conjI)
  show "ptedit_extract_mt A (ptedit_apply_mt A entry mt) = mt AND 7"
    by (rule bit_word_eqI)
      (auto simp: bit_field_simps bit_and_7 less_3 mt_bits_def split: arch.split if_splits)
  show "ptedit_extract_mt_huge A (ptedit_apply_mt_huge A entry mt) = mt AND 7"
    by (rule bit_word_eqI)
      (auto simp: bit_field_simps bit_and_7 less_3 mt_bits_huge_def split: arch.split if_splits)
  show "\<forall>n. n \<notin> set (mt_bits A) \<longrightarrow> bit (ptedit_apply_mt A entry mt) n = bit entry n"
    by (auto simp: bit_field_simps mt_bits_def split: arch.split)
  show "\<forall>n. n \<notin> set (mt_bits_huge A) \<longrightarrow> bit (ptedit_apply_mt_huge A entry mt) n = bit entry n"
    by (auto simp: bit_field_simps mt_bits_huge_def split: arch.split)
  show "ptedit_apply_mt A (ptedit_apply_mt A entry mt) (ptedit_extract_mt A entry) = entry"
    by (rule u64_eqI) (auto simp: bit_field_simps mt_bits_def split: arch.split)
  show "ptedit_apply_mt_huge A (ptedit_apply_mt_huge A entry mt) (ptedit_extract_mt_huge A entry) = entry"
    by (rule u64_eqI) (auto simp: bit_field_simps mt_bits_huge_def split: arch.split)
qed

theorem apply_extract_mt_witness:
  "(7 :: nat) \<in> set (mt_bits X86_64) \<and> 8 \<notin> set (mt_bits X86_64)
   \<and> bit (ptedit_apply_mt X86_64 0 5) 8 = bit (0 :: u64) 8
   \<and> ptedit_extract_mt X86_64 (ptedit_apply_mt X86_64 0 5) = 5"
  using apply_extract_mt [of X86_64 0 5] by (simp add: mt_bits_def)

section \<open>The two views of an entry\<close>

text \<open>
  A program can take an entry apart through the bit-field structures of the header or with the bit numbers
  and the functions of the library.  The value of a numbered bit, as \<open>ptedit_pte_get_bit\<close> reads it:
\<close>

definition x86_flag :: "u64 \<Rightarrow> x86_bit \<Rightarrow> u64" where
  "x86_flag e b = of_bool (bit e (x86_bit_nr b))"

definition arm_flag :: "u64 \<Rightarrow> arm_bit \<Rightarrow> u64" where
  "arm_flag e b = of_bool (bit e (arm_bit_nr b))"

lemma take_bit_1: "take_bit 1 (e :: u64) = of_bool (bit e 0)" "bit (drop_bit n e) 0 = bit (e :: u64) n"
  by (simp_all add: take_bit_eq_mod mod_2_eq_odd bit_iff_odd_drop_bit bit_0)

lemma list_1: "take 1 (x # xs) = [x]" "(x # y # xs) ! 1 = y"
  by simp_all

lemma get_pfn_slices:
  "take_bit 28 (drop_bit 12 e) = take_bit 28 (ptedit_get_pfn X86_64 e)"
  "take_bit 12 (drop_bit 40 e) = drop_bit 28 (ptedit_get_pfn X86_64 e)"
  "take_bit 8 (drop_bit 13 e) = take_bit 8 (drop_bit 1 (ptedit_get_pfn X86_64 e))"
  "take_bit 19 (drop_bit 21 e) = take_bit 19 (drop_bit 9 (ptedit_get_pfn X86_64 e))"
  "take_bit 36 (drop_bit 12 e) = ptedit_get_pfn AArch64 e"
  by (rule u64_eqI; auto simp: bit_simps bit_field_simps pfn_width_def)+

lemmas bit_members = Let_def list_1 bitfield_def take_bit_1 x86_flag_def arm_flag_def get_pfn_slices

lemma cast_members:
  "cast_pgd_x86 e =
      \<lparr>xpgd_present = x86_flag e PRESENT, xpgd_writeable = x86_flag e RW, xpgd_user_access = x86_flag e USER,
       xpgd_write_through = x86_flag e PWT, xpgd_cache_disabled = x86_flag e PCD, xpgd_accessed = x86_flag e ACCESSED,
       xpgd_ignored_3 = x86_flag e DIRTY, xpgd_size = x86_flag e PSE, xpgd_ignored_2 = take_bit 4 (drop_bit (x86_bit_nr GLOBAL) e),
       xpgd_pfn = take_bit 28 (ptedit_get_pfn X86_64 e), xpgd_reserved_1 = drop_bit 28 (ptedit_get_pfn X86_64 e),
       xpgd_ignored_1 = take_bit 11 (drop_bit 52 e), xpgd_execution_disabled = x86_flag e NX\<rparr>"
  "cast_pmd_large_x86 e =
      \<lparr>xpmdl_present = x86_flag e PRESENT, xpmdl_writeable = x86_flag e RW, xpmdl_user_access = x86_flag e USER,
       xpmdl_write_through = x86_flag e PWT, xpmdl_cache_disabled = x86_flag e PCD, xpmdl_accessed = x86_flag e ACCESSED,
       xpmdl_dirty = x86_flag e DIRTY, xpmdl_size = x86_flag e PSE, xpmdl_global = x86_flag e GLOBAL,
       xpmdl_ignored_2 = take_bit 3 (drop_bit (x86_bit_nr SOFTW1) e), xpmdl_pat = x86_flag e PAT_LARGE,
       xpmdl_reserved_2 = take_bit 8 (drop_bit 1 (ptedit_get_pfn X86_64 e)),
       xpmdl_pfn = take_bit 19 (drop_bit 9 (ptedit_get_pfn X86_64 e)), xpmdl_reserved_1 = drop_bit 28 (ptedit_get_pfn X86_64 e),
       xpmdl_ignored_1 = take_bit 11 (drop_bit 52 e), xpmdl_execution_disabled = x86_flag e NX\<rparr>"
  "cast_pte_x86 e =
      \<lparr>xpte_present = x86_flag e PRESENT, xpte_writeable = x86_flag e RW, xpte_user_access = x86_flag e USER,
       xpte_write_through = x86_flag e PWT, xpte_cache_disabled = x86_flag e PCD, xpte_accessed = x86_flag e ACCESSED,
       xpte_dirty = x86_flag e DIRTY, xpte_size = x86_flag e PAT, xpte_global = x86_flag e GLOBAL,
       xpte_ignored_2 = take_bit 3 (drop_bit (x86_bit_nr SOFTW1) e), xpte_pfn = take_bit 28 (ptedit_get_pfn X86_64 e),
       xpte_reserved_1 = drop_bit 28 (ptedit_get_pfn X86_64 e), xpte_ignored_1 = take_bit 11 (drop_bit 52 e),
       xpte_execution_disabled = x86_flag e NX\<rparr>"
  subgoal by (simp add: cast_pgd_x86_def pgd_x86_layout_def bit_members del: One_nat_def)
  subgoal by (simp add: cast_pmd_large_x86_def pmd_large_x86_layout_def bit_members del: One_nat_def)
  subgoal by (simp add: cast_pte_x86_def pte_x86_layout_def bit_members del: One_nat_def)
  done

lemma cast_members_arm:
  "cast_pte_arm e =
      \<lparr>apte_present = take_bit 2 e, apte_memory_attributes_index = ucast (ptedit_extract_mt AArch64 e),
       apte_non_secure = arm_flag e NON_SECURE, apte_access_permissions = take_bit 2 (drop_bit (arm_bit_nr PERMISSION_BIT0) e),
       apte_shareability_field = take_bit 2 (drop_bit (arm_bit_nr SHARE_BIT0) e), apte_access_flag = arm_flag e ARM_ACCESSED,
       apte_not_global = arm_flag e NOT_GLOBAL, apte_pfn = ptedit_get_pfn AArch64 e, apte_reserved_1 = take_bit 4 (drop_bit 48 e),
       apte_contiguous = arm_flag e CONTIGUOUS, apte_privileged_execute_never = arm_flag e PXN, apte_execute_never = arm_flag e XN,
       apte_ingored_1 = take_bit 4 (drop_bit (arm_bit_nr (ARM_SOFTW 1)) e), apte_ignored_2 = take_bit 5 (drop_bit (arm_bit_nr (ARM_SOFTW 5)) e)\<rparr>"
proof -
  have "take_bit 3 (drop_bit 2 e) = ucast (ptedit_extract_mt AArch64 e)"
    by (rule u64_eqI) (auto simp: bit_simps bit_field_simps mt_bits_def less_Suc_eq eval_nat_numeral)
  then show ?thesis by (simp add: cast_pte_arm_def pte_arm_layout_def bit_members del: One_nat_def)
qed

lemma mt_members:
  "ucast (ptedit_extract_mt X86_64 e) = x86_flag e PWT OR push_bit 1 (x86_flag e PCD) OR push_bit 2 (x86_flag e PAT)"
  "ucast (ptedit_extract_mt_huge X86_64 e) = x86_flag e PWT OR push_bit 1 (x86_flag e PCD) OR push_bit 2 (x86_flag e PAT_LARGE)"
  by (rule u64_eqI; auto simp: x86_flag_def bit_simps bit_field_simps mt_bits_def mt_bits_huge_def less_3)+

lemma set_pfn_slices:
  assumes "p < 2 ^ pfn_width A"
  shows "ptedit_get_pfn A (ptedit_set_pfn A e p) = p"
    and "n < 12 \<or> 12 + pfn_width A \<le> n \<Longrightarrow> bit (ptedit_set_pfn A e p) n = bit e n"
    and "k + n \<le> 12 \<or> 12 + pfn_width A \<le> n \<Longrightarrow> take_bit k (drop_bit n (ptedit_set_pfn A e p)) = take_bit k (drop_bit n e)"
proof -
  have *: "bit p i \<Longrightarrow> i < pfn_width A" for i using pfn_bit_bound [OF assms] .
  then show "ptedit_get_pfn A (ptedit_set_pfn A e p) = p"
    unfolding get_set_pfn_iff by (intro u64_eqI) (auto simp: bit_simps)
  show "n < 12 \<or> 12 + pfn_width A \<le> n \<Longrightarrow> bit (ptedit_set_pfn A e p) n = bit e n"
    by (auto simp: bit_field_simps dest!: * dest: bit_imp_le_length)
  show "k + n \<le> 12 \<or> 12 + pfn_width A \<le> n \<Longrightarrow> take_bit k (drop_bit n (ptedit_set_pfn A e p)) = take_bit k (drop_bit n e)"
    by (rule u64_eqI) (auto simp: bit_simps bit_field_simps dest!: * dest: bit_imp_le_length)
qed

text \<open>
  C28. The two views of an entry agree: the members of the x86 structures for table entries, 2 MB pages and
  PTEs are the bits of those numbers, and \<open>pfn\<close> with the 12 bits above it is the frame number of
  \<open>ptedit_get_pfn\<close> (of which \<open>pfn\<close> alone holds 28 bits, and 19 in the structure for 2 MB pages, without
  the low nine); on AArch64 \<open>pfn\<close> is the whole frame number; the memory-type index of \<open>ptedit_extract_mt\<close> and
  \<open>ptedit_extract_mt_huge\<close> is spelt by the members for it; and \<open>ptedit_set_pfn\<close> changes the members of the
  frame number and no other.
\<close>

theorem members_match_bits:
  assumes "p < 2 ^ pfn_width X86_64" and "q < 2 ^ pfn_width AArch64"
  shows "cast_pgd_x86 e =
      \<lparr>xpgd_present = x86_flag e PRESENT, xpgd_writeable = x86_flag e RW, xpgd_user_access = x86_flag e USER,
       xpgd_write_through = x86_flag e PWT, xpgd_cache_disabled = x86_flag e PCD, xpgd_accessed = x86_flag e ACCESSED,
       xpgd_ignored_3 = x86_flag e DIRTY, xpgd_size = x86_flag e PSE, xpgd_ignored_2 = take_bit 4 (drop_bit (x86_bit_nr GLOBAL) e),
       xpgd_pfn = take_bit 28 (ptedit_get_pfn X86_64 e), xpgd_reserved_1 = drop_bit 28 (ptedit_get_pfn X86_64 e),
       xpgd_ignored_1 = take_bit 11 (drop_bit 52 e), xpgd_execution_disabled = x86_flag e NX\<rparr>
    \<and> cast_pmd_large_x86 e =
      \<lparr>xpmdl_present = x86_flag e PRESENT, xpmdl_writeable = x86_flag e RW, xpmdl_user_access = x86_flag e USER,
       xpmdl_write_through = x86_flag e PWT, xpmdl_cache_disabled = x86_flag e PCD, xpmdl_accessed = x86_flag e ACCESSED,
       xpmdl_dirty = x86_flag e DIRTY, xpmdl_size = x86_flag e PSE, xpmdl_global = x86_flag e GLOBAL,
       xpmdl_ignored_2 = take_bit 3 (drop_bit (x86_bit_nr SOFTW1) e), xpmdl_pat = x86_flag e PAT_LARGE,
       xpmdl_reserved_2 = take_bit 8 (drop_bit 1 (ptedit_get_pfn X86_64 e)),
       xpmdl_pfn = take_bit 19 (drop_bit 9 (ptedit_get_pfn X86_64 e)), xpmdl_reserved_1 = drop_bit 28 (ptedit_get_pfn X86_64 e),
       xpmdl_ignored_1 = take_bit 11 (drop_bit 52 e), xpmdl_execution_disabled = x86_flag e NX\<rparr>
    \<and> cast_pte_x86 e =
      \<lparr>xpte_present = x86_flag e PRESENT, xpte_writeable = x86_flag e RW, xpte_user_access = x86_flag e USER,
       xpte_write_through = x86_flag e PWT, xpte_cache_disabled = x86_flag e PCD, xpte_accessed = x86_flag e ACCESSED,
       xpte_dirty = x86_flag e DIRTY, xpte_size = x86_flag e PAT, xpte_global = x86_flag e GLOBAL,
       xpte_ignored_2 = take_bit 3 (drop_bit (x86_bit_nr SOFTW1) e), xpte_pfn = take_bit 28 (ptedit_get_pfn X86_64 e),
       xpte_reserved_1 = drop_bit 28 (ptedit_get_pfn X86_64 e), xpte_ignored_1 = take_bit 11 (drop_bit 52 e),
       xpte_execution_disabled = x86_flag e NX\<rparr>
    \<and> ucast (ptedit_extract_mt X86_64 e) = xpte_write_through (cast_pte_x86 e)
        OR push_bit 1 (xpte_cache_disabled (cast_pte_x86 e)) OR push_bit 2 (xpte_size (cast_pte_x86 e))
    \<and> ucast (ptedit_extract_mt_huge X86_64 e) = xpmdl_write_through (cast_pmd_large_x86 e)
        OR push_bit 1 (xpmdl_cache_disabled (cast_pmd_large_x86 e)) OR push_bit 2 (xpmdl_pat (cast_pmd_large_x86 e))
    \<and> cast_pte_x86 (ptedit_set_pfn X86_64 e p) = (cast_pte_x86 e)\<lparr>xpte_pfn := take_bit 28 p, xpte_reserved_1 := drop_bit 28 p\<rparr>
    \<and> apte_pfn (cast_pte_arm e) = ptedit_get_pfn AArch64 e
    \<and> apte_memory_attributes_index (cast_pte_arm e) = ucast (ptedit_extract_mt AArch64 e)
    \<and> apte_access_flag (cast_pte_arm e) = arm_flag e ARM_ACCESSED \<and> apte_privileged_execute_never (cast_pte_arm e) = arm_flag e PXN
    \<and> apte_execute_never (cast_pte_arm e) = arm_flag e XN \<and> apte_not_global (cast_pte_arm e) = arm_flag e NOT_GLOBAL
    \<and> cast_pte_arm (ptedit_set_pfn AArch64 e q) = (cast_pte_arm e)\<lparr>apte_pfn := q\<rparr>"
  proof (intro conjI)
  note x = set_pfn_slices [OF assms(1), where e = e] and a = set_pfn_slices [OF assms(2), where e = e]
  show "cast_pte_x86 (ptedit_set_pfn X86_64 e p) = (cast_pte_x86 e)\<lparr>xpte_pfn := take_bit 28 p, xpte_reserved_1 := drop_bit 28 p\<rparr>"
    using x by (simp add: cast_members x86_flag_def pfn_width_def)
  have "ucast (ptedit_extract_mt AArch64 (ptedit_set_pfn AArch64 e q)) = (ucast (ptedit_extract_mt AArch64 e) :: u64)"
    by (rule u64_eqI) (auto simp: bit_simps bit_extract_mt mt_bits_def less_3 a(2))
  then show "cast_pte_arm (ptedit_set_pfn AArch64 e q) = (cast_pte_arm e)\<lparr>apte_pfn := q\<rparr>"
    using a a(3) [where k = 2 and n = 0] by (simp add: cast_members_arm arm_flag_def pfn_width_def)
qed (simp_all add: cast_members cast_members_arm mt_members)

theorem members_match_bits_witness:
  "xpte_pfn (cast_pte_x86 (ptedit_set_pfn X86_64 0x8000000000005067 0x123456789)) = 0x3456789
   \<and> xpte_execution_disabled (cast_pte_x86 (ptedit_set_pfn X86_64 0x8000000000005067 0x123456789)) = 1"
  using members_match_bits [of "0x123456789" 0 "0x8000000000005067"]
  by (simp add: pfn_width_def take_bit_eq_mask mask_numeral x86_flag_def bit_numeral_rec)

end
