(* ===== verification/PT_Library.thy ===== *)
theory PT_Library
  imports PT_Linux PT_Fields
begin

text \<open>
  The user library on Linux, \<open>ptedit.c\<close>, on top of the kernel module: opening the device, the three
  ways to resolve and update an address (requests to the module, physical memory through
  \<open>pread\<close>/\<open>pwrite\<close>, physical memory mapped into the process), physical pages, paging roots, TLB
  invalidation and mapping of physical memory.  The state extends the state of the machine and the
  module by the static variables of the library, the descriptors of the process and its mappings of
  physical memory.  A call through a null function pointer and an access outside the mappings are the
  value \<open>None\<close>.
\<close>

section \<open>What the library uses of the operating system\<close>

datatype file_kind = F_device | F_umem | F_other

record os =
  os_kernel :: linux
  os_pread :: "file_kind \<Rightarrow> mem \<Rightarrow> u64 \<Rightarrow> nat \<Rightarrow> u8 list option"
  os_pwrite :: "file_kind \<Rightarrow> mem \<Rightarrow> u64 \<Rightarrow> u8 list \<Rightarrow> mem option"
  os_mmap :: "file_kind \<Rightarrow> (u64 \<times> u64 \<times> u64) list \<Rightarrow> u64 \<Rightarrow> u64 \<Rightarrow> u64 option"
  os_pagesize :: nat

section \<open>The state of the library\<close>

record ptedit_paging_definition_t =
  has_pgd :: bool
  has_p4d :: bool
  has_pud :: bool
  has_pmd :: bool
  has_pt :: bool
  pgd_entries :: nat
  p4d_entries :: nat
  pud_entries :: nat
  pmd_entries :: nat
  pt_entries :: nat
  page_offset :: nat

datatype resolve_fn = Resolve_null | Resolve_kernel | Resolve_user | Resolve_user_map
datatype update_fn = Update_null | Update_kernel | Update_user | Update_user_map

record sys = kstate +
  fd_table :: "(int \<times> file_kind) list"
  mappings :: "(u64 \<times> u64 \<times> u64) list"
  ptedit_fd :: int
  ptedit_umem :: int
  ptedit_pagesize :: nat
  ptedit_pfn_multiply :: u64
  ptedit_entry_size :: u64
  ptedit_paging_root :: u64
  ptedit_vmem :: u64
  ptedit_paging_definition :: ptedit_paging_definition_t
  ptedit_resolve_ptr :: resolve_fn
  ptedit_update_ptr :: update_fn

definition zero_definition :: ptedit_paging_definition_t where
  "zero_definition =
     \<lparr>has_pgd = False, has_p4d = False, has_pud = False, has_pmd = False, has_pt = False,
      pgd_entries = 0, p4d_entries = 0, pud_entries = 0, pmd_entries = 0, pt_entries = 0, page_offset = 0\<rparr>"

text \<open>The program starts with the three standard descriptors and zero-initialised statics.\<close>

definition start_sys :: "kstate \<Rightarrow> sys" where
  "start_sys k =
     kstate.extend k
       \<lparr>fd_table = [(0, F_other), (1, F_other), (2, F_other)], mappings = [],
        ptedit_fd = 0, ptedit_umem = 0, ptedit_pagesize = 0, ptedit_pfn_multiply = 4096,
        ptedit_entry_size = 8, ptedit_paging_root = 0, ptedit_vmem = 0,
        ptedit_paging_definition = zero_definition,
        ptedit_resolve_ptr = Resolve_null, ptedit_update_ptr = Update_null\<rparr>"

section \<open>System calls\<close>

definition fd_file :: "int \<Rightarrow> sys \<Rightarrow> file_kind option" where
  "fd_file fd s = map_of (fd_table s) fd"

text \<open>\<open>open\<close> uses the lowest free descriptor.\<close>

definition lowest_fd :: "(int \<times> file_kind) list \<Rightarrow> int" where
  "lowest_fd t = hd (filter (\<lambda>n. n \<notin> set (map fst t)) (map int [0..<Suc (length t)]))"

definition open_device :: "sys \<Rightarrow> int \<times> sys" where
  "open_device s =
     (if \<not> misc_registered s then (- 1, s)
      else
        let (r, s) = device_open s in
        if r < 0 then (- 1, s)
        else
          let fd = lowest_fd (fd_table s) in (fd, s\<lparr>fd_table := (fd, F_device) # fd_table s\<rparr>))"

definition open_umem_file :: "sys \<Rightarrow> int \<times> sys" where
  "open_umem_file s =
     (if \<not> proc_umem s then (- 1, s)
      else let fd = lowest_fd (fd_table s) in (fd, s\<lparr>fd_table := (fd, F_umem) # fd_table s\<rparr>))"

definition close_fd :: "int \<Rightarrow> sys \<Rightarrow> sys" where
  "close_fd fd s =
     (case fd_file fd s of
        None \<Rightarrow> s
      | Some f \<Rightarrow>
          (let s = s\<lparr>fd_table := filter (\<lambda>(n, f). n \<noteq> fd) (fd_table s)\<rparr>
           in if f = F_device then snd (device_release s) else s))"

definition ioctl :: "os \<Rightarrow> int \<Rightarrow> ioctl_req \<Rightarrow> sys \<Rightarrow> int \<times> ioctl_out \<times> sys" where
  "ioctl OS fd req s =
     (if fd_file fd s = Some F_device then device_ioctl (os_kernel OS) req s else (- 1, Out_none, s))"

definition pread :: "os \<Rightarrow> int \<Rightarrow> u64 \<Rightarrow> nat \<Rightarrow> sys \<Rightarrow> u8 list option" where
  "pread OS fd off n s =
     (case fd_file fd s of None \<Rightarrow> None | Some f \<Rightarrow> os_pread OS f (phys s) off n)"

definition pwrite :: "os \<Rightarrow> int \<Rightarrow> u64 \<Rightarrow> u8 list \<Rightarrow> sys \<Rightarrow> sys option" where
  "pwrite OS fd off bs s =
     (case fd_file fd s of
        None \<Rightarrow> None
      | Some f \<Rightarrow> map_option (\<lambda>m. s\<lparr>phys := m\<rparr>) (os_pwrite OS f (phys s) off bs))"

definition mmap :: "os \<Rightarrow> int \<Rightarrow> u64 \<Rightarrow> u64 \<Rightarrow> sys \<Rightarrow> u64 \<times> sys" where
  "mmap OS fd len off s =
     (case Option.bind (fd_file fd s) (\<lambda>f. os_mmap OS f (mappings s) len off) of
        None \<Rightarrow> (- 1, s)
      | Some base \<Rightarrow> (base, s\<lparr>mappings := (base, len, off) # mappings s\<rparr>))"

text \<open>
  An access of the process to \<open>n\<close> bytes at \<open>p\<close>, where it falls into one of the mappings of physical
  memory: the physical address it reaches.
\<close>

definition in_mapping :: "u64 \<Rightarrow> nat \<Rightarrow> u64 \<times> u64 \<times> u64 \<Rightarrow> bool" where
  "in_mapping p n r = (case r of (base, len, off) \<Rightarrow> unat (p - base) + n \<le> unat len)"

definition mapped :: "u64 \<Rightarrow> nat \<Rightarrow> sys \<Rightarrow> u64 option" where
  "mapped p n s =
     map_option (\<lambda>(base, len, off). off + (p - base)) (find (in_mapping p n) (mappings s))"

definition user_load64 :: "u64 \<Rightarrow> sys \<Rightarrow> u64 option" where
  "user_load64 p s = map_option (load64 (phys s)) (mapped p 8 s)"

definition user_store64 :: "u64 \<Rightarrow> u64 \<Rightarrow> sys \<Rightarrow> sys option" where
  "user_store64 p v s = map_option (\<lambda>a. s\<lparr>phys := store64 (phys s) a v\<rparr>) (mapped p 8 s)"

section \<open>Requests to the module\<close>

definition ptedit_get_paging_root :: "os \<Rightarrow> i32 \<Rightarrow> sys \<Rightarrow> u64 \<times> sys" where
  "ptedit_get_paging_root OS proc s =
     (let cr3 = \<lparr>paging_pid = size_of_int proc, paging_root = 0\<rparr>;
          (r, out, s) = ioctl OS (ptedit_fd s) (CMD_GET_ROOT cr3) s;
          cr3 = (case out of Out_paging g \<Rightarrow> g | _ \<Rightarrow> cr3)
      in (paging_root cr3, s))"

definition ptedit_set_paging_root :: "os \<Rightarrow> i32 \<Rightarrow> u64 \<Rightarrow> sys \<Rightarrow> sys" where
  "ptedit_set_paging_root OS proc root s =
     (let cr3 = \<lparr>paging_pid = size_of_int proc, paging_root = root\<rparr>
      in snd (snd (ioctl OS (ptedit_fd s) (CMD_SET_ROOT cr3) s)))"

definition ptedit_invalidate_tlb_pid :: "os \<Rightarrow> i32 \<Rightarrow> u64 \<Rightarrow> sys \<Rightarrow> sys" where
  "ptedit_invalidate_tlb_pid OS proc address s =
     snd (snd (ioctl OS (ptedit_fd s) (CMD_INVALIDATE_TLB_PID \<lparr>args_pid = proc, args_address = address\<rparr>) s))"

definition ptedit_invalidate_tlb :: "os \<Rightarrow> u64 \<Rightarrow> sys \<Rightarrow> sys" where
  "ptedit_invalidate_tlb OS address s =
     snd (snd (ioctl OS (ptedit_fd s) (CMD_INVALIDATE_TLB address) s))"

definition ptedit_switch_tlb_invalidation :: "os \<Rightarrow> i32 \<Rightarrow> sys \<Rightarrow> int \<times> sys" where
  "ptedit_switch_tlb_invalidation OS implementation s =
     (let (r, out, s) = ioctl OS (ptedit_fd s) (CMD_SWITCH_TLB_INVALIDATION (size_of_int implementation)) s
      in (r, s))"

definition ptedit_get_pagesize :: "os \<Rightarrow> sys \<Rightarrow> int" where
  "ptedit_get_pagesize OS s = fst (ioctl OS (ptedit_fd s) CMD_GET_PAGESIZE s)"

text \<open>The two fences of the barrier order memory accesses and do not change the state of the model.\<close>

definition ptedit_full_serializing_barrier :: "os \<Rightarrow> sys \<Rightarrow> sys" where
  "ptedit_full_serializing_barrier OS s =
     (let (root, s) = ptedit_get_paging_root OS 0 s in ptedit_set_paging_root OS 0 root s)"

section \<open>Physical memory\<close>

definition ptedit_phys_read_map :: "os \<Rightarrow> u64 \<Rightarrow> sys \<Rightarrow> u64 option" where
  "ptedit_phys_read_map OS address s = user_load64 (ptedit_vmem s + address) s"

definition ptedit_phys_write_map :: "os \<Rightarrow> u64 \<Rightarrow> u64 \<Rightarrow> sys \<Rightarrow> sys option" where
  "ptedit_phys_write_map OS address value s = user_store64 (ptedit_vmem s + address) value s"

text \<open>\<open>val\<close> starts as 0, so a short read fills its low bytes only.\<close>

definition ptedit_phys_read_pread :: "os \<Rightarrow> u64 \<Rightarrow> sys \<Rightarrow> u64 option" where
  "ptedit_phys_read_pread OS address s =
     Some (case pread OS (ptedit_umem s) address 8 s of None \<Rightarrow> 0 | Some bs \<Rightarrow> le64 bs)"

definition ptedit_phys_write_pwrite :: "os \<Rightarrow> u64 \<Rightarrow> u64 \<Rightarrow> sys \<Rightarrow> sys option" where
  "ptedit_phys_write_pwrite OS address value s =
     Some (case pwrite OS (ptedit_umem s) address (bytes64 value) s of None \<Rightarrow> s | Some t \<Rightarrow> t)"

definition ptedit_read_physical_page :: "os \<Rightarrow> u64 \<Rightarrow> u8 list \<Rightarrow> sys \<Rightarrow> u8 list \<times> sys" where
  "ptedit_read_physical_page OS pfn buffer s =
     (if 0 < ptedit_umem s then
        (case pread OS (ptedit_umem s) (pfn * of_nat (ptedit_pagesize s)) (ptedit_pagesize s) s of
           None \<Rightarrow> (buffer, s)
         | Some bs \<Rightarrow> (bs @ drop (length bs) buffer, s))
      else
        let page = \<lparr>page_pfn = pfn, page_vaddr = 0, page_size = 0, page_buffer = buffer\<rparr>;
            (r, out, s) = ioctl OS (ptedit_fd s) (CMD_READ_PAGE page) s
        in (case out of Out_bytes bs \<Rightarrow> (bs @ drop (length bs) buffer, s) | _ \<Rightarrow> (buffer, s)))"

definition ptedit_write_physical_page :: "os \<Rightarrow> u64 \<Rightarrow> u8 list \<Rightarrow> sys \<Rightarrow> sys" where
  "ptedit_write_physical_page OS pfn content s =
     (if 0 < ptedit_umem s then
        (case pwrite OS (ptedit_umem s) (pfn * of_nat (ptedit_pagesize s)) (take (ptedit_pagesize s) content) s of
           None \<Rightarrow> s
         | Some t \<Rightarrow> t)
      else
        let page = \<lparr>page_pfn = pfn, page_vaddr = 0, page_size = 0, page_buffer = content\<rparr>
        in snd (snd (ioctl OS (ptedit_fd s) (CMD_WRITE_PAGE page) s)))"

definition ptedit_pmap :: "os \<Rightarrow> u64 \<Rightarrow> u64 \<Rightarrow> sys \<Rightarrow> u64 \<times> sys" where
  "ptedit_pmap OS physical len s =
     (let ps = of_nat (ptedit_pagesize s);
          (m, s) = mmap OS (ptedit_umem s) (len + physical mod ps) (physical div ps * ps) s
      in (m + physical mod ps, s))"

section \<open>Resolving an address\<close>

definition ptedit_resolve_kernel :: "os \<Rightarrow> u64 \<Rightarrow> i32 \<Rightarrow> sys \<Rightarrow> (ptedit_entry_t \<times> sys) option" where
  "ptedit_resolve_kernel OS address proc s =
     (let vm = zero_entry\<lparr>vaddr := address, pid := size_of_int proc\<rparr>;
          (r, out, s) = ioctl OS (ptedit_fd s) (CMD_VM_RESOLVE vm) s
      in Some (case out of Out_entry e \<Rightarrow> e | _ \<Rightarrow> vm, s))"

text \<open>
  The index of an address into the table of each level.  The walk keeps the indices in \<open>int\<close>
  variables and the update in \<open>size_t\<close> variables.
\<close>

definition level_shift :: "ptedit_paging_definition_t \<Rightarrow> level \<Rightarrow> nat" where
  "level_shift D l =
     (case l of
        PGD \<Rightarrow> page_offset D + pt_entries D + pmd_entries D + pud_entries D + p4d_entries D
      | P4D \<Rightarrow> page_offset D + pt_entries D + pmd_entries D + pud_entries D
      | PUD \<Rightarrow> page_offset D + pt_entries D + pmd_entries D
      | PMD \<Rightarrow> page_offset D + pt_entries D
      | PTE \<Rightarrow> page_offset D)"

definition level_entries :: "ptedit_paging_definition_t \<Rightarrow> level \<Rightarrow> nat" where
  "level_entries D l =
     (case l of PGD \<Rightarrow> pgd_entries D | P4D \<Rightarrow> p4d_entries D | PUD \<Rightarrow> pud_entries D
      | PMD \<Rightarrow> pmd_entries D | PTE \<Rightarrow> pt_entries D)"

definition level_index :: "ptedit_paging_definition_t \<Rightarrow> level \<Rightarrow> u64 \<Rightarrow> u64" where
  "level_index D l addr = drop_bit (level_shift D l) addr mod ull_bit (level_entries D l)"

definition level_index_int :: "ptedit_paging_definition_t \<Rightarrow> level \<Rightarrow> u64 \<Rightarrow> i32" where
  "level_index_int D l addr = ucast (level_index D l addr)"

type_synonym deref_fn = "u64 \<Rightarrow> sys \<Rightarrow> u64 option"
type_synonym pset_fn = "u64 \<Rightarrow> u64 \<Rightarrow> sys \<Rightarrow> sys option"

text \<open>The entry of the next table, at the index of level \<open>l\<close>.\<close>

definition next_entry :: "arch \<Rightarrow> deref_fn \<Rightarrow> level \<Rightarrow> u64 \<Rightarrow> u64 \<Rightarrow> sys \<Rightarrow> u64 option" where
  "next_entry A deref l addr entry s =
     deref (cast_pfn A entry * ptedit_pfn_multiply s
            + size_of_int (level_index_int (ptedit_paging_definition s) l addr) * ptedit_entry_size s) s"

definition resolve_user_pt :: "arch \<Rightarrow> deref_fn \<Rightarrow> u64 \<Rightarrow> u64 \<Rightarrow> ptedit_entry_t \<Rightarrow> sys \<Rightarrow> ptedit_entry_t option" where
  "resolve_user_pt A deref addr pmd_entry resolved s =
     (if A = X86_64 \<and> cast_size pmd_entry \<noteq> 0 then Some resolved
      else do {
        pt_entry \<leftarrow> next_entry A deref PTE addr pmd_entry s;
        Some (resolved\<lparr>pte := pt_entry, valid := valid resolved OR valid_mask PTE\<rparr>)
      })"

definition resolve_user_pmd :: "arch \<Rightarrow> deref_fn \<Rightarrow> u64 \<Rightarrow> u64 \<Rightarrow> ptedit_entry_t \<Rightarrow> sys \<Rightarrow> ptedit_entry_t option" where
  "resolve_user_pmd A deref addr pud_entry resolved s = do {
     (pmd_entry, resolved) \<leftarrow>
       (if has_pmd (ptedit_paging_definition s) then do {
          e \<leftarrow> next_entry A deref PMD addr pud_entry s;
          Some (e, resolved\<lparr>valid := valid resolved OR valid_mask PMD\<rparr>)
        } else Some (pud_entry, resolved));
     let resolved = resolved\<lparr>pmd := pmd_entry\<rparr> in
     if cast_present A pmd_entry \<noteq> PTEDIT_PAGE_PRESENT A then Some resolved
     else resolve_user_pt A deref addr pmd_entry resolved s
   }"

definition resolve_user_pud :: "arch \<Rightarrow> deref_fn \<Rightarrow> u64 \<Rightarrow> u64 \<Rightarrow> ptedit_entry_t \<Rightarrow> sys \<Rightarrow> ptedit_entry_t option" where
  "resolve_user_pud A deref addr p4d_entry resolved s = do {
     (pud_entry, resolved) \<leftarrow>
       (if has_pud (ptedit_paging_definition s) then do {
          e \<leftarrow> next_entry A deref PUD addr p4d_entry s;
          Some (e, resolved\<lparr>valid := valid resolved OR valid_mask PUD\<rparr>)
        } else Some (p4d_entry, resolved));
     let resolved = resolved\<lparr>pud := pud_entry\<rparr> in
     if cast_present A pud_entry \<noteq> PTEDIT_PAGE_PRESENT A then Some resolved
     else resolve_user_pmd A deref addr pud_entry resolved s
   }"

definition resolve_user_p4d :: "arch \<Rightarrow> deref_fn \<Rightarrow> u64 \<Rightarrow> u64 \<Rightarrow> ptedit_entry_t \<Rightarrow> sys \<Rightarrow> ptedit_entry_t option" where
  "resolve_user_p4d A deref addr pgd_entry resolved s = do {
     (p4d_entry, resolved) \<leftarrow>
       (if has_p4d (ptedit_paging_definition s) then do {
          e \<leftarrow> next_entry A deref P4D addr pgd_entry s;
          Some (e, resolved\<lparr>valid := valid resolved OR valid_mask P4D\<rparr>)
        } else Some (pgd_entry, resolved));
     let resolved = resolved\<lparr>p4d := p4d_entry\<rparr> in
     if cast_present A p4d_entry \<noteq> PTEDIT_PAGE_PRESENT A then Some resolved
     else resolve_user_pud A deref addr p4d_entry resolved s
   }"

text \<open>The paging root the user-space implementations start from.\<close>

definition user_root :: "os \<Rightarrow> i32 \<Rightarrow> sys \<Rightarrow> u64 \<times> sys" where
  "user_root OS proc s =
     (let (root, s) = (if proc = 0 then (ptedit_paging_root s, s) else ptedit_get_paging_root OS proc s)
      in (root AND size_of_int (NOT 1), s))"

definition ptedit_resolve_user_ext ::
  "os \<Rightarrow> u64 \<Rightarrow> i32 \<Rightarrow> deref_fn \<Rightarrow> sys \<Rightarrow> (ptedit_entry_t \<times> sys) option" where
  "ptedit_resolve_user_ext OS address proc deref s =
     (let A = cfg_arch (os_kernel OS);
          (root, s) = user_root OS proc s;
          resolved = zero_entry\<lparr>vaddr := address, pid := size_of_int proc, valid := 0\<rparr> in
      if root = 0 then Some (resolved, s)
      else do {
        pgd_entry \<leftarrow> deref (root + size_of_int (level_index_int (ptedit_paging_definition s) PGD address)
                                * ptedit_entry_size s) s;
        if cast_present A pgd_entry \<noteq> PTEDIT_PAGE_PRESENT A then Some (resolved, s)
        else do {
          e \<leftarrow> resolve_user_p4d A deref address pgd_entry
                (resolved\<lparr>pgd := pgd_entry, valid := valid resolved OR valid_mask PGD\<rparr>) s;
          Some (e, s)
        }
      })"

definition ptedit_resolve_user :: "os \<Rightarrow> u64 \<Rightarrow> i32 \<Rightarrow> sys \<Rightarrow> (ptedit_entry_t \<times> sys) option" where
  "ptedit_resolve_user OS address proc = ptedit_resolve_user_ext OS address proc (ptedit_phys_read_pread OS)"

definition ptedit_resolve_user_map :: "os \<Rightarrow> u64 \<Rightarrow> i32 \<Rightarrow> sys \<Rightarrow> (ptedit_entry_t \<times> sys) option" where
  "ptedit_resolve_user_map OS address proc = ptedit_resolve_user_ext OS address proc (ptedit_phys_read_map OS)"

text \<open>The call through the function pointer \<open>ptedit_resolve\<close>.\<close>

definition ptedit_resolve :: "os \<Rightarrow> u64 \<Rightarrow> i32 \<Rightarrow> sys \<Rightarrow> (ptedit_entry_t \<times> sys) option" where
  "ptedit_resolve OS address proc s =
     (case ptedit_resolve_ptr s of
        Resolve_null \<Rightarrow> None
      | Resolve_kernel \<Rightarrow> ptedit_resolve_kernel OS address proc s
      | Resolve_user \<Rightarrow> ptedit_resolve_user OS address proc s
      | Resolve_user_map \<Rightarrow> ptedit_resolve_user_map OS address proc s)"

section \<open>Updating an address\<close>

definition ptedit_update_kernel ::
  "os \<Rightarrow> u64 \<Rightarrow> i32 \<Rightarrow> ptedit_entry_t \<Rightarrow> sys \<Rightarrow> (ptedit_entry_t \<times> sys) option" where
  "ptedit_update_kernel OS address proc vm s =
     (let vm = vm\<lparr>vaddr := address, pid := size_of_int proc\<rparr>
      in Some (vm, snd (snd (ioctl OS (ptedit_fd s) (CMD_VM_UPDATE vm) s))))"

text \<open>
  One of the conditional writes of \<open>ptedit_update_user_ext\<close>: to the table that the entry \<open>parent\<close> of
  the current mapping points to.
\<close>

definition update_user_level ::
  "arch \<Rightarrow> pset_fn \<Rightarrow> level \<Rightarrow> bool \<Rightarrow> u64 \<Rightarrow> ptedit_entry_t \<Rightarrow> ptedit_entry_t \<Rightarrow> u64 \<Rightarrow> sys \<Rightarrow> sys option" where
  "update_user_level A pset l has address vm current parent s =
     (if has_valid (valid vm) l \<and> has_valid (valid current) l \<and> has then
        pset (cast_pfn A parent * ptedit_pfn_multiply s
              + level_index (ptedit_paging_definition s) l address * ptedit_entry_size s) (entry_of l vm) s
      else Some s)"

definition ptedit_update_user_ext ::
  "os \<Rightarrow> u64 \<Rightarrow> i32 \<Rightarrow> ptedit_entry_t \<Rightarrow> pset_fn \<Rightarrow> sys \<Rightarrow> sys option" where
  "ptedit_update_user_ext OS address proc vm pset s = do {
     (current, s) \<leftarrow> ptedit_resolve OS address proc s;
     let A = cfg_arch (os_kernel OS);
     let D = ptedit_paging_definition s;
     let (root, s) = user_root OS proc s;
     if root = 0 then Some s
     else do {
       s \<leftarrow> update_user_level A pset PTE True address vm current (pmd current) s;
       s \<leftarrow> update_user_level A pset PMD (has_pmd D) address vm current (pud current) s;
       s \<leftarrow> update_user_level A pset PUD (has_pud D) address vm current (p4d current) s;
       s \<leftarrow> update_user_level A pset P4D (has_p4d D) address vm current (pgd current) s;
       s \<leftarrow> (if has_valid (valid vm) PGD \<and> has_valid (valid current) PGD \<and> has_pgd D then
               pset (root + level_index D PGD address * ptedit_entry_size s) (pgd vm) s
             else Some s);
       Some (ptedit_invalidate_tlb_pid OS proc address s)
     }
   }"

definition ptedit_update_user ::
  "os \<Rightarrow> u64 \<Rightarrow> i32 \<Rightarrow> ptedit_entry_t \<Rightarrow> sys \<Rightarrow> (ptedit_entry_t \<times> sys) option" where
  "ptedit_update_user OS address proc vm s = do {
     s \<leftarrow> ptedit_update_user_ext OS address proc vm (ptedit_phys_write_pwrite OS) s;
     Some (vm, ptedit_invalidate_tlb_pid OS proc address s)
   }"

definition ptedit_update_user_map ::
  "os \<Rightarrow> u64 \<Rightarrow> i32 \<Rightarrow> ptedit_entry_t \<Rightarrow> sys \<Rightarrow> (ptedit_entry_t \<times> sys) option" where
  "ptedit_update_user_map OS address proc vm s = do {
     s \<leftarrow> ptedit_update_user_ext OS address proc vm (ptedit_phys_write_map OS) s;
     Some (vm, ptedit_invalidate_tlb_pid OS proc address s)
   }"

definition ptedit_update ::
  "os \<Rightarrow> u64 \<Rightarrow> i32 \<Rightarrow> ptedit_entry_t \<Rightarrow> sys \<Rightarrow> (ptedit_entry_t \<times> sys) option" where
  "ptedit_update OS address proc vm s =
     (case ptedit_update_ptr s of
        Update_null \<Rightarrow> None
      | Update_kernel \<Rightarrow> ptedit_update_kernel OS address proc vm s
      | Update_user \<Rightarrow> ptedit_update_user OS address proc vm s
      | Update_user_map \<Rightarrow> ptedit_update_user_map OS address proc vm s)"

section \<open>Starting and stopping\<close>

definition PTEDIT_IMPL_KERNEL :: int where "PTEDIT_IMPL_KERNEL = 0"
definition PTEDIT_IMPL_USER_PREAD :: int where "PTEDIT_IMPL_USER_PREAD = 1"
definition PTEDIT_IMPL_USER :: int where "PTEDIT_IMPL_USER = 2"

definition ptedit_use_implementation :: "os \<Rightarrow> int \<Rightarrow> sys \<Rightarrow> sys" where
  "ptedit_use_implementation OS implementation s =
     (if implementation = PTEDIT_IMPL_KERNEL then
        s\<lparr>ptedit_resolve_ptr := Resolve_kernel, ptedit_update_ptr := Update_kernel\<rparr>
      else if implementation = PTEDIT_IMPL_USER_PREAD then
        let s = s\<lparr>ptedit_resolve_ptr := Resolve_user, ptedit_update_ptr := Update_user\<rparr>;
            (root, s) = ptedit_get_paging_root OS 0 s
        in s\<lparr>ptedit_paging_root := root\<rparr>
      else if implementation = PTEDIT_IMPL_USER then
        let s = s\<lparr>ptedit_resolve_ptr := Resolve_user_map, ptedit_update_ptr := Update_user_map\<rparr>;
            (root, s) = ptedit_get_paging_root OS 0 s;
            s = s\<lparr>ptedit_paging_root := root\<rparr>
        in if ptedit_vmem s = 0 then
             let (m, s) = mmap OS (ptedit_umem s) (push_bit 30 32) 0 s in s\<lparr>ptedit_vmem := m\<rparr>
           else s
      else s)"

definition x86_definition :: ptedit_paging_definition_t where
  "x86_definition =
     \<lparr>has_pgd = True, has_p4d = False, has_pud = True, has_pmd = True, has_pt = True,
      pgd_entries = 9, p4d_entries = 0, pud_entries = 9, pmd_entries = 9, pt_entries = 9, page_offset = 12\<rparr>"

definition arm_16k_definition :: ptedit_paging_definition_t where
  "arm_16k_definition =
     \<lparr>has_pgd = True, has_p4d = False, has_pud = True, has_pmd = True, has_pt = True,
      pgd_entries = 11, p4d_entries = 0, pud_entries = 11, pmd_entries = 11, pt_entries = 11, page_offset = 14\<rparr>"

definition arm_4k_definition :: ptedit_paging_definition_t where
  "arm_4k_definition =
     \<lparr>has_pgd = True, has_p4d = False, has_pud = False, has_pmd = True, has_pt = True,
      pgd_entries = 9, p4d_entries = 0, pud_entries = 0, pmd_entries = 9, pt_entries = 9, page_offset = 12\<rparr>"

definition ptedit_init :: "os \<Rightarrow> sys \<Rightarrow> int \<times> sys" where
  "ptedit_init OS s =
     (let A = cfg_arch (os_kernel OS);
          (fd, s) = open_device s;
          s = s\<lparr>ptedit_fd := fd\<rparr> in
      if fd < 0 then (- 1, s)
      else
        let (um, s) = (case A of X86_64 \<Rightarrow> open_umem_file s | AArch64 \<Rightarrow> (0, s));
            s = s\<lparr>ptedit_umem := um\<rparr>;
            s = ptedit_use_implementation OS PTEDIT_IMPL_KERNEL s;
            s = s\<lparr>ptedit_pagesize := os_pagesize OS\<rparr>;
            s = (case A of
                   X86_64 \<Rightarrow> s\<lparr>ptedit_paging_definition := x86_definition\<rparr>
                 | AArch64 \<Rightarrow>
                     if ptedit_get_pagesize OS s = 16384 then
                       ptedit_use_implementation OS PTEDIT_IMPL_USER_PREAD
                         (s\<lparr>ptedit_paging_definition := arm_16k_definition\<rparr>)
                     else s\<lparr>ptedit_paging_definition := arm_4k_definition\<rparr>)
        in (0, s))"

definition ptedit_cleanup :: "sys \<Rightarrow> sys" where
  "ptedit_cleanup s =
     (let s = (if 0 \<le> ptedit_fd s then close_fd (ptedit_fd s) s else s)
      in if 0 < ptedit_umem s then close_fd (ptedit_umem s) s else s)"

section \<open>Operations on the entry of an address\<close>

text \<open>A shift of \<open>1ull\<close> by a bit number outside 0 to 63 is undefined.\<close>

definition ptedit_pte_set_bit :: "os \<Rightarrow> u64 \<Rightarrow> i32 \<Rightarrow> int \<Rightarrow> sys \<Rightarrow> sys option" where
  "ptedit_pte_set_bit OS address proc nr s = do {
     (vm, s) \<leftarrow> ptedit_resolve OS address proc s;
     if \<not> has_valid (valid vm) PTE then Some s
     else do {
       b \<leftarrow> c_shl_ull 1 nr;
       (vm, s) \<leftarrow> ptedit_update OS address proc (vm\<lparr>pte := pte vm OR b, valid := valid_mask PTE\<rparr>) s;
       Some s
     }
   }"

definition ptedit_pte_clear_bit :: "os \<Rightarrow> u64 \<Rightarrow> i32 \<Rightarrow> int \<Rightarrow> sys \<Rightarrow> sys option" where
  "ptedit_pte_clear_bit OS address proc nr s = do {
     (vm, s) \<leftarrow> ptedit_resolve OS address proc s;
     if \<not> has_valid (valid vm) PTE then Some s
     else do {
       b \<leftarrow> c_shl_ull 1 nr;
       (vm, s) \<leftarrow> ptedit_update OS address proc (vm\<lparr>pte := pte vm AND NOT b, valid := valid_mask PTE\<rparr>) s;
       Some s
     }
   }"

definition ptedit_pte_get_bit :: "os \<Rightarrow> u64 \<Rightarrow> i32 \<Rightarrow> int \<Rightarrow> sys \<Rightarrow> (bool \<times> sys) option" where
  "ptedit_pte_get_bit OS address proc nr s = do {
     (vm, s) \<leftarrow> ptedit_resolve OS address proc s;
     b \<leftarrow> c_shl_ull 1 nr;
     Some (pte vm AND b \<noteq> 0, s)
   }"

definition ptedit_pte_get_pfn :: "os \<Rightarrow> u64 \<Rightarrow> i32 \<Rightarrow> sys \<Rightarrow> (u64 \<times> sys) option" where
  "ptedit_pte_get_pfn OS address proc s = do {
     (vm, s) \<leftarrow> ptedit_resolve OS address proc s;
     Some (if has_valid (valid vm) PTE then ptedit_get_pfn (cfg_arch (os_kernel OS)) (pte vm) else 0, s)
   }"

definition ptedit_pte_set_pfn :: "os \<Rightarrow> u64 \<Rightarrow> i32 \<Rightarrow> u64 \<Rightarrow> sys \<Rightarrow> sys option" where
  "ptedit_pte_set_pfn OS address proc pfn s = do {
     (vm, s) \<leftarrow> ptedit_resolve OS address proc s;
     if \<not> has_valid (valid vm) PTE then Some s
     else do {
       (vm, s) \<leftarrow> ptedit_update OS address proc
         (vm\<lparr>pte := ptedit_set_pfn (cfg_arch (os_kernel OS)) (pte vm) pfn, valid := valid_mask PTE\<rparr>) s;
       Some s
     }
   }"

end
