(* ===== verification/PT_Sample.thy ===== *)
theory PT_Sample
  imports PT_Library
begin

text \<open>
  A concrete kernel and a concrete machine on which the theorems are exercised: an x86-64 kernel with
  four-level paging (the P4D level folded into the PGD), a direct map of physical memory, one current
  process and one other process.  Nothing here models code of the repository.
\<close>

definition direct_map :: u64 where
  "direct_map = 0xffff888000000000"

definition table_ptr :: "mem \<Rightarrow> u64 \<Rightarrow> u64 \<Rightarrow> nat \<Rightarrow> u64" where
  "table_ptr m p addr sh =
     (load64 m (p - direct_map) AND 0x000ffffffffff000) + direct_map + 8 * (drop_bit sh addr AND 511)"

definition sample_linux :: linux where
  "sample_linux =
    \<lparr>cfg_arch = X86_64, cfg_4_11 = True, current_mm = Some 3, current_active_mm = 3, current_nr = 17,
     find_vpid = (\<lambda>p. if p = 17 then Some 17 else if p = 42 then Some 42 else None),
     pid_task = (\<lambda>v. if v = 17 then Some \<lparr>task_mm = Some 3, task_active_mm = Some 3\<rparr>
                     else if v = 42 then Some \<lparr>task_mm = Some 7, task_active_mm = Some 7\<rparr> else None),
     phys_to_virt = (\<lambda>p. p + direct_map), virt_to_phys = (\<lambda>v. v - direct_map),
     pgd_offset = (\<lambda>base addr. base + 8 * (drop_bit 39 addr AND 511)),
     p4d_offset = (\<lambda>m p addr. p),
     pud_offset = (\<lambda>m p addr. table_ptr m p addr 30),
     pmd_offset = (\<lambda>m p addr. table_ptr m p addr 21),
     pte_offset = (\<lambda>m p addr. Some (table_ptr m p addr 12)),
     pgd_none = (\<lambda>v. False), pgd_bad = (\<lambda>v. False),
     p4d_none = (\<lambda>v. v = 0), p4d_bad = (\<lambda>v. \<not> bit v 0),
     pud_none = (\<lambda>v. v = 0), pud_leaf = (\<lambda>v. bit v 0 \<and> bit v 7),
     pmd_none = (\<lambda>v. v = 0), pmd_leaf = (\<lambda>v. bit v 7),
     set_pgd = (\<lambda>m p v. store64 m (p - direct_map) v), set_p4d = (\<lambda>m p v. store64 m (p - direct_map) v),
     set_pud = (\<lambda>m p v. store64 m (p - direct_map) v), set_pmd = (\<lambda>m p v. store64 m (p - direct_map) v),
     set_pte = (\<lambda>m p v. store64 m (p - direct_map) v),
     find_vma = (\<lambda>mm a. Some 0), ttbr0_el1 = 0, this_cpu = 0\<rparr>"

definition sample_boot :: boot where
  "sample_boot =
    \<lparr>kprobe_lookup = True, kallsyms_addr = 0xffffffff81000000, misc_register_ret = 0,
     kallsyms_lookup = (\<lambda>name. 0xffffffff81000000), tcr_el1 = 0, kretprobe_ret = 0\<rparr>"

text \<open>
  The tables of the current process: PGD at frame 1, PUD at frame 2, PMD at frame 3, page table at
  frame 4.  The address 0x40201000 has index 0 in the PGD and index 1 in the other tables.  Its page is
  frame 5 with the PTE 0x8000000000005067; the PMD entry 2 maps a huge page (0x2000e7).
\<close>

definition sample_vaddr :: u64 where "sample_vaddr = 0x40201000"

definition sample_mem :: mem where
  "sample_mem =
     store64 (store64 (store64 (store64 (store64 (\<lambda>a. 0)
       0x1000 0x2067) 0x2008 0x3067) 0x3008 0x4067) 0x3010 0x2000e7) 0x4008 0x8000000000005067"

definition sample_roots :: "nat \<Rightarrow> u64" where
  "sample_roots mm = (if mm = 3 then 0x1000 + direct_map else 0x9000 + direct_map)"

definition sample_kstate :: kstate where
  "sample_kstate =
     (initial_kstate sample_mem sample_roots (\<lambda>cpu. 0x0007040600070406))
       \<lparr>misc_registered := True, invalidate_tlb_fn := Tlb_kernel, devmem_probe := True,
        proc_umem := True, has_umem := True\<rparr>"

lemma load64_store64: "load64 (store64 m a v) b =
   (if a = b then v else if apart a b then load64 m b else load64 (store64 m a v) b)"
  by (simp add: mem_simps)

lemma load64_zero [simp]: "load64 (\<lambda>a. 0) b = 0"
  by (simp add: load64_def load_bytes_def upt_8)

lemma sample_loaded: "pteditor_init sample_linux sample_boot (initial_kstate sample_mem sample_roots (\<lambda>cpu. 0x0007040600070406)) = (0, sample_kstate)"
  by (simp add: pteditor_init_def sample_boot_def sample_linux_def initial_kstate_def setup_umem_def
      sample_kstate_def Let_def)

lemma sample_loads:
  "load64 sample_mem 0x1000 = 0x2067" "load64 sample_mem 0x2008 = 0x3067"
  "load64 sample_mem 0x3008 = 0x4067" "load64 sample_mem 0x3010 = 0x2000e7"
  "load64 sample_mem 0x4008 = 0x8000000000005067"
  by (simp_all add: sample_mem_def mem_simps apart_def)

section \<open>The operating system of the library\<close>

definition sample_os :: os where
  "sample_os =
    \<lparr>os_kernel = sample_linux,
     os_pread = (\<lambda>f m off n. if f = F_umem then Some (load_bytes m off n) else None),
     os_pwrite = (\<lambda>f m off bs. if f = F_umem then Some (store_bytes m off bs) else None),
     os_mmap = (\<lambda>f maps len off. if f = F_umem then Some (0x7f0000000000 + 0x1000000000 * of_nat (length maps)) else None),
     os_pagesize = 4096\<rparr>"

text \<open>The library after \<open>ptedit_init\<close>, and with each of the user-space implementations selected.\<close>

definition sample_sys :: sys where
  "sample_sys = snd (ptedit_init sample_os (start_sys sample_kstate))"

definition sample_pread :: sys where
  "sample_pread = ptedit_use_implementation sample_os PTEDIT_IMPL_USER_PREAD sample_sys"

definition sample_map :: sys where
  "sample_map = ptedit_use_implementation sample_os PTEDIT_IMPL_USER sample_sys"

lemmas sample_defs = sample_os_def sample_linux_def sample_kstate_def initial_kstate_def start_sys_def kstate.defs
  zero_definition_def

lemma sample_sys_eq:
  "sample_sys = (start_sys sample_kstate)
     \<lparr>device_busy := True, fd_table := [(4, F_umem), (3, F_device), (0, F_other), (1, F_other), (2, F_other)],
      ptedit_fd := 3, ptedit_umem := 4, ptedit_pagesize := 4096,
      ptedit_paging_definition := x86_definition,
      ptedit_resolve_ptr := Resolve_kernel, ptedit_update_ptr := Update_kernel\<rparr>"
  by (simp add: sample_sys_def ptedit_init_def open_device_def device_open_def open_umem_file_def
      lowest_fd_def ptedit_use_implementation_def PTEDIT_IMPL_KERNEL_def sample_defs Let_def)

lemma sample_init: "ptedit_init sample_os (start_sys sample_kstate) = (0, sample_sys)"
  by (simp add: sample_sys_def ptedit_init_def open_device_def device_open_def open_umem_file_def
      lowest_fd_def ptedit_use_implementation_def PTEDIT_IMPL_KERNEL_def sample_defs Let_def)

lemma sample_root: "ptedit_get_paging_root sample_os 0 s = (0x1000, emit (Read_unlock 3) (emit (Read_lock 3) s))"
  if "fd_file (ptedit_fd s) s = Some F_device" "mm_pgd s = sample_roots" "\<not> mm_is_locked s"
  using that
  by (simp add: ptedit_get_paging_root_def ioctl_def ioctl_get_root_def sample_os_def sample_linux_def
      get_mm_def size_of_int_def Let_def sample_roots_def direct_map_def emit_def)

lemma sample_pread_eq:
  "sample_pread = sample_sys\<lparr>ptedit_resolve_ptr := Resolve_user, ptedit_update_ptr := Update_user,
     ptedit_paging_root := 0x1000, trace := [Read_lock 3, Read_unlock 3]\<rparr>"
proof -
  let ?s = "sample_sys\<lparr>ptedit_resolve_ptr := Resolve_user, ptedit_update_ptr := Update_user\<rparr>"
  have "ptedit_get_paging_root sample_os 0 ?s = (0x1000, emit (Read_unlock 3) (emit (Read_lock 3) ?s))"
    by (rule sample_root) (simp_all add: sample_sys_eq sample_defs fd_file_def)
  then show ?thesis
    by (simp add: sample_pread_def ptedit_use_implementation_def PTEDIT_IMPL_KERNEL_def
        PTEDIT_IMPL_USER_PREAD_def emit_def sample_sys_eq sample_defs)
qed

lemma sample_map_eq:
  "sample_map = sample_sys\<lparr>ptedit_resolve_ptr := Resolve_user_map, ptedit_update_ptr := Update_user_map,
     ptedit_paging_root := 0x1000, trace := [Read_lock 3, Read_unlock 3],
     mappings := [(0x7f0000000000, 0x800000000, 0)], ptedit_vmem := 0x7f0000000000\<rparr>"
proof -
  let ?s = "sample_sys\<lparr>ptedit_resolve_ptr := Resolve_user_map, ptedit_update_ptr := Update_user_map\<rparr>"
  have "ptedit_get_paging_root sample_os 0 ?s = (0x1000, emit (Read_unlock 3) (emit (Read_lock 3) ?s))"
    by (rule sample_root) (simp_all add: sample_sys_eq sample_defs fd_file_def)
  then show ?thesis
    by (simp add: sample_map_def ptedit_use_implementation_def PTEDIT_IMPL_KERNEL_def PTEDIT_IMPL_USER_def
        PTEDIT_IMPL_USER_PREAD_def emit_def sample_sys_eq sample_defs mmap_def fd_file_def Let_def)
qed

end
