(* ===== verification/PT_Module.thy ===== *)
theory PT_Module
  imports PT_Linux PT_Sample
begin

text \<open>
  Properties of the kernel module: the locking discipline of every request against the reader/writer
  semantics of the address-space lock, the states the loaded module can reach, the shape of a resolved
  address, and the behaviour of the page, root, memory-type and TLB requests.
\<close>

section \<open>The address-space lock\<close>

text \<open>
  The documented behaviour of \<open>mmap_lock\<close> (a \<open>rw_semaphore\<close>), used as the specification the traces
  are judged by: any number of readers or one writer, no recursion.  An acquisition that cannot be
  granted blocks, and with no other task holding the lock it blocks for ever: \<open>None\<close>.
\<close>

type_synonym locks = "nat \<Rightarrow> nat \<times> bool"

definition free_locks :: locks where
  "free_locks = (\<lambda>mm. (0, False))"

fun lock_step :: "kevent \<Rightarrow> locks \<Rightarrow> locks option" where
  "lock_step (Read_lock mm) l = (case l mm of (r, w) \<Rightarrow> if w then None else Some (l(mm := (r + 1, w))))"
| "lock_step (Read_unlock mm) l = (case l mm of (r, w) \<Rightarrow> if r = 0 then None else Some (l(mm := (r - 1, w))))"
| "lock_step (Write_lock mm) l =
     (case l mm of (r, w) \<Rightarrow> if w \<or> r \<noteq> 0 then None else Some (l(mm := (r, True))))"
| "lock_step (Write_unlock mm) l = (case l mm of (r, w) \<Rightarrow> if w then Some (l(mm := (r, False))) else None)"
| "lock_step _ l = Some l"

fun lock_run :: "kevent list \<Rightarrow> locks \<Rightarrow> locks option" where
  "lock_run [] l = Some l"
| "lock_run (e # es) l = Option.bind (lock_step e l) (lock_run es)"

definition ioctl_trace :: "linux \<Rightarrow> ioctl_req \<Rightarrow> 'a kstate_scheme \<Rightarrow> kevent list" where
  "ioctl_trace K req s = drop (length (trace s)) (trace (snd (snd (device_ioctl K req s))))"

fun quiet :: "kevent \<Rightarrow> bool" where
  "quiet (Read_lock _) = False"
| "quiet (Read_unlock _) = False"
| "quiet (Write_lock _) = False"
| "quiet (Write_unlock _) = False"
| "quiet _ = True"

definition quiet_ext :: "'a kstate_scheme \<Rightarrow> 'a kstate_scheme \<Rightarrow> bool" where
  "quiet_ext s t \<longleftrightarrow> (\<exists>es. trace t = trace s @ es \<and> list_all quiet es)"

lemma lock_run_append: "lock_run (es @ fs) l = Option.bind (lock_run es l) (lock_run fs)"
  by (induction es arbitrary: l) (auto split: bind_splits)

lemma lock_step_quiet: "quiet e \<Longrightarrow> lock_step e l = Some l"
  by (cases e) auto

lemma lock_run_quiet: "list_all quiet es \<Longrightarrow> lock_run es l = Some l"
  by (induction es) (auto simp: lock_step_quiet)

lemma emit_simps [simp]:
  "trace (emit e s) = trace s @ [e]" "phys (emit e s) = phys s" "mm_pgd (emit e s) = mm_pgd s"
  "mm_is_locked (emit e s) = mm_is_locked s" "pat_msr (emit e s) = pat_msr s"
  "device_busy (emit e s) = device_busy s" "invalidate_tlb_fn (emit e s) = invalidate_tlb_fn s"
  "real_page_size (emit e s) = real_page_size s" "real_page_shift (emit e s) = real_page_shift s"
  "misc_registered (emit e s) = misc_registered s"
  by (simp_all add: emit_def)

lemma quiet_ext_refl [simp]: "quiet_ext s s"
  by (simp add: quiet_ext_def)

lemma quiet_ext_trans: "quiet_ext s t \<Longrightarrow> quiet_ext t u \<Longrightarrow> quiet_ext s u"
  by (force simp: quiet_ext_def)

lemma quiet_ext_emit: "quiet e \<Longrightarrow> quiet_ext s (emit e s)"
  by (simp add: quiet_ext_def)

lemma quiet_ext_update_level: "quiet_ext s (update_level f l msg ov q nv v s)"
  by (auto simp: update_level_def quiet_ext_def split: option.split)

lemma quiet_ext_invalidate_tlb: "quiet_ext s (invalidate_tlb K p a s)"
  by (auto simp: invalidate_tlb_def invalidate_tlb_kernel_def invalidate_tlb_custom_def
      intro!: quiet_ext_emit split: tlb_fn.split arch.split option.split)

lemma resolve_vm_unlocked_trace: "resolve_vm K a p False s = (r, e, t) \<Longrightarrow> t = s"
  by (auto simp: resolve_vm_def split: option.splits prod.splits)

lemma quiet_ext_update_entries: "quiet_ext s (update_entries K new old s)"
  unfolding update_entries_def Let_def
  by (intro quiet_ext_trans [OF _ quiet_ext_update_level] quiet_ext_update_level)
    (simp add: quiet_ext_trans [OF quiet_ext_update_level quiet_ext_update_level]
      quiet_ext_update_level)

lemma update_vm_quiet_part:
  "quiet_ext s (invalidate_tlb K p a (update_entries K new old s))"
  by (rule quiet_ext_trans [OF quiet_ext_update_entries quiet_ext_invalidate_tlb])

lemma update_vm_events:
  "\<exists>es mm. list_all quiet es \<and>
     (trace (snd (update_vm K new lock s)) = trace s @ es \<or>
      trace (snd (update_vm K new lock s)) = trace s @ Write_lock mm # es @ [Write_unlock mm])"
proof (cases "get_mm K (pid new)")
  case None
  then show ?thesis
    by (intro exI [of _ "[]"]) (simp add: update_vm_def)
next
  case (Some mm)
  define t where "t = (if lock then emit (Write_lock mm) s else s)"
  obtain r old where old: "resolve_vm K (vaddr new) (pid new) False t = (r, old, t)"
    using resolve_vm_unlocked_trace by (metis prod_cases3)
  obtain es where es: "trace (invalidate_tlb K (ucast (vm_pid old)) (vaddr new) (update_entries K new old t)) =
      trace t @ es" "list_all quiet es"
    using update_vm_quiet_part quiet_ext_def by metis
  show ?thesis
    by (rule exI [of _ es], rule exI [of _ mm]) (use Some es old in \<open>auto simp: update_vm_def t_def Let_def\<close>)
qed

lemma lock_run_write_bracket:
  "list_all quiet es \<Longrightarrow> lock_run (Write_lock mm # es @ [Write_unlock mm]) free_locks = Some free_locks"
  by (simp add: lock_run_append lock_run_quiet free_locks_def fun_eq_iff)

lemma lock_run_read_bracket: "lock_run [Read_lock mm, Read_unlock mm] free_locks = Some free_locks"
  by (simp add: free_locks_def fun_eq_iff)

lemma resolve_vm_events:
  "trace (snd (snd (resolve_vm K a p lock s))) = trace s \<or>
   (\<exists>mm. trace (snd (snd (resolve_vm K a p lock s))) = trace s @ [Read_lock mm, Read_unlock mm])"
  by (auto simp: resolve_vm_def Let_def split: option.split prod.split)

text \<open>The requests other than the explicit lock and unlock requests.\<close>

definition plain_req :: "ioctl_req \<Rightarrow> bool" where
  "plain_req req \<longleftrightarrow> req \<noteq> CMD_VM_LOCK \<and> req \<noteq> CMD_VM_UNLOCK"

lemma ioctl_trace_quiet:
  "quiet_ext s (snd (snd (device_ioctl K req s))) \<Longrightarrow> lock_run (ioctl_trace K req s) l = Some l"
  by (auto simp: quiet_ext_def ioctl_trace_def lock_run_quiet)

lemma quiet_ext_same_trace: "trace t = trace s \<Longrightarrow> quiet_ext s t"
  by (simp add: quiet_ext_def)

lemma quiet_requests:
  assumes "plain_req req"
    and "\<forall>u. req \<noteq> CMD_VM_RESOLVE u" and "\<forall>u. req \<noteq> CMD_VM_UPDATE u"
    and "\<forall>u. req \<noteq> CMD_GET_ROOT u" and "\<forall>u. req \<noteq> CMD_SET_ROOT u"
  shows "quiet_ext s (snd (snd (device_ioctl K req s)))"
  using assms
  by (cases req)
    (auto simp: plain_req_def ioctl_read_page_def ioctl_write_page_def ioctl_switch_tlb_def set_pat_def
      Let_def quiet_ext_invalidate_tlb intro: quiet_ext_same_trace quiet_ext_emit)

lemma ioctl_lock_run:
  assumes "plain_req req"
  shows "lock_run (ioctl_trace K req s) free_locks = Some free_locks"
proof (cases req)
  case (CMD_VM_RESOLVE u)
  have "trace (snd (snd (device_ioctl K req s))) =
        trace (snd (snd (resolve_vm K (vaddr u) (pid u) (\<not> mm_is_locked s) s)))"
    by (simp add: CMD_VM_RESOLVE ioctl_vm_resolve_def split: prod.split)
  then show ?thesis
    using resolve_vm_events [of K "vaddr u" "pid u" "\<not> mm_is_locked s" s] lock_run_read_bracket
    by (auto simp: ioctl_trace_def)
next
  case (CMD_VM_UPDATE u)
  have "trace (snd (snd (device_ioctl K req s))) = trace (snd (update_vm K u (\<not> mm_is_locked s) s))"
    by (simp add: CMD_VM_UPDATE ioctl_vm_update_def split: prod.split)
  then show ?thesis
    using update_vm_events [of K u "\<not> mm_is_locked s" s] lock_run_write_bracket
    by (auto simp: ioctl_trace_def lock_run_quiet)
next
  case (CMD_GET_ROOT u)
  then show ?thesis
    using lock_run_read_bracket
    by (auto simp: ioctl_trace_def ioctl_get_root_def Let_def split: option.split)
next
  case (CMD_SET_ROOT u)
  then show ?thesis
    using lock_run_write_bracket [of "[]"]
    by (auto simp: ioctl_trace_def ioctl_set_root_def Let_def split: option.split)
qed (use assms quiet_requests [of req s K] in \<open>auto intro!: ioctl_trace_quiet simp: plain_req_def\<close>)

section \<open>The states of the loaded module\<close>

text \<open>
  The module is loaded, opened, closed and served requests one after another; a request completes only
  if every lock it takes is granted.  The task on whose behalf a request runs, and the whole answer of
  the rest of the kernel, may differ from request to request.
\<close>

inductive module_reach :: "arch \<Rightarrow> kstate \<Rightarrow> locks \<Rightarrow> bool" for A where
  load: "cfg_arch K = A \<Longrightarrow> pteditor_init K B (initial_kstate m roots pats) = (0, s) \<Longrightarrow>
         module_reach A s free_locks"
| opened: "module_reach A s l \<Longrightarrow> device_open s = (r, t) \<Longrightarrow> module_reach A t l"
| release: "module_reach A s l \<Longrightarrow> device_release s = (r, t) \<Longrightarrow> module_reach A t l"
| request: "module_reach A s l \<Longrightarrow> cfg_arch K = A \<Longrightarrow> device_ioctl K req s = (r, out, t) \<Longrightarrow>
            lock_run (ioctl_trace K req s) l = Some l' \<Longrightarrow> module_reach A t l'"

definition module_inv :: "arch \<Rightarrow> kstate \<Rightarrow> locks \<Rightarrow> bool" where
  "module_inv A s l \<longleftrightarrow>
     l = free_locks \<and> \<not> mm_is_locked s \<and> misc_registered s
     \<and> invalidate_tlb_fn s \<noteq> Tlb_null \<and> (A = X86_64 \<longrightarrow> invalidate_tlb_fn s = Tlb_kernel)
     \<and> (real_page_size s, real_page_shift s) \<in> {(4096, 12), (16384, 14), (65536, 16)}
     \<and> (A = X86_64 \<longrightarrow> real_page_size s = 4096)"

definition same_config :: "'a kstate_scheme \<Rightarrow> 'a kstate_scheme \<Rightarrow> bool" where
  "same_config s t \<longleftrightarrow>
     mm_is_locked t = mm_is_locked s \<and> misc_registered t = misc_registered s
     \<and> invalidate_tlb_fn t = invalidate_tlb_fn s \<and> real_page_size t = real_page_size s
     \<and> real_page_shift t = real_page_shift s \<and> device_busy t = device_busy s"

lemma same_config_simps [simp]:
  "same_config s s" "same_config s (emit e s)" "same_config s (update_level f l msg ov q nv v s)"
  "same_config s (s\<lparr>phys := m\<rparr>)" "same_config s (s\<lparr>mm_pgd := g\<rparr>)" "same_config s (set_pat K w s)"
  by (auto simp: same_config_def update_level_def set_pat_def split: option.split)

lemma same_config_trans: "same_config s t \<Longrightarrow> same_config t u \<Longrightarrow> same_config s u"
  by (simp add: same_config_def)

lemma same_config_update_entries: "same_config s (update_entries K new old s)"
  unfolding update_entries_def Let_def
  by (intro same_config_trans [OF _ same_config_simps(3)] same_config_simps)
    (simp add: same_config_trans [OF same_config_simps(3) same_config_simps(3)])

lemma same_config_invalidate_tlb: "same_config s (invalidate_tlb K p a s)"
  by (auto simp: invalidate_tlb_def invalidate_tlb_kernel_def invalidate_tlb_custom_def
      split: tlb_fn.split arch.split option.split)

lemma same_config_resolve_vm: "same_config s (snd (snd (resolve_vm K a p lock s)))"
  by (auto simp: resolve_vm_def Let_def same_config_def split: option.split prod.split)

lemma same_config_update_vm: "same_config s (snd (update_vm K new lock s))"
proof (cases "get_mm K (pid new)")
  case None
  then show ?thesis by (simp add: update_vm_def)
next
  case (Some mm)
  define t where "t = (if lock then emit (Write_lock mm) s else s)"
  obtain r old where old: "resolve_vm K (vaddr new) (pid new) False t = (r, old, t)"
    using resolve_vm_unlocked_trace by (metis prod_cases3)
  have "same_config s t" by (simp add: t_def)
  then have "same_config s (invalidate_tlb K (ucast (vm_pid old)) (vaddr new) (update_entries K new old t))"
    by (rule same_config_trans [OF same_config_trans [OF _ same_config_update_entries]
          same_config_invalidate_tlb])
  with Some old show ?thesis
    by (auto simp: update_vm_def t_def Let_def intro: same_config_trans)
qed

lemma same_config_request:
  assumes "plain_req req" and "\<forall>w. req \<noteq> CMD_SWITCH_TLB_INVALIDATION w"
  shows "same_config s (snd (snd (device_ioctl K req s)))"
proof (cases req)
  case (CMD_VM_RESOLVE u)
  then show ?thesis
    using same_config_resolve_vm [of s K "vaddr u" "pid u" "\<not> mm_is_locked s"]
    by (auto simp: ioctl_vm_resolve_def split: prod.split)
next
  case (CMD_VM_UPDATE u)
  then show ?thesis
    using same_config_update_vm [of s K u "\<not> mm_is_locked s"]
    by (auto simp: ioctl_vm_update_def split: prod.split)
next
  case (CMD_GET_ROOT u)
  then show ?thesis
    by (auto simp: ioctl_get_root_def Let_def same_config_def split: option.split)
next
  case (CMD_SET_ROOT u)
  then show ?thesis
    by (auto simp: ioctl_set_root_def Let_def same_config_def split: option.split)
qed (use assms in \<open>auto simp: plain_req_def ioctl_read_page_def ioctl_write_page_def Let_def
      intro: same_config_invalidate_tlb\<close>)

lemma module_inv_same_config: "module_inv A s l \<Longrightarrow> same_config s t \<Longrightarrow> module_inv A t l"
  by (auto simp: module_inv_def same_config_def)

lemma switch_tlb_inv:
  "module_inv (cfg_arch K) s l \<Longrightarrow> module_inv (cfg_arch K) (snd (snd (ioctl_switch_tlb K w s))) l"
  by (auto simp: ioctl_switch_tlb_def Let_def module_inv_def)

lemma vm_lock_blocks:
  "\<not> mm_is_locked s \<Longrightarrow> lock_run (ioctl_trace K CMD_VM_LOCK s) free_locks = None"
  by (simp add: ioctl_trace_def ioctl_vm_lock_def Let_def free_locks_def)

lemma vm_unlock_refused:
  "\<not> mm_is_locked s \<Longrightarrow>
   device_ioctl K CMD_VM_UNLOCK s = (- 1, Out_none, emit (Pr_warn ''VM is not locked'') s)"
  by (simp add: ioctl_vm_unlock_def Let_def)

lemma module_inv_request:
  assumes inv: "module_inv (cfg_arch K) s l"
    and step: "device_ioctl K req s = (r, out, t)"
    and granted: "lock_run (ioctl_trace K req s) l = Some l'"
  shows "module_inv (cfg_arch K) t l'"
proof -
  from inv have free: "l = free_locks" and unlocked: "\<not> mm_is_locked s"
    by (simp_all add: module_inv_def)
  consider (lock) "req = CMD_VM_LOCK" | (unlock) "req = CMD_VM_UNLOCK"
    | (switch) w where "req = CMD_SWITCH_TLB_INVALIDATION w"
    | (plain) "plain_req req" "\<forall>w. req \<noteq> CMD_SWITCH_TLB_INVALIDATION w"
    by (auto simp: plain_req_def)
  then show ?thesis
  proof cases
    case lock
    with granted free unlocked show ?thesis by (simp add: vm_lock_blocks)
  next
    case unlock
    with step granted free unlocked have "t = emit (Pr_warn ''VM is not locked'') s" "l' = l"
      by (auto simp: ioctl_vm_unlock_def Let_def ioctl_trace_def)
    with inv show ?thesis by (simp add: module_inv_same_config)
  next
    case switch
    with granted free have "l' = l" by (auto simp: ioctl_lock_run plain_req_def)
    with switch step switch_tlb_inv [OF inv, of w] show ?thesis by simp
  next
    case plain
    with granted free have "l' = l" by (simp add: ioctl_lock_run)
    with plain step inv same_config_request [of req s K] show ?thesis
      by (auto intro: module_inv_same_config)
  qed
qed

lemma setup_umem_config: "same_config s (setup_umem B s)"
  by (simp add: setup_umem_def same_config_def)

lemma set_page_size_cases:
  "set_page_size tcr s = s \<or> set_page_size tcr s = s\<lparr>real_page_size := 65536, real_page_shift := 16\<rparr>
   \<or> set_page_size tcr s = s\<lparr>real_page_size := 16384, real_page_shift := 14\<rparr>"
  by (simp add: set_page_size_def Let_def)

lemma module_inv_init:
  assumes init: "pteditor_init K B (initial_kstate m roots pats) = (0, s)"
  shows "module_inv (cfg_arch K) s free_locks"
proof -
  define s1 where "s1 = (initial_kstate m roots pats)\<lparr>misc_registered := True, invalidate_tlb_fn := Tlb_kernel\<rparr>"
  define s2 where "s2 = (if cfg_arch K = AArch64 then set_page_size (tcr_el1 B) s1 else s1)"
  define s3 where "s3 = (if kretprobe_ret B < 0 then s2 else s2\<lparr>devmem_probe := True\<rparr>)"
  have "s = setup_umem B s3"
    using init by (simp add: pteditor_init_def s1_def s2_def s3_def Let_def ENXIO_def split: if_splits)
  moreover have "module_inv (cfg_arch K) s2 free_locks"
    using set_page_size_cases [of "tcr_el1 B" s1]
    by (cases "cfg_arch K") (auto simp: s2_def s1_def initial_kstate_def module_inv_def)
  moreover have "same_config s2 s3" by (simp add: s3_def same_config_def)
  ultimately show ?thesis
    by (simp add: module_inv_same_config [OF _ same_config_trans [OF _ setup_umem_config]])
qed

lemma module_inv_device_busy: "module_inv A (s\<lparr>device_busy := b\<rparr>) l = module_inv A s l"
  by (simp add: module_inv_def)

lemma module_reach_inv: "module_reach A s l \<Longrightarrow> module_inv A s l"
proof (induction rule: module_reach.induct)
  case (load K B m roots pats s)
  then show ?case using module_inv_init [of K B m roots pats s] by simp
next
  case (opened s l r t)
  then have "t = s \<or> t = s\<lparr>device_busy := True\<rparr>"
    by (simp add: device_open_def split: if_splits)
  with opened show ?case by (auto simp: module_inv_device_busy)
next
  case (release s l r t)
  then have "t = s\<lparr>device_busy := False\<rparr>" by (simp add: device_release_def)
  with release show ?case by (simp add: module_inv_device_busy)
next
  case (request s l K req r out t l')
  then show ?case using module_inv_request [of K s l req r out t l'] by simp
qed

section \<open>Properties of the loaded module\<close>

text \<open>
  C9. Every request other than the two explicit lock requests leaves each address-space lock as it
  found it: the calls it makes, on every path, are granted from free locks and release what they take.
\<close>

theorem ioctl_lock_balanced:
  assumes "req \<noteq> CMD_VM_LOCK" and "req \<noteq> CMD_VM_UNLOCK"
  shows "lock_run (ioctl_trace K req s) free_locks = Some free_locks"
  using assms by (intro ioctl_lock_run) (simp add: plain_req_def)

theorem ioctl_lock_balanced_witness:
  "lock_run (ioctl_trace sample_linux (CMD_VM_UPDATE zero_entry) sample_kstate) free_locks = Some free_locks
   \<and> CMD_VM_UPDATE zero_entry \<noteq> CMD_VM_LOCK"
  using ioctl_lock_balanced [of "CMD_VM_UPDATE zero_entry" sample_linux sample_kstate] by simp

lemma sample_reach: "module_reach X86_64 sample_kstate free_locks"
  by (rule module_reach.load [OF _ sample_loaded]) (simp add: sample_linux_def)

text \<open>
  C8. In every state the loaded module reaches, whatever sequence of opens, closes and completed
  requests led to it, no lock is held, \<open>mm_is_locked\<close> is clear, the device is registered, the TLB
  function is set (on x86 to the kernel's function, so that the custom one is unreachable there), and
  page size and shift belong together.
\<close>

theorem module_reach_invariant:
  assumes "module_reach A s l"
  shows "l = free_locks \<and> \<not> mm_is_locked s \<and> misc_registered s
     \<and> invalidate_tlb_fn s \<noteq> Tlb_null \<and> (A = X86_64 \<longrightarrow> invalidate_tlb_fn s = Tlb_kernel)
     \<and> real_page_size s = 2 ^ real_page_shift s"
  using module_reach_inv [OF assms] by (auto simp: module_inv_def)

theorem module_reach_invariant_witness:
  "module_reach X86_64 sample_kstate free_locks \<and> invalidate_tlb_fn sample_kstate = Tlb_kernel
   \<and> real_page_size sample_kstate = 2 ^ real_page_shift sample_kstate"
  using module_reach_invariant [OF sample_reach] sample_reach by simp

text \<open>
  C26. The lock request takes the write lock of the caller's address space and then its read lock.  In
  every reachable state this never returns, and the unlock request is refused with -1.
\<close>

theorem vm_lock_self_deadlock:
  assumes "module_reach A s l"
  shows "lock_run (ioctl_trace K CMD_VM_LOCK s) l = None
     \<and> fst (device_ioctl K CMD_VM_UNLOCK s) = - 1"
  using module_reach_inv [OF assms]
  by (simp add: module_inv_def vm_lock_blocks ioctl_vm_unlock_def Let_def)

theorem vm_lock_self_deadlock_witness:
  "lock_run (ioctl_trace sample_linux CMD_VM_LOCK sample_kstate) free_locks = None"
  using vm_lock_self_deadlock [OF sample_reach] by simp

section \<open>The result of resolving an address\<close>

text \<open>
  The slot of each level as the kernel's accessors give it, without the checks of the walk, and the
  invariant of a resolved \<open>vm_t\<close>: the valid bits are closed towards the root, a pointer is present
  exactly for the valid levels and is the slot of its level, and the function returns 0 exactly when
  the PTE was reached.
\<close>

definition pud_slot :: "linux \<Rightarrow> mem \<Rightarrow> u64 \<Rightarrow> u64 \<Rightarrow> u64" where
  "pud_slot K m base addr =
     (let pgdp = pgd_offset K base addr
      in pud_offset K m (if cfg_4_11 K then p4d_offset K m pgdp addr else pgdp) addr)"

definition pmd_slot :: "linux \<Rightarrow> mem \<Rightarrow> u64 \<Rightarrow> u64 \<Rightarrow> u64" where
  "pmd_slot K m base addr = pmd_offset K m (pud_slot K m base addr) addr"

fun kernel_slot :: "linux \<Rightarrow> mem \<Rightarrow> u64 \<Rightarrow> u64 \<Rightarrow> level \<Rightarrow> u64 option" where
  "kernel_slot K m base addr PGD = Some (pgd_offset K base addr)"
| "kernel_slot K m base addr P4D = Some (p4d_offset K m (pgd_offset K base addr) addr)"
| "kernel_slot K m base addr PUD = Some (pud_slot K m base addr)"
| "kernel_slot K m base addr PMD = Some (pmd_slot K m base addr)"
| "kernel_slot K m base addr PTE = pte_offset K m (pmd_slot K m base addr) addr"

fun vm_ptr :: "level \<Rightarrow> vm_t \<Rightarrow> u64 option" where
  "vm_ptr PGD e = vm_pgd e"
| "vm_ptr P4D e = vm_p4d e"
| "vm_ptr PUD e = vm_pud e"
| "vm_ptr PMD e = vm_pmd e"
| "vm_ptr PTE e = vm_pte e"

definition valid_closed :: "bool \<Rightarrow> u64 \<Rightarrow> bool" where
  "valid_closed with_p4d v \<longleftrightarrow>
     (has_valid v PTE \<longrightarrow> has_valid v PMD) \<and> (has_valid v PMD \<longrightarrow> has_valid v PUD)
     \<and> (has_valid v PUD \<longrightarrow> has_valid v PGD \<and> (with_p4d \<longrightarrow> has_valid v P4D))
     \<and> (has_valid v P4D \<longrightarrow> with_p4d \<and> has_valid v PGD)"

definition vm_shape :: "linux \<Rightarrow> mem \<Rightarrow> u64 \<Rightarrow> u64 \<Rightarrow> int \<Rightarrow> vm_t \<Rightarrow> bool" where
  "vm_shape K m base addr r e \<longleftrightarrow>
     r = (if has_valid (vm_valid e) PTE then 0 else 1)
     \<and> valid_closed (cfg_4_11 K) (vm_valid e)
     \<and> (\<forall>l. vm_ptr l e = (if has_valid (vm_valid e) l then kernel_slot K m base addr l else None))
     \<and> (\<forall>l. has_valid (vm_valid e) l \<longrightarrow> kernel_slot K m base addr l \<noteq> None)"

lemma all_levels: "(\<forall>l. P l) \<longleftrightarrow> P PGD \<and> P P4D \<and> P PUD \<and> P PMD \<and> P PTE"
  by (metis level.exhaust)

lemma resolve_vm_pud_cases:
  fixes K :: linux and m :: mem and addr :: u64 and parent :: u64 and e :: vm_t
  defines "q \<equiv> pud_offset K m parent addr"
  defines "q' \<equiv> pmd_offset K m q addr"
  defines "e1 \<equiv> e\<lparr>vm_pud := Some q, vm_valid := vm_valid e OR valid_mask PUD\<rparr>"
  defines "e2 \<equiv> e1\<lparr>vm_pmd := Some q', vm_valid := vm_valid e1 OR valid_mask PMD\<rparr>"
  assumes "resolve_vm_pud K m addr parent e = (r, e')"
  shows "r = 1 \<and> (e' = e \<or> e' = e1 \<or> e' = e2)
     \<or> r = 0 \<and> (\<exists>x. pte_offset K m q' addr = Some x \<and>
          e' = e2\<lparr>vm_pte := Some x, vm_valid := vm_valid e2 OR valid_mask PTE\<rparr>)"
proof -
  have "resolve_vm_pud K m addr parent e =
     (if pud_none K (kread K m q) then (1, e)
      else if pmd_none K (kread K m q') \<or> pud_leaf K (kread K m q) then (1, e1)
      else case pte_offset K m q' addr of None \<Rightarrow> (1, e2)
         | Some x \<Rightarrow> if pmd_leaf K (kread K m q') then (1, e2)
             else (0, e2\<lparr>vm_pte := Some x, vm_valid := vm_valid e2 OR valid_mask PTE\<rparr>))"
    unfolding resolve_vm_pud_def Let_def q_def q'_def e1_def e2_def ..
  with assms(5) show ?thesis by (simp split: if_splits option.splits)
qed

lemma vm_shape_pud:
  assumes res: "resolve_vm_pud K m addr parent e = (r, e')"
    and parent: "parent = (if cfg_4_11 K then p4d_offset K m (pgd_offset K base addr) addr
                           else pgd_offset K base addr)"
    and shape: "vm_shape K m base addr 1 e" and pgd: "has_valid (vm_valid e) PGD"
    and p4d: "cfg_4_11 K \<longrightarrow> has_valid (vm_valid e) P4D" and pud: "\<not> has_valid (vm_valid e) PUD"
  shows "vm_shape K m base addr r e' \<and> vm_pid e' = vm_pid e"
proof -
  have slots: "pud_offset K m parent addr = pud_slot K m base addr"
    "pmd_offset K m (pud_slot K m base addr) addr = pmd_slot K m base addr"
    by (simp_all add: parent pud_slot_def pmd_slot_def Let_def)
  have no: "\<not> has_valid (vm_valid e) PMD" "\<not> has_valid (vm_valid e) PTE"
    "has_valid (vm_valid e) P4D \<longleftrightarrow> cfg_4_11 K"
    using shape pud p4d by (auto simp: vm_shape_def valid_closed_def)
  then have ptrs: "vm_pgd e = kernel_slot K m base addr PGD"
    "vm_p4d e = (if cfg_4_11 K then kernel_slot K m base addr P4D else None)"
    "vm_pud e = None" "vm_pmd e = None" "vm_pte e = None"
    using shape pgd pud by (simp_all add: vm_shape_def all_levels)
  from resolve_vm_pud_cases [OF res, unfolded slots] shape show ?thesis
    by (elim disjE conjE exE)
      (simp_all add: vm_shape_def valid_closed_def all_levels no pgd pud ptrs)
qed

lemma resolve_vm_walk_shape:
  assumes "resolve_vm_walk K m base addr (fresh_vm p) = (r, e)"
  shows "vm_shape K m base addr r e \<and> vm_pid e = p"
proof -
  define q where "q = pgd_offset K base addr"
  define e1 where "e1 = (fresh_vm p)\<lparr>vm_pgd := Some q, vm_valid := vm_valid (fresh_vm p) OR valid_mask PGD\<rparr>"
  define q4 where "q4 = p4d_offset K m q addr"
  define e2 where "e2 = e1\<lparr>vm_p4d := Some q4, vm_valid := vm_valid e1 OR valid_mask P4D\<rparr>"
  have walk: "resolve_vm_walk K m base addr (fresh_vm p) =
     (if pgd_none K (kread K m q) \<or> pgd_bad K (kread K m q) then (1, fresh_vm p)
      else if cfg_4_11 K then
        (if p4d_none K (kread K m q4) \<or> p4d_bad K (kread K m q4) then (1, e1)
         else resolve_vm_pud K m addr q4 e2)
      else resolve_vm_pud K m addr q e1)"
    unfolding resolve_vm_walk_def Let_def q_def q4_def e1_def e2_def ..
  have shape: "vm_shape K m base addr 1 (fresh_vm p)" "vm_shape K m base addr 1 e1"
    "cfg_4_11 K \<Longrightarrow> vm_shape K m base addr 1 e2"
    by (simp_all add: fresh_vm_def vm_shape_def valid_closed_def all_levels e1_def e2_def q_def q4_def)
  have vals: "has_valid (vm_valid e1) PGD" "\<not> has_valid (vm_valid e1) PUD"
    "has_valid (vm_valid e2) PGD" "has_valid (vm_valid e2) P4D" "\<not> has_valid (vm_valid e2) PUD"
    "vm_pid (fresh_vm p) = p" "vm_pid e1 = p" "vm_pid e2 = p"
    by (simp_all add: e1_def e2_def fresh_vm_def)
  show ?thesis
  proof (cases "cfg_4_11 K")
    case True
    with assms walk shape vals vm_shape_pud [of K m addr q4 e2 r e base] show ?thesis
      by (auto simp: q_def q4_def split: if_splits)
  next
    case False
    with assms walk shape vals vm_shape_pud [of K m addr q e1 r e base] show ?thesis
      by (auto simp: q_def split: if_splits)
  qed
qed

lemma resolve_vm_shape:
  assumes "resolve_vm K addr p lock s = (r, e, t)" and "get_mm K p = Some mm"
  shows "vm_shape K (phys s) (mm_pgd s mm) addr r e \<and> vm_pid e = p \<and> phys t = phys s \<and> mm_pgd t = mm_pgd s"
  using assms resolve_vm_walk_shape [of K "phys s" "mm_pgd s mm" addr p]
  by (auto simp: resolve_vm_def Let_def split: prod.splits if_splits)

lemma resolve_vm_no_process:
  "get_mm K p = None \<Longrightarrow> resolve_vm K addr p lock s = (1, fresh_vm p, s)"
  by (simp add: resolve_vm_def)

lemma vm_to_user_fields:
  assumes "vm_shape K m base addr r e" and "cfg_4_11 K \<or> vm_p4d e = None"
  shows "entry_of l (vm_to_user K m u e) =
      (if has_valid (vm_valid e) l then kread K m (the (kernel_slot K m base addr l)) else entry_of l u)"
    and "valid (vm_to_user K m u e) = vm_valid e"
    and "pid (vm_to_user K m u e) = pid u" and "vaddr (vm_to_user K m u e) = vaddr u"
proof -
  have "vm_ptr l e = (if has_valid (vm_valid e) l then kernel_slot K m base addr l else None)"
    and "has_valid (vm_valid e) l \<longrightarrow> kernel_slot K m base addr l \<noteq> None"
    using assms(1) by (simp_all add: vm_shape_def)
  then show "entry_of l (vm_to_user K m u e) =
      (if has_valid (vm_valid e) l then kread K m (the (kernel_slot K m base addr l)) else entry_of l u)"
    using assms(2) by (cases l) (auto simp: vm_to_user_def Let_def split: option.split)
qed (auto simp: vm_to_user_def Let_def split: option.split)

lemma shape_p4d: "vm_shape K m base addr r e \<Longrightarrow> cfg_4_11 K \<or> vm_p4d e = None"
  by (auto simp: vm_shape_def valid_closed_def all_levels)

text \<open>
  C6. A resolve request for an existing process returns 0, keeps physical memory, and hands back the
  request's address with a valid mask that is closed towards the root; for each level in the mask the
  entry is the memory content of that level's slot in the process's tables, for every other level the
  caller's field is untouched.  For a process that does not exist the mask is 0.
\<close>

theorem vm_resolve_result:
  assumes "device_ioctl K (CMD_VM_RESOLVE u) s = (r, out, t)"
  shows "\<exists>e. out = Out_entry e \<and> r = 0 \<and> phys t = phys s
    \<and> pid e = pid u \<and> vaddr e = vaddr u \<and> valid_closed (cfg_4_11 K) (valid e)
    \<and> (\<forall>l. entry_of l e =
           (if has_valid (valid e) l
            then kread K (phys s) (the (kernel_slot K (phys s) (mm_pgd s (the (get_mm K (pid u)))) (vaddr u) l))
            else entry_of l u))
    \<and> (get_mm K (pid u) = None \<longrightarrow> valid e = 0)"
proof (cases "get_mm K (pid u)")
  case None
  then have "resolve_vm K (vaddr u) (pid u) (\<not> mm_is_locked s) s = (1, fresh_vm (pid u), s)"
    by (rule resolve_vm_no_process)
  moreover have "vm_to_user K (phys s) u (fresh_vm (pid u)) = u\<lparr>valid := 0\<rparr>"
    by (simp add: vm_to_user_def fresh_vm_def Let_def)
  moreover have "entry_of l (u\<lparr>valid := 0\<rparr>) = entry_of l u" for l
    by (cases l) simp_all
  ultimately show ?thesis
    using assms by (auto simp: ioctl_vm_resolve_def valid_closed_def)
next
  case (Some mm)
  obtain r' e' t' where res: "resolve_vm K (vaddr u) (pid u) (\<not> mm_is_locked s) s = (r', e', t')"
    by (metis prod_cases3)
  note shape = resolve_vm_shape [OF res Some]
  from assms res have "out = Out_entry (vm_to_user K (phys t') u e')" "r = 0" "t = t'"
    by (auto simp: ioctl_vm_resolve_def)
  with Some shape show ?thesis
    using vm_to_user_fields [OF conjunct1 [OF shape] shape_p4d [OF conjunct1 [OF shape]], where u = u]
    by (intro exI [of _ "vm_to_user K (phys s) u e'"]) (auto simp: vm_shape_def)
qed

lemma sample_resolve:
  "device_ioctl sample_linux (CMD_VM_RESOLVE (zero_entry\<lparr>vaddr := sample_vaddr\<rparr>)) sample_kstate =
     (0, Out_entry \<lparr>pid = 0, vaddr = sample_vaddr, pgd = 0x2067, p4d = 0x2067, pud = 0x3067,
                    pmd = 0x4067, pte = 0x8000000000005067, valid = 31\<rparr>,
      emit (Read_unlock 3) (emit (Read_lock 3) sample_kstate))"
  by (simp add: ioctl_vm_resolve_def resolve_vm_def get_mm_def resolve_vm_walk_def resolve_vm_pud_def
      sample_linux_def sample_kstate_def initial_kstate_def zero_entry_def Let_def kread_def
      table_ptr_def sample_vaddr_def sample_roots_def direct_map_def sample_loads fresh_vm_def
      vm_to_user_def valid_mask_def ull_bit_def emit_def)

theorem vm_resolve_result_witness:
  "\<exists>e. fst (snd (device_ioctl sample_linux (CMD_VM_RESOLVE (zero_entry\<lparr>vaddr := sample_vaddr\<rparr>)) sample_kstate)) = Out_entry e
     \<and> valid e = 31 \<and> pte e = 0x8000000000005067
     \<and> entry_of PTE e = kread sample_linux sample_mem
         (the (kernel_slot sample_linux sample_mem (sample_roots 3) sample_vaddr PTE))"
proof -
  have fields: "phys sample_kstate = sample_mem" "mm_pgd sample_kstate = sample_roots"
    "get_mm sample_linux 0 = Some 3" "pid zero_entry = 0"
    by (simp_all add: sample_kstate_def initial_kstate_def get_mm_def sample_linux_def zero_entry_def)
  let ?e = "\<lparr>pid = 0, vaddr = sample_vaddr, pgd = 0x2067, p4d = 0x2067, pud = 0x3067,
              pmd = 0x4067, pte = 0x8000000000005067, valid = 31\<rparr>"
  have "has_valid (valid ?e) PTE"
    by (simp add: has_valid_def valid_mask_def ull_bit_def)
  with vm_resolve_result [OF sample_resolve] sample_resolve fields show ?thesis
    by (intro exI [of _ ?e]) simp
qed

section \<open>Updates and their TLB flush\<close>

lemma get_mm_pid_t: "get_mm K (size_of_int (ucast (size_of_int p))) = get_mm K (size_of_int p)"
proof -
  have "ucast (size_of_int p) = p"
    by (rule bit_word_eqI) (auto simp: size_of_int_def bit_simps)
  then show ?thesis by simp
qed

lemma update_level_frame:
  "mm_pgd (update_level f l msg ov q nv v s) = mm_pgd s" "pat_msr (update_level f l msg ov q nv v s) = pat_msr s"
  by (auto simp: update_level_def split: option.split)

lemma update_entries_frame:
  "mm_pgd (update_entries K new old s) = mm_pgd s" "pat_msr (update_entries K new old s) = pat_msr s"
  by (simp_all add: update_entries_def Let_def update_level_frame)

text \<open>
  C7. An update request for an existing process, outside an explicit lock (\<open>mm_is_locked\<close> is false in every
  reachable state), keeps the write lock of the process from its first access to its last, and the last
  thing it does before the release, after all its writes, is the flush of the selected method: on x86
  the kernel's function flushes the updated page of the address space of that process; on AArch64 it flushes
  the address of the updated page in the area of the current process, whatever process was updated, and
  nothing where no area contains it; the module's own method flushes everything on all processors on
  AArch64, and on x86, where it is no longer supported, only logs that.  Nothing but physical memory and the trace changes.
\<close>

theorem update_flushes_tlb:
  assumes "pid u = size_of_int p" and "get_mm K (pid u) = Some mm" and "\<not> mm_is_locked s"
    and "device_ioctl K (CMD_VM_UPDATE u) s = (r, out, t)"
  shows "\<exists>es fs. list_all quiet es \<and> r = 0
     \<and> trace t = trace s @ Write_lock mm # es @ fs @ [Write_unlock mm]
     \<and> (invalidate_tlb_fn s = Tlb_kernel \<and> cfg_arch K = X86_64 \<longrightarrow>
          fs = [Flush_tlb_range mm (vaddr u) (vaddr u + of_nat (real_page_size s)) (real_page_shift s) False])
     \<and> (invalidate_tlb_fn s = Tlb_kernel \<and> cfg_arch K = AArch64 \<longrightarrow>
          fs = (case find_vma K (current_mm K) (vaddr u) of
                  Some start \<Rightarrow> if vaddr u < start then [] else [Flush_tlb_page_all_cpus start (vaddr u)]
                | None \<Rightarrow> []))
     \<and> (invalidate_tlb_fn s = Tlb_custom \<longrightarrow>
          fs = [if cfg_arch K = X86_64 then Pr_crit_unsupported else Tlbi_all_cpus])
     \<and> same_config s t \<and> mm_pgd t = mm_pgd s \<and> pat_msr t = pat_msr s"
proof -
  define t0 where "t0 = emit (Write_lock mm) s"
  obtain r' old where old: "resolve_vm K (vaddr u) (pid u) False t0 = (r', old, t0)"
    using resolve_vm_unlocked_trace by (metis prod_cases3)
  have pid: "vm_pid old = size_of_int p"
    using resolve_vm_shape [OF old assms(2)] assms(1) by simp
  define t1 where "t1 = update_entries K u old t0"
  obtain es where es: "trace t1 = trace t0 @ es" "list_all quiet es"
    using quiet_ext_update_entries quiet_ext_def unfolding t1_def by metis
  have cfg: "same_config t0 t1" and frame: "mm_pgd t1 = mm_pgd t0" "pat_msr t1 = pat_msr t0"
    by (simp_all add: t1_def same_config_update_entries update_entries_frame)
  define t2 where "t2 = invalidate_tlb K (ucast (vm_pid old)) (vaddr u) t1"
  have t: "t = emit (Write_unlock mm) t2" "r = 0"
    using assms old by (auto simp: ioctl_vm_update_def update_vm_def Let_def t0_def t1_def t2_def)
  let ?fs = "drop (length (trace t1)) (trace t2)"
  have fs: "trace t2 = trace t1 @ ?fs" and cfg2: "same_config t1 t2" "mm_pgd t2 = mm_pgd t1" "pat_msr t2 = pat_msr t1"
    by (simp_all add: t2_def invalidate_tlb_def invalidate_tlb_kernel_def invalidate_tlb_custom_def same_config_def
        split: tlb_fn.split arch.split option.split)
  have keep: "invalidate_tlb_fn t1 = invalidate_tlb_fn s" "real_page_size t1 = real_page_size s"
    "real_page_shift t1 = real_page_shift s"
    using cfg by (simp_all add: same_config_def t0_def)
  have "invalidate_tlb_fn s = Tlb_kernel \<Longrightarrow> cfg_arch K = X86_64 \<Longrightarrow>
      ?fs = [Flush_tlb_range mm (vaddr u) (vaddr u + of_nat (real_page_size s)) (real_page_shift s) False]"
    using assms(1,2) pid by (simp add: t2_def invalidate_tlb_def invalidate_tlb_kernel_def get_mm_pid_t keep)
  moreover have "invalidate_tlb_fn s = Tlb_kernel \<Longrightarrow> cfg_arch K = AArch64 \<Longrightarrow>
      ?fs = (case find_vma K (current_mm K) (vaddr u) of
               Some start \<Rightarrow> if vaddr u < start then [] else [Flush_tlb_page_all_cpus start (vaddr u)] | None \<Rightarrow> [])"
    by (simp add: t2_def invalidate_tlb_def invalidate_tlb_kernel_def keep split: option.split)
  moreover have "invalidate_tlb_fn s = Tlb_custom \<Longrightarrow> ?fs = [if cfg_arch K = X86_64 then Pr_crit_unsupported else Tlbi_all_cpus]"
    by (cases "cfg_arch K") (simp_all add: t2_def invalidate_tlb_def invalidate_tlb_custom_def keep)
  ultimately show ?thesis
    using t es cfg frame fs cfg2 by (intro exI [of _ es] exI [of _ ?fs]) (simp add: t0_def same_config_def)
qed

theorem update_flushes_tlb_witness:
  "\<exists>es t. trace t = trace sample_kstate @ Write_lock 3 # es @
       [Flush_tlb_range 3 sample_vaddr (sample_vaddr + 4096) 12 False, Write_unlock 3]
     \<and> device_ioctl sample_linux (CMD_VM_UPDATE (zero_entry\<lparr>vaddr := sample_vaddr\<rparr>)) sample_kstate = (0, Out_none, t)"
proof -
  obtain t where t: "device_ioctl sample_linux (CMD_VM_UPDATE (zero_entry\<lparr>vaddr := sample_vaddr\<rparr>)) sample_kstate = (0, Out_none, t)"
    by (cases "update_vm sample_linux (zero_entry\<lparr>vaddr := sample_vaddr\<rparr>) (\<not> mm_is_locked sample_kstate) sample_kstate")
      (simp add: ioctl_vm_update_def)
  have "pid (zero_entry\<lparr>vaddr := sample_vaddr\<rparr>) = size_of_int 0"
    "get_mm sample_linux (pid (zero_entry\<lparr>vaddr := sample_vaddr\<rparr>)) = Some 3" "\<not> mm_is_locked sample_kstate"
    by (simp_all add: sample_linux_def sample_kstate_def initial_kstate_def zero_entry_def
        size_of_int_def get_mm_def)
  from update_flushes_tlb [OF this t] obtain es where "trace t = trace sample_kstate @ Write_lock 3 # es @
       [Flush_tlb_range 3 sample_vaddr (sample_vaddr + 4096) 12 False, Write_unlock 3]"
    by (auto simp: sample_kstate_def initial_kstate_def sample_linux_def)
  with t show ?thesis by blast
qed


text \<open>
  An update request for a process that does not exist reports success to the caller (the error of
  \<open>update_vm\<close> is dropped) but changes nothing at all; the root requests report it with 1 (on x86).
\<close>

theorem no_process_no_effect:
  assumes "get_mm K p = None" and "cfg_arch K = X86_64"
  shows "device_ioctl K (CMD_VM_UPDATE (u\<lparr>pid := p\<rparr>)) s = (0, Out_none, s)
    \<and> device_ioctl K (CMD_SET_ROOT (g\<lparr>paging_pid := p\<rparr>)) s = (1, Out_none, s)
    \<and> device_ioctl K (CMD_GET_ROOT (g\<lparr>paging_pid := p\<rparr>)) s = (1, Out_none, s)"
  using assms
  by (simp add: ioctl_vm_update_def update_vm_def ioctl_set_root_def ioctl_get_root_def)

theorem no_process_no_effect_witness:
  "get_mm sample_linux 99 = None \<and>
   device_ioctl sample_linux (CMD_VM_UPDATE (zero_entry\<lparr>pid := 99\<rparr>)) sample_kstate = (0, Out_none, sample_kstate)"
proof -
  have "get_mm sample_linux 99 = None" "cfg_arch sample_linux = X86_64"
    by (simp_all add: get_mm_def sample_linux_def)
  then show ?thesis using no_process_no_effect [of sample_linux 99 zero_entry sample_kstate] by simp
qed

section \<open>Pages, roots and memory types\<close>

text \<open>
  Writing a physical page and reading it back returns the written bytes, and no byte outside the
  page changes.  The kernel's direct map is only assumed to invert at the page's address.
\<close>

theorem write_read_page:
  assumes "virt_to_phys K (phys_to_virt K a) = a" and "a = page_pfn page * of_nat (real_page_size s)"
    and "length (page_buffer page) = real_page_size s" and "real_page_size s \<le> 65536"
    and "device_ioctl K (CMD_WRITE_PAGE page) s = (r, out, t)"
  shows "device_ioctl K (CMD_READ_PAGE page) t = (0, Out_bytes (page_buffer page), t)
    \<and> (\<forall>b. real_page_size s \<le> unat (b - a) \<longrightarrow> phys t b = phys s b)"
proof -
  from assms have t: "t = s\<lparr>phys := store_bytes (phys s) a (page_buffer page)\<rparr>"
    by (auto simp: ioctl_write_page_def Let_def)
  have "load_bytes (store_bytes (phys s) a (page_buffer page)) a (real_page_size s) = page_buffer page"
    using assms(3,4) load_bytes_store_bytes [of "page_buffer page" "phys s" a] by simp
  then show ?thesis
    using assms(1-4) by (simp add: t ioctl_read_page_def Let_def store_bytes_apply)
qed

theorem write_read_page_witness:
  "device_ioctl sample_linux (CMD_READ_PAGE \<lparr>page_pfn = 5, page_vaddr = 0, page_size = 0, page_buffer = replicate 4096 0x41\<rparr>)
     (snd (snd (device_ioctl sample_linux (CMD_WRITE_PAGE \<lparr>page_pfn = 5, page_vaddr = 0, page_size = 0, page_buffer = replicate 4096 0x41\<rparr>) sample_kstate)))
   = (0, Out_bytes (replicate 4096 0x41),
      snd (snd (device_ioctl sample_linux (CMD_WRITE_PAGE \<lparr>page_pfn = 5, page_vaddr = 0, page_size = 0, page_buffer = replicate 4096 0x41\<rparr>) sample_kstate)))"
proof -
  let ?page = "\<lparr>page_pfn = 5, page_vaddr = 0, page_size = 0, page_buffer = replicate 4096 (0x41 :: u8)\<rparr>"
  obtain r out t where t: "device_ioctl sample_linux (CMD_WRITE_PAGE ?page) sample_kstate = (r, out, t)"
    by (metis prod_cases3)
  have "virt_to_phys sample_linux (phys_to_virt sample_linux 0x5000) = 0x5000"
    "0x5000 = page_pfn ?page * of_nat (real_page_size sample_kstate)"
    "length (page_buffer ?page) = real_page_size sample_kstate" "real_page_size sample_kstate \<le> 65536"
    by (simp_all add: sample_linux_def sample_kstate_def initial_kstate_def)
  from write_read_page [OF this t] show ?thesis by (simp only: t snd_conv) simp
qed

text \<open>
  After the root of a process's tables is set, reading it gives the same physical address, and the
  roots of the other address spaces are unchanged.
\<close>

theorem set_get_root:
  assumes "virt_to_phys K (phys_to_virt K root) = root" and "phys_to_virt K root \<noteq> 0"
    and "get_mm K p = Some mm"
    and "device_ioctl K (CMD_SET_ROOT \<lparr>paging_pid = p, paging_root = root\<rparr>) s = (r, out, t)"
  shows "r = 0
    \<and> fst (snd (device_ioctl K (CMD_GET_ROOT \<lparr>paging_pid = p, paging_root = 0\<rparr>) t)) =
        Out_paging \<lparr>paging_pid = p, paging_root = root\<rparr>
    \<and> (\<forall>mm'. mm' \<noteq> mm \<longrightarrow> mm_pgd t mm' = mm_pgd s mm')"
  using assms
  by (cases "mm_is_locked s") (auto simp: ioctl_set_root_def ioctl_get_root_def Let_def)

theorem set_get_root_witness:
  "fst (snd (device_ioctl sample_linux (CMD_GET_ROOT \<lparr>paging_pid = 42, paging_root = 0\<rparr>)
     (snd (snd (device_ioctl sample_linux (CMD_SET_ROOT \<lparr>paging_pid = 42, paging_root = 0x1000\<rparr>) sample_kstate))))) =
   Out_paging \<lparr>paging_pid = 42, paging_root = 0x1000\<rparr>"
proof -
  obtain r out t where t: "device_ioctl sample_linux (CMD_SET_ROOT \<lparr>paging_pid = 42, paging_root = 0x1000\<rparr>)
      sample_kstate = (r, out, t)"
    by (metis prod_cases3)
  have "virt_to_phys sample_linux (phys_to_virt sample_linux 0x1000) = 0x1000"
    "phys_to_virt sample_linux 0x1000 \<noteq> 0" "get_mm sample_linux 42 = Some 7"
    by (simp_all add: sample_linux_def direct_map_def get_mm_def)
  from set_get_root [OF this t] show ?thesis by (simp only: t snd_conv)
qed

text \<open>
  Programming the memory types reaches every CPU and reads back unchanged, except that on x86 a
  value with bit 31 set reads back with all upper bits set, because the low half is widened as a signed
  \<open>int\<close>.  (That bit is reserved in the register.)
\<close>

theorem set_get_pat:
  "(\<forall>cpu. pat_msr (snd (snd (device_ioctl K (CMD_SET_PAT w) s))) cpu = w)
   \<and> fst (snd (device_ioctl K CMD_GET_PAT (snd (snd (device_ioctl K (CMD_SET_PAT w) s))))) =
       Out_word (if cfg_arch K = X86_64 \<and> bit w 31 then w OR NOT (mask 32) else w)"
proof -
  have half: "(x AND 0xffffffff :: u64) = take_bit 32 x" for x
    by (simp add: take_bit_eq_mask mask_numeral)
  have wr: "set_pat_cpu K w = w"
    by (cases "cfg_arch K", rule u64_eqI)
      (auto simp: set_pat_cpu_def wrmsr_def pat_low_def pat_high_def half bit_simps)
  have rd: "size_of_int (ucast w) OR push_bit 32 (size_of_int (ucast (drop_bit 32 w))) =
      (if bit w 31 then w OR NOT (mask 32) else w)"
  proof (rule u64_eqI)
    fix n :: nat
    assume n: "n < 64"
    consider "n < 31" | "n = 31" | "32 \<le> n" by linarith
    then show "bit (size_of_int (ucast w) OR push_bit 32 (size_of_int (ucast (drop_bit 32 w)))) n =
        bit (if bit w 31 then w OR NOT (mask 32) else w) n"
    proof cases
      case 3
      have "32 + min 31 (n - 32) = n" if "n - 32 < 32" using that 3 by simp
      with 3 n show ?thesis by (auto simp: size_of_int_def bit_simps)
    qed (auto simp: size_of_int_def bit_simps)
  qed
  show ?thesis
    using wr rd by (cases "cfg_arch K") (simp_all add: set_pat_def get_pat_def Let_def)
qed


section \<open>TLB requests\<close>

text \<open>
  The switch request accepts exactly the two documented values: any other value is refused with -1
  and changes nothing.  On AArch64 the selected routine is the one every later invalidation request
  runs; on x86 a request for the custom routine is ignored with a warning.
\<close>

theorem switch_tlb_then_invalidate:
  assumes "device_ioctl K (CMD_SWITCH_TLB_INVALIDATION w) s = (r, out, t)"
  shows "(ucast w \<notin> {0, 1 :: i32} \<longrightarrow> r = - 1 \<and> t = s)
    \<and> (ucast w \<in> {0, 1 :: i32} \<longrightarrow> r = 0)
    \<and> (cfg_arch K = AArch64 \<and> ucast w = (1 :: i32) \<longrightarrow>
         device_ioctl K (CMD_INVALIDATE_TLB addr) t = (0, Out_none, emit Tlbi_all_cpus t))
    \<and> (ucast w = (0 :: i32) \<longrightarrow>
         device_ioctl K (CMD_INVALIDATE_TLB addr) t = (0, Out_none, invalidate_tlb_kernel K (current_nr K) addr t))
    \<and> (cfg_arch K = X86_64 \<and> ucast w = (1 :: i32) \<longrightarrow> invalidate_tlb_fn t = invalidate_tlb_fn s)"
  using assms
  by (auto simp: ioctl_switch_tlb_def Let_def TLB_INVALIDATION_KERNEL_def TLB_INVALIDATION_CUSTOM_def
      invalidate_tlb_def invalidate_tlb_custom_def split: if_splits)

theorem switch_tlb_then_invalidate_witness:
  "device_ioctl sample_linux (CMD_SWITCH_TLB_INVALIDATION 5) sample_kstate = (- 1, Out_none, sample_kstate)
   \<and> (\<exists>r out t. device_ioctl (sample_linux\<lparr>cfg_arch := AArch64\<rparr>) (CMD_SWITCH_TLB_INVALIDATION 1) sample_kstate = (r, out, t)
        \<and> trace (snd (snd (device_ioctl (sample_linux\<lparr>cfg_arch := AArch64\<rparr>) (CMD_INVALIDATE_TLB 0x1000) t))) =
          trace t @ [Tlbi_all_cpus])"
proof -
  let ?A = "sample_linux\<lparr>cfg_arch := AArch64\<rparr>"
  have "device_ioctl sample_linux (CMD_SWITCH_TLB_INVALIDATION 5) sample_kstate = (- 1, Out_none, sample_kstate)"
    by (simp add: ioctl_switch_tlb_def TLB_INVALIDATION_KERNEL_def TLB_INVALIDATION_CUSTOM_def)
  moreover obtain r out t where t: "device_ioctl ?A (CMD_SWITCH_TLB_INVALIDATION 1) sample_kstate = (r, out, t)"
    by (metis prod_cases3)
  moreover from switch_tlb_then_invalidate [OF t, where addr = "0x1000"]
  have "device_ioctl ?A (CMD_INVALIDATE_TLB 0x1000) t = (0, Out_none, emit Tlbi_all_cpus t)" by simp
  ultimately show ?thesis by (metis emit_simps(1) snd_conv)
qed

section \<open>Exclusive use of the device\<close>

definition serve :: "(linux \<times> ioctl_req) list \<Rightarrow> 'a kstate_scheme \<Rightarrow> 'a kstate_scheme" where
  "serve reqs s = fold (\<lambda>(K, req) s. snd (snd (device_ioctl K req s))) reqs s"

lemma device_busy_request: "device_busy (snd (snd (device_ioctl K req s))) = device_busy s"
proof (cases "plain_req req \<and> (\<forall>w. req \<noteq> CMD_SWITCH_TLB_INVALIDATION w)")
  case True
  then show ?thesis using same_config_request [of req s K] by (simp add: same_config_def)
next
  case False
  then show ?thesis
    by (auto simp: plain_req_def ioctl_vm_lock_def ioctl_vm_unlock_def ioctl_switch_tlb_def Let_def split: if_splits)
qed

lemma device_busy_serve: "device_busy (serve reqs s) = device_busy s"
  by (induction reqs arbitrary: s) (auto simp: serve_def device_busy_request split: prod.split)

text \<open>
  The device has one user at a time: after a successful open, whatever requests are served, a
  second open fails with EBUSY and changes nothing, until the release, after which an open succeeds.
\<close>

theorem device_exclusive:
  assumes "device_open s = (0, t)"
  shows "device_open (serve reqs t) = (- EBUSY, serve reqs t)
    \<and> fst (device_open (snd (device_release (serve reqs t)))) = 0"
proof -
  from assms have "device_busy t"
    by (auto simp: device_open_def EBUSY_def split: if_splits)
  then show ?thesis by (simp add: device_open_def device_release_def device_busy_serve)
qed

theorem device_exclusive_witness:
  "device_open sample_kstate = (0, sample_kstate\<lparr>device_busy := True\<rparr>) \<and>
   fst (device_open (serve [(sample_linux, CMD_GET_PAT)] (sample_kstate\<lparr>device_busy := True\<rparr>))) = - 16"
proof -
  have op: "device_open sample_kstate = (0, sample_kstate\<lparr>device_busy := True\<rparr>)"
    by (simp add: device_open_def sample_kstate_def initial_kstate_def)
  with device_exclusive [OF op, of "[(sample_linux, CMD_GET_PAT)]"] show ?thesis
    by (simp add: EBUSY_def)
qed

section \<open>Loading and unloading\<close>

text \<open>
  C31. Loading returns 0 or -ENXIO.  When it returns 0 the device is registered and unloading removes
  every object it created (device, kretprobe, \<open>/proc/umem\<close>).  When it fails, the device is left
  registered exactly on the path where \<open>flush_tlb_mm_range\<close> is not found; the other failures leave the
  state as it was.
\<close>

theorem init_exit_cleanup:
  assumes "pteditor_init K B (initial_kstate m roots pats) = (r, s)"
  shows "(r = 0 \<or> r = - ENXIO)
    \<and> (r = 0 \<longrightarrow> misc_registered s \<and> proc_umem s = has_umem s
         \<and> \<not> misc_registered (pteditor_exit s) \<and> \<not> devmem_probe (pteditor_exit s) \<and> \<not> proc_umem (pteditor_exit s))
    \<and> (r \<noteq> 0 \<longrightarrow> (misc_registered s \<longleftrightarrow>
           \<not> (kprobe_lookup B \<and> kallsyms_addr B = 0) \<and> misc_register_ret B = 0
           \<and> cfg_arch K = X86_64 \<and> kallsyms_lookup B ''flush_tlb_mm_range'' = 0))"
proof -
  have umem: "proc_umem (setup_umem B t) = has_umem (setup_umem B t)"
    "misc_registered (setup_umem B t) = misc_registered t" if "proc_umem t = has_umem t" for t :: kstate
    using that by (simp_all add: setup_umem_def)
  have size: "proc_umem (set_page_size w t) = proc_umem t" "has_umem (set_page_size w t) = has_umem t"
    "misc_registered (set_page_size w t) = misc_registered t" for w and t :: kstate
    by (simp_all add: set_page_size_def Let_def)
  have exit: "\<not> misc_registered (pteditor_exit s)" "\<not> devmem_probe (pteditor_exit s)"
    "proc_umem s = has_umem s \<Longrightarrow> \<not> proc_umem (pteditor_exit s)"
    by (simp_all add: pteditor_exit_def Let_def)
  have start: "\<not> misc_registered (initial_kstate m roots pats)" "\<not> proc_umem (initial_kstate m roots pats)"
    "\<not> has_umem (initial_kstate m roots pats)"
    by (simp_all add: initial_kstate_def)
  show ?thesis
    using assms exit start
    by (auto simp: pteditor_init_def Let_def ENXIO_def umem size split: if_splits)
qed

theorem init_exit_cleanup_witness:
  "\<not> misc_registered (pteditor_exit sample_kstate) \<and>
   (\<exists>s. pteditor_init sample_linux (sample_boot\<lparr>kallsyms_lookup := \<lambda>name. 0\<rparr>) (initial_kstate sample_mem sample_roots (\<lambda>cpu. 0)) = (- 6, s)
        \<and> misc_registered s)"
proof -
  let ?B = "sample_boot\<lparr>kallsyms_lookup := \<lambda>name. 0\<rparr>"
  obtain s where s: "pteditor_init sample_linux ?B (initial_kstate sample_mem sample_roots (\<lambda>cpu. 0)) = (- 6, s)"
    by (simp add: pteditor_init_def sample_boot_def sample_linux_def Let_def ENXIO_def)
  have "misc_registered s"
    using init_exit_cleanup [OF s] by (simp add: sample_boot_def sample_linux_def)
  with s init_exit_cleanup [OF sample_loaded] show ?thesis by auto
qed

end
