(* ===== verification/PT_Locks.thy ===== *)
theory PT_Locks
  imports PT_Module "HOL-Library.Multiset"
begin

text \<open>
  Several threads in the module at once, seen from the address-space locks: each thread makes a sequence
  of requests, and what it does to the locks is what the handlers of \<open>PT_Linux\<close> record in their traces.
  The locks are those of \<open>PT_Module\<close>, shared by all threads: a step that cannot be granted waits.
\<close>

section \<open>Threads and steps\<close>

text \<open>
  A request with the task it is made for and the state of the module in which its handler runs.
\<close>

type_synonym job = "linux \<times> ioctl_req \<times> kstate"

definition thread_events :: "job list \<Rightarrow> kevent list" where
  "thread_events js = concat (map (\<lambda>(K, req, s). ioctl_trace K req s) js)"

inductive lstep :: "locks \<times> kevent list list \<Rightarrow> locks \<times> kevent list list \<Rightarrow> bool" where
  "i < length ts \<Longrightarrow> ts ! i = e # es \<Longrightarrow> lock_step e l = Some l' \<Longrightarrow> lstep (l, ts) (l', ts[i := es])"

inductive_cases lstepE: "lstep (l, ts) c"

definition events_left :: "kevent list list \<Rightarrow> nat" where
  "events_left ts = sum_list (map length ts)"

text \<open>All requests are made while \<open>mm_is_locked\<close> is false, which it is in every reachable state of the module.\<close>

definition unlocked_jobs :: "job list list \<Rightarrow> bool" where
  "unlocked_jobs tss \<longleftrightarrow> (\<forall>js \<in> set tss. \<forall>(K, req, s) \<in> set js. \<not> mm_is_locked s)"

definition makes_lock_request :: "job list list \<Rightarrow> bool" where
  "makes_lock_request tss \<longleftrightarrow> (\<exists>js \<in> set tss. \<exists>(K, req, s) \<in> set js. req = CMD_VM_LOCK)"

section \<open>What a thread holds\<close>

datatype held = Free | Reading nat | Writing nat

fun hold_step :: "kevent \<Rightarrow> held \<Rightarrow> held option" where
  "hold_step (Read_lock mm) h = (if h = Free then Some (Reading mm) else None)"
| "hold_step (Read_unlock mm) h = (if h = Reading mm then Some Free else None)"
| "hold_step (Write_lock mm) h = (if h = Free then Some (Writing mm) else None)"
| "hold_step (Write_unlock mm) h = (if h = Writing mm then Some Free else None)"
| "hold_step _ h = Some h"

text \<open>
  \<open>sections\<close>: the thread holds at most one lock at a time and none at the end.  \<open>sections_or_stuck\<close> also
  allows the thread to ask for a lock again that it holds exclusively, where it gets stuck.
\<close>

fun sections :: "held \<Rightarrow> kevent list \<Rightarrow> bool" where
  "sections h [] \<longleftrightarrow> h = Free"
| "sections h (e # es) \<longleftrightarrow> (case hold_step e h of Some h' \<Rightarrow> sections h' es | None \<Rightarrow> False)"

definition stuck :: "held \<Rightarrow> kevent list \<Rightarrow> bool" where
  "stuck h es \<longleftrightarrow> (\<exists>mm fs. h = Writing mm \<and> es = Read_lock mm # fs)"

fun sections_or_stuck :: "held \<Rightarrow> kevent list \<Rightarrow> bool" where
  "sections_or_stuck h [] \<longleftrightarrow> h = Free"
| "sections_or_stuck h (e # es) \<longleftrightarrow>
     (case hold_step e h of Some h' \<Rightarrow> sections_or_stuck h' es | None \<Rightarrow> stuck h (e # es))"

lemma sections_lenient: "sections h es \<Longrightarrow> sections_or_stuck h es"
  by (induction h es rule: sections.induct) (auto split: option.splits)

lemma sections_append: "sections h es \<Longrightarrow> sections Free fs \<Longrightarrow> sections h (es @ fs)"
  by (induction h es rule: sections.induct) (auto split: option.splits)

lemma sections_append_lenient: "sections h es \<Longrightarrow> sections_or_stuck Free fs \<Longrightarrow> sections_or_stuck h (es @ fs)"
  by (induction h es rule: sections.induct) (auto split: option.splits)

lemma hold_step_quiet: "quiet e \<Longrightarrow> hold_step e h = Some h"
  by (cases e) auto

lemma sections_quiet_append: "list_all quiet es \<Longrightarrow> sections h (es @ fs) = sections h fs"
  by (induction es) (simp_all add: hold_step_quiet)

lemma sections_quiet: "list_all quiet es \<Longrightarrow> sections Free es"
  using sections_quiet_append [of es Free "[]"] by simp

lemma ioctl_trace_quiet_sections:
  "quiet_ext s (snd (snd (device_ioctl K req s))) \<Longrightarrow> sections Free (ioctl_trace K req s)"
  by (auto simp: quiet_ext_def ioctl_trace_def sections_quiet)

section \<open>The handlers\<close>

lemma request_sections:
  assumes free: "\<not> mm_is_locked s" and req: "req \<noteq> CMD_VM_LOCK"
  shows "sections Free (ioctl_trace K req s)"
proof (cases req)
  case (CMD_VM_RESOLVE u)
  have "trace (snd (snd (device_ioctl K req s))) = trace (snd (snd (resolve_vm K (vaddr u) (pid u) (\<not> mm_is_locked s) s)))"
    by (simp add: CMD_VM_RESOLVE ioctl_vm_resolve_def split: prod.split)
  then show ?thesis
    using resolve_vm_events [of K "vaddr u" "pid u" "\<not> mm_is_locked s" s] by (auto simp: ioctl_trace_def)
next
  case (CMD_VM_UPDATE u)
  have "trace (snd (snd (device_ioctl K req s))) = trace (snd (update_vm K u (\<not> mm_is_locked s) s))"
    by (simp add: CMD_VM_UPDATE ioctl_vm_update_def split: prod.split)
  then show ?thesis
    using update_vm_events [of K u "\<not> mm_is_locked s" s]
    by (auto simp: ioctl_trace_def sections_quiet sections_quiet_append)
next
  case (CMD_GET_ROOT u)
  then show ?thesis by (auto simp: ioctl_trace_def ioctl_get_root_def Let_def split: option.split)
next
  case (CMD_SET_ROOT u)
  then show ?thesis by (auto simp: ioctl_trace_def ioctl_set_root_def Let_def split: option.split)
next
  case CMD_VM_UNLOCK
  with free show ?thesis by (simp add: ioctl_trace_def ioctl_vm_unlock_def Let_def)
qed (use req quiet_requests [of req s K] in \<open>auto intro!: ioctl_trace_quiet_sections simp: plain_req_def\<close>)

lemma lock_request_trace:
  "\<not> mm_is_locked s \<Longrightarrow> ioctl_trace K CMD_VM_LOCK s = [Write_lock (current_active_mm K), Read_lock (current_active_mm K)]"
  by (simp add: ioctl_trace_def ioctl_vm_lock_def Let_def)

definition doomed :: "held \<Rightarrow> kevent list \<Rightarrow> bool" where
  "doomed h es \<longleftrightarrow> stuck h es \<or> (\<exists>xs mm ys. es = xs @ Write_lock mm # Read_lock mm # ys)"

lemma thread_sections:
  assumes "\<forall>(K, req, s) \<in> set js. \<not> mm_is_locked s"
  shows "sections_or_stuck Free (thread_events js)"
    and "\<forall>(K, req, s) \<in> set js. req \<noteq> CMD_VM_LOCK \<Longrightarrow> sections Free (thread_events js)"
    and "\<exists>(K, req, s) \<in> set js. req = CMD_VM_LOCK \<Longrightarrow> doomed Free (thread_events js)"
proof -
  show "sections_or_stuck Free (thread_events js)"
    using assms
  proof (induction js)
    case (Cons j js)
    obtain K req s where j: "j = (K, req, s)" by (cases j)
    with Cons show ?case
      by (cases "req = CMD_VM_LOCK")
        (simp_all add: thread_events_def lock_request_trace stuck_def request_sections sections_append_lenient)
  qed (simp add: thread_events_def)
  show "\<forall>(K, req, s) \<in> set js. req \<noteq> CMD_VM_LOCK \<Longrightarrow> sections Free (thread_events js)"
    using assms by (induction js) (auto simp: thread_events_def request_sections sections_append)
  show "doomed Free (thread_events js)" if lock: "\<exists>(K, req, s) \<in> set js. req = CMD_VM_LOCK"
  proof -
    from lock obtain K s where "(K, CMD_VM_LOCK, s) \<in> set js" by auto
    then obtain as bs where js: "js = as @ (K, CMD_VM_LOCK, s) # bs" by (meson split_list)
    with assms have "\<not> mm_is_locked s" by auto
    then have "thread_events js = thread_events as @ Write_lock (current_active_mm K) # Read_lock (current_active_mm K) # thread_events bs"
      by (simp add: js thread_events_def lock_request_trace)
    then show ?thesis unfolding doomed_def by blast
  qed
qed

section \<open>The locks and what the threads hold\<close>

definition locks_match :: "locks \<Rightarrow> held multiset \<Rightarrow> bool" where
  "locks_match l M \<longleftrightarrow>
     (\<forall>mm. l mm = (count M (Reading mm), Writing mm \<in># M) \<and> count M (Writing mm) \<le> 1
        \<and> (Writing mm \<in># M \<longrightarrow> count M (Reading mm) = 0))"

lemma granted_step:
  assumes "locks_match l (add_mset h N)" and "lock_step e l = Some l'" and "sections_or_stuck h (e # es)"
  obtains h' where "hold_step e h = Some h'" "sections_or_stuck h' es" "locks_match l' (add_mset h' N)"
proof -
  have l: "l mm = (count (add_mset h N) (Reading mm), Writing mm \<in># add_mset h N)"
    "count (add_mset h N) (Writing mm) \<le> 1" "Writing mm \<in># add_mset h N \<Longrightarrow> count (add_mset h N) (Reading mm) = 0" for mm
    using assms(1) unfolding locks_match_def by blast+
  show thesis
  proof (cases "quiet e")
    case True
    then show thesis using that [of h] assms by (simp add: hold_step_quiet lock_step_quiet)
  next
    case False
    have own: "count N (Writing mm) = 0 \<and> count N (Reading mm) = 0" if "h = Writing mm" for mm
      using l(2,3) [of mm] that by simp
    have other: "Writing mm \<notin># N" if "h = Reading mm" for mm
      using l(3) [of mm] that by auto
    have rest: "count N (Writing mm) \<le> 1" "Writing mm \<in># N \<Longrightarrow> count N (Reading mm) = 0" for mm
      using l(2,3) [of mm] by (simp_all split: if_splits)
    show thesis
    proof (cases e)
      case (Read_lock mm)
      then show thesis
        using assms(2,3) l(1) rest by (intro that [of "Reading mm"]) (auto simp: stuck_def locks_match_def split: if_splits)
    next
      case (Read_unlock mm)
      then show thesis
        using assms(2,3) l(1) rest other by (intro that [of Free]) (auto simp: stuck_def locks_match_def split: if_splits)
    next
      case (Write_lock mm)
      then show thesis
        using assms(2,3) l(1) rest by (intro that [of "Writing mm"]) (auto simp: stuck_def locks_match_def not_in_iff split: if_splits)
    next
      case (Write_unlock mm)
      then show thesis
        using assms(2,3) l(1) rest own by (intro that [of Free]) (auto simp: stuck_def locks_match_def not_in_iff split: if_splits)
    qed (use False in simp_all)
  qed
qed

definition locks_ok :: "locks \<Rightarrow> kevent list list \<Rightarrow> held list \<Rightarrow> bool" where
  "locks_ok l ts hs \<longleftrightarrow>
     length hs = length ts \<and> locks_match l (mset hs) \<and> (\<forall>i < length ts. sections_or_stuck (hs ! i) (ts ! i))"

lemma locks_step:
  assumes "locks_ok l ts hs" and "lstep (l, ts) c"
  obtains i e es h' l' where "i < length ts" "ts ! i = e # es" "hold_step e (hs ! i) = Some h'" "c = (l', ts[i := es])"
    "locks_ok l' (ts[i := es]) (hs[i := h'])"
proof -
  from assms(2) obtain i e es l' where i: "i < length ts" "ts ! i = e # es" "lock_step e l = Some l'" "c = (l', ts[i := es])"
    by (elim lstepE) auto
  let ?N = "mset hs - {#hs ! i#}"
  have "hs ! i \<in># mset hs" using i(1) assms(1) by (simp add: locks_ok_def)
  then have M: "mset hs = add_mset (hs ! i) ?N" by simp
  have "locks_match l (add_mset (hs ! i) ?N)" "sections_or_stuck (hs ! i) (e # es)"
    using assms(1) i(1,2) M by (auto simp: locks_ok_def)
  from granted_step [OF this(1) i(3) this(2)] obtain h' where h': "hold_step e (hs ! i) = Some h'" "sections_or_stuck h' es"
    "locks_match l' (add_mset h' ?N)" by blast
  then have "locks_ok l' (ts[i := es]) (hs[i := h'])"
    using assms(1) i(1) by (auto simp: locks_ok_def mset_update nth_list_update)
  then show thesis by (rule that [OF i(1,2) h'(1) i(4)])
qed

text \<open>A thread that keeps to its sections can always move, unless it waits for another one that holds a lock and can move.\<close>

lemma holder_moves:
  assumes "locks_match l (mset hs)" and "h \<in> set hs" and "h \<noteq> Free" and "hold_step e h = Some h'"
  shows "lock_step e l \<noteq> None"
proof (cases "quiet e")
  case True
  then show ?thesis by (simp add: lock_step_quiet)
next
  case False
  with assms show ?thesis
    by (cases e) (auto simp: locks_match_def split: if_splits prod.split)
qed

lemma idle_moves:
  assumes "locks_match l (mset hs)" and "set hs \<subseteq> {Free}" and "hold_step e Free = Some h'"
  shows "lock_step e l \<noteq> None"
proof -
  have "l mm = (0, False)" for mm
    using assms(1,2) by (auto simp: locks_match_def count_eq_zero_iff)
  with assms(3) show ?thesis by (cases e) (auto split: if_splits)
qed

lemma someone_moves:
  assumes ok: "locks_ok l ts hs" and all: "\<forall>i < length ts. sections (hs ! i) (ts ! i)" and left: "\<exists>es \<in> set ts. es \<noteq> []"
  shows "\<exists>c. lstep (l, ts) c"
proof -
  have len: "length hs = length ts" and match: "locks_match l (mset hs)" using ok by (simp_all add: locks_ok_def)
  have moves: ?thesis if "i < length ts" "ts ! i = e # es" "lock_step e l \<noteq> None" for i e es
    using that by (auto intro: lstep.intros)
  show ?thesis
  proof (cases "set hs \<subseteq> {Free}")
    case True
    from left obtain i e es where i: "i < length ts" "ts ! i = e # es" by (metis in_set_conv_nth neq_Nil_conv)
    then have "hs ! i \<in> set hs" using len by simp
    with True have "hs ! i = Free" by auto
    then show ?thesis using moves [OF i] idle_moves [OF match True, of e] all i by (fastforce split: option.splits)
  next
    case False
    then obtain h where "h \<in> set hs" "h \<noteq> Free" by blast
    then obtain i where "i < length hs" "hs ! i \<noteq> Free" by (auto simp: in_set_conv_nth)
    then have h: "i < length ts" "hs ! i \<noteq> Free" "hs ! i \<in> set hs" using len by simp_all
    then obtain e es where i: "ts ! i = e # es" using all by (cases "ts ! i") auto
    then show ?thesis using moves [OF h(1) i] holder_moves [OF match h(3,2), of e] all h(1) by (fastforce split: option.splits)
  qed
qed

section \<open>Requests of several threads\<close>

lemma events_left_update:
  "i < length ts \<Longrightarrow> ts ! i = e # es \<Longrightarrow> Suc (events_left (ts[i := es])) = events_left ts"
  by (induction ts arbitrary: i) (auto simp: events_left_def split: nat.splits)

lemma events_left_zero: "events_left ts = 0 \<longleftrightarrow> (\<forall>es \<in> set ts. es = [])"
  by (auto simp: events_left_def)

lemma doomed_step: "doomed h (e # es) \<Longrightarrow> hold_step e h = Some h' \<Longrightarrow> doomed h' es"
proof -
  assume d: "doomed h (e # es)" and h': "hold_step e h = Some h'"
  then have "\<not> stuck h (e # es)" by (auto simp: stuck_def)
  with d obtain xs mm ys where xs: "e # es = xs @ Write_lock mm # Read_lock mm # ys" by (auto simp: doomed_def)
  show ?thesis
  proof (cases xs)
    case Nil
    with xs h' show ?thesis by (auto simp: doomed_def stuck_def split: if_splits)
  next
    case (Cons x zs)
    with xs have "es = zs @ Write_lock mm # Read_lock mm # ys" by simp
    then show ?thesis unfolding doomed_def by blast
  qed
qed

text \<open>What holds of a thread after any number of steps of a run: \<open>P\<close> is kept by the steps of the thread.\<close>

lemma run_keeps:
  assumes "(lstep ^^ n) (free_locks, ts\<^sub>0) (l, ts)"
    and "\<forall>es \<in> set ts\<^sub>0. sections_or_stuck Free es"
    and step: "\<And>h e es h'. P h (e # es) \<Longrightarrow> hold_step e h = Some h' \<Longrightarrow> P h' es"
  shows "\<exists>hs. locks_ok l ts hs \<and> length ts = length ts\<^sub>0 \<and> events_left ts + n = events_left ts\<^sub>0
    \<and> (\<forall>i < length ts. P Free (ts\<^sub>0 ! i) \<longrightarrow> P (hs ! i) (ts ! i))"
  using assms(1)
proof (induction n arbitrary: l ts)
  case 0
  have "locks_match free_locks (mset (replicate (length ts\<^sub>0) Free))"
    by (simp add: locks_match_def free_locks_def)
  with 0 show ?case
    using assms(2) by (intro exI [of _ "replicate (length ts\<^sub>0) Free"]) (auto simp: locks_ok_def)
next
  case (Suc n)
  then obtain l1 ts1 where 1: "(lstep ^^ n) (free_locks, ts\<^sub>0) (l1, ts1)" "lstep (l1, ts1) (l, ts)" by auto
  from Suc.IH [OF 1(1)] obtain hs where hs: "locks_ok l1 ts1 hs" "length ts1 = length ts\<^sub>0" "events_left ts1 + n = events_left ts\<^sub>0"
    "\<forall>i < length ts1. P Free (ts\<^sub>0 ! i) \<longrightarrow> P (hs ! i) (ts1 ! i)" by blast
  obtain i e es h' l' where i: "i < length ts1" "ts1 ! i = e # es" "hold_step e (hs ! i) = Some h'" "(l, ts) = (l', ts1[i := es])"
    "locks_ok l' (ts1[i := es]) (hs[i := h'])"
    by (rule locks_step [OF hs(1) 1(2)])
  have "P Free (ts\<^sub>0 ! j) \<longrightarrow> P (hs[i := h'] ! j) (ts1[i := es] ! j)" if "j < length ts1" for j
    using that hs(1,4) step [OF _ i(3), of es] i(1,2) by (cases "j = i") (auto simp: locks_ok_def)
  then show ?case
    using i hs(2,3) events_left_update [OF i(1,2)] by (intro exI [of _ "hs[i := h']"]) auto
qed

text \<open>
  C19. Requests of any number of threads, made while \<open>mm_is_locked\<close> is false (as it is in every reachable
  state), in any order and interleaved at every lock call of their handlers, never block each other for
  good as long as nobody makes the lock request: no run has more steps than there are events, some
  thread can move until all have finished, and then all locks are free.  A thread that makes the lock
  request never finishes, whatever the others do.
\<close>

theorem requests_finish_unless_locked:
  assumes "unlocked_jobs tss" and "(lstep ^^ n) (free_locks, map thread_events tss) (l, ts)"
  shows "n \<le> events_left (map thread_events tss)
    \<and> (\<not> makes_lock_request tss \<longrightarrow>
        (if n < events_left (map thread_events tss) then \<exists>c. lstep (l, ts) c
         else l = free_locks \<and> (\<forall>es \<in> set ts. es = [])))
    \<and> (\<forall>i < length tss. makes_lock_request [tss ! i] \<longrightarrow> ts ! i \<noteq> [])"
proof -
  let ?ts = "map thread_events tss"
  have jobs: "\<forall>(K, req, s) \<in> set js. \<not> mm_is_locked s" if "js \<in> set tss" for js
    using that assms(1) by (auto simp: unlocked_jobs_def)
  then have lenient: "\<forall>es \<in> set ?ts. sections_or_stuck Free es" using thread_sections(1) by auto
  obtain hs where hs: "locks_ok l ts hs" "length ts = length ?ts" "events_left ts + n = events_left ?ts"
    "\<forall>i < length ts. sections Free (?ts ! i) \<longrightarrow> sections (hs ! i) (ts ! i)"
    using run_keeps [OF assms(2) lenient, of sections] by (auto split: option.splits)
  obtain ks where ks: "\<forall>i < length ts. doomed Free (?ts ! i) \<longrightarrow> doomed (ks ! i) (ts ! i)"
    using run_keeps [OF assms(2) lenient, of doomed] doomed_step by blast
  have "n \<le> events_left ?ts" using hs(3) by simp
  moreover have "if n < events_left ?ts then \<exists>c. lstep (l, ts) c else l = free_locks \<and> (\<forall>es \<in> set ts. es = [])"
    if "\<not> makes_lock_request tss"
  proof -
    have "sections Free (?ts ! i)" if "i < length ts" for i
      using that hs(2) \<open>\<not> makes_lock_request tss\<close> thread_sections(2) [OF jobs, of "tss ! i"]
      by (fastforce simp: makes_lock_request_def)
    with hs(4) have all: "\<forall>i < length ts. sections (hs ! i) (ts ! i)" by blast
    show ?thesis
    proof (cases "events_left ts = 0")
      case True
      then have "\<forall>es \<in> set ts. es = []" by (simp add: events_left_zero)
      moreover have "hs ! i = Free" if "i < length ts" for i
        using that calculation all by (metis nth_mem sections.simps(1))
      then have "set hs \<subseteq> {Free}" using hs(1) by (auto simp: locks_ok_def in_set_conv_nth)
      then have "l mm = (0, False)" for mm using hs(1) by (auto simp: locks_ok_def locks_match_def count_eq_zero_iff)
      then have "l = free_locks" by (simp add: free_locks_def fun_eq_iff)
      ultimately show ?thesis using True hs(3) by simp
    next
      case False
      then have "n < events_left ?ts" using hs(3) by linarith
      moreover from False have "\<exists>es \<in> set ts. es \<noteq> []" unfolding events_left_zero by blast
      ultimately show ?thesis using someone_moves [OF hs(1) all] by simp
    qed
  qed
  moreover have "ts ! i \<noteq> []" if "i < length tss" "makes_lock_request [tss ! i]" for i
  proof -
    have "doomed Free (?ts ! i)" 
      using that thread_sections(3) [OF jobs [OF nth_mem [OF that(1)]]] by (simp add: makes_lock_request_def)
    with ks that hs(2) have "doomed (ks ! i) (ts ! i)" by simp
    then show ?thesis by (auto simp: doomed_def stuck_def)
  qed
  ultimately show ?thesis by blast
qed

text \<open>Two threads that resolve and update, and one that makes the lock request, on the sample kernel.\<close>

theorem requests_finish_unless_locked_witness:
  "(\<exists>c. lstep (free_locks, map thread_events
       [[(sample_linux, CMD_VM_RESOLVE zero_entry, sample_kstate)], [(sample_linux, CMD_VM_UPDATE zero_entry, sample_kstate)]]) c)
   \<and> map thread_events [[(sample_linux, CMD_VM_LOCK, sample_kstate)]] ! 0 \<noteq> []"
proof -
  let ?j = "[[(sample_linux, CMD_VM_RESOLVE zero_entry, sample_kstate)], [(sample_linux, CMD_VM_UPDATE zero_entry, sample_kstate)]]"
  have free: "\<not> mm_is_locked sample_kstate" by (simp add: sample_kstate_def initial_kstate_def)
  have "ioctl_trace sample_linux (CMD_VM_RESOLVE zero_entry) sample_kstate \<noteq> []"
    by (simp add: ioctl_trace_def ioctl_vm_resolve_def resolve_vm_def Let_def get_mm_def sample_linux_def free split: prod.split)
      (simp add: zero_entry_def)
  then have "0 < events_left (map thread_events ?j)" by (simp add: events_left_def thread_events_def)
  then show ?thesis
    using requests_finish_unless_locked [of ?j 0 free_locks "map thread_events ?j"]
      requests_finish_unless_locked [of "[[(sample_linux, CMD_VM_LOCK, sample_kstate)]]" 0 free_locks
        "map thread_events [[(sample_linux, CMD_VM_LOCK, sample_kstate)]]"] free
    by (simp add: unlocked_jobs_def makes_lock_request_def)
qed

end
