(* ===== verification/PT_Concurrent.thy ===== *)
theory PT_Concurrent
  imports PT_Module
begin

text \<open>
  Requests that overlap in time.  Several threads of the process that has opened the device can be in
  \<open>device_ioctl\<close> at once; what orders them is the \<open>mmap\<close> lock of the address space, which
  \<open>resolve_vm\<close> takes shared and \<open>update_vm\<close> and the root request take exclusively.  Here the requests
  are split into the accesses they make between these lock calls, and the accesses of different threads
  interleave.  The requests that read or change the tables are split (resolve, update, set-root); the lock
  calls of all requests, the root query and the lock and unlock requests included, are in \<open>PT_Locks\<close>.
  The requests do take the lock, since \<open>mm_is_locked\<close> is false in every reachable state of
  the module.  The lock itself is Linux code: it enters with its documented contract, that an exclusive
  holder excludes every other holder.
\<close>

section \<open>The steps of a request\<close>

text \<open>
  The part of the stack frame that survives from one access to the next: the structure copied from
  user space, the pointers found so far, and whether the walk has jumped to \<open>error_out\<close>.
\<close>

record frame =
  f_user :: ptedit_entry_t
  f_vm :: vm_t
  f_failed :: bool

datatype action =
    Walk_pgd nat | Walk_p4d | Walk_pud | Walk_pmd | Walk_pte
  | Put level | Flush
  | Copy level | Copy_valid
  | Put_root nat u64

definition found :: "level \<Rightarrow> u64 \<Rightarrow> frame \<Rightarrow> frame" where
  "found l p f =
     (let vm = f_vm f; vm = vm\<lparr>vm_valid := vm_valid vm OR valid_mask l\<rparr> in
      f\<lparr>f_vm := (case l of PGD \<Rightarrow> vm\<lparr>vm_pgd := Some p\<rparr> | P4D \<Rightarrow> vm\<lparr>vm_p4d := Some p\<rparr>
                   | PUD \<Rightarrow> vm\<lparr>vm_pud := Some p\<rparr> | PMD \<Rightarrow> vm\<lparr>vm_pmd := Some p\<rparr>
                   | PTE \<Rightarrow> vm\<lparr>vm_pte := Some p\<rparr>)\<rparr>)"

definition look :: "level \<Rightarrow> bool \<Rightarrow> u64 \<Rightarrow> frame \<Rightarrow> frame" where
  "look l rejected p f = (if rejected then f\<lparr>f_failed := True\<rparr> else found l p f)"

text \<open>One level of \<open>resolve_vm\<close>, below the pointer of the level above.\<close>

definition walk_step :: "linux \<Rightarrow> action \<Rightarrow> frame \<Rightarrow> kstate \<Rightarrow> frame" where
  "walk_step K a f s =
     (let m = phys s; addr = vaddr (f_user f); vm = f_vm f in
      if f_failed f then f
      else case a of
        Walk_pgd mm \<Rightarrow>
          (let p = pgd_offset K (mm_pgd s mm) addr
           in look PGD (pgd_none K (kread K m p) \<or> pgd_bad K (kread K m p)) p f)
      | Walk_p4d \<Rightarrow>
          (let p = p4d_offset K m (the (vm_pgd vm)) addr
           in look P4D (p4d_none K (kread K m p) \<or> p4d_bad K (kread K m p)) p f)
      | Walk_pud \<Rightarrow>
          (let p = pud_offset K m (the (if cfg_4_11 K then vm_p4d vm else vm_pgd vm)) addr
           in look PUD (pud_none K (kread K m p)) p f)
      | Walk_pmd \<Rightarrow>
          (let p = pmd_offset K m (the (vm_pud vm)) addr
           in look PMD (pmd_none K (kread K m p) \<or> pud_leaf K (kread K m (the (vm_pud vm)))) p f)
      | Walk_pte \<Rightarrow>
          (case pte_offset K m (the (vm_pmd vm)) addr of
             None \<Rightarrow> f\<lparr>f_failed := True\<rparr>
           | Some p \<Rightarrow> look PTE (pmd_leaf K (kread K m (the (vm_pmd vm)))) p f)
      | _ \<Rightarrow> f)"

text \<open>One of the conditional writes of \<open>update_vm\<close>.\<close>

definition put_step :: "linux \<Rightarrow> level \<Rightarrow> frame \<Rightarrow> kstate \<Rightarrow> kstate" where
  "put_step K l f s =
     (let setter = (case l of PGD \<Rightarrow> set_pgd K | P4D \<Rightarrow> set_p4d K | PUD \<Rightarrow> set_pud K | PMD \<Rightarrow> set_pmd K | PTE \<Rightarrow> set_pte K);
          msg = (case l of PGD \<Rightarrow> ''Updating PGD'' | P4D \<Rightarrow> ''Updating P4D'' | PUD \<Rightarrow> ''Updating PUD''
                   | PMD \<Rightarrow> ''Updating PMD'' | PTE \<Rightarrow> ''Updating PTE'')
      in update_level setter l msg (vm_valid (f_vm f)) (vm_ptr l (f_vm f)) (valid (f_user f)) (entry_of l (f_user f)) s)"

text \<open>One of the conditional reads of \<open>vm_to_user\<close>.\<close>

definition copy_step :: "linux \<Rightarrow> level \<Rightarrow> mem \<Rightarrow> frame \<Rightarrow> frame" where
  "copy_step K l m f =
     f\<lparr>f_user :=
       (case vm_ptr l (f_vm f) of
          None \<Rightarrow> f_user f
        | Some q \<Rightarrow>
            (let v = kread K m q; u = f_user f in
             case l of PGD \<Rightarrow> u\<lparr>pgd := v\<rparr> | P4D \<Rightarrow> u\<lparr>p4d := v\<rparr> | PUD \<Rightarrow> u\<lparr>pud := v\<rparr>
                     | PMD \<Rightarrow> u\<lparr>pmd := v\<rparr> | PTE \<Rightarrow> u\<lparr>pte := v\<rparr>))\<rparr>"

fun exec :: "linux \<Rightarrow> action \<Rightarrow> frame \<times> kstate \<Rightarrow> frame \<times> kstate" where
  "exec K (Put l) (f, s) = (f, put_step K l f s)"
| "exec K Flush (f, s) = (f, invalidate_tlb K (ucast (vm_pid (f_vm f))) (vaddr (f_user f)) s)"
| "exec K (Put_root mm root) (f, s) = (f, s\<lparr>mm_pgd := (mm_pgd s)(mm := phys_to_virt K root)\<rparr>)"
| "exec K (Copy l) (f, s) = (copy_step K l (phys s) f, s)"
| "exec K Copy_valid (f, s) = (f\<lparr>f_user := (f_user f)\<lparr>valid := vm_valid (f_vm f)\<rparr>\<rparr>, s)"
| "exec K a (f, s) = (walk_step K a f s, s)"

definition run :: "linux \<Rightarrow> action list \<Rightarrow> frame \<times> kstate \<Rightarrow> frame \<times> kstate" where
  "run K as fs = fold (exec K) as fs"

section \<open>The requests as programs\<close>

text \<open>
  What a request does with the lock held, and what it does after releasing it: \<open>vm_to_user\<close> runs
  outside the lock.
\<close>

datatype mode = Shared | Exclusive

record program =
  p_lock :: "(mode \<times> nat) option"
  p_body :: "action list"
  p_tail :: "action list"

datatype request = Req_resolve ptedit_entry_t | Req_update ptedit_entry_t | Req_set_root ptedit_paging_t

fun ioctl_of :: "request \<Rightarrow> ioctl_req" where
  "ioctl_of (Req_resolve e) = CMD_VM_RESOLVE e"
| "ioctl_of (Req_update e) = CMD_VM_UPDATE e"
| "ioctl_of (Req_set_root r) = CMD_SET_ROOT r"

fun request_mm :: "linux \<Rightarrow> request \<Rightarrow> nat option" where
  "request_mm K (Req_resolve e) = get_mm K (pid e)"
| "request_mm K (Req_update e) = get_mm K (pid e)"
| "request_mm K (Req_set_root r) = get_mm K (paging_pid r)"

fun request_mode :: "request \<Rightarrow> mode" where
  "request_mode (Req_resolve e) = Shared"
| "request_mode (Req_update e) = Exclusive"
| "request_mode (Req_set_root r) = Exclusive"

definition lower_actions :: "action list" where
  "lower_actions = [Walk_pud, Walk_pmd, Walk_pte]"

definition walk_actions :: "linux \<Rightarrow> nat \<Rightarrow> action list" where
  "walk_actions K mm = Walk_pgd mm # (if cfg_4_11 K then [Walk_p4d] else []) @ lower_actions"

definition put_actions :: "linux \<Rightarrow> action list" where
  "put_actions K = Put PGD # (if cfg_4_11 K then [Put P4D] else []) @ [Put PUD, Put PMD, Put PTE, Flush]"

definition copy_actions :: "linux \<Rightarrow> action list" where
  "copy_actions K = (if cfg_4_11 K then [Copy P4D] else []) @ [Copy PGD, Copy PMD, Copy PUD, Copy PTE, Copy_valid]"

fun request_body :: "linux \<Rightarrow> nat \<Rightarrow> request \<Rightarrow> action list" where
  "request_body K mm (Req_resolve e) = walk_actions K mm"
| "request_body K mm (Req_update e) = walk_actions K mm @ put_actions K"
| "request_body K mm (Req_set_root r) = [Put_root mm (paging_root r)]"

fun request_tail :: "linux \<Rightarrow> request \<Rightarrow> action list" where
  "request_tail K (Req_resolve e) = copy_actions K"
| "request_tail K (Req_update e) = []"
| "request_tail K (Req_set_root r) = []"

definition program_of :: "linux \<Rightarrow> request \<Rightarrow> program" where
  "program_of K r =
     (case request_mm K r of
        None \<Rightarrow> \<lparr>p_lock = None, p_body = [], p_tail = request_tail K r\<rparr>
      | Some mm \<Rightarrow> \<lparr>p_lock = Some (request_mode r, mm), p_body = request_body K mm r, p_tail = request_tail K r\<rparr>)"

fun frame_of :: "request \<Rightarrow> frame" where
  "frame_of (Req_resolve e) = \<lparr>f_user = e, f_vm = fresh_vm (pid e), f_failed = False\<rparr>"
| "frame_of (Req_update e) = \<lparr>f_user = e, f_vm = fresh_vm (pid e), f_failed = False\<rparr>"
| "frame_of (Req_set_root r) = \<lparr>f_user = zero_entry, f_vm = fresh_vm 0, f_failed = False\<rparr>"

fun lock_event :: "mode \<Rightarrow> nat \<Rightarrow> kevent" where
  "lock_event Shared mm = Read_lock mm"
| "lock_event Exclusive mm = Write_lock mm"

fun unlock_event :: "mode \<Rightarrow> nat \<Rightarrow> kevent" where
  "unlock_event Shared mm = Read_unlock mm"
| "unlock_event Exclusive mm = Write_unlock mm"

section \<open>Interleaving\<close>

datatype pc = is_Before: Before | is_Inside: Inside "action list" | is_After: After "action list"

record thread =
  t_prog :: program
  t_pc :: pc
  t_frame :: frame

text \<open>The history records the exclusive sections in the order in which they ended.\<close>

record config =
  shared :: kstate
  threads :: "thread list"
  history :: "nat list"

definition holds :: "mode \<Rightarrow> nat \<Rightarrow> thread \<Rightarrow> bool" where
  "holds md mm t \<longleftrightarrow> p_lock (t_prog t) = Some (md, mm) \<and> (\<exists>as. t_pc t = Inside as)"

definition lock_free :: "mode \<Rightarrow> nat \<Rightarrow> thread list \<Rightarrow> bool" where
  "lock_free md mm ts \<longleftrightarrow>
     (\<forall>t \<in> set ts. \<not> holds Exclusive mm t \<and> (md = Exclusive \<longrightarrow> \<not> holds Shared mm t))"

definition with_thread :: "nat \<Rightarrow> thread \<Rightarrow> kstate \<Rightarrow> config \<Rightarrow> config" where
  "with_thread i t s c = c\<lparr>shared := s, threads := (threads c)[i := t]\<rparr>"

inductive kstep :: "linux \<Rightarrow> config \<Rightarrow> config \<Rightarrow> bool" for K where
  lock: "i < length (threads c) \<Longrightarrow> t = threads c ! i \<Longrightarrow> t_pc t = Before \<Longrightarrow>
    p_lock (t_prog t) = Some (md, mm) \<Longrightarrow> lock_free md mm (threads c) \<Longrightarrow>
    kstep K c (with_thread i (t\<lparr>t_pc := Inside (p_body (t_prog t))\<rparr>) (emit (lock_event md mm) (shared c)) c)"
| no_lock: "i < length (threads c) \<Longrightarrow> t = threads c ! i \<Longrightarrow> t_pc t = Before \<Longrightarrow> p_lock (t_prog t) = None \<Longrightarrow>
    kstep K c (with_thread i (t\<lparr>t_pc := After (p_tail (t_prog t))\<rparr>) (shared c) c)"
| inside: "i < length (threads c) \<Longrightarrow> t = threads c ! i \<Longrightarrow> t_pc t = Inside (a # as) \<Longrightarrow>
    exec K a (t_frame t, shared c) = (f, s) \<Longrightarrow>
    kstep K c (with_thread i (t\<lparr>t_pc := Inside as, t_frame := f\<rparr>) s c)"
| unlock: "i < length (threads c) \<Longrightarrow> t = threads c ! i \<Longrightarrow> t_pc t = Inside [] \<Longrightarrow> p_lock (t_prog t) = Some (md, mm) \<Longrightarrow>
    kstep K c ((with_thread i (t\<lparr>t_pc := After (p_tail (t_prog t))\<rparr>) (emit (unlock_event md mm) (shared c)) c)
      \<lparr>history := history c @ (if md = Exclusive then [i] else [])\<rparr>)"
| after: "i < length (threads c) \<Longrightarrow> t = threads c ! i \<Longrightarrow> t_pc t = After (a # as) \<Longrightarrow>
    exec K a (t_frame t, shared c) = (f, s) \<Longrightarrow>
    kstep K c (with_thread i (t\<lparr>t_pc := After as, t_frame := f\<rparr>) s c)"

definition thread_of :: "linux \<Rightarrow> request \<Rightarrow> thread" where
  "thread_of K r = \<lparr>t_prog = program_of K r, t_pc = Before, t_frame = frame_of r\<rparr>"

definition start :: "linux \<Rightarrow> request list \<Rightarrow> kstate \<Rightarrow> config" where
  "start K rs s =
     \<lparr>shared = s, threads = map (thread_of K) rs, history = []\<rparr>"

definition finished :: "config \<Rightarrow> bool" where
  "finished c \<longleftrightarrow> (\<forall>t \<in> set (threads c). t_pc t = After [])"

section \<open>A request alone\<close>

text \<open>A thread that runs to its end without being interrupted.\<close>

definition complete :: "linux \<Rightarrow> thread \<Rightarrow> kstate \<Rightarrow> frame \<times> kstate" where
  "complete K t s =
     (let p = t_prog t;
          release = (\<lambda>(f, s). case p_lock p of
             None \<Rightarrow> run K (p_tail p) (f, s)
           | Some (md, mm) \<Rightarrow> run K (p_tail p) (f, emit (unlock_event md mm) s))
      in case t_pc t of
           Before \<Rightarrow> (case p_lock p of
               None \<Rightarrow> run K (p_tail p) (t_frame t, s)
             | Some (md, mm) \<Rightarrow> release (run K (p_body p) (t_frame t, emit (lock_event md mm) s)))
         | Inside as \<Rightarrow> release (run K as (t_frame t, s))
         | After as \<Rightarrow> run K as (t_frame t, s))"

lemma run_simps [simp]:
  "run K [] fs = fs" "run K (a # as) fs = run K as (exec K a fs)" "run K (as @ bs) fs = run K bs (run K as fs)"
  by (simp_all add: run_def)

lemmas walk_defs = walk_step_def look_def found_def Let_def

lemma walk_failed: "f_failed f \<Longrightarrow> walk_step K a f s = f"
  by (simp add: walk_step_def)

lemma frame_eq: "f_user (g :: frame) = f_user f \<Longrightarrow> f_vm g = v \<Longrightarrow> \<exists>b. g = f\<lparr>f_vm := v, f_failed := b\<rparr>"
  by (cases f; cases g) auto

lemma run_lower_failed: "f_failed f \<Longrightarrow> run K lower_actions (f, s) = (f, s)"
  by (simp add: lower_actions_def walk_failed)

lemma run_walk_pud:
  assumes "\<not> f_failed f" and parent: "(if cfg_4_11 K then vm_p4d (f_vm f) else vm_pgd (f_vm f)) = Some q"
  shows "\<exists>b. run K lower_actions (f, s) =
    (f\<lparr>f_vm := snd (resolve_vm_pud K (phys s) (vaddr (f_user f)) q (f_vm f)), f_failed := b\<rparr>, s)"
proof -
  define addr m where "addr = vaddr (f_user f)" and "m = phys s"
  define p where "p = pud_offset K m q addr"
  define p' where "p' = pmd_offset K m p addr"
  define f1 where "f1 = found PUD p f"
  define f2 where "f2 = found PMD p' f1"
  have pud: "walk_step K Walk_pud f s = look PUD (pud_none K (kread K m p)) p f"
    using assms by (simp add: walk_step_def Let_def p_def addr_def m_def)
  have pmd: "walk_step K Walk_pmd f1 s = look PMD (pmd_none K (kread K m p') \<or> pud_leaf K (kread K m p)) p' f1"
    using assms(1) by (simp add: walk_step_def f1_def found_def p'_def addr_def m_def Let_def)
  have pte: "walk_step K Walk_pte f2 s =
      (case pte_offset K m p' addr of None \<Rightarrow> f2\<lparr>f_failed := True\<rparr> | Some x \<Rightarrow> look PTE (pmd_leaf K (kread K m p')) x f2)"
    using assms(1) by (simp add: walk_step_def f2_def f1_def found_def addr_def m_def Let_def split: option.split)
  have fields: "f_vm f1 = (f_vm f)\<lparr>vm_pud := Some p, vm_valid := vm_valid (f_vm f) OR valid_mask PUD\<rparr>"
    "f_vm f2 = (f_vm f1)\<lparr>vm_pmd := Some p', vm_valid := vm_valid (f_vm f1) OR valid_mask PMD\<rparr>"
    "f1 = f\<lparr>f_vm := f_vm f1\<rparr>" "f2 = f1\<lparr>f_vm := f_vm f2\<rparr>"
    "found PTE x f2 = f2\<lparr>f_vm := (f_vm f2)\<lparr>vm_pte := Some x, vm_valid := vm_valid (f_vm f2) OR valid_mask PTE\<rparr>\<rparr>" for x
    by (simp_all add: f1_def f2_def found_def Let_def)
  have spec: "snd (resolve_vm_pud K m addr q (f_vm f)) =
      (if pud_none K (kread K m p) then f_vm f
       else if pmd_none K (kread K m p') \<or> pud_leaf K (kread K m p) then f_vm f1
       else case pte_offset K m p' addr of
              None \<Rightarrow> f_vm f2
            | Some x \<Rightarrow> if pmd_leaf K (kread K m p') then f_vm f2 else f_vm (found PTE x f2))"
    by (simp add: resolve_vm_pud_def Let_def p_def [symmetric] p'_def [symmetric] fields(1,2,5) split: option.split)
  define g where "g =
      (if pud_none K (kread K m p) then f\<lparr>f_failed := True\<rparr>
       else if pmd_none K (kread K m p') \<or> pud_leaf K (kread K m p) then f1\<lparr>f_failed := True\<rparr>
       else case pte_offset K m p' addr of
              None \<Rightarrow> f2\<lparr>f_failed := True\<rparr>
            | Some x \<Rightarrow> if pmd_leaf K (kread K m p') then f2\<lparr>f_failed := True\<rparr> else found PTE x f2)"
  have "run K lower_actions (f, s) = (g, s)"
    by (simp add: lower_actions_def pud look_def f1_def [symmetric] pmd f2_def [symmetric] pte walk_failed g_def split: option.split)
  moreover have "f_vm g = snd (resolve_vm_pud K m addr q (f_vm f))"
    unfolding spec g_def by (simp split: option.split)
  moreover have "f_user g = f_user f"
    unfolding g_def by (simp add: f1_def f2_def found_def Let_def split: option.split)
  ultimately show ?thesis unfolding addr_def m_def by (auto intro: frame_eq)
qed

lemma run_walk:
  "\<exists>b. run K (walk_actions K mm) (\<lparr>f_user = e, f_vm = fresh_vm p, f_failed = False\<rparr>, s) =
     (\<lparr>f_user = e, f_vm = snd (resolve_vm_walk K (phys s) (mm_pgd s mm) (vaddr e) (fresh_vm p)), f_failed = b\<rparr>, s)"
proof -
  define m addr where "m = phys s" and "addr = vaddr e"
  define pgdp where "pgdp = pgd_offset K (mm_pgd s mm) addr"
  define p4dp where "p4dp = p4d_offset K m pgdp addr"
  define f where "f = \<lparr>f_user = e, f_vm = fresh_vm p, f_failed = False\<rparr>"
  define f1 where "f1 = found PGD pgdp f"
  define f2 where "f2 = found P4D p4dp f1"
  let ?bad = "pgd_none K (kread K m pgdp) \<or> pgd_bad K (kread K m pgdp)"
  let ?bad4 = "p4d_none K (kread K m p4dp) \<or> p4d_bad K (kread K m p4dp)"
  have pgd: "walk_step K (Walk_pgd mm) f s = look PGD ?bad pgdp f"
    by (simp add: walk_step_def f_def pgdp_def m_def addr_def Let_def)
  have p4d: "walk_step K Walk_p4d f1 s = look P4D ?bad4 p4dp f1"
    by (simp add: walk_step_def f1_def f_def found_def fresh_vm_def p4dp_def m_def addr_def Let_def)
  have f1: "f_vm f1 = (fresh_vm p)\<lparr>vm_pgd := Some pgdp, vm_valid := vm_valid (fresh_vm p) OR valid_mask PGD\<rparr>"
    "f_user f1 = e" "\<not> f_failed f1"
    by (simp_all add: f1_def f_def found_def Let_def)
  have f2: "f_vm f2 = (f_vm f1)\<lparr>vm_p4d := Some p4dp, vm_valid := vm_valid (f_vm f1) OR valid_mask P4D\<rparr>"
    "f_user f2 = e" "\<not> f_failed f2"
    using f1 by (simp_all add: f2_def found_def Let_def)
  have spec: "snd (resolve_vm_walk K m (mm_pgd s mm) addr (fresh_vm p)) =
      (if ?bad then fresh_vm p
       else if cfg_4_11 K then if ?bad4 then f_vm f1 else snd (resolve_vm_pud K m addr p4dp (f_vm f2))
       else snd (resolve_vm_pud K m addr pgdp (f_vm f1)))"
    by (simp add: resolve_vm_walk_def Let_def pgdp_def [symmetric] p4dp_def [symmetric] f1(1) f2(1))
  have "\<exists>g. run K (walk_actions K mm) (f, s) = (g, s) \<and> f_user g = e
      \<and> f_vm g = snd (resolve_vm_walk K m (mm_pgd s mm) addr (fresh_vm p))"
  proof (cases "?bad \<or> cfg_4_11 K \<and> ?bad4")
    case True
    have f: "f_user f = e" "f_vm f = fresh_vm p" by (simp_all add: f_def)
    let ?g = "(if ?bad then f else f1)\<lparr>f_failed := True\<rparr>"
    have "run K (walk_actions K mm) (f, s) = (?g, s)"
      using True by (auto simp: walk_actions_def pgd p4d look_def f1_def [symmetric] walk_failed run_lower_failed)
    then show ?thesis using True f f1(2) by (auto simp: spec)
  next
    case False
    define h q where "h = (if cfg_4_11 K then f2 else f1)" and "q = (if cfg_4_11 K then p4dp else pgdp)"
    have h: "\<not> f_failed h" "(if cfg_4_11 K then vm_p4d (f_vm h) else vm_pgd (f_vm h)) = Some q" "f_user h = e"
      using f1 f2 by (simp_all add: h_def q_def)
    have "run K (walk_actions K mm) (f, s) = run K lower_actions (h, s)"
      using False by (auto simp: walk_actions_def pgd p4d look_def f1_def [symmetric] f2_def [symmetric] h_def)
    moreover obtain b where "run K lower_actions (h, s) =
        (h\<lparr>f_vm := snd (resolve_vm_pud K (phys s) (vaddr (f_user h)) q (f_vm h)), f_failed := b\<rparr>, s)"
      using run_walk_pud [OF h(1,2)] by blast
    ultimately show ?thesis
      using False h(3) unfolding spec by (auto simp: m_def addr_def h_def q_def)
  qed
  then show ?thesis unfolding f_def m_def addr_def by (metis frame.cases frame.select_convs(1,2))
qed

lemma run_put:
  "run K (put_actions K) (f, s) =
     (f, invalidate_tlb K (ucast (vm_pid (f_vm f))) (vaddr (f_user f)) (update_entries K (f_user f) (f_vm f) s))"
  by (simp add: put_actions_def put_step_def update_entries_def Let_def)

lemma run_copy:
  "run K (copy_actions K) (f, s) = (f\<lparr>f_user := vm_to_user K (phys s) (f_user f) (f_vm f)\<rparr>, s)"
  by (simp add: copy_actions_def copy_step_def vm_to_user_def Let_def split: option.split)

lemma complete_ioctl:
  assumes "\<not> mm_is_locked s"
  shows "snd (complete K (thread_of K r) s) = snd (snd (device_ioctl K (ioctl_of r) s))
    \<and> (\<forall>e. r = Req_resolve e \<longrightarrow>
        fst (snd (device_ioctl K (ioctl_of r) s)) = Out_entry (f_user (fst (complete K (thread_of K r) s))))"
proof (cases r)
  case (Req_resolve e)
  have unlocked: "\<not> mm_is_locked (emit ev s)" for ev using assms by (simp add: emit_def)
  show ?thesis
  proof (cases "get_mm K (pid e)")
    case None
    with assms show ?thesis
      by (simp add: Req_resolve complete_def thread_of_def program_of_def run_copy ioctl_vm_resolve_def resolve_vm_def)
  next
    case (Some mm)
    obtain b where "run K (walk_actions K mm) (\<lparr>f_user = e, f_vm = fresh_vm (pid e), f_failed = False\<rparr>, emit (Read_lock mm) s) =
        (\<lparr>f_user = e, f_vm = snd (resolve_vm_walk K (phys s) (mm_pgd s mm) (vaddr e) (fresh_vm (pid e))), f_failed = b\<rparr>,
         emit (Read_lock mm) s)"
      using run_walk [of K mm e "pid e" "emit (Read_lock mm) s"] by auto
    with Some assms show ?thesis
      by (simp add: Req_resolve complete_def thread_of_def program_of_def run_copy ioctl_vm_resolve_def resolve_vm_def
          case_prod_beta)
  qed
next
  case (Req_update e)
  show ?thesis
  proof (cases "get_mm K (pid e)")
    case None
    with assms show ?thesis
      by (simp add: Req_update complete_def thread_of_def program_of_def ioctl_vm_update_def update_vm_def)
  next
    case (Some mm)
    let ?s = "emit (Write_lock mm) s"
    obtain b where "run K (walk_actions K mm) (\<lparr>f_user = e, f_vm = fresh_vm (pid e), f_failed = False\<rparr>, ?s) =
        (\<lparr>f_user = e, f_vm = snd (resolve_vm_walk K (phys s) (mm_pgd s mm) (vaddr e) (fresh_vm (pid e))), f_failed = b\<rparr>, ?s)"
      using run_walk [of K mm e "pid e" ?s] by auto
    with Some assms show ?thesis
      by (simp add: Req_update complete_def thread_of_def program_of_def run_put ioctl_vm_update_def update_vm_def
          resolve_vm_def case_prod_beta Let_def)
  qed
next
  case (Req_set_root p)
  with assms show ?thesis
    by (simp add: complete_def thread_of_def program_of_def ioctl_set_root_def Let_def emit_def split: option.split)
qed

lemma kstep_alone:
  assumes "kstep K c c'" and "length (threads c) = 1"
  shows "length (threads c') = 1 \<and> complete K (threads c' ! 0) (shared c') = complete K (threads c ! 0) (shared c)"
  using assms by (cases rule: kstep.cases)
    (auto simp: complete_def with_thread_def Let_def case_prod_beta)

lemma kstep_alone_star:
  "(kstep K)\<^sup>*\<^sup>* c c' \<Longrightarrow> length (threads c) = 1 \<Longrightarrow>
   length (threads c') = 1 \<and> complete K (threads c' ! 0) (shared c') = complete K (threads c ! 0) (shared c)"
  by (induction rule: rtranclp_induct) (use kstep_alone in auto)

section \<open>Serialisation\<close>

text \<open>What the requests share: the tables and the roots of the address spaces.\<close>

definition shared_view :: "kstate \<Rightarrow> mem \<times> (nat \<Rightarrow> u64)" where
  "shared_view s = (phys s, mm_pgd s)"

definition serial :: "linux \<Rightarrow> request list \<Rightarrow> nat list \<Rightarrow> kstate \<Rightarrow> kstate" where
  "serial K rs is s = fold (\<lambda>i s. snd (snd (device_ioctl K (ioctl_of (rs ! i)) s))) is s"

fun is_walk :: "action \<Rightarrow> bool" where
  "is_walk (Walk_pgd mm) = True" | "is_walk Walk_p4d = True" | "is_walk Walk_pud = True"
| "is_walk Walk_pmd = True" | "is_walk Walk_pte = True" | "is_walk _ = False"

fun is_copy :: "action \<Rightarrow> bool" where
  "is_copy (Copy l) = True" | "is_copy Copy_valid = True" | "is_copy _ = False"

lemma view_emit [simp]: "shared_view (emit e s) = shared_view s"
  by (simp add: shared_view_def)

lemma view_eq: "shared_view s = shared_view t \<longleftrightarrow> phys s = phys t \<and> mm_pgd s = mm_pgd t"
  by (simp add: shared_view_def)

lemma invalidate_tlb_view [simp]: "shared_view (invalidate_tlb K p a s) = shared_view s"
  by (simp add: PT_Linux.invalidate_tlb_def invalidate_tlb_kernel_def invalidate_tlb_custom_def
      split: tlb_fn.split arch.split option.split)

lemma walk_step_view: "shared_view s = shared_view t \<Longrightarrow> walk_step K a f s = walk_step K a f t"
  unfolding view_eq walk_step_def by (elim conjE) (simp only:)

lemma update_level_view:
  "shared_view s = shared_view t \<Longrightarrow> shared_view (update_level setter l msg ov q nv v s) = shared_view (update_level setter l msg ov q nv v t)"
  by (simp add: view_eq update_level_def split: option.split)

lemma update_entries_view: "shared_view s = shared_view t \<Longrightarrow> shared_view (update_entries K new old s) = shared_view (update_entries K new old t)"
  unfolding update_entries_def Let_def by (cases "cfg_4_11 K") (simp_all only: if_True if_False, (intro update_level_view, assumption)+)

lemma put_step_view: "shared_view s = shared_view t \<Longrightarrow> shared_view (put_step K l f s) = shared_view (put_step K l f t)"
  unfolding put_step_def Let_def by (rule update_level_view)

lemma exec_view:
  assumes "shared_view s = shared_view t"
  shows "fst (exec K a (f, s)) = fst (exec K a (f, t)) \<and> shared_view (snd (exec K a (f, s))) = shared_view (snd (exec K a (f, t)))"
  using assms walk_step_view [OF assms] put_step_view [OF assms]
  by (cases a) (simp_all, simp_all add: view_eq)

lemma run_view:
  "shared_view s = shared_view t \<Longrightarrow> fst (run K as (f, s)) = fst (run K as (f, t)) \<and> shared_view (snd (run K as (f, s))) = shared_view (snd (run K as (f, t)))"
proof (induction as arbitrary: f s t)
  case (Cons a as)
  obtain f' s' where s: "exec K a (f, s) = (f', s')" by fastforce
  obtain f'' t' where t: "exec K a (f, t) = (f'', t')" by fastforce
  from exec_view [OF Cons.prems, of K a f] s t have "f'' = f'" "shared_view s' = shared_view t'" by simp_all
  then show ?case using Cons.IH [of s' t' f'] s t by simp
qed simp

lemma exec_reads: "is_walk a \<or> is_copy a \<Longrightarrow> snd (exec K a (f, s)) = s"
  by (cases a) simp_all

lemma exec_copy_vm: "is_copy a \<Longrightarrow> f_vm (fst (exec K a (f, s))) = f_vm f"
  by (cases a) (simp_all add: copy_step_def)

lemma request_actions:
  "request_mode r = Shared \<Longrightarrow> list_all is_walk (request_body K mm r)" "list_all is_copy (request_tail K r)"
  "request_mode r = Exclusive \<Longrightarrow> request_tail K r = []"
  by (cases r; simp add: walk_actions_def lower_actions_def copy_actions_def)+

text \<open>An exclusive request changes what is shared as its body does.\<close>

lemma ioctl_body_view:
  assumes "request_mm K r = Some mm" and "request_mode r = Exclusive"
  shows "shared_view (snd (snd (device_ioctl K (ioctl_of r) s))) = shared_view (snd (run K (request_body K mm r) (frame_of r, s)))"
proof (cases r)
  case (Req_update e)
  obtain b where "run K (walk_actions K mm) (\<lparr>f_user = e, f_vm = fresh_vm (pid e), f_failed = False\<rparr>, s) =
      (\<lparr>f_user = e, f_vm = snd (resolve_vm_walk K (phys s) (mm_pgd s mm) (vaddr e) (fresh_vm (pid e))), f_failed = b\<rparr>, s)"
    using run_walk by blast
  moreover have "shared_view (update_entries K e old (emit ev s)) = shared_view (update_entries K e old s)" for old ev
    by (rule update_entries_view) simp
  ultimately show ?thesis
    using assms by (simp add: Req_update run_put ioctl_vm_update_def update_vm_def resolve_vm_def case_prod_beta Let_def)
next
  case (Req_set_root p)
  then show ?thesis using assms by (simp add: ioctl_set_root_def Let_def shared_view_def)
qed (use assms in simp)

text \<open>
  The invariant of the threads of one address space, for the requests \<open>rs\<close> started in \<open>s0\<close> with the
  history \<open>h\<close>.  A waiting thread has not touched anything; a reader inside will find what an
  undisturbed reader finds; a reader that has released the lock has the pointers of a state between two
  exclusive sections.
\<close>

definition body_of :: "linux \<Rightarrow> request \<Rightarrow> action list" where
  "body_of K r = p_body (program_of K r)"

definition thread_ok :: "linux \<Rightarrow> request list \<Rightarrow> kstate \<Rightarrow> nat list \<Rightarrow> kstate \<Rightarrow> nat \<Rightarrow> thread \<Rightarrow> bool" where
  "thread_ok K rs s0 h s i t \<longleftrightarrow>
     t_prog t = program_of K (rs ! i) \<and>
     (case t_pc t of
        Before \<Rightarrow> t_frame t = frame_of (rs ! i)
      | Inside as \<Rightarrow> request_mm K (rs ! i) \<noteq> None \<and>
          (request_mode (rs ! i) = Shared \<longrightarrow>
             list_all is_walk as \<and> fst (run K as (t_frame t, s)) = fst (run K (body_of K (rs ! i)) (frame_of (rs ! i), s)))
      | After as \<Rightarrow> list_all is_copy as \<and>
          (request_mode (rs ! i) = Shared \<longrightarrow>
             (\<exists>k \<le> length h. f_vm (t_frame t) =
                f_vm (fst (run K (body_of K (rs ! i)) (frame_of (rs ! i), serial K rs (take k h) s0))))))"

definition inside_at :: "config \<Rightarrow> nat \<Rightarrow> bool" where
  "inside_at c i \<longleftrightarrow> i < length (threads c) \<and> is_Inside (t_pc (threads c ! i))"

definition config_ok :: "linux \<Rightarrow> request list \<Rightarrow> kstate \<Rightarrow> config \<Rightarrow> bool" where
  "config_ok K rs s0 c \<longleftrightarrow>
     length (threads c) = length rs \<and>
     (\<forall>i < length rs. thread_ok K rs s0 (history c) (shared c) i (threads c ! i)) \<and>
     (\<forall>i j. inside_at c i \<longrightarrow> inside_at c j \<longrightarrow> i \<noteq> j \<longrightarrow> request_mode (rs ! i) = Shared \<and> request_mode (rs ! j) = Shared) \<and>
     distinct (history c) \<and>
     (\<forall>i. i \<in> set (history c) \<longleftrightarrow> i < length rs \<and> request_mode (rs ! i) = Exclusive \<and> request_mm K (rs ! i) \<noteq> None
          \<and> is_After (t_pc (threads c ! i))) \<and>
     ((\<forall>i. inside_at c i \<longrightarrow> request_mode (rs ! i) = Shared) \<longrightarrow> shared_view (shared c) = shared_view (serial K rs (history c) s0)) \<and>
     (\<forall>i as. i < length rs \<longrightarrow> t_pc (threads c ! i) = Inside as \<longrightarrow> request_mode (rs ! i) = Exclusive \<longrightarrow>
        shared_view (snd (run K as (t_frame (threads c ! i), shared c))) =
        shared_view (snd (run K (body_of K (rs ! i)) (frame_of (rs ! i), serial K rs (history c) s0))))"

lemma config_okD:
  assumes "config_ok K rs s0 c"
  shows "length (threads c) = length rs"
    and "i < length rs \<Longrightarrow> thread_ok K rs s0 (history c) (shared c) i (threads c ! i)"
    and "inside_at c i \<Longrightarrow> inside_at c j \<Longrightarrow> i \<noteq> j \<Longrightarrow> request_mode (rs ! i) = Shared"
    and "distinct (history c)"
    and "i \<in> set (history c) \<longleftrightarrow> i < length rs \<and> request_mode (rs ! i) = Exclusive \<and> request_mm K (rs ! i) \<noteq> None
          \<and> is_After (t_pc (threads c ! i))"
    and "(\<And>i. inside_at c i \<Longrightarrow> request_mode (rs ! i) = Shared) \<Longrightarrow> shared_view (shared c) = shared_view (serial K rs (history c) s0)"
    and "i < length rs \<Longrightarrow> t_pc (threads c ! i) = Inside as \<Longrightarrow> request_mode (rs ! i) = Exclusive \<Longrightarrow>
        shared_view (snd (run K as (t_frame (threads c ! i), shared c))) =
        shared_view (snd (run K (body_of K (rs ! i)) (frame_of (rs ! i), serial K rs (history c) s0)))"
  using assms unfolding config_ok_def by blast+

text \<open>What a thread knows survives steps of others that keep the shared state or find it outside.\<close>

lemma thread_ok_other:
  assumes "thread_ok K rs s0 h s i t" and "shared_view s' = shared_view s \<or> \<not> is_Inside (t_pc t)"
  shows "thread_ok K rs s0 (h @ z) s' i t"
proof (cases "t_pc t")
  case (Inside as)
  with assms(2) have "shared_view s' = shared_view s" by auto
  then have "fst (run K bs (f, s')) = fst (run K bs (f, s))" for bs f using run_view by blast
  with assms(1) Inside show ?thesis by (simp add: thread_ok_def)
next
  case (After as)
  moreover have "\<exists>k \<le> length (h @ z). f_vm (t_frame t) = f_vm (fst (run K (body_of K (rs ! i)) (frame_of (rs ! i), serial K rs (take k (h @ z)) s0)))"
    if "k \<le> length h" "f_vm (t_frame t) = f_vm (fst (run K (body_of K (rs ! i)) (frame_of (rs ! i), serial K rs (take k h) s0)))" for k
    using that by (intro exI [of _ k]) simp
  ultimately show ?thesis using assms(1) by (auto simp: thread_ok_def)
qed (use assms(1) in \<open>simp add: thread_ok_def\<close>)

text \<open>A step of thread \<open>i\<close>, assembled from what it does to the thread itself and to the shared state.\<close>

lemma config_ok_move:
  assumes ok: "config_ok K rs s0 c" and i: "i < length rs" and pc: "threads c ! i = t"
    and mine: "thread_ok K rs s0 (history c @ z) s i t'"
    and others: "\<And>j. inside_at c j \<Longrightarrow> j \<noteq> i \<Longrightarrow> shared_view s = shared_view (shared c)"
    and enters: "\<And>j. is_Inside (t_pc t') \<Longrightarrow> inside_at c j \<Longrightarrow> j \<noteq> i \<Longrightarrow>
        request_mode (rs ! i) = Shared \<and> request_mode (rs ! j) = Shared"
    and hist: "is_After (t_pc t) \<Longrightarrow> is_After (t_pc t')"
      "z = (if is_Inside (t_pc t) \<and> is_After (t_pc t') \<and> request_mode (rs ! i) = Exclusive then [i] else [])"
      "t_pc t = Before \<Longrightarrow> is_After (t_pc t') \<Longrightarrow> request_mm K (rs ! i) = None"
    and calm: "(is_Inside (t_pc t') \<Longrightarrow> request_mode (rs ! i) = Shared) \<Longrightarrow>
        (\<And>j. inside_at c j \<Longrightarrow> j \<noteq> i \<Longrightarrow> request_mode (rs ! j) = Shared) \<Longrightarrow> shared_view s = shared_view (serial K rs (history c @ z) s0)"
    and busy: "\<And>as. t_pc t' = Inside as \<Longrightarrow> request_mode (rs ! i) = Exclusive \<Longrightarrow>
        shared_view (snd (run K as (t_frame t', s))) =
        shared_view (snd (run K (body_of K (rs ! i)) (frame_of (rs ! i), serial K rs (history c) s0)))"
  shows "config_ok K rs s0 ((with_thread i t' s c)\<lparr>history := history c @ z\<rparr>)"
proof -
  note D = config_okD [OF ok]
  let ?c = "(with_thread i t' s c)\<lparr>history := history c @ z\<rparr>"
  have th: "threads ?c ! j = (if j = i then t' else threads c ! j)" "length (threads ?c) = length rs" for j
    using i D(1) by (simp_all add: with_thread_def)
  have ins: "inside_at ?c j \<longleftrightarrow> (if j = i then is_Inside (t_pc t') else inside_at c j)" for j
    using i D(1) th by (simp add: inside_at_def)
  have mm: "is_Inside (t_pc t) \<Longrightarrow> request_mm K (rs ! i) \<noteq> None"
    using D(2) [OF i] pc by (auto simp: thread_ok_def split: pc.splits)
  have "i \<notin> set (history c)" if "z = [i]" using that hist(2) D(5) [of i] pc by (auto split: if_splits pc.splits)
  then have "distinct (history c @ z)" using D(4) hist(2) by auto
  moreover have "thread_ok K rs s0 (history c @ z) s j (threads ?c ! j)" if "j < length rs" for j
    using that mine D(2) [OF that] others [of j] th
    by (auto simp: inside_at_def D(1) intro!: thread_ok_other)
  moreover have "request_mode (rs ! j) = Shared \<and> request_mode (rs ! k) = Shared" if "inside_at ?c j" "inside_at ?c k" "j \<noteq> k" for j k
    using that ins enters D(3) by (metis (full_types))
  moreover have "j \<in> set (history c @ z) \<longleftrightarrow> j < length rs \<and> request_mode (rs ! j) = Exclusive \<and> request_mm K (rs ! j) \<noteq> None
      \<and> is_After (t_pc (threads ?c ! j))" for j
  proof (cases "j = i")
    case True
    have "i \<in> set (history c) \<longleftrightarrow> request_mode (rs ! i) = Exclusive \<and> request_mm K (rs ! i) \<noteq> None \<and> is_After (t_pc t)"
      using D(5) [of i] i pc by simp
    then show ?thesis
      using True th(1) [of i] i hist(1,3) mm unfolding hist(2) by (cases "t_pc t") auto
  next
    case False
    then have "j \<notin> set z" unfolding hist(2) by simp
    then show ?thesis using D(5) [of j] False th(1) [of j] by simp
  qed
  moreover have "shared_view s = shared_view (serial K rs (history c @ z) s0)" if "\<And>j. inside_at ?c j \<Longrightarrow> request_mode (rs ! j) = Shared"
    using that ins by (intro calm) (metis (full_types))+
  moreover have "shared_view (snd (run K as (t_frame (threads ?c ! j), s))) =
      shared_view (snd (run K (body_of K (rs ! j)) (frame_of (rs ! j), serial K rs (history c @ z) s0)))"
    if "j < length rs" "t_pc (threads ?c ! j) = Inside as" "request_mode (rs ! j) = Exclusive" for j as
  proof (cases "j = i")
    case True
    with that th(1) [of i] hist(2) show ?thesis using busy by simp
  next
    case False
    with that th(1) [of j] D(1) have j: "inside_at c j" "t_pc (threads c ! j) = Inside as" by (simp_all add: inside_at_def)
    have "\<not> inside_at c i" using D(3) [OF j(1), of i] False that(3) by auto
    with hist(2) i pc D(1) have "z = []" by (simp add: inside_at_def)
    with False j that th(1) [of j] D(7) [of j as] run_view [OF others [OF j(1) False]] show ?thesis by simp
  qed
  ultimately show ?thesis unfolding config_ok_def using th(2) by (simp add: with_thread_def)
qed

lemma with_thread_history: "(with_thread i t s c)\<lparr>history := history c @ []\<rparr> = with_thread i t s c"
  by (cases c) (simp add: with_thread_def)

lemma program_lock: "p_lock (program_of K r) = map_option (\<lambda>mm. (request_mode r, mm)) (request_mm K r)"
  by (simp add: program_of_def split: option.split)

lemma body_of_some: "request_mm K r = Some mm \<Longrightarrow> body_of K r = request_body K mm r"
  by (simp add: body_of_def program_of_def)

lemma body_of_walk: "request_mode r = Shared \<Longrightarrow> list_all is_walk (body_of K r)"
  by (simp add: body_of_def program_of_def request_actions split: option.split)

lemma program_tail: "p_tail (program_of K r) = request_tail K r"
  by (simp add: program_of_def split: option.split)

lemma thread_okD:
  assumes "thread_ok K rs s0 h s i t"
  shows "t_prog t = program_of K (rs ! i)"
    and "t_pc t = Before \<Longrightarrow> t_frame t = frame_of (rs ! i)"
    and "t_pc t = Inside as \<Longrightarrow> request_mm K (rs ! i) \<noteq> None"
    and "t_pc t = Inside as \<Longrightarrow> request_mode (rs ! i) = Shared \<Longrightarrow>
      list_all is_walk as \<and> fst (run K as (t_frame t, s)) = fst (run K (body_of K (rs ! i)) (frame_of (rs ! i), s))"
    and "t_pc t = After as \<Longrightarrow> list_all is_copy as"
    and "t_pc t = After as \<Longrightarrow> request_mode (rs ! i) = Shared \<Longrightarrow> \<exists>k \<le> length h. f_vm (t_frame t) =
      f_vm (fst (run K (body_of K (rs ! i)) (frame_of (rs ! i), serial K rs (take k h) s0)))"
  using assms by (auto simp: thread_ok_def)

text \<open>All requests concern one address space.\<close>

definition one_space :: "linux \<Rightarrow> nat \<Rightarrow> request list \<Rightarrow> bool" where
  "one_space K M rs \<longleftrightarrow> (\<forall>r \<in> set rs. request_mm K r = None \<or> request_mm K r = Some M)"

lemma one_spaceD: "one_space K M rs \<Longrightarrow> i < length rs \<Longrightarrow> request_mm K (rs ! i) = Some mm \<Longrightarrow> mm = M"
  unfolding one_space_def by (metis nth_mem option.distinct(1) option.inject)

lemma inside_holds:
  assumes "config_ok K rs s0 c" and "one_space K M rs" and "inside_at c j"
  shows "threads c ! j \<in> set (threads c)" "holds (request_mode (rs ! j)) M (threads c ! j)"
proof -
  from assms(1,3) have j: "j < length rs" "j < length (threads c)" using config_okD(1) by (auto simp: inside_at_def)
  from assms(3) obtain as where as: "t_pc (threads c ! j) = Inside as" by (auto simp: inside_at_def is_Inside_def)
  note T = thread_okD [OF config_okD(2) [OF assms(1) j(1)]]
  have "request_mm K (rs ! j) = Some M" using T(3) [OF as] one_spaceD [OF assms(2) j(1)] by auto
  with as T(1) show "holds (request_mode (rs ! j)) M (threads c ! j)" by (simp add: holds_def program_lock)
  show "threads c ! j \<in> set (threads c)" using j(2) by simp
qed

lemma step_lock:
  assumes ok: "config_ok K rs s0 c" and M: "one_space K M rs" and i: "i < length (threads c)"
    and pc: "t_pc (threads c ! i) = Before" and lk: "p_lock (t_prog (threads c ! i)) = Some (md, mm)"
    and free: "lock_free md mm (threads c)"
  shows "config_ok K rs s0 (with_thread i ((threads c ! i)\<lparr>t_pc := Inside (p_body (t_prog (threads c ! i)))\<rparr>)
    (emit (lock_event md mm) (shared c)) c)"
proof -
  note D = config_okD [OF ok]
  from i D(1) have i': "i < length rs" by simp
  note T = thread_okD [OF D(2) [OF i']]
  from lk T(1) have r: "request_mm K (rs ! i) = Some mm" "request_mode (rs ! i) = md" by (auto simp: program_lock)
  then have mm: "mm = M" using one_spaceD [OF M i'] by simp
  have modes: "request_mode (rs ! j) = Shared \<and> md = Shared" if "inside_at c j" for j
    using inside_holds [OF ok M that] free mm by (cases "request_mode (rs ! j)"; cases md) (auto simp: lock_free_def)
  have not_i: "\<not> inside_at c i" using pc by (simp add: inside_at_def)
  have calm: "shared_view (shared c) = shared_view (serial K rs (history c) s0)" using modes by (intro D(6)) simp
  show ?thesis
  proof (subst with_thread_history [symmetric], rule config_ok_move [OF ok i' refl])
    show "thread_ok K rs s0 (history c @ []) (emit (lock_event md mm) (shared c)) i
        ((threads c ! i)\<lparr>t_pc := Inside (p_body (t_prog (threads c ! i)))\<rparr>)"
      using T(1,2) pc r body_of_walk [of "rs ! i" K] by (simp add: thread_ok_def body_of_def)
    show "shared_view (snd (run K as (t_frame ((threads c ! i)\<lparr>t_pc := Inside (p_body (t_prog (threads c ! i)))\<rparr>), emit (lock_event md mm) (shared c)))) =
        shared_view (snd (run K (body_of K (rs ! i)) (frame_of (rs ! i), serial K rs (history c) s0)))"
      if "t_pc ((threads c ! i)\<lparr>t_pc := Inside (p_body (t_prog (threads c ! i)))\<rparr>) = Inside as" for as
      using that T(1,2) pc run_view [of "emit (lock_event md mm) (shared c)" "serial K rs (history c) s0"] calm
      by (simp add: body_of_def)
  qed (use modes r calm pc in simp_all)
qed

lemma step_inside:
  assumes ok: "config_ok K rs s0 c" and i: "i < length (threads c)"
    and pc: "t_pc (threads c ! i) = Inside (a # as)" and ex: "exec K a (t_frame (threads c ! i), shared c) = (f, s)"
  shows "config_ok K rs s0 (with_thread i ((threads c ! i)\<lparr>t_pc := Inside as, t_frame := f\<rparr>) s c)"
proof -
  note D = config_okD [OF ok]
  from i D(1) have i': "i < length rs" by simp
  note T = thread_okD [OF D(2) [OF i']]
  have ins: "inside_at c i" using i pc by (simp add: inside_at_def)
  have same: "s = shared c" if "request_mode (rs ! i) = Shared"
    using T(4) [OF pc that] exec_reads [of a K "t_frame (threads c ! i)" "shared c"] ex by auto
  have shared: "request_mode (rs ! i) = Shared \<and> request_mode (rs ! j) = Shared" if "inside_at c j" "j \<noteq> i" for j
    using D(3) [OF ins that(1)] D(3) [OF that(1) ins] that(2) by auto
  show ?thesis
  proof (subst with_thread_history [symmetric], rule config_ok_move [OF ok i' refl])
    show "thread_ok K rs s0 (history c @ []) s i ((threads c ! i)\<lparr>t_pc := Inside as, t_frame := f\<rparr>)"
      using T(1,3,4) pc ex same by (auto simp: thread_ok_def)
    show "shared_view s = shared_view (serial K rs (history c @ []) s0)"
      if "is_Inside (t_pc ((threads c ! i)\<lparr>t_pc := Inside as, t_frame := f\<rparr>)) \<Longrightarrow> request_mode (rs ! i) = Shared"
      using that same shared by (metis D(6) append_Nil2 pc.disc(5) thread.select_convs(2) thread.surjective thread.update_convs(2,3))
    show "shared_view (snd (run K bs (t_frame ((threads c ! i)\<lparr>t_pc := Inside as, t_frame := f\<rparr>), s))) =
        shared_view (snd (run K (body_of K (rs ! i)) (frame_of (rs ! i), serial K rs (history c) s0)))"
      if "t_pc ((threads c ! i)\<lparr>t_pc := Inside as, t_frame := f\<rparr>) = Inside bs" "request_mode (rs ! i) = Exclusive" for bs
      using that D(7) [OF i' pc that(2)] ex by simp
  qed (use shared same pc in auto)
qed

lemma step_no_lock:
  assumes ok: "config_ok K rs s0 c" and i: "i < length (threads c)"
    and pc: "t_pc (threads c ! i) = Before" and lk: "p_lock (t_prog (threads c ! i)) = None"
  shows "config_ok K rs s0 (with_thread i ((threads c ! i)\<lparr>t_pc := After (p_tail (t_prog (threads c ! i)))\<rparr>) (shared c) c)"
proof -
  note D = config_okD [OF ok]
  from i D(1) have i': "i < length rs" by simp
  note T = thread_okD [OF D(2) [OF i']]
  from lk T(1) have r: "request_mm K (rs ! i) = None" by (simp add: program_lock)
  then have body: "body_of K (rs ! i) = []" by (simp add: body_of_def program_of_def)
  have not_i: "\<not> inside_at c i" using pc by (simp add: inside_at_def)
  show ?thesis
  proof (subst with_thread_history [symmetric], rule config_ok_move [OF ok i' refl])
    show "thread_ok K rs s0 (history c @ []) (shared c) i ((threads c ! i)\<lparr>t_pc := After (p_tail (t_prog (threads c ! i)))\<rparr>)"
      using T(1,2) pc r body by (auto simp: thread_ok_def program_tail request_actions)
    show "shared_view (shared c) = shared_view (serial K rs (history c @ []) s0)"
      if "\<And>j. inside_at c j \<Longrightarrow> j \<noteq> i \<Longrightarrow> request_mode (rs ! j) = Shared"
      using that not_i by (simp, intro D(6)) metis
  qed (use r pc in simp_all)
qed

lemma step_unlock:
  assumes ok: "config_ok K rs s0 c" and i: "i < length (threads c)"
    and pc: "t_pc (threads c ! i) = Inside []" and lk: "p_lock (t_prog (threads c ! i)) = Some (md, mm)"
  shows "config_ok K rs s0 ((with_thread i ((threads c ! i)\<lparr>t_pc := After (p_tail (t_prog (threads c ! i)))\<rparr>)
    (emit (unlock_event md mm) (shared c)) c)\<lparr>history := history c @ (if md = Exclusive then [i] else [])\<rparr>)"
proof -
  note D = config_okD [OF ok]
  from i D(1) have i': "i < length rs" by simp
  note T = thread_okD [OF D(2) [OF i']]
  from lk T(1) have r: "request_mm K (rs ! i) = Some mm" "request_mode (rs ! i) = md" by (auto simp: program_lock)
  have ins: "inside_at c i" using i pc by (simp add: inside_at_def)
  let ?h = "history c @ (if md = Exclusive then [i] else [])"
  have shared_view: "shared_view (shared c) = shared_view (serial K rs ?h s0)"
  proof (cases md)
    case Shared
    have "request_mode (rs ! j) = Shared" if "inside_at c j" for j
      using D(3) [OF that ins] Shared r by (cases "j = i") auto
    then show ?thesis using Shared D(6) by simp
  next
    case Exclusive
    then have "shared_view (shared c) = shared_view (snd (run K (body_of K (rs ! i)) (frame_of (rs ! i), serial K rs (history c) s0)))"
      using D(7) [OF i' pc] r(2) by simp
    also have "\<dots> = shared_view (snd (snd (device_ioctl K (ioctl_of (rs ! i)) (serial K rs (history c) s0))))"
      using ioctl_body_view [OF r(1)] r Exclusive by (simp add: body_of_some)
    finally show ?thesis using Exclusive by (simp add: serial_def)
  qed
  have "f_vm (t_frame (threads c ! i)) = f_vm (fst (run K (body_of K (rs ! i)) (frame_of (rs ! i), serial K rs (history c) s0)))"
    if "md = Shared"
    using T(4) [OF pc] r(2) that run_view [OF shared_view] by simp
  then have "thread_ok K rs s0 ?h (emit (unlock_event md mm) (shared c)) i
      ((threads c ! i)\<lparr>t_pc := After (p_tail (t_prog (threads c ! i)))\<rparr>)"
    using T(1) r by (auto simp: thread_ok_def program_tail request_actions intro: exI [of _ "length (history c)"])
  then show ?thesis
    using pc r shared_view by (intro config_ok_move [OF ok i' refl]) simp_all
qed

lemma step_after:
  assumes ok: "config_ok K rs s0 c" and i: "i < length (threads c)"
    and pc: "t_pc (threads c ! i) = After (a # as)" and ex: "exec K a (t_frame (threads c ! i), shared c) = (f, s)"
  shows "config_ok K rs s0 (with_thread i ((threads c ! i)\<lparr>t_pc := After as, t_frame := f\<rparr>) s c)"
proof -
  note D = config_okD [OF ok]
  from i D(1) have i': "i < length rs" by simp
  note T = thread_okD [OF D(2) [OF i']]
  have "is_copy a" using T(5) [OF pc] by simp
  with ex have same: "s = shared c" "f_vm f = f_vm (t_frame (threads c ! i))"
    using exec_reads [of a K "t_frame (threads c ! i)" "shared c"] exec_copy_vm [of a K "t_frame (threads c ! i)" "shared c"] by simp_all
  have not_i: "\<not> inside_at c i" using pc by (simp add: inside_at_def)
  show ?thesis
  proof (subst with_thread_history [symmetric], rule config_ok_move [OF ok i' refl])
    show "thread_ok K rs s0 (history c @ []) s i ((threads c ! i)\<lparr>t_pc := After as, t_frame := f\<rparr>)"
      using T(1,5,6) pc same by (auto simp: thread_ok_def)
    show "shared_view s = shared_view (serial K rs (history c @ []) s0)"
      if "\<And>j. inside_at c j \<Longrightarrow> j \<noteq> i \<Longrightarrow> request_mode (rs ! j) = Shared"
      using that not_i same by (simp, intro D(6)) metis
  qed (use pc same in simp_all)
qed

lemma config_ok_step:
  assumes "kstep K c c'" and "config_ok K rs s0 c" and "one_space K M rs"
  shows "config_ok K rs s0 c'"
  using assms(1)
proof cases
  case lock then show ?thesis using step_lock [OF assms(2,3)] by simp
next
  case no_lock then show ?thesis using step_no_lock [OF assms(2)] by simp
next
  case inside then show ?thesis using step_inside [OF assms(2)] by simp
next
  case unlock then show ?thesis using step_unlock [OF assms(2)] by simp
next
  case after then show ?thesis using step_after [OF assms(2)] by simp
qed

lemma config_ok_start: "config_ok K rs s (start K rs s)"
  by (auto simp: config_ok_def start_def thread_ok_def thread_of_def inside_at_def serial_def)

lemma config_ok_reach: "(kstep K)\<^sup>*\<^sup>* (start K rs s) c \<Longrightarrow> one_space K M rs \<Longrightarrow> config_ok K rs s c"
  by (induction rule: rtranclp_induct) (use config_ok_start config_ok_step in blast)+

section \<open>Properties\<close>

lemma sample_mm: "get_mm sample_linux 0 = Some 3"
  by (simp add: get_mm_def sample_linux_def)

text \<open>
  The split is faithful: a request that runs alone, split into its accesses and lock calls, ends in the state and, for a
  resolve request, with the reply that \<open>device_ioctl\<close> gives as a whole.
\<close>

theorem request_alone_ioctl:
  assumes "\<not> mm_is_locked s" and "(kstep K)\<^sup>*\<^sup>* (start K [r] s) c" and "finished c"
  shows "shared c = snd (snd (device_ioctl K (ioctl_of r) s))
    \<and> (\<forall>e. r = Req_resolve e \<longrightarrow> fst (snd (device_ioctl K (ioctl_of r) s)) = Out_entry (f_user (t_frame (threads c ! 0))))"
proof -
  have "length (threads (start K [r] s)) = 1" by (simp add: start_def)
  from kstep_alone_star [OF assms(2) this] have len: "length (threads c) = 1"
    and eq: "complete K (threads c ! 0) (shared c) = complete K (thread_of K r) s"
    by (simp_all add: start_def)
  from len assms(3) have "t_pc (threads c ! 0) = After []" by (simp add: finished_def)
  then have c: "complete K (thread_of K r) s = (t_frame (threads c ! 0), shared c)"
    unfolding eq [symmetric] by (simp add: complete_def)
  show ?thesis using complete_ioctl [OF assms(1), of K r] unfolding c fst_conv snd_conv .
qed

text \<open>
  C14. However resolve, update and set-root requests on one address space overlap, the tables and roots end up as if the updates and
  root changes had been made one after the other, each exactly once, in the order in which they released
  the lock; and every resolve request has found the slots of a state between two of them.
\<close>

theorem overlapping_requests_serialise:
  assumes "(kstep K)\<^sup>*\<^sup>* (start K rs s) c" and "finished c" and "one_space K M rs"
  shows "phys (shared c) = phys (serial K rs (history c) s) \<and> mm_pgd (shared c) = mm_pgd (serial K rs (history c) s)
    \<and> distinct (history c)
    \<and> set (history c) = {i. i < length rs \<and> request_mode (rs ! i) = Exclusive \<and> request_mm K (rs ! i) = Some M}
    \<and> (\<forall>i < length rs. \<forall>e. rs ! i = Req_resolve e \<longrightarrow> (\<exists>k \<le> length (history c).
         f_vm (t_frame (threads c ! i)) = fst (snd (resolve_vm K (vaddr e) (pid e) False (serial K rs (take k (history c)) s)))))"
proof -
  from config_ok_reach [OF assms(1,3)] have ok: "config_ok K rs s c" .
  note D = config_okD [OF ok]
  have after: "t_pc (threads c ! i) = After []" if "i < length rs" for i
    using assms(2) that D(1) by (simp add: finished_def)
  then have none: "\<not> inside_at c i" for i using D(1) by (auto simp: inside_at_def)
  have "shared_view (shared c) = shared_view (serial K rs (history c) s)" using none by (intro D(6)) simp
  moreover have "set (history c) = {i. i < length rs \<and> request_mode (rs ! i) = Exclusive \<and> request_mm K (rs ! i) = Some M}"
  proof (rule set_eqI)
    fix i
    show "i \<in> set (history c) \<longleftrightarrow> i \<in> {i. i < length rs \<and> request_mode (rs ! i) = Exclusive \<and> request_mm K (rs ! i) = Some M}"
      using D(5) [of i] after [of i] one_spaceD [OF assms(3), of i] by (cases "request_mm K (rs ! i)") auto
  qed
  moreover have "\<exists>k \<le> length (history c). f_vm (t_frame (threads c ! i)) =
      fst (snd (resolve_vm K (vaddr e) (pid e) False (serial K rs (take k (history c)) s)))"
    if "i < length rs" "rs ! i = Req_resolve e" for i e
  proof -
    have vm: "f_vm (fst (run K (body_of K (Req_resolve e)) (frame_of (Req_resolve e), t))) = fst (snd (resolve_vm K (vaddr e) (pid e) False t))" for t
    proof (cases "get_mm K (pid e)")
      case (Some mm)
      with run_walk [of K mm e "pid e" t] show ?thesis by (auto simp: body_of_some resolve_vm_def case_prod_beta)
    qed (simp add: body_of_def program_of_def resolve_vm_def)
    from thread_okD(6) [OF D(2) [OF that(1)] after [OF that(1)]] that(2) vm show ?thesis by auto
  qed
  ultimately show ?thesis using D(4) by (auto simp: view_eq)
qed

text \<open>Stretches of a run in which one thread moves.\<close>

lemma with_thread_with_thread [simp]: "with_thread i t s (with_thread i t' s' c) = with_thread i t s c"
  by (simp add: with_thread_def)

lemma threads_with_thread [simp]:
  "i < length (threads c) \<Longrightarrow> threads (with_thread i t s c) ! i = t" "shared (with_thread i t s c) = s"
  "length (threads (with_thread i t s c)) = length (threads c)"
  by (simp_all add: with_thread_def)

lemma run_inside:
  "i < length (threads c) \<Longrightarrow> t_pc (threads c ! i) = Inside (as @ bs) \<Longrightarrow> run K as (t_frame (threads c ! i), shared c) = (f, s) \<Longrightarrow>
   (kstep K)\<^sup>*\<^sup>* c (with_thread i ((threads c ! i)\<lparr>t_pc := Inside bs, t_frame := f\<rparr>) s c)"
proof (induction as arbitrary: c)
  case Nil
  then have "with_thread i ((threads c ! i)\<lparr>t_pc := Inside bs, t_frame := f\<rparr>) s c = c"
    by (cases c; cases "threads c ! i") (simp add: with_thread_def list_update_same_conv)
  then show ?case by simp
next
  case (Cons a as)
  obtain g u where ex: "exec K a (t_frame (threads c ! i), shared c) = (g, u)" by fastforce
  let ?d = "with_thread i ((threads c ! i)\<lparr>t_pc := Inside (as @ bs), t_frame := g\<rparr>) u c"
  have "kstep K c ?d" using Cons.prems ex by (intro kstep.inside) simp_all
  moreover have "(kstep K)\<^sup>*\<^sup>* ?d (with_thread i ((threads ?d ! i)\<lparr>t_pc := Inside bs, t_frame := f\<rparr>) s ?d)"
    using Cons.prems ex by (intro Cons.IH) simp_all
  ultimately show ?case using Cons.prems(1) by simp
qed

lemma run_after:
  "i < length (threads c) \<Longrightarrow> t_pc (threads c ! i) = After (as @ bs) \<Longrightarrow> run K as (t_frame (threads c ! i), shared c) = (f, s) \<Longrightarrow>
   (kstep K)\<^sup>*\<^sup>* c (with_thread i ((threads c ! i)\<lparr>t_pc := After bs, t_frame := f\<rparr>) s c)"
proof (induction as arbitrary: c)
  case Nil
  then have "with_thread i ((threads c ! i)\<lparr>t_pc := After bs, t_frame := f\<rparr>) s c = c"
    by (cases c; cases "threads c ! i") (simp add: with_thread_def list_update_same_conv)
  then show ?case by simp
next
  case (Cons a as)
  obtain g u where ex: "exec K a (t_frame (threads c ! i), shared c) = (g, u)" by fastforce
  let ?d = "with_thread i ((threads c ! i)\<lparr>t_pc := After (as @ bs), t_frame := g\<rparr>) u c"
  have "kstep K c ?d" using Cons.prems ex by (intro kstep.after) simp_all
  moreover have "(kstep K)\<^sup>*\<^sup>* ?d (with_thread i ((threads ?d ! i)\<lparr>t_pc := After bs, t_frame := f\<rparr>) s ?d)"
    using Cons.prems ex by (intro Cons.IH) simp_all
  ultimately show ?case using Cons.prems(1) by simp
qed

text \<open>A thread that finds the lock free can run from its lock call to the end of its section.\<close>

lemma run_section:
  assumes "i < length (threads c)" and "threads c ! i = thread_of K r" and "request_mm K r = Some mm"
    and "lock_free (request_mode r) mm (threads c)"
    and "run K (request_body K mm r) (frame_of r, emit (lock_event (request_mode r) mm) (shared c)) = (f, s)"
  shows "(kstep K)\<^sup>*\<^sup>* c ((with_thread i \<lparr>t_prog = program_of K r, t_pc = After (request_tail K r), t_frame = f\<rparr>
      (emit (unlock_event (request_mode r) mm) s) c)\<lparr>history := history c @ (if request_mode r = Exclusive then [i] else [])\<rparr>)"
proof -
  have p: "p_lock (program_of K r) = Some (request_mode r, mm)" "p_body (program_of K r) = request_body K mm r"
    "p_tail (program_of K r) = request_tail K r"
    using assms(3) by (simp_all add: program_of_def)
  let ?d = "with_thread i ((thread_of K r)\<lparr>t_pc := Inside (request_body K mm r)\<rparr>) (emit (lock_event (request_mode r) mm) (shared c)) c"
  let ?e = "with_thread i \<lparr>t_prog = program_of K r, t_pc = Inside [], t_frame = f\<rparr> s c"
  have "kstep K c ?d"
    using kstep.lock [of i c "thread_of K r" "request_mode r" mm K] assms p by (simp add: thread_of_def)
  moreover have "(kstep K)\<^sup>*\<^sup>* ?d ?e"
    using run_inside [of i ?d "request_body K mm r" "[]" K f s] assms by (simp add: thread_of_def)
  moreover have "kstep K ?e ((with_thread i \<lparr>t_prog = program_of K r, t_pc = After (request_tail K r), t_frame = f\<rparr>
      (emit (unlock_event (request_mode r) mm) s) ?e)\<lparr>history := history ?e @ (if request_mode r = Exclusive then [i] else [])\<rparr>)"
    using kstep.unlock [of i ?e _ "request_mode r" mm K] assms(1) p by simp
  moreover have "history ?e = history c" by (simp add: with_thread_def)
  ultimately show ?thesis by simp
qed

text \<open>
  C25. The reply of a resolve request is read after the lock has been released: an update of the same
  address space can fall between the reads of the PMD and of the PTE entry, and the reply then holds
  the PMD from before and the PTE from after the update.
\<close>

theorem resolve_reads_across_update:
  assumes "get_mm K (pid e) = Some M" and "get_mm K (pid u) = Some M"
    and "vm = fst (snd (resolve_vm K (vaddr e) (pid e) False s))"
    and "vm_pmd vm = Some p" and "vm_pte vm = Some q"
  shows "\<exists>c. (kstep K)\<^sup>*\<^sup>* (start K [Req_resolve e, Req_update u] s) c \<and> finished c
    \<and> pmd (f_user (t_frame (threads c ! 0))) = kread K (phys s) p
    \<and> pte (f_user (t_frame (threads c ! 0))) = kread K (phys (snd (snd (device_ioctl K (CMD_VM_UPDATE u) s)))) q"
proof -
  let ?r = "Req_resolve e" and ?u = "Req_update u"
  let ?s1 = "emit (Read_unlock M) (emit (Read_lock M) s)"
  obtain b where "run K (walk_actions K M) (frame_of ?r, emit (Read_lock M) s) =
      (\<lparr>f_user = e, f_vm = vm, f_failed = b\<rparr>, emit (Read_lock M) s)"
    using run_walk [of K M e "pid e" "emit (Read_lock M) s"] assms(1,3) by (auto simp: resolve_vm_def case_prod_beta)
  define f where "f = \<lparr>f_user = e, f_vm = vm, f_failed = b\<rparr>"
  let ?c0 = "start K [?r, ?u] s"
  let ?c1 = "\<lparr>shared = ?s1, threads = [\<lparr>t_prog = program_of K ?r, t_pc = After (copy_actions K), t_frame = f\<rparr>, thread_of K ?u], history = []\<rparr>"
  have 1: "(kstep K)\<^sup>*\<^sup>* ?c0 ?c1"
    using run_section [of 0 ?c0 K ?r M f "emit (Read_lock M) s"] assms(1) \<open>run K _ _ = _\<close>
    by (simp add: start_def with_thread_def lock_free_def holds_def thread_of_def f_def)
  define as where "as = (if cfg_4_11 K then [Copy P4D] else []) @ [Copy PGD, Copy PMD]"
  define bs where "bs = [Copy PUD, Copy PTE, Copy_valid]"
  have copies: "copy_actions K = as @ bs" by (simp add: copy_actions_def as_def bs_def)
  obtain g where g: "run K as (f, ?s1) = (g, ?s1)" "f_vm g = vm" "pmd (f_user g) = kread K (phys s) p"
    using assms(4) by (cases "cfg_4_11 K") (auto simp: as_def f_def copy_step_def Let_def)
  let ?c2 = "?c1\<lparr>threads := [\<lparr>t_prog = program_of K ?r, t_pc = After bs, t_frame = g\<rparr>, thread_of K ?u]\<rparr>"
  have 2: "(kstep K)\<^sup>*\<^sup>* ?c1 ?c2"
    using run_after [of 0 ?c1 as bs K g ?s1] g(1) copies by (simp add: with_thread_def)
  obtain h t where h: "run K (request_body K M ?u) (frame_of ?u, emit (Write_lock M) ?s1) = (h, t)" by fastforce
  have t: "phys t = phys (snd (snd (device_ioctl K (CMD_VM_UPDATE u) s)))"
    using ioctl_body_view [of K ?u M s] run_view [of "emit (Write_lock M) ?s1" s K "request_body K M ?u" "frame_of ?u"] assms(2) h
    by (simp add: view_eq)
  let ?t = "emit (Write_unlock M) t"
  let ?c3 = "\<lparr>shared = ?t, threads = [\<lparr>t_prog = program_of K ?r, t_pc = After bs, t_frame = g\<rparr>,
      \<lparr>t_prog = program_of K ?u, t_pc = After [], t_frame = h\<rparr>], history = [1]\<rparr>"
  have 3: "(kstep K)\<^sup>*\<^sup>* ?c2 ?c3"
    using run_section [of 1 ?c2 K ?u M h t] assms(2) h
    by (simp add: with_thread_def lock_free_def holds_def thread_of_def)
  obtain k where k: "run K bs (g, ?t) = (k, ?t)" "pmd (f_user k) = pmd (f_user g)" "pte (f_user k) = kread K (phys t) q"
    using assms(5) g(2) by (auto simp: bs_def copy_step_def Let_def split: option.split)
  let ?c4 = "?c3\<lparr>threads := [\<lparr>t_prog = program_of K ?r, t_pc = After [], t_frame = k\<rparr>,
      \<lparr>t_prog = program_of K ?u, t_pc = After [], t_frame = h\<rparr>]\<rparr>"
  have 4: "(kstep K)\<^sup>*\<^sup>* ?c3 ?c4"
    using run_after [of 0 ?c3 bs "[]" K k ?t] k(1) by (simp add: with_thread_def)
  show ?thesis
    using rtranclp_trans [OF rtranclp_trans [OF 1 2] rtranclp_trans [OF 3 4]] k g(3) t
    by (intro exI [of _ ?c4]) (simp add: finished_def)
qed

lemmas sample_walk_defs = resolve_vm_def get_mm_def resolve_vm_walk_def resolve_vm_pud_def sample_linux_def
  sample_kstate_def initial_kstate_def zero_entry_def kread_def table_ptr_def sample_vaddr_def sample_roots_def
  direct_map_def sample_loads fresh_vm_def valid_mask_def ull_bit_def emit_def

lemma sample_vm:
  "fst (snd (resolve_vm sample_linux sample_vaddr 0 False sample_kstate)) =
     \<lparr>vm_pid = 0, vm_pgd = Some (0x1000 + direct_map), vm_p4d = Some (0x1000 + direct_map), vm_pud = Some (0x2008 + direct_map),
      vm_pmd = Some (0x3008 + direct_map), vm_pte = Some (0x4008 + direct_map), vm_valid = 31\<rparr>"
  by (simp add: sample_walk_defs Let_def)

lemma sample_update_memory:
  assumes "u = zero_entry\<lparr>vaddr := sample_vaddr, pmd := 0x4027, pte := 0x6067, valid := 24\<rparr>"
  shows "phys (snd (snd (device_ioctl sample_linux (CMD_VM_UPDATE u) sample_kstate))) =
    store64 (store64 sample_mem 0x3008 0x4027) 0x4008 0x6067"
proof -
  let ?s = "emit (Write_lock 3) sample_kstate"
  have vm: "resolve_vm sample_linux sample_vaddr 0 False ?s = (0,
     \<lparr>vm_pid = 0, vm_pgd = Some (0x1000 + direct_map), vm_p4d = Some (0x1000 + direct_map), vm_pud = Some (0x2008 + direct_map),
      vm_pmd = Some (0x3008 + direct_map), vm_pte = Some (0x4008 + direct_map), vm_valid = 31\<rparr>, ?s)"
    by (simp add: sample_walk_defs Let_def)
  have "vaddr u = sample_vaddr" "pid u = 0" "valid u = 24" "pmd u = 0x4027" "pte u = 0x6067" "phys sample_kstate = sample_mem"
    "\<not> mm_is_locked sample_kstate"
    by (simp_all add: assms zero_entry_def sample_kstate_def initial_kstate_def)
  then show ?thesis
    using invalidate_tlb_view [unfolded view_eq]
    by (simp add: ioctl_vm_update_def update_vm_def sample_mm vm update_entries_def update_level_def
        has_valid_def valid_mask_def ull_bit_def Let_def) (simp add: sample_linux_def)
qed

theorem resolve_reads_across_update_witness:
  "\<exists>c. (kstep sample_linux)\<^sup>*\<^sup>* (start sample_linux [Req_resolve (zero_entry\<lparr>vaddr := sample_vaddr\<rparr>),
          Req_update (zero_entry\<lparr>vaddr := sample_vaddr, pmd := 0x4027, pte := 0x6067, valid := 24\<rparr>)] sample_kstate) c
     \<and> finished c \<and> pmd (f_user (t_frame (threads c ! 0))) = 0x4067 \<and> pte (f_user (t_frame (threads c ! 0))) = 0x6067"
proof -
  let ?u = "zero_entry\<lparr>vaddr := sample_vaddr, pmd := 0x4027, pte := 0x6067, valid := 24\<rparr>"
  have p: "pid (zero_entry\<lparr>vaddr := sample_vaddr\<rparr>) = 0" "pid ?u = 0" by (simp_all add: zero_entry_def)
  have reads: "kread sample_linux (phys sample_kstate) (0x3008 + direct_map) = 0x4067"
    "kread sample_linux (store64 m 0x4008 0x6067) (0x4008 + direct_map) = 0x6067" for m
    by (simp_all add: kread_def sample_linux_def sample_kstate_def initial_kstate_def sample_loads mem_simps)
  show ?thesis
    using resolve_reads_across_update [of sample_linux "zero_entry\<lparr>vaddr := sample_vaddr\<rparr>" 3 ?u _ sample_kstate
        "0x3008 + direct_map" "0x4008 + direct_map", OF _ _ refl]
      sample_mm sample_vm p reads sample_update_memory [OF refl] by simp
qed

definition sample_paging :: ptedit_paging_t where
  "sample_paging = \<lparr>paging_pid = 0, paging_root = 0x7000\<rparr>"

theorem request_alone_ioctl_witness:
  "\<exists>c. (kstep sample_linux)\<^sup>*\<^sup>* (start sample_linux [Req_set_root sample_paging] sample_kstate) c \<and> finished c
     \<and> shared c = snd (snd (device_ioctl sample_linux (CMD_SET_ROOT sample_paging) sample_kstate))"
proof -
  obtain c where c: "(kstep sample_linux)\<^sup>*\<^sup>* (start sample_linux [Req_set_root sample_paging] sample_kstate) c" "finished c"
    using run_section [of 0 "start sample_linux [Req_set_root sample_paging] sample_kstate" sample_linux "Req_set_root sample_paging" 3]
    by (auto simp: start_def sample_paging_def sample_mm lock_free_def holds_def thread_of_def with_thread_def finished_def)
  moreover have "\<not> mm_is_locked sample_kstate" by (simp add: sample_kstate_def initial_kstate_def)
  ultimately show ?thesis using request_alone_ioctl [of sample_kstate sample_linux "Req_set_root sample_paging" c] by auto
qed

theorem overlapping_requests_serialise_witness:
  "\<exists>c. (kstep sample_linux)\<^sup>*\<^sup>* (start sample_linux [Req_set_root sample_paging] sample_kstate) c \<and> history c = [0]
     \<and> mm_pgd (shared c) 3 = 0x7000 + direct_map"
proof -
  let ?rs = "[Req_set_root sample_paging]"
  obtain c where c: "(kstep sample_linux)\<^sup>*\<^sup>* (start sample_linux ?rs sample_kstate) c" "finished c" "history c = [0]"
    using run_section [of 0 "start sample_linux ?rs sample_kstate" sample_linux "Req_set_root sample_paging" 3]
    by (auto simp: start_def sample_paging_def sample_mm lock_free_def holds_def thread_of_def with_thread_def finished_def)
  moreover have "one_space sample_linux 3 ?rs" by (simp add: one_space_def sample_paging_def sample_mm)
  ultimately have "mm_pgd (shared c) = mm_pgd (serial sample_linux ?rs [0] sample_kstate)"
    using overlapping_requests_serialise [of sample_linux ?rs sample_kstate c 3] by simp
  with c show ?thesis
    by (intro exI [of _ c])
      (simp add: serial_def ioctl_set_root_def sample_paging_def sample_mm Let_def, simp add: sample_linux_def)
qed

end
