(* ===== verification/PT_Walk.thy ===== *)
theory PT_Walk
  imports PT_Library PT_Module
begin

text \<open>
  The user-space page walk.  An abstract walk over the levels of the paging definition is the
  specification; the walk of the library equals it, and the update of the library writes exactly the
  slots of that walk.  The accesses to physical memory are an interface (\<open>phys_access\<close>) that both ways
  to reach physical memory provide.
\<close>

section \<open>The abstract walk\<close>

text \<open>
  A walk visits one table per level.  \<open>next\<close> tells for the entry found whether the walk descends and
  to which table.
\<close>

fun page_walk ::
  "(level \<Rightarrow> u64 \<Rightarrow> u64 option) \<Rightarrow> ptedit_paging_definition_t \<Rightarrow> mem \<Rightarrow> level list \<Rightarrow> u64 \<Rightarrow> u64 \<Rightarrow>
   (level \<times> u64 \<times> u64) list" where
  "page_walk nxt D m [] base addr = []"
| "page_walk nxt D m (l # ls) base addr =
     (let slot = base + level_index D l addr * 8; e = load64 m slot
      in (l, slot, e) #
         (case nxt l e of None \<Rightarrow> [] | Some b \<Rightarrow> page_walk nxt D m ls b addr))"

definition walk_levels :: "ptedit_paging_definition_t \<Rightarrow> level list" where
  "walk_levels D =
     PGD # (if has_p4d D then [P4D] else []) @ (if has_pud D then [PUD] else []) @ [PMD, PTE]"

text \<open>
  The hardware: a present entry that is not a leaf refers to the table in its page frame.  On x86 the
  PS bit makes PUD and PMD entries leaves; the ARMv8 block descriptors are not of table type.
\<close>

definition hw_next :: "arch \<Rightarrow> level \<Rightarrow> u64 \<Rightarrow> u64 option" where
  "hw_next A l e =
     (if cast_present A e = PTEDIT_PAGE_PRESENT A \<and> \<not> (A = X86_64 \<and> (l = PUD \<or> l = PMD) \<and> bit e 7)
      then Some (ptedit_get_pfn A e * 4096) else None)"

text \<open>The library: no leaves at the PUD level, and the page frame of the bit-field structure.\<close>

definition lib_next :: "arch \<Rightarrow> level \<Rightarrow> u64 \<Rightarrow> u64 option" where
  "lib_next A l e =
     (if cast_present A e = PTEDIT_PAGE_PRESENT A \<and> \<not> (A = X86_64 \<and> l = PMD \<and> bit e 7)
      then Some (cast_pfn A e * 4096) else None)"

definition lib_walk :: "arch \<Rightarrow> ptedit_paging_definition_t \<Rightarrow> mem \<Rightarrow> u64 \<Rightarrow> u64 \<Rightarrow> (level \<times> u64 \<times> u64) list" where
  "lib_walk A D m root addr = page_walk (lib_next A) D m (walk_levels D) root addr"

definition hw_walk :: "arch \<Rightarrow> ptedit_paging_definition_t \<Rightarrow> mem \<Rightarrow> u64 \<Rightarrow> u64 \<Rightarrow> (level \<times> u64 \<times> u64) list" where
  "hw_walk A D m root addr = page_walk (hw_next A) D m (walk_levels D) root addr"

lemma page_walk_cong:
  "(\<forall>(l, slot, e) \<in> set (page_walk f D m ls base addr). f l e = g l e) \<Longrightarrow>
   page_walk g D m ls base addr = page_walk f D m ls base addr"
proof (induction ls arbitrary: base)
  case Nil
  then show ?case by simp
next
  case (Cons l ls)
  let ?slot = "base + level_index D l addr * 8"
  from Cons.prems have "g l (load64 m ?slot) = f l (load64 m ?slot)" by (simp add: Let_def)
  moreover have "page_walk g D m ls b addr = page_walk f D m ls b addr" if "f l (load64 m ?slot) = Some b" for b
    using that Cons.prems by (intro Cons.IH) (simp add: Let_def)
  ultimately show ?case by (simp add: Let_def split: option.split)
qed

lemma page_walk_levels: "set (map fst (page_walk f D m ls base addr)) \<subseteq> set ls"
proof (induction ls arbitrary: base)
  case (Cons l ls)
  then show ?case by (auto simp: Let_def split: option.splits)
qed simp

lemma page_walk_slots:
  "(l, slot, e) \<in> set (page_walk f D m ls base addr) \<Longrightarrow> e = load64 m slot"
  by (induction ls arbitrary: base) (auto simp: Let_def split: option.splits)

text \<open>A walk only depends on the memory at the slots it visits.\<close>

lemma page_walk_mem_cong:
  "(\<forall>(l, slot, e) \<in> set (page_walk f D m ls base addr). load64 m' slot = load64 m slot) \<Longrightarrow>
   page_walk f D m' ls base addr = page_walk f D m ls base addr"
proof (induction ls arbitrary: base)
  case Nil
  then show ?case by simp
next
  case (Cons l ls)
  let ?slot = "base + level_index D l addr * 8"
  from Cons.prems have "load64 m' ?slot = load64 m ?slot" by (simp add: Let_def)
  moreover have "page_walk f D m' ls b addr = page_walk f D m ls b addr" if "f l (load64 m ?slot) = Some b" for b
    using that Cons.prems by (intro Cons.IH) (simp add: Let_def)
  ultimately show ?case by (simp add: Let_def split: option.split)
qed

section \<open>Access to physical memory\<close>

text \<open>States that differ in physical memory and the trace of the kernel only.\<close>

definition same_lib :: "sys \<Rightarrow> sys \<Rightarrow> bool" where
  "same_lib s t \<longleftrightarrow> t = s\<lparr>phys := phys t, trace := trace t\<rparr>"

lemma same_lib_simps [simp]:
  "same_lib s s" "same_lib s (s\<lparr>phys := m\<rparr>)" "same_lib s (s\<lparr>trace := w\<rparr>)" "same_lib s (emit e s)"
  by (simp_all add: same_lib_def emit_def)

lemma same_lib_fields:
  assumes "same_lib s t"
  shows "fd_table t = fd_table s" "mappings t = mappings s" "ptedit_fd t = ptedit_fd s"
    "ptedit_umem t = ptedit_umem s" "ptedit_pagesize t = ptedit_pagesize s"
    "ptedit_pfn_multiply t = ptedit_pfn_multiply s" "ptedit_entry_size t = ptedit_entry_size s"
    "ptedit_paging_root t = ptedit_paging_root s" "ptedit_vmem t = ptedit_vmem s"
    "ptedit_paging_definition t = ptedit_paging_definition s"
    "ptedit_resolve_ptr t = ptedit_resolve_ptr s" "ptedit_update_ptr t = ptedit_update_ptr s"
    "mm_pgd t = mm_pgd s" "mm_is_locked t = mm_is_locked s" "invalidate_tlb_fn t = invalidate_tlb_fn s"
    "real_page_size t = real_page_size s" "real_page_shift t = real_page_shift s"
    "misc_registered t = misc_registered s" "device_busy t = device_busy s" "pat_msr t = pat_msr s"
proof -
  obtain m w where t: "t = s\<lparr>phys := m, trace := w\<rparr>" using assms unfolding same_lib_def by metis
  show "fd_table t = fd_table s" "mappings t = mappings s" "ptedit_fd t = ptedit_fd s"
    "ptedit_umem t = ptedit_umem s" "ptedit_pagesize t = ptedit_pagesize s"
    "ptedit_pfn_multiply t = ptedit_pfn_multiply s" "ptedit_entry_size t = ptedit_entry_size s"
    "ptedit_paging_root t = ptedit_paging_root s" "ptedit_vmem t = ptedit_vmem s"
    "ptedit_paging_definition t = ptedit_paging_definition s"
    "ptedit_resolve_ptr t = ptedit_resolve_ptr s" "ptedit_update_ptr t = ptedit_update_ptr s"
    "mm_pgd t = mm_pgd s" "mm_is_locked t = mm_is_locked s" "invalidate_tlb_fn t = invalidate_tlb_fn s"
    "real_page_size t = real_page_size s" "real_page_shift t = real_page_shift s"
    "misc_registered t = misc_registered s" "device_busy t = device_busy s" "pat_msr t = pat_msr s"
    unfolding t by simp_all
qed

lemma same_lib_trans: "same_lib s t \<Longrightarrow> same_lib t u \<Longrightarrow> same_lib s u"
proof -
  assume "same_lib s t" and "same_lib t u"
  then obtain m w m' w' where "t = s\<lparr>phys := m, trace := w\<rparr>" "u = t\<lparr>phys := m', trace := w'\<rparr>"
    unfolding same_lib_def by metis
  then show ?thesis by (simp add: same_lib_def)
qed

lemma same_lib_sym: "same_lib s t \<Longrightarrow> same_lib t s"
proof -
  assume "same_lib s t"
  then obtain m w where "t = s\<lparr>phys := m, trace := w\<rparr>" unfolding same_lib_def by metis
  then show ?thesis by (simp add: same_lib_def)
qed

text \<open>
  The contract of an accessor pair: where the state grants access to the eight bytes at a physical
  address, the accessors read and write exactly these bytes, and access does not depend on the content
  of memory.
\<close>

locale phys_access =
  fixes deref :: "os \<Rightarrow> u64 \<Rightarrow> sys \<Rightarrow> u64 option"
    and pset :: "os \<Rightarrow> u64 \<Rightarrow> u64 \<Rightarrow> sys \<Rightarrow> sys option"
    and acc :: "os \<Rightarrow> u64 \<Rightarrow> sys \<Rightarrow> bool"
  assumes deref_acc: "acc OS a s \<Longrightarrow> deref OS a s = Some (load64 (phys s) a)"
    and pset_acc: "acc OS a s \<Longrightarrow> pset OS a v s = Some (s\<lparr>phys := store64 (phys s) a v\<rparr>)"
    and acc_same: "acc OS a s \<Longrightarrow> same_lib s t \<Longrightarrow> acc OS a t"

text \<open>The mapping of physical memory: the access falls into the mapping at \<open>ptedit_vmem\<close>.\<close>

definition map_acc :: "os \<Rightarrow> u64 \<Rightarrow> sys \<Rightarrow> bool" where
  "map_acc OS a s \<longleftrightarrow> mapped (ptedit_vmem s + a) 8 s = Some a"

text \<open>
  The descriptor: it is open on \<open>/proc/umem\<close>, and the kernel serves the eight bytes at this address
  (the documented behaviour of \<open>/dev/mem\<close>, whose operations \<open>/proc/umem\<close> uses).
\<close>

definition umem_serves :: "os \<Rightarrow> u64 \<Rightarrow> nat \<Rightarrow> bool" where
  "umem_serves OS a n \<longleftrightarrow>
     (\<forall>m. os_pread OS F_umem m a n = Some (load_bytes m a n)) \<and>
     (\<forall>m bs. length bs = n \<longrightarrow> os_pwrite OS F_umem m a bs = Some (store_bytes m a bs))"

definition pread_acc :: "os \<Rightarrow> u64 \<Rightarrow> sys \<Rightarrow> bool" where
  "pread_acc OS a s \<longleftrightarrow> fd_file (ptedit_umem s) s = Some F_umem \<and> umem_serves OS a 8"

interpretation map_phys: phys_access ptedit_phys_read_map ptedit_phys_write_map map_acc
proof
  show "map_acc OS a s \<Longrightarrow> ptedit_phys_read_map OS a s = Some (load64 (phys s) a)" for OS a s
    by (simp add: map_acc_def ptedit_phys_read_map_def user_load64_def)
  show "map_acc OS a s \<Longrightarrow> ptedit_phys_write_map OS a v s = Some (s\<lparr>phys := store64 (phys s) a v\<rparr>)" for OS a v s
    by (simp add: map_acc_def ptedit_phys_write_map_def user_store64_def)
  show "map_acc OS a s \<Longrightarrow> same_lib s t \<Longrightarrow> map_acc OS a t" for OS a s t
    by (simp add: map_acc_def mapped_def same_lib_fields)
qed

interpretation pread_phys: phys_access ptedit_phys_read_pread ptedit_phys_write_pwrite pread_acc
proof
  show "pread_acc OS a s \<Longrightarrow> ptedit_phys_read_pread OS a s = Some (load64 (phys s) a)" for OS a s
    by (simp add: pread_acc_def umem_serves_def ptedit_phys_read_pread_def pread_def load64_def)
  show "pread_acc OS a s \<Longrightarrow> ptedit_phys_write_pwrite OS a v s = Some (s\<lparr>phys := store64 (phys s) a v\<rparr>)" for OS a v s
    by (simp add: pread_acc_def umem_serves_def ptedit_phys_write_pwrite_def pwrite_def store64_def)
  show "pread_acc OS a s \<Longrightarrow> same_lib s t \<Longrightarrow> pread_acc OS a t" for OS a s t
    by (simp add: pread_acc_def fd_file_def same_lib_fields)
qed

section \<open>The walk of the library\<close>

text \<open>
  The constants of the library, and the paging definitions it uses: table sizes that the indices in
  \<open>int\<close> variables can hold, and a PMD level.
\<close>

definition lib_const :: "sys \<Rightarrow> bool" where
  "lib_const s \<longleftrightarrow> ptedit_pfn_multiply s = 4096 \<and> ptedit_entry_size s = 8"

definition wf_definition :: "ptedit_paging_definition_t \<Rightarrow> bool" where
  "wf_definition D \<longleftrightarrow> has_pgd D \<and> has_pmd D \<and> pgd_entries D \<le> 30 \<and> p4d_entries D \<le> 30
     \<and> pud_entries D \<le> 30 \<and> pmd_entries D \<le> 30 \<and> pt_entries D \<le> 30"

lemma wf_definitions: "wf_definition x86_definition" "wf_definition arm_16k_definition" "wf_definition arm_4k_definition"
  by (simp_all add: wf_definition_def x86_definition_def arm_16k_definition_def arm_4k_definition_def)

lemma level_index_bits: "level_index D l addr = take_bit (level_entries D l) (drop_bit (level_shift D l) addr)"
  by (simp add: level_index_def ull_bit_def take_bit_eq_mod)

lemma level_index_int: "wf_definition D \<Longrightarrow> size_of_int (level_index_int D l addr) = level_index D l addr"
proof -
  assume "wf_definition D"
  then have "level_entries D l \<le> 30"
    by (cases l) (simp_all add: wf_definition_def level_entries_def)
  then show ?thesis
    by (intro u64_eqI) (auto simp: level_index_int_def size_of_int_def level_index_bits bit_simps min_def)
qed

text \<open>
  What a resolved entry says about the visited slots: the valid levels are the visited ones, their
  entries are the ones read, and each slot lies in the table that the entry of the level above refers
  to, where a level without table repeats the entry above it.
\<close>

fun parent :: "level \<Rightarrow> level" where
  "parent PTE = PMD"
| "parent PMD = PUD"
| "parent PUD = P4D"
| "parent P4D = PGD"
| "parent PGD = PGD"

definition slot_below :: "arch \<Rightarrow> ptedit_paging_definition_t \<Rightarrow> u64 \<Rightarrow> level \<Rightarrow> u64 \<Rightarrow> u64" where
  "slot_below A D addr l e = cast_pfn A e * 4096 + level_index D l addr * 8"

definition matches ::
  "arch \<Rightarrow> ptedit_paging_definition_t \<Rightarrow> u64 \<Rightarrow> (level \<times> u64 \<times> u64) list \<Rightarrow> ptedit_entry_t \<Rightarrow> bool" where
  "matches A D addr V e \<longleftrightarrow>
     (\<forall>l. has_valid (valid e) l \<longleftrightarrow> l \<in> fst ` set V) \<and>
     (\<forall>(l, slot, v) \<in> set V. entry_of l e = v \<and>
        (l \<noteq> PGD \<longrightarrow> slot = slot_below A D addr l (entry_of (parent l) e)))"

definition reaches ::
  "arch \<Rightarrow> ptedit_paging_definition_t \<Rightarrow> u64 \<Rightarrow> ptedit_entry_t option \<Rightarrow> ptedit_entry_t \<Rightarrow> (level \<times> u64 \<times> u64) list \<Rightarrow> bool" where
  "reaches A D addr r e V \<longleftrightarrow> (\<exists>e'. r = Some e' \<and> matches A D addr V e' \<and> vaddr e' = vaddr e \<and> pid e' = pid e)"

lemma reaches_base: "reaches A D addr x r' V \<Longrightarrow> vaddr r' = vaddr r \<Longrightarrow> pid r' = pid r \<Longrightarrow> reaches A D addr x r V"
  by (simp add: reaches_def)

lemma reaches_Some: "matches A D addr V r' \<Longrightarrow> vaddr r' = vaddr r \<Longrightarrow> pid r' = pid r \<Longrightarrow> reaches A D addr (Some r') r V"
  by (simp add: reaches_def)

lemma entry_of_frame [simp]:
  "entry_of l (e\<lparr>valid := w\<rparr>) = entry_of l e"
  "entry_of l (e\<lparr>pgd := v\<rparr>) = (if l = PGD then v else entry_of l e)"
  "entry_of l (e\<lparr>p4d := v\<rparr>) = (if l = P4D then v else entry_of l e)"
  "entry_of l (e\<lparr>pud := v\<rparr>) = (if l = PUD then v else entry_of l e)"
  "entry_of l (e\<lparr>pmd := v\<rparr>) = (if l = PMD then v else entry_of l e)"
  "entry_of l (e\<lparr>pte := v\<rparr>) = (if l = PTE then v else entry_of l e)"
  by (cases l; simp)+

lemma matches_extend:
  assumes "matches A D addr V e" and l: "l \<notin> fst ` set V" "\<forall>k. parent k = l \<longrightarrow> k \<noteq> PGD \<longrightarrow> k \<notin> fst ` set V"
    and valid: "valid e' = valid e OR valid_mask l" and v: "entry_of l e' = v"
    and frame: "\<And>k. k \<noteq> l \<Longrightarrow> entry_of k e' = entry_of k e"
    and slot: "l \<noteq> PGD \<longrightarrow> slot = slot_below A D addr l (entry_of (parent l) e)"
  shows "matches A D addr (V @ [(l, slot, v)]) e'"
  unfolding matches_def
proof (intro conjI allI ballI)
  show "has_valid (valid e') k \<longleftrightarrow> k \<in> fst ` set (V @ [(l, slot, v)])" for k
    using assms(1) valid by (auto simp: matches_def)
  have up: "entry_of (parent l) e' = entry_of (parent l) e" if "l \<noteq> PGD"
    using that by (intro frame) (cases l; simp)
  fix x
  assume x: "x \<in> set (V @ [(l, slot, v)])"
  obtain k q w where xe: "x = (k, q, w)" by (metis prod_cases3)
  show "case x of (l, slot, v) \<Rightarrow> entry_of l e' = v \<and>
      (l \<noteq> PGD \<longrightarrow> slot = slot_below A D addr l (entry_of (parent l) e'))"
  proof (cases "k = l")
    case True
    with x xe l(1) have "q = slot" "w = v" by force+
    with True xe v slot up show ?thesis by simp
  next
    case False
    with x xe have "(k, q, w) \<in> set V" by simp
    with l(2) have "k \<noteq> PGD \<longrightarrow> parent k \<noteq> l" by force
    with \<open>(k, q, w) \<in> set V\<close> False xe assms(1) frame show ?thesis
      by (auto simp: matches_def)
  qed
qed

lemma matches_other:
  assumes "matches A D addr V e" and l: "l \<notin> fst ` set V" "\<forall>k. parent k = l \<longrightarrow> k \<noteq> PGD \<longrightarrow> k \<notin> fst ` set V"
    and "valid e' = valid e" and frame: "\<And>k. k \<noteq> l \<Longrightarrow> entry_of k e' = entry_of k e"
  shows "matches A D addr V e'"
  unfolding matches_def
proof (intro conjI allI ballI)
  show "has_valid (valid e') k \<longleftrightarrow> k \<in> fst ` set V" for k
    using assms(1,4) by (auto simp: matches_def)
  fix x
  assume x: "x \<in> set V"
  obtain k q w where xe: "x = (k, q, w)" by (metis prod_cases3)
  with x l have "k \<noteq> l" and "k \<noteq> PGD \<longrightarrow> parent k \<noteq> l" by force+
  with x xe assms(1) frame show "case x of (l, slot, v) \<Rightarrow> entry_of l e' = v \<and>
      (l \<noteq> PGD \<longrightarrow> slot = slot_below A D addr l (entry_of (parent l) e'))"
    by (auto simp: matches_def)
qed

lemma matches_entries:
  "matches A D addr V e \<Longrightarrow>
   (\<forall>l. has_valid (valid e) l \<longleftrightarrow> l \<in> fst ` set V) \<and> (\<forall>(l, slot, v) \<in> set V. entry_of l e = v)"
  by (auto simp: matches_def)

lemma matches_exI:
  assumes "\<exists>e. X e \<and> matches A D addr V e \<and> Y e \<and> Z e"
  shows "\<exists>e. X e \<and> Y e \<and> Z e \<and> (\<forall>l. has_valid (valid e) l \<longleftrightarrow> l \<in> fst ` set V) \<and> (\<forall>(l, slot, v) \<in> set V. entry_of l e = v)"
proof -
  from assms obtain e where e: "X e" "Y e" "Z e" and m: "matches A D addr V e" by blast
  show ?thesis by (rule exI [of _ e]) (intro conjI e matches_entries [OF m, THEN conjunct1] matches_entries [OF m, THEN conjunct2])
qed

lemma parent_iff:
  "parent k \<noteq> PTE" "(\<forall>k. parent k = PMD \<longrightarrow> k \<noteq> PGD \<longrightarrow> P k) = P PTE"
  "(\<forall>k. parent k = PUD \<longrightarrow> k \<noteq> PGD \<longrightarrow> P k) = P PMD" "(\<forall>k. parent k = P4D \<longrightarrow> k \<noteq> PGD \<longrightarrow> P k) = P PUD"
  "(\<forall>k. parent k = PGD \<longrightarrow> k \<noteq> PGD \<longrightarrow> P k) = P P4D"
  by (auto elim!: parent.elims)

text \<open>The rest of a walk below an entry.\<close>

definition below :: "arch \<Rightarrow> ptedit_paging_definition_t \<Rightarrow> mem \<Rightarrow> level \<Rightarrow> level list \<Rightarrow> u64 \<Rightarrow> u64 \<Rightarrow> (level \<times> u64 \<times> u64) list" where
  "below A D m l ls addr e =
     (case lib_next A l e of None \<Rightarrow> [] | Some b \<Rightarrow> page_walk (lib_next A) D m ls b addr)"

lemma below_Cons:
  "lib_next A l e = Some b \<Longrightarrow>
   below A D m l (k # ls) addr e =
     (k, b + level_index D k addr * 8, load64 m (b + level_index D k addr * 8)) #
     below A D m k ls addr (load64 m (b + level_index D k addr * 8))"
  by (simp add: below_def Let_def)

lemma below_upper: "l \<noteq> PMD \<Longrightarrow> k \<noteq> PMD \<Longrightarrow> below A D m l ls addr e = below A D m k ls addr e"
  by (simp add: below_def lib_next_def)

lemma lib_next_present:
  "l \<noteq> PMD \<Longrightarrow> cast_present A e = PTEDIT_PAGE_PRESENT A \<Longrightarrow> lib_next A l e = Some (cast_pfn A e * 4096)"
  "cast_present A e \<noteq> PTEDIT_PAGE_PRESENT A \<Longrightarrow> lib_next A l e = None"
  by (simp_all add: lib_next_def)

lemma below_absent: "cast_present A e \<noteq> PTEDIT_PAGE_PRESENT A \<Longrightarrow> below A D m l ls addr e = []"
  by (simp add: below_def lib_next_present)

text \<open>The paging root of a process, read through the module: only the trace changes.\<close>

lemma get_paging_root_same:
  "ptedit_get_paging_root OS proc s = (root, t) \<Longrightarrow> same_lib s t \<and> phys t = phys s"
  by (auto simp: ptedit_get_paging_root_def ioctl_def ioctl_get_root_def Let_def same_lib_def emit_def
      split: if_splits option.splits)

lemma user_root_same: "user_root OS proc s = (root, t) \<Longrightarrow> same_lib s t \<and> phys t = phys s"
  by (auto simp: user_root_def Let_def dest: get_paging_root_same split: if_splits prod.splits)

lemma get_paging_root_stable:
  "same_lib s t \<Longrightarrow> fst (ptedit_get_paging_root OS proc t) = fst (ptedit_get_paging_root OS proc s)"
  by (auto simp: ptedit_get_paging_root_def ioctl_def ioctl_get_root_def Let_def same_lib_fields fd_file_def
      split: if_splits option.splits)

lemma user_root_stable: "same_lib s t \<Longrightarrow> fst (user_root OS proc t) = fst (user_root OS proc s)"
  using get_paging_root_stable [of s t OS proc]
  by (simp add: user_root_def Let_def same_lib_fields case_prod_beta)

text \<open>
  What an update writes: for the levels in the given order, the new entry where the request names the
  level and the walk has visited it.
\<close>

definition write_back :: "ptedit_entry_t \<Rightarrow> (level \<times> u64 \<times> u64) list \<Rightarrow> mem \<Rightarrow> mem" where
  "write_back vm V m =
     fold (\<lambda>(l, slot, e) m. if has_valid (valid vm) l then store64 m slot (entry_of l vm) else m) V m"

definition at_level :: "level \<Rightarrow> (level \<times> u64 \<times> u64) list \<Rightarrow> (level \<times> u64 \<times> u64) list" where
  "at_level l V = filter (\<lambda>x. fst x = l) V"

definition by_level :: "(level \<times> u64 \<times> u64) list \<Rightarrow> level list \<Rightarrow> (level \<times> u64 \<times> u64) list" where
  "by_level V ls = concat (map (\<lambda>l. at_level l V) ls)"

lemma phys_id: "s\<lparr>phys := phys s\<rparr> = (s :: sys)"
  by (rule sys.equality) simp_all

lemma at_level_none: "l \<notin> fst ` set V \<Longrightarrow> at_level l V = []"
  by (force simp: at_level_def filter_empty_conv)

lemma at_level_one: "(l, slot, e) \<in> set V \<Longrightarrow> distinct (map fst V) \<Longrightarrow> at_level l V = [(l, slot, e)]"
proof (induction V)
  case (Cons x V)
  show ?case
  proof (cases "x = (l, slot, e)")
    case True
    with Cons.prems(2) have "l \<notin> fst ` set V" by auto
    with True show ?thesis using at_level_none [of l V] by (simp add: at_level_def)
  next
    case False
    with Cons.prems have x: "(l, slot, e) \<in> set V" by auto
    then have "l \<in> set (map fst V)" by force
    with Cons.prems(2) have "fst x \<noteq> l" by auto
    with Cons.IH [OF x] Cons.prems(2) show ?thesis by (simp add: at_level_def)
  qed
qed simp

lemma page_walk_distinct: "distinct ls \<Longrightarrow> distinct (map fst (page_walk f D m ls base addr))"
proof (induction ls arbitrary: base)
  case (Cons l ls)
  then show ?case
    using page_walk_levels [of f D m ls] by (auto simp: Let_def split: option.split) force
qed simp

lemma invalidate_tlb_pid_same: "same_lib s (ptedit_invalidate_tlb_pid OS proc addr s)"
  by (auto simp: ptedit_invalidate_tlb_pid_def ioctl_def PT_Linux.invalidate_tlb_def invalidate_tlb_kernel_def
      invalidate_tlb_custom_def split: tlb_fn.split arch.split option.split)

lemma invalidate_tlb_pid_phys [simp]: "phys (ptedit_invalidate_tlb_pid OS proc addr s) = phys s"
  by (auto simp: ptedit_invalidate_tlb_pid_def ioctl_def PT_Linux.invalidate_tlb_def invalidate_tlb_kernel_def
      invalidate_tlb_custom_def split: tlb_fn.split arch.split option.split)

text \<open>Access to every slot of a walk.\<close>

definition granted :: "(u64 \<Rightarrow> sys \<Rightarrow> bool) \<Rightarrow> (level \<times> u64 \<times> u64) list \<Rightarrow> sys \<Rightarrow> bool" where
  "granted access V s \<longleftrightarrow> (\<forall>(l, slot, e) \<in> set V. access slot s)"

lemma granted_simps [simp]:
  "granted access [] s" "granted access ((l, slot, e) # V) s \<longleftrightarrow> access slot s \<and> granted access V s"
  by (simp_all add: granted_def)

context phys_access
begin

lemma next_entry_read:
  assumes "lib_const s" and "wf_definition (ptedit_paging_definition s)"
    and "acc OS (cast_pfn A e * 4096 + level_index (ptedit_paging_definition s) l addr * 8) s"
  shows "next_entry A (deref OS) l addr e s =
    Some (load64 (phys s) (cast_pfn A e * 4096 + level_index (ptedit_paging_definition s) l addr * 8))"
  using assms by (simp add: next_entry_def lib_const_def level_index_int deref_acc)

lemma resolve_user_pt_reaches:
  assumes "lib_const s" and "wf_definition (ptedit_paging_definition s)"
    and "matches A (ptedit_paging_definition s) addr V r" and "PTE \<notin> fst ` set V"
    and "cast_present A e = PTEDIT_PAGE_PRESENT A"
    and "granted (acc OS) (below A (ptedit_paging_definition s) (phys s) PMD [PTE] addr e) s"
    and up: "pmd r = e"
  shows "reaches A (ptedit_paging_definition s) addr (resolve_user_pt A (deref OS) addr e r s) r
    (V @ below A (ptedit_paging_definition s) (phys s) PMD [PTE] addr e)"
proof (cases "A = X86_64 \<and> bit e 7")
  case True
  then show ?thesis
    using assms by (simp add: resolve_user_pt_def cast_size_eq_0 reaches_def below_def lib_next_def)
next
  case False
  then have nxt: "lib_next A PMD e = Some (cast_pfn A e * 4096)" using assms(5) by (simp add: lib_next_def)
  note walk = below_Cons [OF nxt, of "ptedit_paging_definition s" "phys s" PTE "[]" addr]
  have read: "next_entry A (deref OS) PTE addr e s =
      Some (load64 (phys s) (cast_pfn A e * 4096 + level_index (ptedit_paging_definition s) PTE addr * 8))"
    using assms(1,2,6) by (intro next_entry_read) (simp_all add: walk)
  have nil: "below A D m PTE [] addr v = []" for D m v
    by (simp add: below_def split: option.split)
  let ?slot = "cast_pfn A e * 4096 + level_index (ptedit_paging_definition s) PTE addr * 8"
  let ?r = "r\<lparr>pte := load64 (phys s) ?slot, valid := valid r OR valid_mask PTE\<rparr>"
  have "matches A (ptedit_paging_definition s) addr (V @ [(PTE, ?slot, load64 (phys s) ?slot)]) ?r"
    using assms(3,4) by (intro matches_extend) (simp_all add: parent_iff slot_below_def flip: up)
  then have "reaches A (ptedit_paging_definition s) addr (Some ?r) r (V @ [(PTE, ?slot, load64 (phys s) ?slot)])"
    by (rule reaches_Some) simp_all
  moreover have "resolve_user_pt A (deref OS) addr e r s = Some ?r"
    using False by (auto simp: resolve_user_pt_def cast_size_eq_0 read)
  ultimately show ?thesis by (simp add: walk nil)
qed

lemma resolve_user_pmd_reaches:
  assumes "lib_const s" and "wf_definition (ptedit_paging_definition s)"
    and "matches A (ptedit_paging_definition s) addr V r" and "PMD \<notin> fst ` set V" and "PTE \<notin> fst ` set V" and "l \<noteq> PMD"
    and "cast_present A e = PTEDIT_PAGE_PRESENT A"
    and "granted (acc OS) (below A (ptedit_paging_definition s) (phys s) l [PMD, PTE] addr e) s"
    and up: "pud r = e"
  shows "reaches A (ptedit_paging_definition s) addr (resolve_user_pmd A (deref OS) addr e r s) r
    (V @ below A (ptedit_paging_definition s) (phys s) l [PMD, PTE] addr e)"
proof -
  let ?D = "ptedit_paging_definition s"
  let ?slot = "cast_pfn A e * 4096 + level_index ?D PMD addr * 8"
  let ?e = "load64 (phys s) ?slot"
  let ?r = "r\<lparr>valid := valid r OR valid_mask PMD, pmd := ?e\<rparr>"
  note walk = below_Cons [OF lib_next_present(1) [OF assms(6,7)], of ?D "phys s" PMD "[PTE]" addr]
  have read: "next_entry A (deref OS) PMD addr e s = Some ?e"
    using assms(1,2,8) by (intro next_entry_read) (simp_all add: walk)
  have m: "matches A (ptedit_paging_definition s) addr (V @ [(PMD, ?slot, ?e)]) ?r"
    using assms(3-5) by (intro matches_extend) (simp_all add: parent_iff slot_below_def flip: up)
  have step: "resolve_user_pmd A (deref OS) addr e r s =
     (if cast_present A ?e \<noteq> PTEDIT_PAGE_PRESENT A then Some ?r else resolve_user_pt A (deref OS) addr ?e ?r s)"
    using assms(2) by (simp add: resolve_user_pmd_def read wf_definition_def)
  show ?thesis
  proof (cases "cast_present A ?e = PTEDIT_PAGE_PRESENT A")
    case True
    with m assms(1,2,5,8) have
      "reaches A (ptedit_paging_definition s) addr (resolve_user_pt A (deref OS) addr ?e ?r s) ?r
         ((V @ [(PMD, ?slot, ?e)]) @ below A ?D (phys s) PMD [PTE] addr ?e)"
      unfolding walk by (intro resolve_user_pt_reaches) simp_all
    with True show ?thesis unfolding walk by (simp add: step reaches_def)
  next
    case False
    with m show ?thesis by (simp add: step walk below_absent reaches_def)
  qed
qed

lemma resolve_user_pud_reaches:
  assumes "lib_const s" and "wf_definition (ptedit_paging_definition s)"
    and "matches A (ptedit_paging_definition s) addr V r" and V: "PUD \<notin> fst ` set V" "PMD \<notin> fst ` set V" "PTE \<notin> fst ` set V" and l: "l \<noteq> PMD"
    and present: "cast_present A e = PTEDIT_PAGE_PRESENT A"
    and ls: "ls = (if has_pud (ptedit_paging_definition s) then [PUD] else []) @ [PMD, PTE]"
    and acc: "granted (acc OS) (below A (ptedit_paging_definition s) (phys s) l ls addr e) s"
    and up: "p4d r = e"
  shows "reaches A (ptedit_paging_definition s) addr (resolve_user_pud A (deref OS) addr e r s) r
    (V @ below A (ptedit_paging_definition s) (phys s) l ls addr e)"
proof (cases "has_pud (ptedit_paging_definition s)")
  case True
  let ?D = "ptedit_paging_definition s"
  let ?slot = "cast_pfn A e * 4096 + level_index ?D PUD addr * 8"
  let ?e = "load64 (phys s) ?slot"
  let ?r = "r\<lparr>valid := valid r OR valid_mask PUD, pud := ?e\<rparr>"
  have walk: "below A ?D (phys s) l ls addr e = (PUD, ?slot, ?e) # below A ?D (phys s) PUD [PMD, PTE] addr ?e"
    using True ls by (simp add: below_Cons [OF lib_next_present(1) [OF l present]])
  have read: "next_entry A (deref OS) PUD addr e s = Some ?e"
    using assms(1,2) acc unfolding walk by (intro next_entry_read) simp_all
  have m: "matches A (ptedit_paging_definition s) addr (V @ [(PUD, ?slot, ?e)]) ?r"
    using assms(3) V by (intro matches_extend) (simp_all add: parent_iff slot_below_def flip: up)
  have step: "resolve_user_pud A (deref OS) addr e r s =
     (if cast_present A ?e \<noteq> PTEDIT_PAGE_PRESENT A then Some ?r else resolve_user_pmd A (deref OS) addr ?e ?r s)"
    using True by (simp add: resolve_user_pud_def read)
  show ?thesis
  proof (cases "cast_present A ?e = PTEDIT_PAGE_PRESENT A")
    case True
    from acc have "granted (acc OS) (below A ?D (phys s) PUD [PMD, PTE] addr ?e) s" unfolding walk by simp
    then have "reaches A (ptedit_paging_definition s) addr (resolve_user_pmd A (deref OS) addr ?e ?r s) ?r
         ((V @ [(PUD, ?slot, ?e)]) @ below A ?D (phys s) PUD [PMD, PTE] addr ?e)"
      using V by (intro resolve_user_pmd_reaches [OF assms(1,2) m _ _ _ True]) simp_all
    then have "reaches A (ptedit_paging_definition s) addr (resolve_user_pud A (deref OS) addr e r s) ?r (V @ below A ?D (phys s) l ls addr e)"
      unfolding walk step using True by simp
    then show ?thesis by (rule reaches_base) simp_all
  next
    case False
    have "reaches A (ptedit_paging_definition s) addr (Some ?r) r (V @ [(PUD, ?slot, ?e)])" by (rule reaches_Some [OF m]) simp_all
    then show ?thesis unfolding walk step using False by (simp add: below_absent)
  qed
next
  case False
  have "matches A (ptedit_paging_definition s) addr V (r\<lparr>pud := e\<rparr>)"
    using assms(3) V(1) by (rule matches_other) (use V in \<open>simp_all add: parent_iff\<close>)
  then have "reaches A (ptedit_paging_definition s) addr (resolve_user_pmd A (deref OS) addr e (r\<lparr>pud := e\<rparr>) s) (r\<lparr>pud := e\<rparr>)
      (V @ below A (ptedit_paging_definition s) (phys s) l [PMD, PTE] addr e)"
    using acc False ls by (intro resolve_user_pmd_reaches [OF assms(1,2) _ V(2,3) l present]) simp_all
  moreover have "resolve_user_pud A (deref OS) addr e r s = resolve_user_pmd A (deref OS) addr e (r\<lparr>pud := e\<rparr>) s"
    using False present by (simp add: resolve_user_pud_def)
  moreover have "ls = [PMD, PTE]" using False ls by simp
  ultimately have "reaches A (ptedit_paging_definition s) addr (resolve_user_pud A (deref OS) addr e r s) (r\<lparr>pud := e\<rparr>)
      (V @ below A (ptedit_paging_definition s) (phys s) l ls addr e)" by simp
  then show ?thesis by (rule reaches_base) simp_all
qed

lemma resolve_user_p4d_reaches:
  assumes "lib_const s" and "wf_definition (ptedit_paging_definition s)"
    and "matches A (ptedit_paging_definition s) addr V r" and V: "P4D \<notin> fst ` set V" "PUD \<notin> fst ` set V" "PMD \<notin> fst ` set V" "PTE \<notin> fst ` set V"
    and present: "cast_present A e = PTEDIT_PAGE_PRESENT A"
    and ls: "PGD # ls = walk_levels (ptedit_paging_definition s)"
    and acc: "granted (acc OS) (below A (ptedit_paging_definition s) (phys s) PGD ls addr e) s"
    and up: "pgd r = e"
  shows "reaches A (ptedit_paging_definition s) addr (resolve_user_p4d A (deref OS) addr e r s) r
    (V @ below A (ptedit_paging_definition s) (phys s) PGD ls addr e)"
proof -
  let ?D = "ptedit_paging_definition s"
  define ls' where "ls' = (if has_pud ?D then [PUD] else []) @ [PMD, PTE]"
  note pud_case = resolve_user_pud_reaches [OF assms(1,2) _ _ _ _ _ _ ls'_def]
  show ?thesis
  proof (cases "has_p4d ?D")
    case True
    let ?slot = "cast_pfn A e * 4096 + level_index ?D P4D addr * 8"
    let ?e = "load64 (phys s) ?slot"
    let ?r = "r\<lparr>valid := valid r OR valid_mask P4D, p4d := ?e\<rparr>"
    have "ls = P4D # ls'" using True ls by (simp add: walk_levels_def ls'_def)
    then have walk: "below A ?D (phys s) PGD ls addr e = (P4D, ?slot, ?e) # below A ?D (phys s) P4D ls' addr ?e"
      by (simp add: below_Cons [OF lib_next_present(1) [OF _ present]])
    have read: "next_entry A (deref OS) P4D addr e s = Some ?e"
      using assms(1,2) acc unfolding walk by (intro next_entry_read) simp_all
    have m: "matches A (ptedit_paging_definition s) addr (V @ [(P4D, ?slot, ?e)]) ?r"
      using assms(3) V by (intro matches_extend) (simp_all add: parent_iff slot_below_def flip: up)
    have step: "resolve_user_p4d A (deref OS) addr e r s =
       (if cast_present A ?e \<noteq> PTEDIT_PAGE_PRESENT A then Some ?r else resolve_user_pud A (deref OS) addr ?e ?r s)"
      using True by (simp add: resolve_user_p4d_def read)
    show ?thesis
    proof (cases "cast_present A ?e = PTEDIT_PAGE_PRESENT A")
      case True
      from acc have "granted (acc OS) (below A ?D (phys s) P4D ls' addr ?e) s" unfolding walk by simp
      then have "reaches A (ptedit_paging_definition s) addr (resolve_user_pud A (deref OS) addr ?e ?r s) ?r
           ((V @ [(P4D, ?slot, ?e)]) @ below A ?D (phys s) P4D ls' addr ?e)"
        using V by (intro pud_case [OF m _ _ _ _ True]) simp_all
      then have "reaches A (ptedit_paging_definition s) addr (resolve_user_p4d A (deref OS) addr e r s) ?r (V @ below A ?D (phys s) PGD ls addr e)"
        unfolding walk step using True by simp
      then show ?thesis by (rule reaches_base) simp_all
    next
      case False
      have "reaches A (ptedit_paging_definition s) addr (Some ?r) r (V @ [(P4D, ?slot, ?e)])" by (rule reaches_Some [OF m]) simp_all
      then show ?thesis unfolding walk step using False by (simp add: below_absent)
    qed
  next
    case False
    have ls: "ls = ls'" using False ls by (simp add: walk_levels_def ls'_def)
    have "matches A (ptedit_paging_definition s) addr V (r\<lparr>p4d := e\<rparr>)"
      using assms(3) V(1) by (rule matches_other) (use V in \<open>simp_all add: parent_iff\<close>)
    then have "reaches A (ptedit_paging_definition s) addr (resolve_user_pud A (deref OS) addr e (r\<lparr>p4d := e\<rparr>) s) (r\<lparr>p4d := e\<rparr>)
        (V @ below A ?D (phys s) PGD ls addr e)"
      using acc V unfolding ls by (intro pud_case [OF _ _ _ _ _ present]) simp_all
    moreover have "resolve_user_p4d A (deref OS) addr e r s = resolve_user_pud A (deref OS) addr e (r\<lparr>p4d := e\<rparr>) s"
      using False present by (simp add: resolve_user_p4d_def)
    ultimately have "reaches A (ptedit_paging_definition s) addr (resolve_user_p4d A (deref OS) addr e r s) (r\<lparr>p4d := e\<rparr>)
        (V @ below A ?D (phys s) PGD ls addr e)" by simp
    then show ?thesis by (rule reaches_base) simp_all
  qed
qed

text \<open>The walk from the PGD on, into an entry with an empty valid mask.\<close>

lemma walk_from_pgd:
  assumes const: "lib_const t" and wf: "wf_definition (ptedit_paging_definition t)"
    and W: "W = lib_walk A (ptedit_paging_definition t) (phys t) root addr"
    and acc: "granted (acc OS) W t"
    and present: "cast_present A (snd (snd (hd W))) = PTEDIT_PAGE_PRESENT A" and z: "valid z = 0"
  shows "\<exists>e x. deref OS (root + size_of_int (level_index_int (ptedit_paging_definition t) PGD addr) * ptedit_entry_size t) t = Some e
    \<and> cast_present A e = PTEDIT_PAGE_PRESENT A
    \<and> resolve_user_p4d A (deref OS) addr e (z\<lparr>pgd := e, valid := valid z OR valid_mask PGD\<rparr>) t = Some x
    \<and> matches A (ptedit_paging_definition t) addr W x \<and> vaddr x = vaddr z \<and> pid x = pid z"
proof -
  let ?D = "ptedit_paging_definition t"
  obtain ls where ls: "PGD # ls = walk_levels ?D" by (simp add: walk_levels_def)
  define slot where "slot = root + level_index ?D PGD addr * 8"
  define e where "e = load64 (phys t) slot"
  have W': "W = (PGD, slot, e) # below A ?D (phys t) PGD ls addr e"
    by (simp add: W lib_walk_def ls [symmetric] Let_def slot_def e_def below_def)
  have e: "deref OS slot t = Some e" using acc by (simp add: W' deref_acc e_def)
  have pres: "cast_present A e = PTEDIT_PAGE_PRESENT A" using present by (simp add: W')
  let ?r = "z\<lparr>pgd := e, valid := valid z OR valid_mask PGD\<rparr>"
  have "matches A ?D addr ([] @ [(PGD, slot, e)]) ?r"
    by (rule matches_extend [of _ _ _ _ z]) (simp_all add: matches_def z)
  then have m: "matches A ?D addr [(PGD, slot, e)] ?r" by simp
  from acc have "granted (acc OS) (below A ?D (phys t) PGD ls addr e) t" by (simp add: W')
  then have "reaches A ?D addr (resolve_user_p4d A (deref OS) addr e ?r t) ?r
      ([(PGD, slot, e)] @ below A ?D (phys t) PGD ls addr e)"
    by (intro resolve_user_p4d_reaches [OF const wf m _ _ _ _ pres ls]) simp_all
  then obtain x where "resolve_user_p4d A (deref OS) addr e ?r t = Some x" "matches A ?D addr W x"
    "vaddr x = vaddr z" "pid x = pid z"
    by (auto simp: reaches_def W')
  then show ?thesis
    using e pres wf const by (auto simp: level_index_int lib_const_def slot_def)
qed

lemma resolve_user_ext_walk:
  assumes const: "lib_const s" and wf: "wf_definition (ptedit_paging_definition s)"
    and root: "user_root OS proc s = (root, t)" "root \<noteq> 0"
    and W: "W = lib_walk (cfg_arch (os_kernel OS)) (ptedit_paging_definition s) (phys s) root addr"
    and acc: "granted (acc OS) W s"
    and present: "cast_present (cfg_arch (os_kernel OS)) (snd (snd (hd W))) = PTEDIT_PAGE_PRESENT (cfg_arch (os_kernel OS))"
  shows "\<exists>e. ptedit_resolve_user_ext OS addr proc (deref OS) s = Some (e, t)
    \<and> matches (cfg_arch (os_kernel OS)) (ptedit_paging_definition s) addr W e
    \<and> vaddr e = addr \<and> pid e = size_of_int proc"
proof -
  let ?A = "cfg_arch (os_kernel OS)" and ?D = "ptedit_paging_definition t"
  from user_root_same [OF root(1)] have same: "same_lib s t" and phys: "phys t = phys s" by auto
  have D: "ptedit_paging_definition s = ?D" using same by (simp add: same_lib_fields)
  have const': "lib_const t" and wf': "wf_definition ?D"
    using const wf same by (simp_all add: lib_const_def same_lib_fields)
  have W': "W = lib_walk ?A ?D (phys t) root addr" by (simp add: W D phys)
  have acc': "granted (acc OS) W t" using acc same acc_same by (auto simp: granted_def)
  let ?z = "zero_entry\<lparr>vaddr := addr, pid := size_of_int proc, valid := 0\<rparr>"
  obtain e x where "deref OS (root + size_of_int (level_index_int ?D PGD addr) * ptedit_entry_size t) t = Some e"
    "cast_present ?A e = PTEDIT_PAGE_PRESENT ?A"
    "resolve_user_p4d ?A (deref OS) addr e (?z\<lparr>pgd := e, valid := valid ?z OR valid_mask PGD\<rparr>) t = Some x"
    "matches ?A ?D addr W x" "vaddr x = addr" "pid x = size_of_int proc"
    using walk_from_pgd [OF const' wf' W' acc' present, of ?z] by auto
  then show ?thesis
    using root by (simp add: ptedit_resolve_user_ext_def D Let_def)
qed

lemma resolve_user_ext_absent:
  assumes const: "lib_const s" and wf: "wf_definition (ptedit_paging_definition s)"
    and root: "user_root OS proc s = (root, t)"
    and slot: "slot = root + level_index (ptedit_paging_definition s) PGD addr * 8"
    and absent: "root = 0 \<or> acc OS slot s \<and>
      cast_present (cfg_arch (os_kernel OS)) (load64 (phys s) slot) \<noteq> PTEDIT_PAGE_PRESENT (cfg_arch (os_kernel OS))"
  shows "ptedit_resolve_user_ext OS addr proc (deref OS) s =
    Some (zero_entry\<lparr>vaddr := addr, pid := size_of_int proc\<rparr>, t)"
proof -
  from user_root_same [OF root(1)] have same: "same_lib s t" and phys: "phys t = phys s" by auto
  then have "lib_const t" "wf_definition (ptedit_paging_definition t)"
    "ptedit_paging_definition s = ptedit_paging_definition t" "acc OS slot s \<longrightarrow> acc OS slot t"
    using const wf acc_same by (simp_all add: lib_const_def same_lib_fields)
  then show ?thesis
    using root slot absent phys
    by (auto simp: ptedit_resolve_user_ext_def level_index_int lib_const_def deref_acc zero_entry_def Let_def)
qed

lemma update_user_level_writes:
  assumes const: "lib_const s" and D: "ptedit_paging_definition s = D" and l: "l \<noteq> PGD"
    and m: "matches A D addr W cur" and distinct: "distinct (map fst W)"
    and acc: "granted (acc OS) W s" and has: "l \<in> fst ` set W \<Longrightarrow> has"
  shows "update_user_level A (pset OS) l has addr vm cur (entry_of (parent l) cur) s =
    Some (s\<lparr>phys := write_back vm (at_level l W) (phys s)\<rparr>)"
proof (cases "l \<in> fst ` set W")
  case False
  then show ?thesis
    using m by (simp add: update_user_level_def matches_def at_level_none write_back_def phys_id)
next
  case True
  then obtain slot e where x: "(l, slot, e) \<in> set W" by force
  with m l have slot: "slot = cast_pfn A (entry_of (parent l) cur) * 4096 + level_index D l addr * 8"
    by (auto simp: matches_def slot_below_def)
  have "has_valid (valid cur) l" using m True by (simp add: matches_def)
  moreover have "acc OS slot s" using acc x by (auto simp: granted_def)
  moreover have "at_level l W = [(l, slot, e)]" by (rule at_level_one [OF x distinct])
  ultimately show ?thesis
    using const has [OF True] D unfolding slot
    by (simp add: update_user_level_def lib_const_def pset_acc write_back_def)
qed

text \<open>The five conditional writes of an update, for a current mapping that matches the walk.\<close>

lemma levels_written:
  assumes const: "lib_const u" and D: "ptedit_paging_definition u = D" and wf: "wf_definition D"
    and W: "W = lib_walk A D m0 root addr" and m: "matches A D addr W cur" and acc: "granted (acc OS) W u"
  shows "\<exists>s1 s2 s3 s4.
      update_user_level A (pset OS) PTE True addr vm cur (pmd cur) u = Some s1
    \<and> update_user_level A (pset OS) PMD (has_pmd D) addr vm cur (pud cur) s1 = Some s2
    \<and> update_user_level A (pset OS) PUD (has_pud D) addr vm cur (p4d cur) s2 = Some s3
    \<and> update_user_level A (pset OS) P4D (has_p4d D) addr vm cur (pgd cur) s3 = Some s4
    \<and> (if has_valid (valid vm) PGD \<and> has_valid (valid cur) PGD \<and> has_pgd D
       then pset OS (root + level_index D PGD addr * ptedit_entry_size s4) (pgd vm) s4 else Some s4) =
      Some (u\<lparr>phys := write_back vm (by_level W [PTE, PMD, PUD, P4D, PGD]) (phys u)\<rparr>)"
proof -
  define wr where "wr l m = write_back vm (at_level l W) m" for l m
  define q where "q l v = v\<lparr>phys := wr l (phys v)\<rparr>" for l and v :: sys
  have q_same: "same_lib u v \<Longrightarrow> same_lib u (q l v)" for l v
    using same_lib_trans [of u v "q l v"] by (simp add: q_def)
  have lev: "distinct (map fst W)" "set (map fst W) \<subseteq> set (walk_levels D)"
    using page_walk_distinct [of "walk_levels D"] page_walk_levels [of "lib_next A" D m0 "walk_levels D"]
    by (simp_all add: W lib_walk_def walk_levels_def)
  have has: "PMD \<in> fst ` set W \<Longrightarrow> has_pmd D" "PUD \<in> fst ` set W \<Longrightarrow> has_pud D" "P4D \<in> fst ` set W \<Longrightarrow> has_p4d D"
    "has_pgd D"
    using lev wf by (auto simp: walk_levels_def wf_definition_def split: if_splits)
  have pre: "lib_const v" "ptedit_paging_definition v = D" "granted (acc OS) W v" if "same_lib u v" for v
    using that const acc acc_same D by (auto simp: lib_const_def same_lib_fields granted_def)
  have level: "update_user_level A (pset OS) l has addr vm cur (entry_of (parent l) cur) v = Some (q l v)"
    if "l \<noteq> PGD" "same_lib u v" "l \<in> fst ` set W \<Longrightarrow> has" for l v has
    using that m lev(1) unfolding q_def wr_def
    by (intro update_user_level_writes [OF pre(1,2) _ m lev(1) pre(3)]) simp_all
  define u4 where "u4 = q P4D (q PUD (q PMD (q PTE u)))"
  have u4: "same_lib u u4" unfolding u4_def by (intro q_same same_lib_simps)
  obtain e ws where W1: "W = (PGD, root + level_index D PGD addr * 8, e) # ws"
    unfolding W lib_walk_def walk_levels_def by (simp add: Let_def)
  have "(if has_valid (valid vm) PGD \<and> has_valid (valid cur) PGD \<and> has_pgd D
      then pset OS (root + level_index D PGD addr * ptedit_entry_size u4) (pgd vm) u4 else Some u4) = Some (q PGD u4)"
  proof -
    have "has_valid (valid cur) PGD" using m W1 by (simp add: matches_def)
    moreover have "at_level PGD W = [(PGD, root + level_index D PGD addr * 8, e)]"
      by (rule at_level_one [OF _ lev(1)]) (simp add: W1)
    moreover have "acc OS (root + level_index D PGD addr * 8) u4" using pre(3) [OF u4] by (simp add: W1)
    ultimately show ?thesis
      using has(4) pre(1) [OF u4] by (simp add: q_def wr_def write_back_def pset_acc lib_const_def)
  qed
  moreover have "q PGD u4 = u\<lparr>phys := write_back vm (by_level W [PTE, PMD, PUD, P4D, PGD]) (phys u)\<rparr>"
    by (simp add: q_def wr_def u4_def by_level_def write_back_def)
  moreover note level [of PTE u True] level [of PMD "q PTE u" "has_pmd D"]
    level [of PUD "q PMD (q PTE u)" "has_pud D"] level [of P4D "q PUD (q PMD (q PTE u))" "has_p4d D"]
  ultimately show ?thesis
    using has q_same
    by (intro exI [of _ "q PTE u"] exI [of _ "q PMD (q PTE u)"] exI [of _ "q PUD (q PMD (q PTE u))"] exI [of _ u4])
      (simp add: u4_def)
qed

lemma update_user_ext_writes:
  assumes const: "lib_const s" and wf: "wf_definition (ptedit_paging_definition s)"
    and root: "user_root OS proc s = (root, t)" "root \<noteq> 0"
    and W: "W = lib_walk (cfg_arch (os_kernel OS)) (ptedit_paging_definition s) (phys s) root addr"
    and acc: "granted (acc OS) W s"
    and present: "cast_present (cfg_arch (os_kernel OS)) (snd (snd (hd W))) = PTEDIT_PAGE_PRESENT (cfg_arch (os_kernel OS))"
    and ptr: "ptedit_resolve OS addr proc s = ptedit_resolve_user_ext OS addr proc (deref OS) s"
  shows "\<exists>u. ptedit_update_user_ext OS addr proc vm (pset OS) s = Some u \<and> same_lib s u
    \<and> phys u = write_back vm (by_level W [PTE, PMD, PUD, P4D, PGD]) (phys s)"
proof -
  define A where "A = cfg_arch (os_kernel OS)"
  define D where "D = ptedit_paging_definition s"
  obtain cur where cur: "ptedit_resolve OS addr proc s = Some (cur, t)" and m: "matches A D addr W cur"
    using resolve_user_ext_walk [OF const wf root W acc present] ptr by (auto simp: A_def D_def)
  obtain root' t2 where root2: "user_root OS proc t = (root', t2)" by fastforce
  have st: "same_lib s t" "phys t = phys s" using user_root_same [OF root(1)] by auto
  then have root': "root' = root" using user_root_stable [OF st(1), of OS proc] root2 root(1) by simp
  have st2: "same_lib s t2" "phys t2 = phys s"
    using user_root_same [OF root2] same_lib_trans [OF st(1)] st(2) by auto
  have pre: "lib_const t2" "ptedit_paging_definition t2 = D" "granted (acc OS) W t2"
    using st2(1) const acc acc_same by (auto simp: lib_const_def same_lib_fields D_def granted_def)
  let ?u = "t2\<lparr>phys := write_back vm (by_level W [PTE, PMD, PUD, P4D, PGD]) (phys t2)\<rparr>"
  obtain s1 s2 s3 s4 where chain:
    "update_user_level A (pset OS) PTE True addr vm cur (pmd cur) t2 = Some s1"
    "update_user_level A (pset OS) PMD (has_pmd D) addr vm cur (pud cur) s1 = Some s2"
    "update_user_level A (pset OS) PUD (has_pud D) addr vm cur (p4d cur) s2 = Some s3"
    "update_user_level A (pset OS) P4D (has_p4d D) addr vm cur (pgd cur) s3 = Some s4"
    "(if has_valid (valid vm) PGD \<and> has_valid (valid cur) PGD \<and> has_pgd D
      then pset OS (root + level_index D PGD addr * ptedit_entry_size s4) (pgd vm) s4 else Some s4) = Some ?u"
    using levels_written [OF pre(1,2) wf [folded D_def] W [folded A_def D_def] m pre(3)] by blast
  have "ptedit_update_user_ext OS addr proc vm (pset OS) s = Some (ptedit_invalidate_tlb_pid OS proc addr ?u)"
    using cur root2 root(2) root' chain
    by (simp add: ptedit_update_user_ext_def A_def [symmetric] D_def [symmetric] same_lib_fields(10) [OF st(1)] Let_def
        split del: if_split cong: if_cong)
  moreover have "same_lib s (ptedit_invalidate_tlb_pid OS proc addr ?u)"
    using invalidate_tlb_pid_same same_lib_trans [OF st2(1)] same_lib_trans same_lib_simps(2) by blast
  moreover have "phys (ptedit_invalidate_tlb_pid OS proc addr ?u) =
      write_back vm (by_level W [PTE, PMD, PUD, P4D, PGD]) (phys s)"
    by (simp add: invalidate_tlb_pid_phys st2(2))
  ultimately show ?thesis by blast
qed

end

section \<open>Properties of the user-space walk\<close>

text \<open>
  Tables the library can follow on x86: page frames below 2^28, the width of the structure member it
  reads them through, and no 1 GB pages.  On ARMv8 there is no such restriction.
\<close>

definition plain_tables :: "arch \<Rightarrow> (level \<times> u64 \<times> u64) list \<Rightarrow> bool" where
  "plain_tables A W \<longleftrightarrow>
     (A = X86_64 \<longrightarrow> (\<forall>(l, slot, e) \<in> set W. ptedit_get_pfn A e < 2 ^ 28 \<and> \<not> (l = PUD \<and> bit e 7)))"

lemma plain_next:
  "A = X86_64 \<longrightarrow> ptedit_get_pfn A e < 2 ^ 28 \<and> \<not> (l = PUD \<and> bit e 7) \<Longrightarrow> hw_next A l e = lib_next A l e"
proof -
  assume plain: "A = X86_64 \<longrightarrow> ptedit_get_pfn A e < 2 ^ 28 \<and> \<not> (l = PUD \<and> bit e 7)"
  then have "cast_pfn A e = ptedit_get_pfn A e"
    using cast_pfn_x86_iff [of e] cast_pfn_arm [of e] by (cases A) simp_all
  with plain show ?thesis by (cases A) (auto simp: hw_next_def lib_next_def)
qed

lemma plain_walk: "plain_tables A (hw_walk A D m root addr) \<Longrightarrow> lib_walk A D m root addr = hw_walk A D m root addr"
  unfolding lib_walk_def hw_walk_def plain_tables_def
  by (rule page_walk_cong) (auto intro!: plain_next)

lemma lib_walk_hd: "\<exists>ws. lib_walk A D m root addr =
    (PGD, root + level_index D PGD addr * 8, load64 m (root + level_index D PGD addr * 8)) # ws"
  by (simp add: lib_walk_def walk_levels_def Let_def)

text \<open>The walk on the sample machine.\<close>

lemma sample_walk:
  "lib_walk X86_64 x86_definition sample_mem 0x1000 sample_vaddr =
    [(PGD, 0x1000, 0x2067), (PUD, 0x2008, 0x3067), (PMD, 0x3008, 0x4067), (PTE, 0x4008, 0x8000000000005067)]"
  by (simp add: lib_walk_def walk_levels_def x86_definition_def level_index_bits level_shift_def
      level_entries_def sample_vaddr_def Let_def sample_loads lib_next_def cast_present_bits cast_pfn_bits
      PTEDIT_PAGE_PRESENT_def take_bit_eq_mask mask_numeral)

lemma sample_sys_simps:
  "phys sample_sys = sample_mem" "ptedit_pfn_multiply sample_sys = 4096" "ptedit_entry_size sample_sys = 8"
  "ptedit_paging_definition sample_sys = x86_definition" "ptedit_umem sample_sys = 4" "ptedit_fd sample_sys = 3"
  "fd_table sample_sys = [(4, F_umem), (3, F_device), (0, F_other), (1, F_other), (2, F_other)]"
  "mm_pgd sample_sys = sample_roots" "\<not> mm_is_locked sample_sys" "invalidate_tlb_fn sample_sys = Tlb_kernel"
  "real_page_size sample_sys = 4096" "real_page_shift sample_sys = 12" "trace sample_sys = []"
  "ptedit_resolve_ptr sample_sys = Resolve_kernel" "ptedit_update_ptr sample_sys = Update_kernel"
  "ptedit_pagesize sample_sys = 4096" "cfg_arch (os_kernel sample_os) = X86_64"
  by (simp_all add: sample_sys_eq sample_defs)

lemma sample_user_root:
  "user_root sample_os 0 sample_pread = (0x1000, sample_pread)" "user_root sample_os 0 sample_map = (0x1000, sample_map)"
  by (simp_all add: user_root_def sample_pread_eq sample_map_eq size_of_int_def)

lemma sample_const:
  "lib_const sample_pread" "lib_const sample_map" "ptedit_paging_definition sample_pread = x86_definition"
  "ptedit_paging_definition sample_map = x86_definition" "phys sample_pread = sample_mem" "phys sample_map = sample_mem"
  by (simp_all add: lib_const_def sample_pread_eq sample_map_eq sample_sys_simps)

lemma sample_acc:
  "pread_acc sample_os a sample_pread"
  "unat a + 8 \<le> 0x800000000 \<Longrightarrow> map_acc sample_os a sample_map"
  by (simp_all add: pread_acc_def umem_serves_def fd_file_def sample_pread_eq sample_sys_simps map_acc_def
      mapped_def in_mapping_def sample_map_eq) (simp_all add: sample_os_def)

lemma sample_hw_walk:
  "hw_walk X86_64 x86_definition sample_mem 0x1000 sample_vaddr =
    [(PGD, 0x1000, 0x2067), (PUD, 0x2008, 0x3067), (PMD, 0x3008, 0x4067), (PTE, 0x4008, 0x8000000000005067)]"
  by (simp add: hw_walk_def walk_levels_def x86_definition_def level_index_bits level_shift_def
      level_entries_def sample_vaddr_def Let_def sample_loads hw_next_def cast_present_bits ptedit_get_pfn_def
      pfn_width_def PTEDIT_PAGE_PRESENT_def take_bit_eq_mask mask_numeral)

lemma sample_plain: "plain_tables X86_64 (hw_walk X86_64 x86_definition sample_mem 0x1000 sample_vaddr)"
  by (simp add: plain_tables_def sample_hw_walk ptedit_get_pfn_def pfn_width_def)

text \<open>
  C1. Both user-space implementations perform the hardware's page walk: where the tables are plain, the
  PGD entry is present and physical memory can be reached at the slots of the walk, they return an
  entry whose valid levels are exactly the levels the hardware visits, with the entries the hardware
  reads there, and leave memory and library state unchanged.
\<close>

theorem resolve_user_hw_walk:
  assumes A_def: "A = cfg_arch (os_kernel OS)" and D_def: "D = ptedit_paging_definition s"
    and "lib_const s" and "wf_definition D"
    and "user_root OS proc s = (root, t)" and "root \<noteq> 0"
    and "W = hw_walk A D (phys s) root addr" and "plain_tables A W"
    and "cast_present A (snd (snd (hd W))) = PTEDIT_PAGE_PRESENT A"
  shows "same_lib s t \<and> phys t = phys s \<and>
    (granted (pread_acc OS) W s \<longrightarrow>
      (\<exists>e. ptedit_resolve_user OS addr proc s = Some (e, t) \<and> vaddr e = addr \<and> pid e = size_of_int proc
        \<and> (\<forall>l. has_valid (valid e) l \<longleftrightarrow> l \<in> fst ` set W) \<and> (\<forall>(l, slot, v) \<in> set W. entry_of l e = v))) \<and>
    (granted (map_acc OS) W s \<longrightarrow>
      (\<exists>e. ptedit_resolve_user_map OS addr proc s = Some (e, t) \<and> vaddr e = addr \<and> pid e = size_of_int proc
        \<and> (\<forall>l. has_valid (valid e) l \<longleftrightarrow> l \<in> fst ` set W) \<and> (\<forall>(l, slot, v) \<in> set W. entry_of l e = v)))"
proof -
  have W: "W = lib_walk A D (phys s) root addr" using assms(7,8) plain_walk by simp
  note pre = assms(3) assms(4,7,9) [unfolded D_def A_def] assms(5,6) W [unfolded A_def D_def]
  show ?thesis
  proof (intro conjI impI)
    show "same_lib s t" "phys t = phys s" using user_root_same [OF assms(5)] by simp_all
    show "\<exists>e. ptedit_resolve_user OS addr proc s = Some (e, t) \<and> vaddr e = addr \<and> pid e = size_of_int proc
        \<and> (\<forall>l. has_valid (valid e) l \<longleftrightarrow> l \<in> fst ` set W) \<and> (\<forall>(l, slot, v) \<in> set W. entry_of l e = v)"
      if "granted (pread_acc OS) W s"
      unfolding ptedit_resolve_user_def
      by (rule matches_exI [OF pread_phys.resolve_user_ext_walk [OF pre(1,2,5,6,7) that pre(4)]])
    show "\<exists>e. ptedit_resolve_user_map OS addr proc s = Some (e, t) \<and> vaddr e = addr \<and> pid e = size_of_int proc
        \<and> (\<forall>l. has_valid (valid e) l \<longleftrightarrow> l \<in> fst ` set W) \<and> (\<forall>(l, slot, v) \<in> set W. entry_of l e = v)"
      if "granted (map_acc OS) W s"
      unfolding ptedit_resolve_user_map_def
      by (rule matches_exI [OF map_phys.resolve_user_ext_walk [OF pre(1,2,5,6,7) that pre(4)]])
  qed
qed

theorem resolve_user_hw_walk_witness:
  "(\<exists>e. ptedit_resolve_user sample_os sample_vaddr 0 sample_pread = Some (e, sample_pread)
        \<and> has_valid (valid e) PTE \<and> pte e = 0x8000000000005067) \<and>
   (\<exists>e. ptedit_resolve_user_map sample_os sample_vaddr 0 sample_map = Some (e, sample_map)
        \<and> has_valid (valid e) PTE \<and> pte e = 0x8000000000005067)"
proof -
  let ?W = "hw_walk X86_64 x86_definition sample_mem 0x1000 sample_vaddr"
  note facts = sample_const sample_user_root sample_plain sample_sys_simps(17) wf_definitions(1)
  have present: "cast_present X86_64 (snd (snd (hd ?W))) = PTEDIT_PAGE_PRESENT X86_64"
    by (simp add: sample_hw_walk cast_present_bits PTEDIT_PAGE_PRESENT_def)
  have "granted (pread_acc sample_os) ?W sample_pread" "granted (map_acc sample_os) ?W sample_map"
    by (simp_all add: sample_hw_walk sample_acc)
  then show ?thesis
    using resolve_user_hw_walk [of X86_64 sample_os x86_definition sample_pread 0 "0x1000" sample_pread ?W sample_vaddr]
      resolve_user_hw_walk [of X86_64 sample_os x86_definition sample_map 0 "0x1000" sample_map ?W sample_vaddr] facts present
    by (auto simp: sample_hw_walk)
qed

text \<open>
  Where there is no paging root or the PGD entry is not present, both user-space implementations
  return an entry with an empty valid mask and only the address and process filled in.
\<close>

theorem resolve_user_unmapped:
  assumes "lib_const s" and "wf_definition (ptedit_paging_definition s)"
    and "user_root OS proc s = (root, t)"
    and "slot = root + level_index (ptedit_paging_definition s) PGD addr * 8"
    and "root = 0 \<or> cast_present (cfg_arch (os_kernel OS)) (load64 (phys s) slot) \<noteq> PTEDIT_PAGE_PRESENT (cfg_arch (os_kernel OS))"
  shows "(root = 0 \<or> pread_acc OS slot s \<longrightarrow>
      ptedit_resolve_user OS addr proc s = Some (zero_entry\<lparr>vaddr := addr, pid := size_of_int proc\<rparr>, t))
    \<and> (root = 0 \<or> map_acc OS slot s \<longrightarrow>
      ptedit_resolve_user_map OS addr proc s = Some (zero_entry\<lparr>vaddr := addr, pid := size_of_int proc\<rparr>, t))"
  using pread_phys.resolve_user_ext_absent [OF assms(1-4)] map_phys.resolve_user_ext_absent [OF assms(1-4)] assms(5)
  by (auto simp: ptedit_resolve_user_def ptedit_resolve_user_map_def)

theorem resolve_user_unmapped_witness:
  "ptedit_resolve_user sample_os 0xff8000000000 0 sample_pread =
     Some (zero_entry\<lparr>vaddr := 0xff8000000000, pid := 0\<rparr>, sample_pread)"
proof -
  let ?s = sample_pread
  have slot: "0x1ff8 = 0x1000 + level_index (ptedit_paging_definition ?s) PGD 0xff8000000000 * 8"
    by (simp add: sample_const level_index_bits x86_definition_def level_shift_def level_entries_def
        take_bit_eq_mask mask_numeral)
  have "load64 sample_mem 0x1ff8 = 0" by (simp add: sample_mem_def mem_simps apart_def)
  then have "0x1000 = (0 :: u64) \<or> cast_present (cfg_arch (os_kernel sample_os)) (load64 (phys ?s) 0x1ff8) \<noteq>
      PTEDIT_PAGE_PRESENT (cfg_arch (os_kernel sample_os))"
    by (simp add: sample_const sample_sys_simps cast_present_bits PTEDIT_PAGE_PRESENT_def)
  from resolve_user_unmapped [OF sample_const(1) _ sample_user_root(1) slot this]
  show ?thesis by (simp add: sample_const wf_definitions sample_acc size_of_int_def)
qed

text \<open>
  C2. An update through either user-space implementation writes, bottom-up from the PTE to the PGD,
  the new entry of every level that the request names and the walk has visited, each to its slot in the
  walk of the current tables, and changes nothing else but the trace of TLB invalidations.
\<close>

theorem update_user_writes:
  assumes A_def: "A = cfg_arch (os_kernel OS)" and D_def: "D = ptedit_paging_definition s"
    and "lib_const s" and "wf_definition D"
    and "user_root OS proc s = (root, t)" and "root \<noteq> 0"
    and "W = lib_walk A D (phys s) root addr"
    and "cast_present A (snd (snd (hd W))) = PTEDIT_PAGE_PRESENT A"
  shows "(ptedit_resolve_ptr s = Resolve_user \<and> granted (pread_acc OS) W s \<longrightarrow>
      (\<exists>u. ptedit_update_user OS addr proc vm s = Some (vm, u) \<and> same_lib s u
         \<and> phys u = write_back vm (by_level W [PTE, PMD, PUD, P4D, PGD]) (phys s))) \<and>
    (ptedit_resolve_ptr s = Resolve_user_map \<and> granted (map_acc OS) W s \<longrightarrow>
      (\<exists>u. ptedit_update_user_map OS addr proc vm s = Some (vm, u) \<and> same_lib s u
         \<and> phys u = write_back vm (by_level W [PTE, PMD, PUD, P4D, PGD]) (phys s)))"
proof (intro conjI impI; elim conjE)
  note pre = assms(3) assms(4,7,8) [unfolded D_def A_def] assms(5,6)
  show "\<exists>u. ptedit_update_user OS addr proc vm s = Some (vm, u) \<and> same_lib s u
      \<and> phys u = write_back vm (by_level W [PTE, PMD, PUD, P4D, PGD]) (phys s)"
    if "ptedit_resolve_ptr s = Resolve_user" "granted (pread_acc OS) W s"
  proof -
    have "ptedit_resolve OS addr proc s = ptedit_resolve_user_ext OS addr proc (ptedit_phys_read_pread OS) s"
      using that(1) by (simp add: ptedit_resolve_def ptedit_resolve_user_def)
    from pread_phys.update_user_ext_writes [OF pre(1,2,5,6,3) that(2) pre(4) this]
    show ?thesis using invalidate_tlb_pid_same same_lib_trans by (fastforce simp: ptedit_update_user_def)
  qed
  show "\<exists>u. ptedit_update_user_map OS addr proc vm s = Some (vm, u) \<and> same_lib s u
      \<and> phys u = write_back vm (by_level W [PTE, PMD, PUD, P4D, PGD]) (phys s)"
    if "ptedit_resolve_ptr s = Resolve_user_map" "granted (map_acc OS) W s"
  proof -
    have "ptedit_resolve OS addr proc s = ptedit_resolve_user_ext OS addr proc (ptedit_phys_read_map OS) s"
      using that(1) by (simp add: ptedit_resolve_def ptedit_resolve_user_map_def)
    from map_phys.update_user_ext_writes [OF pre(1,2,5,6,3) that(2) pre(4) this]
    show ?thesis using invalidate_tlb_pid_same same_lib_trans by (fastforce simp: ptedit_update_user_map_def)
  qed
qed

theorem update_user_writes_witness:
  "\<exists>u. ptedit_update_user sample_os sample_vaddr 0 (zero_entry\<lparr>pte := 0x6067, pmd := 0x4027, valid := 24\<rparr>) sample_pread =
        Some (zero_entry\<lparr>pte := 0x6067, pmd := 0x4027, valid := 24\<rparr>, u)
     \<and> phys u = store64 (store64 sample_mem 0x4008 0x6067) 0x3008 0x4027"
proof -
  let ?W = "lib_walk X86_64 x86_definition sample_mem 0x1000 sample_vaddr"
  let ?vm = "zero_entry\<lparr>pte := 0x6067, pmd := 0x4027, valid := 24\<rparr>"
  have present: "cast_present X86_64 (snd (snd (hd ?W))) = PTEDIT_PAGE_PRESENT X86_64"
    by (simp add: sample_walk cast_present_bits PTEDIT_PAGE_PRESENT_def)
  have "granted (pread_acc sample_os) ?W sample_pread" by (simp add: sample_walk sample_acc)
  moreover have "ptedit_resolve_ptr sample_pread = Resolve_user" by (simp add: sample_pread_eq)
  ultimately obtain u where "ptedit_update_user sample_os sample_vaddr 0 ?vm sample_pread = Some (?vm, u)"
    "phys u = write_back ?vm (by_level ?W [PTE, PMD, PUD, P4D, PGD]) sample_mem"
    using update_user_writes [of X86_64 sample_os x86_definition sample_pread 0 "0x1000" sample_pread ?W sample_vaddr ?vm]
      sample_const sample_user_root sample_sys_simps(17) wf_definitions(1) present
    by auto
  moreover have "write_back ?vm (by_level ?W [PTE, PMD, PUD, P4D, PGD]) sample_mem =
      store64 (store64 sample_mem 0x4008 0x6067) 0x3008 0x4027"
    by (simp add: sample_walk by_level_def at_level_def write_back_def has_valid_def valid_mask_def ull_bit_def)
  ultimately show ?thesis by metis
qed

text \<open>
  C29. A 1 GB page is not recognised: where the hardware's walk ends at a PUD entry with the PS bit, the
  user-space walk reads a further entry from inside the mapped page and reports it as a valid PMD.
\<close>

theorem resolve_user_misreads_1g_page:
  assumes "cfg_arch (os_kernel OS) = X86_64" and D: "ptedit_paging_definition s = x86_definition"
    and "lib_const s" and "user_root OS proc s = (root, t)" and "root \<noteq> 0"
    and "W = lib_walk X86_64 x86_definition (phys s) root addr" and "granted (pread_acc OS) W s"
    and "plain_tables X86_64 [hd W]" and "(PUD, slot, e) \<in> set W" and "cast_present X86_64 e = 1" and "bit e 7"
  shows "PMD \<notin> fst ` set (hw_walk X86_64 x86_definition (phys s) root addr)
    \<and> (\<exists>r. ptedit_resolve_user OS addr proc s = Some (r, t) \<and> has_valid (valid r) PMD)"
proof -
  let ?D = x86_definition
  define q where "q = root + level_index ?D PGD addr * 8"
  define g where "g = load64 (phys s) q"
  have levels: "walk_levels ?D = [PGD, PUD, PMD, PTE]" by (simp add: walk_levels_def x86_definition_def)
  have W: "W = (PGD, q, g) # below X86_64 ?D (phys s) PGD [PUD, PMD, PTE] addr g"
    by (simp add: assms(6) lib_walk_def levels Let_def q_def g_def below_def)
  with assms(9) have "cast_present X86_64 g = PTEDIT_PAGE_PRESENT X86_64"
    using below_absent by force
  then have nxt: "lib_next X86_64 PGD g = Some (cast_pfn X86_64 g * 4096)" by (simp add: lib_next_present)
  define q' where "q' = cast_pfn X86_64 g * 4096 + level_index ?D PUD addr * 8"
  have W': "W = (PGD, q, g) # (PUD, q', load64 (phys s) q') # below X86_64 ?D (phys s) PUD [PMD, PTE] addr (load64 (phys s) q')"
    unfolding W below_Cons [OF nxt] q'_def ..
  have lower: "PUD \<notin> fst ` set (below X86_64 ?D (phys s) PUD [PMD, PTE] addr x)" for x
    using page_walk_levels [of "lib_next X86_64" ?D "phys s" "[PMD, PTE]"]
    by (auto simp: below_def split: option.split)
  have e: "e = load64 (phys s) q'" using assms(9) lower unfolding W' by force
  have pmd: "PMD \<in> fst ` set W"
    using assms(10) by (simp add: W' e [symmetric] below_def lib_next_def PTEDIT_PAGE_PRESENT_def Let_def)
  have "hw_next X86_64 PGD g = Some (cast_pfn X86_64 g * 4096)"
    using nxt plain_next [of X86_64 g PGD] assms(8) by (simp add: W plain_tables_def)
  moreover have "hw_next X86_64 PUD e = None" using assms(11) by (simp add: hw_next_def)
  ultimately have "PMD \<notin> fst ` set (hw_walk X86_64 ?D (phys s) root addr)"
    by (simp add: hw_walk_def levels Let_def q_def [symmetric] g_def [symmetric] q'_def [symmetric] e [symmetric])
  moreover have "\<exists>r. ptedit_resolve_user OS addr proc s = Some (r, t) \<and> has_valid (valid r) PMD"
  proof -
    have "cast_present X86_64 (snd (snd (hd W))) = PTEDIT_PAGE_PRESENT X86_64"
      using \<open>cast_present X86_64 g = _\<close> by (simp add: W)
    then obtain r where "ptedit_resolve_user OS addr proc s = Some (r, t)" "matches X86_64 ?D addr W r"
      using pread_phys.resolve_user_ext_walk [of s OS proc root t W addr] assms(1,3-7) wf_definitions(1) D
      unfolding ptedit_resolve_user_def by auto
    with pmd show ?thesis using matches_entries by blast
  qed
  ultimately show ?thesis ..
qed

theorem resolve_user_misreads_1g_page_witness:
  "\<exists>r. ptedit_resolve_user sample_os sample_vaddr 0 (sample_pread\<lparr>phys := store64 sample_mem 0x2008 0xc00000e7\<rparr>) =
         Some (r, sample_pread\<lparr>phys := store64 sample_mem 0x2008 0xc00000e7\<rparr>) \<and> has_valid (valid r) PMD"
proof -
  let ?m = "store64 sample_mem 0x2008 0xc00000e7"
  let ?s = "sample_pread\<lparr>phys := ?m\<rparr>"
  have loads: "load64 ?m 0x1000 = 0x2067" "load64 ?m 0x2008 = 0xc00000e7" "load64 ?m 0xc0000008 = 0"
    by (simp_all add: mem_simps apart_def sample_loads) (simp add: sample_mem_def mem_simps apart_def)
  have W: "lib_walk X86_64 x86_definition ?m 0x1000 sample_vaddr =
      [(PGD, 0x1000, 0x2067), (PUD, 0x2008, 0xc00000e7), (PMD, 0xc0000008, 0)]"
    by (simp add: lib_walk_def walk_levels_def x86_definition_def level_index_bits level_shift_def
      level_entries_def sample_vaddr_def Let_def loads lib_next_def cast_present_bits cast_pfn_bits
      PTEDIT_PAGE_PRESENT_def take_bit_eq_mask mask_numeral)
  have acc: "pread_acc sample_os a ?s" for a by (rule pread_phys.acc_same [OF sample_acc(1)]) simp
  have root: "user_root sample_os 0 ?s = (0x1000, ?s)"
    by (simp add: user_root_def sample_pread_eq size_of_int_def)
  have const: "lib_const ?s" using sample_const(1) by (simp add: lib_const_def)
  show ?thesis
    using resolve_user_misreads_1g_page [of sample_os ?s 0 "0x1000" ?s "lib_walk X86_64 x86_definition ?m 0x1000 sample_vaddr"
        sample_vaddr "0x2008" "0xc00000e7"] root const acc sample_sys_simps(17) sample_const(3)
    by (simp add: W plain_tables_def ptedit_get_pfn_def pfn_width_def cast_present_bits bit_numeral_rec
        take_bit_eq_mask mask_numeral)
qed

end
