(* ===== verification/PT_Api.thy ===== *)
theory PT_Api
  imports PT_Walk
begin

text \<open>
  The operations on the page-table entry of an address, proved once against the interface that every
  implementation offers them (\<open>pte_resolver\<close>): resolving an address yields an abstract view of its
  entries, and an update of the PTE changes that view at the PTE only.  The kernel implementation and
  both user-space implementations provide the interface, and so does the call through the function
  pointers.
\<close>

section \<open>The interface\<close>

text \<open>The valid entries of a resolved address.\<close>

definition view :: "ptedit_entry_t \<Rightarrow> level \<Rightarrow> u64 option" where
  "view e l = (if has_valid (valid e) l then Some (entry_of l e) else None)"

type_synonym resolve_op = "u64 \<Rightarrow> i32 \<Rightarrow> sys \<Rightarrow> (ptedit_entry_t \<times> sys) option"
type_synonym update_op = "u64 \<Rightarrow> i32 \<Rightarrow> ptedit_entry_t \<Rightarrow> sys \<Rightarrow> (ptedit_entry_t \<times> sys) option"

text \<open>The shape of the clients: replace the PTE, and read it.\<close>

definition edit_pte :: "resolve_op \<Rightarrow> update_op \<Rightarrow> (u64 \<Rightarrow> u64 option) \<Rightarrow> u64 \<Rightarrow> i32 \<Rightarrow> sys \<Rightarrow> sys option" where
  "edit_pte resolve update f a p s = do {
     (vm, s) \<leftarrow> resolve a p s;
     if \<not> has_valid (valid vm) PTE then Some s
     else do {
       v \<leftarrow> f (pte vm);
       (vm, s) \<leftarrow> update a p (vm\<lparr>pte := v, valid := valid_mask PTE\<rparr>) s;
       Some s
     }
   }"

locale pte_resolver =
  fixes resolve :: resolve_op and update :: update_op
    and ok :: "u64 \<Rightarrow> i32 \<Rightarrow> sys \<Rightarrow> bool" and entries :: "u64 \<Rightarrow> i32 \<Rightarrow> sys \<Rightarrow> level \<Rightarrow> u64 option"
  assumes resolve_entries: "ok a p s \<Longrightarrow>
      \<exists>e t. resolve a p s = Some (e, t) \<and> view e = entries a p s \<and> same_lib s t \<and> phys t = phys s"
    and pte_mapped: "ok a p s \<Longrightarrow> entries a p s PTE \<noteq> None"
    and ok_frame: "ok a p s \<Longrightarrow> same_lib s t \<Longrightarrow> phys t = phys s \<Longrightarrow> ok a p t \<and> entries a p t = entries a p s"
    and update_entries: "ok a p s \<Longrightarrow> valid vm = valid_mask PTE \<Longrightarrow>
      \<exists>vm' u. update a p vm s = Some (vm', u) \<and> same_lib s u \<and> ok a p u
        \<and> entries a p u = (entries a p s)(PTE \<mapsto> pte vm)"
begin

lemma resolve_pte:
  assumes "ok a p s"
  obtains e t where "resolve a p s = Some (e, t)" "has_valid (valid e) PTE" "entries a p s PTE = Some (pte e)"
    "same_lib s t" "ok a p t" "entries a p t = entries a p s"
proof -
  obtain e t where e: "resolve a p s = Some (e, t)" "view e = entries a p s" "same_lib s t" "phys t = phys s"
    using resolve_entries [OF assms] by blast
  then have "view e PTE \<noteq> None" using pte_mapped [OF assms] by simp
  then have "has_valid (valid e) PTE" by (simp add: view_def split: if_splits)
  moreover from this have "view e PTE = Some (pte e)" by (simp add: view_def)
  ultimately show thesis using that e ok_frame [OF assms e(3,4)] by simp
qed

lemma edit_pte_entries:
  assumes "ok a p s" and "entries a p s PTE = Some w" and "f w = Some v"
  obtains u where "edit_pte resolve update f a p s = Some u" "same_lib s u" "ok a p u"
    "entries a p u = (entries a p s)(PTE \<mapsto> v)"
proof -
  obtain e t where e: "resolve a p s = Some (e, t)" "has_valid (valid e) PTE" "pte e = w"
    "same_lib s t" "ok a p t" "entries a p t = entries a p s"
    by (rule resolve_pte [OF assms(1)]) (use assms(2) in simp)
  obtain vm' u where u: "update a p (e\<lparr>pte := v, valid := valid_mask PTE\<rparr>) t = Some (vm', u)" "same_lib t u"
    "ok a p u" "entries a p u = (entries a p t)(PTE \<mapsto> v)"
    using update_entries [OF e(5), of "e\<lparr>pte := v, valid := valid_mask PTE\<rparr>"] by auto
  show thesis
  proof (rule that)
    show "edit_pte resolve update f a p s = Some u" using e u assms(3) by (simp add: edit_pte_def)
    show "same_lib s u" using same_lib_trans e(4) u(2) by blast
  qed (use u e in simp_all)
qed

lemma edit_pte_undefined:
  assumes "ok a p s" and "\<And>w. f w = None"
  shows "edit_pte resolve update f a p s = None"
proof -
  obtain e t where "resolve a p s = Some (e, t)" "has_valid (valid e) PTE"
    by (rule resolve_pte [OF assms(1)])
  with assms(2) show ?thesis by (simp add: edit_pte_def)
qed

lemma resolve_reads:
  assumes "ok a p s" and "entries a p s PTE = Some w"
  shows "\<exists>e t. resolve a p s = Some (e, t) \<and> has_valid (valid e) PTE \<and> pte e = w"
proof -
  obtain e t where "resolve a p s = Some (e, t)" "has_valid (valid e) PTE" "entries a p s PTE = Some (pte e)"
    by (rule resolve_pte [OF assms(1)])
  with assms(2) show ?thesis by simp
qed

end

section \<open>The user-space implementations\<close>

definition user_walk :: "os \<Rightarrow> u64 \<Rightarrow> i32 \<Rightarrow> sys \<Rightarrow> (level \<times> u64 \<times> u64) list" where
  "user_walk OS a p s =
     lib_walk (cfg_arch (os_kernel OS)) (ptedit_paging_definition s) (phys s) (fst (user_root OS p s)) a"

definition user_entries :: "os \<Rightarrow> u64 \<Rightarrow> i32 \<Rightarrow> sys \<Rightarrow> level \<Rightarrow> u64 option" where
  "user_entries OS a p s = map_of (map (\<lambda>(l, slot, e). (l, e)) (user_walk OS a p s))"

text \<open>
  The walk reaches a PTE whose slot does not overlap the tables above it, and every slot can be
  accessed.
\<close>

definition user_ok :: "(os \<Rightarrow> u64 \<Rightarrow> sys \<Rightarrow> bool) \<Rightarrow> os \<Rightarrow> u64 \<Rightarrow> i32 \<Rightarrow> sys \<Rightarrow> bool" where
  "user_ok access OS a p s \<longleftrightarrow>
     lib_const s \<and> wf_definition (ptedit_paging_definition s) \<and> fst (user_root OS p s) \<noteq> 0
     \<and> granted (access OS) (user_walk OS a p s) s
     \<and> (\<exists>slot e. (PTE, slot, e) \<in> set (user_walk OS a p s)
          \<and> (\<forall>(l, q, x) \<in> set (user_walk OS a p s). l \<noteq> PTE \<longrightarrow> apart slot q))"

definition pread_ok :: "os \<Rightarrow> u64 \<Rightarrow> i32 \<Rightarrow> sys \<Rightarrow> bool" where
  "pread_ok OS a p s \<longleftrightarrow> ptedit_resolve_ptr s = Resolve_user \<and> user_ok pread_acc OS a p s"

definition map_ok :: "os \<Rightarrow> u64 \<Rightarrow> i32 \<Rightarrow> sys \<Rightarrow> bool" where
  "map_ok OS a p s \<longleftrightarrow> ptedit_resolve_ptr s = Resolve_user_map \<and> user_ok map_acc OS a p s"

lemma page_walk_store:
  assumes "(l, slot, e) \<in> set (page_walk f D m (ls @ [l]) base addr)" and "l \<notin> set ls"
    and "\<forall>(k, q, x) \<in> set (page_walk f D m (ls @ [l]) base addr). k \<noteq> l \<longrightarrow> apart slot q"
  shows "page_walk f D (store64 m slot v) (ls @ [l]) base addr =
    map (\<lambda>(k, q, x). (k, q, if k = l then v else x)) (page_walk f D m (ls @ [l]) base addr)"
  using assms
proof (induction ls arbitrary: base)
  case Nil
  then show ?case by (auto simp: Let_def mem_simps split: option.splits)
next
  case (Cons k ls)
  let ?q = "base + level_index D k addr * 8"
  let ?x = "load64 m ?q"
  have k: "k \<noteq> l" using Cons.prems(2) by auto
  with Cons.prems(1) obtain b where b: "f k ?x = Some b" and "(l, slot, e) \<in> set (page_walk f D m (ls @ [l]) b addr)"
    by (cases "f k ?x") (auto simp: Let_def)
  moreover have "apart slot ?q" using Cons.prems(3) k by (simp add: Let_def)
  then have "load64 (store64 m slot v) ?q = ?x" by (simp add: mem_simps)
  ultimately show ?case
    using Cons.IH [of b] Cons.prems(2,3) k by (simp add: Let_def)
qed

lemma walk_levels_PTE: "\<exists>ls. walk_levels D = ls @ [PTE] \<and> PTE \<notin> set ls \<and> distinct (walk_levels D)"
  by (simp add: walk_levels_def)

lemma lib_walk_store:
  assumes "(PTE, slot, e) \<in> set (lib_walk A D m root addr)"
    and "\<forall>(k, q, x) \<in> set (lib_walk A D m root addr). k \<noteq> PTE \<longrightarrow> apart slot q"
  shows "lib_walk A D (store64 m slot v) root addr =
    map (\<lambda>(k, q, x). (k, q, if k = PTE then v else x)) (lib_walk A D m root addr)"
proof -
  obtain ls where "walk_levels D = ls @ [PTE]" "PTE \<notin> set ls" using walk_levels_PTE by metis
  then show ?thesis
    using page_walk_store [of PTE slot e "lib_next A" D m ls root addr v] assms by (simp add: lib_walk_def)
qed

lemma distinct_lib_walk: "distinct (map fst (lib_walk A D m root addr))"
  unfolding lib_walk_def by (rule page_walk_distinct) (simp add: walk_levels_def)

lemma lib_walk_PTE_present:
  assumes "(PTE, slot, e) \<in> set (lib_walk A D m root addr)"
  shows "cast_present A (snd (snd (hd (lib_walk A D m root addr)))) = PTEDIT_PAGE_PRESENT A"
proof -
  let ?q = "root + level_index D PGD addr * 8"
  have W: "lib_walk A D m root addr = (PGD, ?q, load64 m ?q) # below A D m PGD (tl (walk_levels D)) addr (load64 m ?q)"
    by (simp add: lib_walk_def walk_levels_def Let_def below_def)
  show ?thesis
  proof (rule ccontr)
    assume "\<not> ?thesis"
    then have "lib_walk A D m root addr = [(PGD, ?q, load64 m ?q)]" by (simp add: W below_absent)
    with assms show False by simp
  qed
qed

lemma view_matches:
  assumes "matches A D addr V e" and "distinct (map fst V)"
  shows "view e = map_of (map (\<lambda>(l, slot, e). (l, e)) V)"
proof
  fix l
  have dist: "distinct (map fst (map (\<lambda>(l, slot, e). (l, e)) V))"
    using assms(2) by (simp add: comp_def case_prod_beta)
  show "view e l = map_of (map (\<lambda>(l, slot, e). (l, e)) V) l"
  proof (cases "l \<in> fst ` set V")
    case True
    then obtain q x where x: "(l, q, x) \<in> set V" by force
    then have "(l, x) \<in> set (map (\<lambda>(l, slot, e). (l, e)) V)" by force
    with dist have "map_of (map (\<lambda>(l, slot, e). (l, e)) V) l = Some x" by simp
    with x True assms(1) show ?thesis by (auto simp: view_def matches_def)
  next
    case False
    then have "map_of (map (\<lambda>(l, slot, e). (l, e)) V) l = None" by (force simp: map_of_eq_None_iff)
    with False assms(1) show ?thesis by (simp add: view_def matches_def)
  qed
qed

lemma map_of_store:
  "l \<in> fst ` set V \<Longrightarrow>
   map_of (map (\<lambda>(l, slot, e). (l, e)) (map (\<lambda>(k, q, x). (k, q, if k = l then v else x)) V)) =
   (map_of (map (\<lambda>(l, slot, e). (l, e)) V))(l \<mapsto> v)"
proof (induction V)
  case (Cons y V)
  obtain k q x where y: "y = (k, q, x)" by (metis prod_cases3)
  show ?case
  proof (cases "l \<in> fst ` set V")
    case True
    with Cons.IH y show ?thesis by (auto simp: fun_upd_twist)
  next
    case False
    then have "map (\<lambda>(k, q, x). (k, q, if k = l then v else x)) V = V"
      by (intro map_idI) force
    moreover have "k = l" using False Cons.prems y by simp
    ultimately show ?thesis using y by (simp add: fun_eq_iff)
  qed
qed simp

lemma write_back_other:
  "\<forall>x \<in> set V. \<not> has_valid (valid vm) (fst x) \<Longrightarrow> write_back vm V m = m"
  by (induction V arbitrary: m) (auto simp: write_back_def)

lemma write_back_pte:
  assumes "valid vm = valid_mask PTE" and "(PTE, slot, e) \<in> set W" and "distinct (map fst W)"
  shows "write_back vm (by_level W [PTE, PMD, PUD, P4D, PGD]) m = store64 m slot (pte vm)"
proof -
  let ?V = "by_level W [PMD, PUD, P4D, PGD]"
  have "by_level W [PTE, PMD, PUD, P4D, PGD] = (PTE, slot, e) # ?V"
    using at_level_one [OF assms(2,3)] by (simp add: by_level_def)
  then have "write_back vm (by_level W [PTE, PMD, PUD, P4D, PGD]) m = write_back vm ?V (store64 m slot (pte vm))"
    using assms(1) by (simp add: write_back_def)
  moreover have "\<forall>x \<in> set ?V. \<not> has_valid (valid vm) (fst x)"
    using assms(1) by (auto simp: by_level_def at_level_def)
  ultimately show ?thesis by (simp add: write_back_other)
qed

lemma user_walk_frame:
  assumes "same_lib s t"
  shows "fst (user_root OS p t) = fst (user_root OS p s)"
    "user_walk OS a p (t\<lparr>phys := phys s\<rparr>) = user_walk OS a p s"
    "phys t = phys s \<Longrightarrow> user_walk OS a p t = user_walk OS a p s"
proof -
  show root: "fst (user_root OS p t) = fst (user_root OS p s)" by (rule user_root_stable [OF assms])
  show "phys t = phys s \<Longrightarrow> user_walk OS a p t = user_walk OS a p s"
    using assms by (simp add: user_walk_def root same_lib_fields)
  have "same_lib s (t\<lparr>phys := phys s\<rparr>)" using same_lib_trans [OF assms] by simp
  then show "user_walk OS a p (t\<lparr>phys := phys s\<rparr>) = user_walk OS a p s"
    using user_root_stable [of s "t\<lparr>phys := phys s\<rparr>" OS p] same_lib_fields(10) [of s "t\<lparr>phys := phys s\<rparr>"]
    by (simp add: user_walk_def)
qed

definition set_pte_entry :: "u64 \<Rightarrow> level \<times> u64 \<times> u64 \<Rightarrow> level \<times> u64 \<times> u64" where
  "set_pte_entry v = (\<lambda>(k, q, x). (k, q, if k = PTE then v else x))"

lemma set_pte_entry_granted: "granted P W s \<Longrightarrow> granted P (map (set_pte_entry v) W) s"
  by (auto simp: granted_def set_pte_entry_def)

lemma set_pte_entry_pte: "(PTE, slot, x) \<in> set W \<Longrightarrow> (PTE, slot, v) \<in> set (map (set_pte_entry v) W)"
  by (force simp: set_pte_entry_def)

lemma set_pte_entry_apart:
  "\<forall>(l, q, x) \<in> set W. l \<noteq> PTE \<longrightarrow> apart slot q \<Longrightarrow> \<forall>(l, q, x) \<in> set (map (set_pte_entry v) W). l \<noteq> PTE \<longrightarrow> apart slot q"
  by (auto simp: set_pte_entry_def)

lemma user_entries_pte:
  assumes "user_ok access OS a p s"
  shows "user_entries OS a p s PTE \<noteq> None"
proof -
  obtain slot e where "(PTE, slot, e) \<in> set (user_walk OS a p s)" using assms by (auto simp: user_ok_def)
  then have "PTE \<in> fst ` set (map (\<lambda>(l, slot, e). (l, e)) (user_walk OS a p s))" by force
  then show ?thesis unfolding user_entries_def by (simp only: map_of_eq_None_iff) simp
qed

context phys_access
begin

lemma user_ok_frame:
  assumes "user_ok acc OS a p s" and "same_lib s t" and "phys t = phys s"
  shows "user_ok acc OS a p t \<and> user_entries OS a p t = user_entries OS a p s"
proof -
  have "user_walk OS a p t = user_walk OS a p s" "fst (user_root OS p t) = fst (user_root OS p s)"
    using user_walk_frame [OF assms(2)] assms(3) by blast+
  moreover have "granted (acc OS) (user_walk OS a p s) t"
    using assms(1) acc_same [OF _ assms(2)] by (auto simp: user_ok_def granted_def)
  ultimately show ?thesis
    using assms by (simp add: user_ok_def user_entries_def lib_const_def same_lib_fields)
qed

lemma user_resolve_entries:
  assumes "user_ok acc OS a p s"
  shows "\<exists>e t. ptedit_resolve_user_ext OS a p (deref OS) s = Some (e, t) \<and> view e = user_entries OS a p s
    \<and> same_lib s t \<and> phys t = phys s"
proof -
  obtain root t where root: "user_root OS p s = (root, t)" by fastforce
  let ?A = "cfg_arch (os_kernel OS)" and ?D = "ptedit_paging_definition s"
  have W: "user_walk OS a p s = lib_walk ?A ?D (phys s) root a" by (simp add: user_walk_def root)
  obtain slot x where pte: "(PTE, slot, x) \<in> set (user_walk OS a p s)" using assms by (auto simp: user_ok_def)
  have ok: "lib_const s" "wf_definition ?D" "root \<noteq> 0" "granted (acc OS) (user_walk OS a p s) s"
    using assms root by (simp_all add: user_ok_def)
  obtain e where e: "ptedit_resolve_user_ext OS a p (deref OS) s = Some (e, t)" "matches ?A ?D a (user_walk OS a p s) e"
    using resolve_user_ext_walk [OF ok(1,2) root ok(3) W ok(4) lib_walk_PTE_present [OF pte [unfolded W], folded W]] by blast
  from view_matches [OF e(2)] have "view e = user_entries OS a p s"
    by (simp add: user_entries_def W distinct_lib_walk)
  with e(1) user_root_same [OF root] show ?thesis by blast
qed

lemma user_update_entries:
  assumes "user_ok acc OS a p s" and "valid vm = valid_mask PTE"
    and ptr: "ptedit_resolve OS a p s = ptedit_resolve_user_ext OS a p (deref OS) s"
  shows "\<exists>u. ptedit_update_user_ext OS a p vm (pset OS) s = Some u \<and> same_lib s u \<and> user_ok acc OS a p u
    \<and> user_entries OS a p u = (user_entries OS a p s)(PTE \<mapsto> pte vm)"
proof -
  obtain root t where root: "user_root OS p s = (root, t)" by fastforce
  let ?A = "cfg_arch (os_kernel OS)" and ?D = "ptedit_paging_definition s"
  let ?W = "user_walk OS a p s"
  let ?set = "set_pte_entry (pte vm)"
  have W: "?W = lib_walk ?A ?D (phys s) root a" by (simp add: user_walk_def root)
  obtain slot x where pte: "(PTE, slot, x) \<in> set ?W" and apart: "\<forall>(l, q, x) \<in> set ?W. l \<noteq> PTE \<longrightarrow> apart slot q"
    using assms(1) unfolding user_ok_def by blast
  have ok: "lib_const s" "wf_definition ?D" "root \<noteq> 0" "granted (acc OS) ?W s"
    using assms(1) root by (simp_all add: user_ok_def)
  obtain u where u: "ptedit_update_user_ext OS a p vm (pset OS) s = Some u" and same: "same_lib s u"
    and "phys u = write_back vm (by_level ?W [PTE, PMD, PUD, P4D, PGD]) (phys s)"
    using update_user_ext_writes [OF ok(1,2) root ok(3) W ok(4) lib_walk_PTE_present [OF pte [unfolded W], folded W] ptr]
    by blast
  then have "phys u = store64 (phys s) slot (pte vm)"
    using write_back_pte [OF assms(2) pte] distinct_lib_walk by (simp add: W)
  then have Wu: "user_walk OS a p u = map ?set ?W"
    using lib_walk_store [OF pte [unfolded W] apart [unfolded W], of "pte vm"] user_walk_frame(1) [OF same, of OS p]
    by (simp add: user_walk_def root same_lib_fields(10) [OF same] set_pte_entry_def)
  have "PTE \<in> fst ` set ?W" using pte by force
  then have "user_entries OS a p u = (user_entries OS a p s)(PTE \<mapsto> pte vm)"
    unfolding user_entries_def Wu set_pte_entry_def by (rule map_of_store)
  moreover have "user_ok acc OS a p u"
    unfolding user_ok_def Wu
  proof (intro conjI)
    show "lib_const u" "wf_definition (ptedit_paging_definition u)" "fst (user_root OS p u) \<noteq> 0"
      using ok(1-3) user_walk_frame(1) [OF same, of OS p] root by (simp_all add: lib_const_def same_lib_fields [OF same])
    have "granted (acc OS) ?W u" using ok(4) acc_same [OF _ same] unfolding granted_def by blast
    then show "granted (acc OS) (map ?set ?W) u" by (rule set_pte_entry_granted)
    show "\<exists>slot e. (PTE, slot, e) \<in> set (map ?set ?W) \<and> (\<forall>(l, q, x) \<in> set (map ?set ?W). l \<noteq> PTE \<longrightarrow> apart slot q)"
      using set_pte_entry_pte [OF pte] set_pte_entry_apart [OF apart] by blast
  qed
  ultimately show ?thesis using u same by blast
qed

end

interpretation pread_impl: pte_resolver "ptedit_resolve_user OS" "ptedit_update_user OS" "pread_ok OS" "user_entries OS" for OS
proof
  fix a p s
  assume ok: "pread_ok OS a p s"
  then have u: "user_ok pread_acc OS a p s" and ptr: "ptedit_resolve_ptr s = Resolve_user" by (simp_all add: pread_ok_def)
  show "\<exists>e t. ptedit_resolve_user OS a p s = Some (e, t) \<and> view e = user_entries OS a p s \<and> same_lib s t \<and> phys t = phys s"
    unfolding ptedit_resolve_user_def by (rule pread_phys.user_resolve_entries [OF u])
  show "user_entries OS a p s PTE \<noteq> None"
    by (rule user_entries_pte [OF u])
  show "pread_ok OS a p t \<and> user_entries OS a p t = user_entries OS a p s" if "same_lib s t" "phys t = phys s" for t
    using pread_phys.user_ok_frame [OF u that] ptr that(1) by (simp add: pread_ok_def same_lib_fields)
  show "\<exists>vm' t. ptedit_update_user OS a p vm s = Some (vm', t) \<and> same_lib s t \<and> pread_ok OS a p t
      \<and> user_entries OS a p t = (user_entries OS a p s)(PTE \<mapsto> pte vm)" if vm: "valid vm = valid_mask PTE" for vm
  proof -
    have "ptedit_resolve OS a p s = ptedit_resolve_user_ext OS a p (ptedit_phys_read_pread OS) s"
      using ptr by (simp add: ptedit_resolve_def ptedit_resolve_user_def)
    from pread_phys.user_update_entries [OF u vm this] obtain t where
      t: "ptedit_update_user_ext OS a p vm (ptedit_phys_write_pwrite OS) s = Some t" "same_lib s t"
        "user_ok pread_acc OS a p t" "user_entries OS a p t = (user_entries OS a p s)(PTE \<mapsto> pte vm)" by blast
    let ?u = "ptedit_invalidate_tlb_pid OS p a t"
    have "same_lib s ?u" using same_lib_trans [OF t(2) invalidate_tlb_pid_same] .
    with t pread_phys.user_ok_frame [OF t(3) invalidate_tlb_pid_same] ptr show ?thesis
      by (simp add: ptedit_update_user_def pread_ok_def same_lib_fields)
  qed
qed

interpretation map_impl: pte_resolver "ptedit_resolve_user_map OS" "ptedit_update_user_map OS" "map_ok OS" "user_entries OS" for OS
proof
  fix a p s
  assume ok: "map_ok OS a p s"
  then have u: "user_ok map_acc OS a p s" and ptr: "ptedit_resolve_ptr s = Resolve_user_map" by (simp_all add: map_ok_def)
  show "\<exists>e t. ptedit_resolve_user_map OS a p s = Some (e, t) \<and> view e = user_entries OS a p s \<and> same_lib s t \<and> phys t = phys s"
    unfolding ptedit_resolve_user_map_def by (rule map_phys.user_resolve_entries [OF u])
  show "user_entries OS a p s PTE \<noteq> None"
    by (rule user_entries_pte [OF u])
  show "map_ok OS a p t \<and> user_entries OS a p t = user_entries OS a p s" if "same_lib s t" "phys t = phys s" for t
    using map_phys.user_ok_frame [OF u that] ptr that(1) by (simp add: map_ok_def same_lib_fields)
  show "\<exists>vm' t. ptedit_update_user_map OS a p vm s = Some (vm', t) \<and> same_lib s t \<and> map_ok OS a p t
      \<and> user_entries OS a p t = (user_entries OS a p s)(PTE \<mapsto> pte vm)" if vm: "valid vm = valid_mask PTE" for vm
  proof -
    have "ptedit_resolve OS a p s = ptedit_resolve_user_ext OS a p (ptedit_phys_read_map OS) s"
      using ptr by (simp add: ptedit_resolve_def ptedit_resolve_user_map_def)
    from map_phys.user_update_entries [OF u vm this] obtain t where
      t: "ptedit_update_user_ext OS a p vm (ptedit_phys_write_map OS) s = Some t" "same_lib s t"
        "user_ok map_acc OS a p t" "user_entries OS a p t = (user_entries OS a p s)(PTE \<mapsto> pte vm)" by blast
    let ?u = "ptedit_invalidate_tlb_pid OS p a t"
    have "same_lib s ?u" using same_lib_trans [OF t(2) invalidate_tlb_pid_same] .
    with t map_phys.user_ok_frame [OF t(3) invalidate_tlb_pid_same] ptr show ?thesis
      by (simp add: ptedit_update_user_map_def map_ok_def same_lib_fields)
  qed
qed

section \<open>The kernel implementation\<close>

text \<open>
  What the implementation relies on of Linux: \<open>set_pte\<close> stores the entry, and the accessor of a lower
  table depends on memory only through the entry it is given.
\<close>

definition kernel_laws :: "linux \<Rightarrow> bool" where
  "kernel_laws K \<longleftrightarrow>
     (\<forall>m q v. set_pte K m q v = store64 m (virt_to_phys K q) v) \<and>
     (\<forall>m m' q a. kread K m' q = kread K m q \<longrightarrow>
        p4d_offset K m' q a = p4d_offset K m q a \<and> pud_offset K m' q a = pud_offset K m q a \<and>
        pmd_offset K m' q a = pmd_offset K m q a \<and> pte_offset K m' q a = pte_offset K m q a)"

definition agree :: "linux \<Rightarrow> mem \<Rightarrow> mem \<Rightarrow> vm_t \<Rightarrow> bool" where
  "agree K m m' e \<longleftrightarrow> (\<forall>l q. l \<noteq> PTE \<longrightarrow> vm_ptr l e = Some q \<longrightarrow> kread K m' q = kread K m q)"

lemma resolve_vm_pud_agree:
  assumes "kernel_laws K" and res: "resolve_vm_pud K m addr up e = (0, e')" and "agree K m m' e'"
    and parent: "kread K m' up = kread K m up"
  shows "resolve_vm_pud K m' addr up e = (0, e')"
proof -
  let ?q = "pud_offset K m up addr"
  let ?q' = "pmd_offset K m ?q addr"
  from res have path: "\<not> pud_none K (kread K m ?q)" "\<not> pmd_none K (kread K m ?q')" "\<not> pud_leaf K (kread K m ?q)"
    "pte_offset K m ?q' addr \<noteq> None" "\<not> pmd_leaf K (kread K m ?q')" "vm_pud e' = Some ?q" "vm_pmd e' = Some ?q'"
    by (simp_all add: resolve_vm_pud_def Let_def split: if_splits option.splits) auto
  then have "vm_ptr PUD e' = Some ?q" "vm_ptr PMD e' = Some ?q'" by simp_all
  with assms(3) have "kread K m' ?q = kread K m ?q" "kread K m' ?q' = kread K m ?q'"
    unfolding agree_def by blast+
  moreover from this assms(1) parent have "pud_offset K m' up addr = ?q" "pmd_offset K m' ?q addr = ?q'"
    "pte_offset K m' ?q' addr = pte_offset K m ?q' addr"
    unfolding kernel_laws_def by metis+
  ultimately have "resolve_vm_pud K m' addr up e = resolve_vm_pud K m addr up e"
    by (simp add: resolve_vm_pud_def Let_def cong: option.case_cong)
  with res show ?thesis by simp
qed

lemma resolve_vm_walk_agree:
  assumes laws: "kernel_laws K" and res: "resolve_vm_walk K m base addr e = (0, e')" and ag: "agree K m m' e'"
  shows "resolve_vm_walk K m' base addr e = (0, e')"
proof -
  let ?q = "pgd_offset K base addr"
  let ?q4 = "p4d_offset K m ?q addr"
  let ?e1 = "e\<lparr>vm_pgd := Some ?q, vm_valid := vm_valid e OR valid_mask PGD\<rparr>"
  let ?e2 = "?e1\<lparr>vm_p4d := Some ?q4, vm_valid := vm_valid ?e1 OR valid_mask P4D\<rparr>"
  have walk: "resolve_vm_walk K x base addr e =
     (if pgd_none K (kread K x ?q) \<or> pgd_bad K (kread K x ?q) then (1, e)
      else if cfg_4_11 K then
        (let q4 = p4d_offset K x ?q addr in
         if p4d_none K (kread K x q4) \<or> p4d_bad K (kread K x q4) then (1, ?e1)
         else resolve_vm_pud K x addr q4 (?e1\<lparr>vm_p4d := Some q4, vm_valid := vm_valid ?e1 OR valid_mask P4D\<rparr>))
      else resolve_vm_pud K x addr ?q ?e1)" for x
    by (simp add: resolve_vm_walk_def Let_def)
  have keeps: "vm_pgd f' = vm_pgd f" "vm_p4d f' = vm_p4d f" if "resolve_vm_pud K m addr up f = (0, f')" for up f f'
    using resolve_vm_pud_cases [OF that] by auto
  show ?thesis
  proof (cases "cfg_4_11 K")
    case True
    with res walk [of m] have path: "\<not> (pgd_none K (kread K m ?q) \<or> pgd_bad K (kread K m ?q))"
      "\<not> (p4d_none K (kread K m ?q4) \<or> p4d_bad K (kread K m ?q4))" and pud: "resolve_vm_pud K m addr ?q4 ?e2 = (0, e')"
      by (simp_all add: Let_def split: if_splits)
    from keeps [OF pud] have "vm_ptr PGD e' = Some ?q" "vm_ptr P4D e' = Some ?q4" by simp_all
    with ag have same: "kread K m' ?q = kread K m ?q" "kread K m' ?q4 = kread K m ?q4" unfolding agree_def by blast+
    then have "p4d_offset K m' ?q addr = ?q4" using laws unfolding kernel_laws_def by metis
    with True path same resolve_vm_pud_agree [OF laws pud ag same(2)] show ?thesis
      by (simp add: walk [of m'] Let_def)
  next
    case False
    with res walk [of m] have path: "\<not> (pgd_none K (kread K m ?q) \<or> pgd_bad K (kread K m ?q))"
      and pud: "resolve_vm_pud K m addr ?q ?e1 = (0, e')"
      by (simp_all split: if_splits)
    from keeps [OF pud] have "vm_ptr PGD e' = Some ?q" by simp
    with ag have same: "kread K m' ?q = kread K m ?q" unfolding agree_def by blast
    with False path resolve_vm_pud_agree [OF laws pud ag same] show ?thesis by (simp add: walk [of m'])
  qed
qed

definition kernel_vm :: "os \<Rightarrow> u64 \<Rightarrow> i32 \<Rightarrow> sys \<Rightarrow> int \<times> vm_t" where
  "kernel_vm OS a p s =
     (let K = os_kernel OS in
      resolve_vm_walk K (phys s) (mm_pgd s (the (get_mm K (size_of_int p)))) a (fresh_vm (size_of_int p)))"

definition kernel_entries :: "os \<Rightarrow> u64 \<Rightarrow> i32 \<Rightarrow> sys \<Rightarrow> level \<Rightarrow> u64 option" where
  "kernel_entries OS a p s l = map_option (kread (os_kernel OS) (phys s)) (vm_ptr l (snd (kernel_vm OS a p s)))"

text \<open>
  The device is open, the process exists, and the kernel's walk reaches a PTE whose slot does not
  overlap the tables above it.
\<close>

definition kernel_ok :: "os \<Rightarrow> u64 \<Rightarrow> i32 \<Rightarrow> sys \<Rightarrow> bool" where
  "kernel_ok OS a p s \<longleftrightarrow>
     fd_file (ptedit_fd s) s = Some F_device \<and> kernel_laws (os_kernel OS)
     \<and> get_mm (os_kernel OS) (size_of_int p) \<noteq> None \<and> fst (kernel_vm OS a p s) = 0
     \<and> (\<forall>l q. l \<noteq> PTE \<longrightarrow> vm_ptr l (snd (kernel_vm OS a p s)) = Some q \<longrightarrow>
          apart (virt_to_phys (os_kernel OS) (the (vm_pte (snd (kernel_vm OS a p s))))) (virt_to_phys (os_kernel OS) q))"

lemma kernel_vm_shape:
  "vm_shape (os_kernel OS) (phys s) (mm_pgd s (the (get_mm (os_kernel OS) (size_of_int p)))) a
     (fst (kernel_vm OS a p s)) (snd (kernel_vm OS a p s)) \<and> vm_pid (snd (kernel_vm OS a p s)) = size_of_int p"
  unfolding kernel_vm_def Let_def by (rule resolve_vm_walk_shape) simp

lemma kernel_vm_frame:
  "same_lib s t \<Longrightarrow> phys t = phys s \<Longrightarrow> kernel_vm OS a p t = kernel_vm OS a p s"
  by (simp add: kernel_vm_def Let_def same_lib_fields)

lemma kernel_pte:
  assumes "fst (kernel_vm OS a p s) = 0"
  obtains q where "vm_pte (snd (kernel_vm OS a p s)) = Some q" "has_valid (vm_valid (snd (kernel_vm OS a p s))) PTE"
proof -
  have valid: "has_valid (vm_valid (snd (kernel_vm OS a p s))) PTE"
    using kernel_vm_shape [of OS s p a] assms by (simp add: vm_shape_def split: if_splits)
  then have "vm_ptr PTE (snd (kernel_vm OS a p s)) \<noteq> None"
    using kernel_vm_shape [of OS s p a] unfolding vm_shape_def by metis
  with valid show thesis using that by auto
qed

lemma kernel_resolve:
  assumes "fd_file (ptedit_fd s) s = Some F_device" and "get_mm (os_kernel OS) (size_of_int p) = Some mm"
  shows "\<exists>e t. ptedit_resolve_kernel OS a p s = Some (e, t) \<and> view e = kernel_entries OS a p s
    \<and> vaddr e = a \<and> pid e = size_of_int p \<and> same_lib s t \<and> phys t = phys s"
proof -
  let ?K = "os_kernel OS"
  let ?u = "zero_entry\<lparr>vaddr := a, pid := size_of_int p\<rparr>"
  let ?base = "mm_pgd s (the (get_mm ?K (size_of_int p)))"
  obtain r e' t where res: "resolve_vm ?K a (size_of_int p) (\<not> mm_is_locked s) s = (r, e', t)"
    by (metis prod_cases3)
  have e': "kernel_vm OS a p s = (r, e')" and t: "same_lib s t" "phys t = phys s"
    using res assms(2)
    by (auto simp: resolve_vm_def kernel_vm_def Let_def same_lib_def emit_def split: prod.splits if_splits)
  define e where "e = vm_to_user ?K (phys s) ?u e'"
  have shape: "vm_shape ?K (phys s) ?base a r e'" using kernel_vm_shape [of OS s p a] e' by simp
  note fields = vm_to_user_fields [OF shape shape_p4d [OF shape], where u = ?u, folded e_def]
  have "view e l = kernel_entries OS a p s l" for l
  proof -
    have "vm_ptr l e' = (if has_valid (vm_valid e') l then kernel_slot ?K (phys s) ?base a l else None)"
      "has_valid (vm_valid e') l \<longrightarrow> kernel_slot ?K (phys s) ?base a l \<noteq> None"
      using shape unfolding vm_shape_def by blast+
    then show ?thesis by (auto simp: view_def kernel_entries_def e' fields)
  qed
  then have "view e = kernel_entries OS a p s" by blast
  moreover have "ptedit_resolve_kernel OS a p s = Some (e, t)"
    using assms(1) res t(2) by (simp add: ptedit_resolve_kernel_def ioctl_def ioctl_vm_resolve_def e_def)
  ultimately show ?thesis using t fields by simp
qed

lemma kernel_update:
  assumes "fd_file (ptedit_fd s) s = Some F_device" and "get_mm (os_kernel OS) (size_of_int p) = Some mm"
    and "fst (kernel_vm OS a p s) = 0" and "vm_pte (snd (kernel_vm OS a p s)) = Some q"
    and "valid vm = valid_mask PTE"
  shows "\<exists>vm' u. ptedit_update_kernel OS a p vm s = Some (vm', u) \<and> same_lib s u
    \<and> phys u = set_pte (os_kernel OS) (phys s) q (pte vm)"
proof -
  let ?K = "os_kernel OS"
  let ?vm = "vm\<lparr>vaddr := a, pid := size_of_int p\<rparr>"
  define t where "t = (if \<not> mm_is_locked s then emit (Write_lock mm) s else s)"
  have t: "same_lib s t" "phys t = phys s" by (simp_all add: t_def)
  let ?old = "snd (kernel_vm OS a p s)"
  have old: "resolve_vm ?K a (size_of_int p) False t = (0, ?old, t)"
    using assms(2,3) kernel_vm_frame [OF t, of OS a p]
    by (auto simp: resolve_vm_def kernel_vm_def Let_def split: prod.split)
  obtain q' where "has_valid (vm_valid ?old) PTE" by (rule kernel_pte [OF assms(3)])
  then have upd: "update_entries ?K ?vm ?old t = (emit (Pr_warn ''Updating PTE'') t)\<lparr>phys := set_pte ?K (phys t) q (pte vm)\<rparr>"
    using assms(4,5) by (simp add: update_entries_def update_level_def Let_def)
  define u where "u = PT_Linux.invalidate_tlb ?K (ucast (vm_pid ?old)) a (update_entries ?K ?vm ?old t)"
  have inval: "same_lib x (PT_Linux.invalidate_tlb ?K w b x)" "phys (PT_Linux.invalidate_tlb ?K w b x) = phys x" for x w b
    by (auto simp: PT_Linux.invalidate_tlb_def invalidate_tlb_kernel_def invalidate_tlb_custom_def
        split: tlb_fn.split arch.split option.split)
  have "same_lib t (update_entries ?K ?vm ?old t)" by (simp add: upd same_lib_def emit_def)
  then have u: "same_lib s u" "phys u = set_pte ?K (phys s) q (pte vm)"
    using same_lib_trans [OF same_lib_trans [OF t(1)] inval(1)] by (simp_all add: u_def inval upd t(2))
  let ?w = "if \<not> mm_is_locked s then emit (Write_unlock mm) u else u"
  have "ptedit_update_kernel OS a p vm s = Some (?vm, ?w)"
    using assms(1,2) old by (auto simp: ptedit_update_kernel_def ioctl_def ioctl_vm_update_def update_vm_def
        Let_def t_def u_def)
  moreover have "same_lib s ?w" "phys ?w = phys u" using same_lib_trans [OF u(1)] by auto
  ultimately show ?thesis using u(2) by auto
qed

interpretation kernel_impl: pte_resolver "ptedit_resolve_kernel OS" "ptedit_update_kernel OS" "kernel_ok OS" "kernel_entries OS" for OS
proof
  fix a p s
  assume ok: "kernel_ok OS a p s"
  let ?K = "os_kernel OS"
  obtain mm where mm: "get_mm ?K (size_of_int p) = Some mm" using ok by (auto simp: kernel_ok_def)
  have fd: "fd_file (ptedit_fd s) s = Some F_device" and r0: "fst (kernel_vm OS a p s) = 0" and laws: "kernel_laws ?K"
    using ok by (simp_all add: kernel_ok_def)
  obtain q where q: "vm_pte (snd (kernel_vm OS a p s)) = Some q" by (rule kernel_pte [OF r0])
  show "\<exists>e t. ptedit_resolve_kernel OS a p s = Some (e, t) \<and> view e = kernel_entries OS a p s \<and> same_lib s t \<and> phys t = phys s"
    using kernel_resolve [OF fd mm, of a] by blast
  show "kernel_entries OS a p s PTE \<noteq> None" using q by (simp add: kernel_entries_def)
  show "kernel_ok OS a p t \<and> kernel_entries OS a p t = kernel_entries OS a p s" if "same_lib s t" "phys t = phys s" for t
  proof
    show "kernel_ok OS a p t"
      using ok kernel_vm_frame [OF that, of OS a p] that by (simp add: kernel_ok_def fd_file_def same_lib_fields)
    show "kernel_entries OS a p t = kernel_entries OS a p s"
      by (rule ext) (simp add: kernel_entries_def kernel_vm_frame [OF that] that(2))
  qed
  show "\<exists>vm' u. ptedit_update_kernel OS a p vm s = Some (vm', u) \<and> same_lib s u \<and> kernel_ok OS a p u
      \<and> kernel_entries OS a p u = (kernel_entries OS a p s)(PTE \<mapsto> pte vm)" if vm: "valid vm = valid_mask PTE" for vm
  proof -
    obtain vm' u where u: "ptedit_update_kernel OS a p vm s = Some (vm', u)" "same_lib s u"
      "phys u = set_pte ?K (phys s) q (pte vm)"
      using kernel_update [OF fd mm r0 q vm] by blast
    have phys: "phys u = store64 (phys s) (virt_to_phys ?K q) (pte vm)"
      using laws u(3) by (simp add: kernel_laws_def)
    have ag: "agree ?K (phys s) (phys u) (snd (kernel_vm OS a p s))"
      using ok q unfolding agree_def kernel_ok_def phys kread_def by (auto simp: mem_simps)
    have vm_u: "kernel_vm OS a p u = kernel_vm OS a p s"
      using resolve_vm_walk_agree [OF laws _ ag] r0 same_lib_fields(13) [OF u(2)]
      by (metis kernel_vm_def prod.collapse)
    have "kernel_entries OS a p u l = ((kernel_entries OS a p s)(PTE \<mapsto> pte vm)) l" for l
    proof (cases "l = PTE")
      case True
      then show ?thesis using q by (simp add: kernel_entries_def vm_u kread_def phys mem_simps)
    next
      case False
      with ag show ?thesis
        by (auto simp: kernel_entries_def vm_u agree_def map_option_case split: option.split)
    qed
    moreover have "kernel_ok OS a p u" using ok u(2) by (simp add: kernel_ok_def vm_u fd_file_def same_lib_fields)
    ultimately show ?thesis using u(1,2) by blast
  qed
qed

section \<open>The calls through the function pointers\<close>

definition api_ok :: "os \<Rightarrow> u64 \<Rightarrow> i32 \<Rightarrow> sys \<Rightarrow> bool" where
  "api_ok OS a p s =
     (case (ptedit_resolve_ptr s, ptedit_update_ptr s) of
        (Resolve_kernel, Update_kernel) \<Rightarrow> kernel_ok OS a p s
      | (Resolve_user, Update_user) \<Rightarrow> pread_ok OS a p s
      | (Resolve_user_map, Update_user_map) \<Rightarrow> map_ok OS a p s
      | _ \<Rightarrow> False)"

definition api_entries :: "os \<Rightarrow> u64 \<Rightarrow> i32 \<Rightarrow> sys \<Rightarrow> level \<Rightarrow> u64 option" where
  "api_entries OS a p s =
     (if ptedit_resolve_ptr s = Resolve_kernel then kernel_entries OS a p s else user_entries OS a p s)"

lemma api_ok_cases:
  assumes "api_ok OS a p s"
  obtains "ptedit_resolve_ptr s = Resolve_kernel" "ptedit_update_ptr s = Update_kernel" "kernel_ok OS a p s"
  | "ptedit_resolve_ptr s = Resolve_user" "ptedit_update_ptr s = Update_user" "pread_ok OS a p s"
  | "ptedit_resolve_ptr s = Resolve_user_map" "ptedit_update_ptr s = Update_user_map" "map_ok OS a p s"
  using assms unfolding api_ok_def
  by (cases "ptedit_resolve_ptr s"; cases "ptedit_update_ptr s") simp_all

interpretation api: pte_resolver "ptedit_resolve OS" "ptedit_update OS" "api_ok OS" "api_entries OS" for OS
proof
  fix a p s
  assume ok: "api_ok OS a p s"
  show "\<exists>e t. ptedit_resolve OS a p s = Some (e, t) \<and> view e = api_entries OS a p s \<and> same_lib s t \<and> phys t = phys s"
    using ok kernel_impl.resolve_entries pread_impl.resolve_entries map_impl.resolve_entries
    by (cases rule: api_ok_cases) (simp_all add: ptedit_resolve_def api_entries_def)
  show "api_entries OS a p s PTE \<noteq> None"
    using ok kernel_impl.pte_mapped pread_impl.pte_mapped map_impl.pte_mapped
    by (cases rule: api_ok_cases) (simp_all add: api_entries_def)
  show "api_ok OS a p t \<and> api_entries OS a p t = api_entries OS a p s" if "same_lib s t" "phys t = phys s" for t
    using ok kernel_impl.ok_frame [OF _ that] pread_impl.ok_frame [OF _ that] map_impl.ok_frame [OF _ that] that(1)
    by (cases rule: api_ok_cases) (simp_all add: api_entries_def api_ok_def same_lib_fields)
  show "\<exists>vm' u. ptedit_update OS a p vm s = Some (vm', u) \<and> same_lib s u \<and> api_ok OS a p u
      \<and> api_entries OS a p u = (api_entries OS a p s)(PTE \<mapsto> pte vm)" if vm: "valid vm = valid_mask PTE" for vm
    using ok
  proof (cases rule: api_ok_cases)
    case 1
    with kernel_impl.update_entries [OF 1(3) vm] show ?thesis
      by (fastforce simp: ptedit_update_def api_ok_def api_entries_def same_lib_fields)
  next
    case 2
    with pread_impl.update_entries [OF 2(3) vm] show ?thesis
      by (fastforce simp: ptedit_update_def api_ok_def api_entries_def same_lib_fields)
  next
    case 3
    with map_impl.update_entries [OF 3(3) vm] show ?thesis
      by (fastforce simp: ptedit_update_def api_ok_def api_entries_def same_lib_fields)
  qed
qed

lemma pte_ops_edit:
  "ptedit_pte_set_bit OS a p nr s =
     edit_pte (ptedit_resolve OS) (ptedit_update OS) (\<lambda>w. map_option (\<lambda>b. w OR b) (c_shl_ull 1 nr)) a p s"
  "ptedit_pte_clear_bit OS a p nr s =
     edit_pte (ptedit_resolve OS) (ptedit_update OS) (\<lambda>w. map_option (\<lambda>b. w AND NOT b) (c_shl_ull 1 nr)) a p s"
  "ptedit_pte_set_pfn OS a p pfn s =
     edit_pte (ptedit_resolve OS) (ptedit_update OS) (\<lambda>w. Some (ptedit_set_pfn (cfg_arch (os_kernel OS)) w pfn)) a p s"
proof -
  show "ptedit_pte_set_bit OS a p nr s =
     edit_pte (ptedit_resolve OS) (ptedit_update OS) (\<lambda>w. map_option (\<lambda>b. w OR b) (c_shl_ull 1 nr)) a p s"
    unfolding ptedit_pte_set_bit_def edit_pte_def bind_map_option comp_def by (rule refl)
  show "ptedit_pte_clear_bit OS a p nr s =
     edit_pte (ptedit_resolve OS) (ptedit_update OS) (\<lambda>w. map_option (\<lambda>b. w AND NOT b) (c_shl_ull 1 nr)) a p s"
    unfolding ptedit_pte_clear_bit_def edit_pte_def bind_map_option comp_def by (rule refl)
  show "ptedit_pte_set_pfn OS a p pfn s =
     edit_pte (ptedit_resolve OS) (ptedit_update OS) (\<lambda>w. Some (ptedit_set_pfn (cfg_arch (os_kernel OS)) w pfn)) a p s"
    unfolding ptedit_pte_set_pfn_def edit_pte_def by (simp only: Option.bind.simps)
qed

lemma get_bit_entries:
  assumes "api_ok OS a p s" and "api_entries OS a p s PTE = Some w" and "0 \<le> nr" and "nr < 64"
  shows "map_option fst (ptedit_pte_get_bit OS a p nr s) = Some (bit w (nat nr))"
proof -
  obtain e t where "ptedit_resolve OS a p s = Some (e, t)" "pte e = w"
    using api.resolve_reads [OF assms(1,2)] by blast
  then show ?thesis using assms(3,4) by (simp add: ptedit_pte_get_bit_def c_shl_ull_1 and_ull_bit)
qed

lemma get_pfn_entries:
  assumes "api_ok OS a p s" and "api_entries OS a p s PTE = Some w"
  shows "map_option fst (ptedit_pte_get_pfn OS a p s) = Some (ptedit_get_pfn (cfg_arch (os_kernel OS)) w)"
proof -
  obtain e t where "ptedit_resolve OS a p s = Some (e, t)" "pte e = w" "has_valid (valid e) PTE"
    using api.resolve_reads [OF assms] by blast
  then show ?thesis by (simp add: ptedit_pte_get_pfn_def)
qed

section \<open>Properties of the operations\<close>

text \<open>
  C3. Whatever implementation is selected: setting a bit of the PTE of a mapped address succeeds, after
  which that bit reads as set, every other bit of the PTE reads as before, and the entries of the upper
  levels are unchanged; clearing a bit likewise.  The address stays mapped.
\<close>

theorem pte_bit_operations:
  assumes "api_ok OS a p s" and "0 \<le> nr" and "nr < 64"
  shows "(\<exists>u. ptedit_pte_set_bit OS a p nr s = Some u \<and> api_ok OS a p u
      \<and> map_option fst (ptedit_pte_get_bit OS a p nr u) = Some True
      \<and> (\<forall>k. 0 \<le> k \<and> k < 64 \<and> k \<noteq> nr \<longrightarrow>
           map_option fst (ptedit_pte_get_bit OS a p k u) = map_option fst (ptedit_pte_get_bit OS a p k s))
      \<and> (\<forall>l. l \<noteq> PTE \<longrightarrow> api_entries OS a p u l = api_entries OS a p s l)) \<and>
    (\<exists>u. ptedit_pte_clear_bit OS a p nr s = Some u \<and> api_ok OS a p u
      \<and> map_option fst (ptedit_pte_get_bit OS a p nr u) = Some False
      \<and> (\<forall>k. 0 \<le> k \<and> k < 64 \<and> k \<noteq> nr \<longrightarrow>
           map_option fst (ptedit_pte_get_bit OS a p k u) = map_option fst (ptedit_pte_get_bit OS a p k s))
      \<and> (\<forall>l. l \<noteq> PTE \<longrightarrow> api_entries OS a p u l = api_entries OS a p s l))"
proof -
  obtain w where w: "api_entries OS a p s PTE = Some w" using api.pte_mapped [OF assms(1)] by blast
  have sh: "c_shl_ull 1 nr = Some (ull_bit (nat nr))" using assms by (simp add: c_shl_ull_1)
  obtain u where u: "ptedit_pte_set_bit OS a p nr s = Some u" "api_ok OS a p u"
    "api_entries OS a p u = (api_entries OS a p s)(PTE \<mapsto> w OR ull_bit (nat nr))"
    by (rule api.edit_pte_entries [OF assms(1) w, of "\<lambda>w. map_option (\<lambda>b. w OR b) (c_shl_ull 1 nr)"])
      (simp_all add: sh pte_ops_edit)
  obtain v where v: "ptedit_pte_clear_bit OS a p nr s = Some v" "api_ok OS a p v"
    "api_entries OS a p v = (api_entries OS a p s)(PTE \<mapsto> w AND NOT (ull_bit (nat nr)))"
    by (rule api.edit_pte_entries [OF assms(1) w, of "\<lambda>w. map_option (\<lambda>b. w AND NOT b) (c_shl_ull 1 nr)"])
      (simp_all add: sh pte_ops_edit)
  have wu: "api_entries OS a p u PTE = Some (w OR ull_bit (nat nr))"
    and wv: "api_entries OS a p v PTE = Some (w AND NOT (ull_bit (nat nr)))"
    by (simp_all add: u v)
  note bits = get_bit_entries [OF assms(1) w] get_bit_entries [OF u(2) wu] get_bit_entries [OF v(2) wv]
  have other: "nat k \<noteq> nat nr" if "0 \<le> k" "k \<noteq> nr" for k using that assms(2) by simp
  have nr: "nat nr < 64" "\<And>k :: int. 0 \<le> k \<Longrightarrow> k < 64 \<Longrightarrow> nat k < 64" using assms(2,3) by simp_all
  show ?thesis
  proof (rule conjI, rule exI [of _ u], goal_cases)
    case 1
    show ?case by (simp add: u bits assms other nr bit_or_iff bit_ull_bit)
  next
    case 2
    show ?case by (rule exI [of _ v]) (simp add: v bits assms other nr bit_and_iff bit_not_iff bit_ull_bit)
  qed
qed

text \<open>The sample machine with each of the three implementations.\<close>

lemma sample_kernel_laws: "kernel_laws sample_linux"
  by (simp add: kernel_laws_def sample_linux_def kread_def table_ptr_def)

lemma sample_kernel_vm:
  "kernel_vm sample_os sample_vaddr 0 sample_sys =
     (0, \<lparr>vm_pid = 0, vm_pgd = Some (0x1000 + direct_map), vm_p4d = Some (0x1000 + direct_map),
          vm_pud = Some (0x2008 + direct_map), vm_pmd = Some (0x3008 + direct_map),
          vm_pte = Some (0x4008 + direct_map), vm_valid = 31\<rparr>)"
  by (simp add: kernel_vm_def sample_sys_simps get_mm_def resolve_vm_walk_def resolve_vm_pud_def
      sample_os_def sample_linux_def Let_def kread_def table_ptr_def sample_vaddr_def sample_roots_def
      direct_map_def sample_loads fresh_vm_def valid_mask_def ull_bit_def size_of_int_def)

lemma sample_kernel_ok: "kernel_ok sample_os sample_vaddr 0 sample_sys"
proof -
  have "\<forall>l q. l \<noteq> PTE \<longrightarrow> vm_ptr l (snd (kernel_vm sample_os sample_vaddr 0 sample_sys)) = Some q \<longrightarrow>
      apart 0x4008 (q - direct_map)"
    by (simp add: sample_kernel_vm all_levels apart_def)
  then show ?thesis
    using sample_kernel_laws
    by (simp add: kernel_ok_def sample_kernel_vm sample_sys_simps fd_file_def get_mm_def size_of_int_def)
      (simp add: sample_os_def sample_linux_def)
qed

lemma sample_user_walk:
  "user_walk sample_os sample_vaddr 0 sample_pread = lib_walk X86_64 x86_definition sample_mem 0x1000 sample_vaddr"
  "user_walk sample_os sample_vaddr 0 sample_map = lib_walk X86_64 x86_definition sample_mem 0x1000 sample_vaddr"
  by (simp_all add: user_walk_def sample_user_root sample_const sample_sys_simps)

lemma sample_user_ok:
  "user_ok pread_acc sample_os sample_vaddr 0 sample_pread" "user_ok map_acc sample_os sample_vaddr 0 sample_map"
  unfolding user_ok_def sample_user_walk sample_user_root
  by (simp_all add: sample_const wf_definitions sample_walk sample_acc apart_def)

lemma sample_api_ok:
  "api_ok sample_os sample_vaddr 0 sample_sys" "api_ok sample_os sample_vaddr 0 sample_pread"
  "api_ok sample_os sample_vaddr 0 sample_map"
  using sample_kernel_ok sample_user_ok
  by (simp_all add: api_ok_def pread_ok_def map_ok_def sample_sys_simps sample_pread_eq sample_map_eq)

theorem pte_bit_operations_witness:
  "(\<exists>u. ptedit_pte_clear_bit sample_os sample_vaddr 0 1 sample_sys = Some u
      \<and> map_option fst (ptedit_pte_get_bit sample_os sample_vaddr 0 1 u) = Some False) \<and>
   (\<exists>u. ptedit_pte_set_bit sample_os sample_vaddr 0 9 sample_pread = Some u
      \<and> map_option fst (ptedit_pte_get_bit sample_os sample_vaddr 0 9 u) = Some True) \<and>
   (\<exists>u. ptedit_pte_set_bit sample_os sample_vaddr 0 9 sample_map = Some u
      \<and> map_option fst (ptedit_pte_get_bit sample_os sample_vaddr 0 9 u) = Some True)"
proof -
  have r: "(0 :: int) \<le> 1" "(1 :: int) < 64" "(0 :: int) \<le> 9" "(9 :: int) < 64" by simp_all
  show ?thesis
    using conjunct2 [OF pte_bit_operations [OF sample_api_ok(1) r(1,2)]]
      conjunct1 [OF pte_bit_operations [OF sample_api_ok(2) r(3,4)]]
      conjunct1 [OF pte_bit_operations [OF sample_api_ok(3) r(3,4)]]
    by blast
qed

text \<open>
  C4. Whatever implementation is selected: replacing the page-frame number of a mapped address succeeds
  and reads back as the new number when it fits; the bits of the PTE outside the frame field and the
  upper levels are unchanged, and replacing it by the old number again restores the PTE.
\<close>

theorem pte_pfn_operations:
  assumes "api_ok OS a p s" and "pfn < 2 ^ pfn_width (cfg_arch (os_kernel OS))"
    and "map_option fst (ptedit_pte_get_pfn OS a p s) = Some old"
  shows "\<exists>u. ptedit_pte_set_pfn OS a p pfn s = Some u \<and> api_ok OS a p u
      \<and> map_option fst (ptedit_pte_get_pfn OS a p u) = Some pfn
      \<and> (\<forall>k. 0 \<le> k \<and> k < 64 \<and> \<not> (12 \<le> k \<and> k < 12 + int (pfn_width (cfg_arch (os_kernel OS)))) \<longrightarrow>
           map_option fst (ptedit_pte_get_bit OS a p k u) = map_option fst (ptedit_pte_get_bit OS a p k s))
      \<and> (\<forall>l. l \<noteq> PTE \<longrightarrow> api_entries OS a p u l = api_entries OS a p s l)
      \<and> (\<exists>v. ptedit_pte_set_pfn OS a p old u = Some v \<and> api_entries OS a p v = api_entries OS a p s)"
proof -
  let ?A = "cfg_arch (os_kernel OS)"
  obtain w where w: "api_entries OS a p s PTE = Some w" using api.pte_mapped [OF assms(1)] by blast
  let ?w = "ptedit_set_pfn ?A w pfn"
  obtain u where u: "ptedit_pte_set_pfn OS a p pfn s = Some u" "api_ok OS a p u"
    "api_entries OS a p u = (api_entries OS a p s)(PTE \<mapsto> ?w)"
    by (rule api.edit_pte_entries [OF assms(1) w, of "\<lambda>w. Some (ptedit_set_pfn ?A w pfn)"])
      (simp_all add: pte_ops_edit)
  have wu: "api_entries OS a p u PTE = Some ?w" by (simp add: u)
  have old: "old = ptedit_get_pfn ?A w" using get_pfn_entries [OF assms(1) w] assms(3) by simp
  obtain v where v: "ptedit_pte_set_pfn OS a p old u = Some v"
    "api_entries OS a p v = (api_entries OS a p u)(PTE \<mapsto> ptedit_set_pfn ?A ?w old)"
    by (rule api.edit_pte_entries [OF u(2) wu, of "\<lambda>w. Some (ptedit_set_pfn ?A w old)"])
      (simp_all add: pte_ops_edit)
  have "ptedit_set_pfn ?A ?w old = w" by (simp add: old set_set_pfn [OF assms(2)] set_get_pfn)
  then have restored: "api_entries OS a p v = api_entries OS a p s" using w by (simp add: v u fun_upd_idem)
  have "ptedit_get_pfn ?A ?w = pfn"
    using assms(2) by (intro u64_eqI) (auto simp: get_set_pfn_iff bit_simps dest: pfn_bit_bound)
  then have pfn: "map_option fst (ptedit_pte_get_pfn OS a p u) = Some pfn"
    using get_pfn_entries [OF u(2) wu] by simp
  have bits: "map_option fst (ptedit_pte_get_bit OS a p k u) = map_option fst (ptedit_pte_get_bit OS a p k s)"
    if "0 \<le> k" "k < 64" "\<not> (12 \<le> k \<and> k < 12 + int (pfn_width ?A))" for k
  proof -
    have "bit ?w (nat k) = bit w (nat k)"
      using that pfn_bit_bound [OF assms(2), of "nat k - 12"] by (auto simp: bit_set_pfn)
    then show ?thesis
      by (simp add: get_bit_entries [OF u(2) wu that(1,2)] get_bit_entries [OF assms(1) w that(1,2)])
  qed
  show ?thesis
    by (rule exI [of _ u]) (use u v pfn bits restored in \<open>simp add: u\<close>)
qed

theorem pte_pfn_operations_witness:
  "\<exists>u. ptedit_pte_set_pfn sample_os sample_vaddr 0 0x1234 sample_map = Some u
      \<and> map_option fst (ptedit_pte_get_pfn sample_os sample_vaddr 0 u) = Some 0x1234"
proof -
  obtain w where w: "api_entries sample_os sample_vaddr 0 sample_map PTE = Some w"
    using api.pte_mapped [OF sample_api_ok(3)] by blast
  have "(0x1234 :: u64) < 2 ^ pfn_width (cfg_arch (os_kernel sample_os))"
    by (simp add: sample_sys_simps pfn_width_def)
  from pte_pfn_operations [OF sample_api_ok(3) this get_pfn_entries [OF sample_api_ok(3) w]]
  show ?thesis by blast
qed

text \<open>
  C30. For an address that resolves without a PTE the editing operations do nothing beyond resolving it,
  and the frame number reads as 0.  For a mapped address a bit number outside 0 to 63 is undefined
  behaviour.
\<close>

theorem pte_operations_errors:
  "(ptedit_resolve OS a p s = Some (e, t) \<and> \<not> has_valid (valid e) PTE \<longrightarrow>
      ptedit_pte_set_bit OS a p nr s = Some t \<and> ptedit_pte_clear_bit OS a p nr s = Some t
      \<and> ptedit_pte_set_pfn OS a p pfn s = Some t \<and> ptedit_pte_get_pfn OS a p s = Some (0, t)) \<and>
   (api_ok OS a p s \<and> (nr < 0 \<or> 64 \<le> nr) \<longrightarrow>
      ptedit_pte_set_bit OS a p nr s = None \<and> ptedit_pte_clear_bit OS a p nr s = None
      \<and> ptedit_pte_get_bit OS a p nr s = None)"
proof (intro conjI impI; elim conjE)
  assume "ptedit_resolve OS a p s = Some (e, t)" "\<not> has_valid (valid e) PTE"
  then show "ptedit_pte_set_bit OS a p nr s = Some t" "ptedit_pte_clear_bit OS a p nr s = Some t"
    "ptedit_pte_set_pfn OS a p pfn s = Some t" "ptedit_pte_get_pfn OS a p s = Some (0, t)"
    by (simp_all add: ptedit_pte_set_bit_def ptedit_pte_clear_bit_def ptedit_pte_set_pfn_def ptedit_pte_get_pfn_def)
next
  assume ok: "api_ok OS a p s" and "nr < 0 \<or> 64 \<le> nr"
  then have sh: "c_shl_ull 1 nr = None" by (auto simp: c_shl_ull_1)
  show "ptedit_pte_set_bit OS a p nr s = None" "ptedit_pte_clear_bit OS a p nr s = None"
    unfolding pte_ops_edit by (rule api.edit_pte_undefined [OF ok]; simp add: sh)+
  show "ptedit_pte_get_bit OS a p nr s = None"
    by (cases "ptedit_resolve OS a p s") (auto simp: ptedit_pte_get_bit_def sh)
qed

theorem pte_operations_errors_witness:
  "ptedit_pte_set_bit sample_os sample_vaddr 0 64 sample_sys = None \<and>
   ptedit_pte_set_bit sample_os 0xff8000000000 0 1 sample_pread = Some sample_pread"
proof -
  let ?e = "zero_entry\<lparr>vaddr := 0xff8000000000, pid := size_of_int 0\<rparr>"
  have "ptedit_resolve sample_os 0xff8000000000 0 sample_pread = Some (?e, sample_pread)"
  proof -
    have "load64 sample_mem 0x1ff8 = 0" by (simp add: sample_mem_def mem_simps apart_def)
    then have "ptedit_resolve_user_ext sample_os 0xff8000000000 0 (ptedit_phys_read_pread sample_os) sample_pread =
        Some (zero_entry\<lparr>vaddr := 0xff8000000000, pid := size_of_int 0\<rparr>, sample_pread)"
      by (intro pread_phys.resolve_user_ext_absent [OF sample_const(1) _ sample_user_root(1) refl])
        (simp_all add: sample_const wf_definitions sample_acc sample_sys_simps cast_present_bits PTEDIT_PAGE_PRESENT_def
          level_index_bits x86_definition_def level_shift_def level_entries_def take_bit_eq_mask mask_numeral wf_definition_def)
    then show ?thesis by (simp add: ptedit_resolve_def ptedit_resolve_user_def sample_pread_eq)
  qed
  moreover have "\<not> has_valid (valid ?e) PTE" by (simp add: zero_entry_def)
  ultimately have "ptedit_pte_set_bit sample_os 0xff8000000000 0 1 sample_pread = Some sample_pread"
    using conjunct1 [OF pte_operations_errors [of sample_os "0xff8000000000" 0 sample_pread ?e sample_pread 1 0]] by blast
  moreover have "ptedit_pte_set_bit sample_os sample_vaddr 0 64 sample_sys = None"
    using conjunct2 [OF pte_operations_errors [of sample_os sample_vaddr 0 sample_sys ?e sample_pread 64 0]] sample_api_ok(1)
    by simp
  ultimately show ?thesis by blast
qed

end
