(* ===== verification/PT_System.thy ===== *)
theory PT_System
  imports PT_Walk
begin

text \<open>
  The life cycle of the library and its access to physical memory: the states a program can bring the
  library into, opening and closing the device, physical pages, mappings of physical memory and the
  serializing barrier.
\<close>

section \<open>The kernel side leaves the library alone\<close>

lemma more_emit [simp]: "kstate.more (emit e s) = kstate.more s"
  by (simp add: emit_def)

lemma more_update_level [simp]: "kstate.more (update_level f l msg ov q nv v s) = kstate.more s"
  by (simp add: update_level_def emit_def split: option.split)

lemma more_invalidate_tlb [simp]: "kstate.more (PT_Linux.invalidate_tlb K p a s) = kstate.more s"
  by (simp add: PT_Linux.invalidate_tlb_def invalidate_tlb_kernel_def invalidate_tlb_custom_def
      split: tlb_fn.split arch.split option.split)

lemma more_resolve_vm [simp]: "kstate.more (snd (snd (resolve_vm K a p lock s))) = kstate.more s"
  by (simp add: resolve_vm_def Let_def split: option.split prod.split)

lemma more_update_vm [simp]: "kstate.more (snd (update_vm K new lock s)) = kstate.more s"
proof (cases "get_mm K (pid new)")
  case None
  then show ?thesis by (simp add: update_vm_def)
next
  case (Some mm)
  define t where "t = (if lock then emit (Write_lock mm) s else s)"
  obtain r old where "resolve_vm K (vaddr new) (pid new) False t = (r, old, t)"
    using resolve_vm_unlocked_trace by (metis prod_cases3)
  moreover have "kstate.more t = kstate.more s" by (simp add: t_def)
  ultimately show ?thesis
    using Some by (auto simp: update_vm_def update_entries_def t_def Let_def)
qed

lemma more_device_ioctl: "kstate.more (snd (snd (device_ioctl K req s))) = kstate.more s"
proof (cases req)
  case (CMD_VM_RESOLVE u)
  then show ?thesis using more_resolve_vm [of K "vaddr u" "pid u" "\<not> mm_is_locked s" s]
    by (auto simp: ioctl_vm_resolve_def simp del: more_resolve_vm split: prod.split)
next
  case (CMD_VM_UPDATE u)
  then show ?thesis using more_update_vm [of K u "\<not> mm_is_locked s" s]
    by (auto simp: ioctl_vm_update_def simp del: more_update_vm split: prod.split)
qed (auto simp: ioctl_vm_lock_def ioctl_vm_unlock_def ioctl_read_page_def ioctl_write_page_def
    ioctl_get_root_def ioctl_set_root_def ioctl_switch_tlb_def set_pat_def Let_def split: option.split)

text \<open>The variables of the library that its calls do not touch.\<close>

definition same_statics :: "sys \<Rightarrow> sys \<Rightarrow> bool" where
  "same_statics s t \<longleftrightarrow>
     ptedit_fd t = ptedit_fd s \<and> ptedit_umem t = ptedit_umem s \<and> ptedit_pagesize t = ptedit_pagesize s
     \<and> ptedit_pfn_multiply t = ptedit_pfn_multiply s \<and> ptedit_entry_size t = ptedit_entry_size s
     \<and> ptedit_paging_root t = ptedit_paging_root s \<and> ptedit_vmem t = ptedit_vmem s
     \<and> ptedit_paging_definition t = ptedit_paging_definition s
     \<and> ptedit_resolve_ptr t = ptedit_resolve_ptr s \<and> ptedit_update_ptr t = ptedit_update_ptr s
     \<and> fd_table t = fd_table s \<and> mappings t = mappings s"

lemma same_statics_refl [simp]: "same_statics s s"
  by (simp add: same_statics_def)

lemma same_statics_trans: "same_statics s t \<Longrightarrow> same_statics t u \<Longrightarrow> same_statics s u"
  by (simp add: same_statics_def)

lemma same_statics_phys [simp]: "same_statics s (s\<lparr>phys := m\<rparr>)"
  by (simp add: same_statics_def)

lemma same_statics_same_lib: "same_lib s t \<Longrightarrow> same_statics s t"
  by (simp add: same_statics_def same_lib_fields)

lemma same_statics_more: "kstate.more t = kstate.more (s :: sys) \<Longrightarrow> same_statics s t"
  by (cases s; cases t) (simp add: same_statics_def)

lemma same_statics_ioctl: "same_statics s (snd (snd (ioctl OS fd req s)))"
  unfolding ioctl_def using more_device_ioctl [of "os_kernel OS" req s] by (auto intro!: same_statics_more)

section \<open>Calls of the library and its variables\<close>

lemma resolve_user_ext_state:
  "ptedit_resolve_user_ext OS a p deref s = Some (e, t) \<Longrightarrow> t = snd (user_root OS p s)"
  by (auto simp: ptedit_resolve_user_ext_def Let_def split: prod.splits if_splits bind_splits)

lemma user_root_statics: "same_statics s (snd (user_root OS p s))"
  using user_root_same [of OS p s "fst (user_root OS p s)" "snd (user_root OS p s)"]
  by (simp add: same_statics_same_lib)

lemma resolve_statics: "ptedit_resolve OS a p s = Some (e, t) \<Longrightarrow> same_statics s t"
proof (cases "ptedit_resolve_ptr s")
  case Resolve_kernel
  assume "ptedit_resolve OS a p s = Some (e, t)"
  with Resolve_kernel have "t = snd (snd (ioctl OS (ptedit_fd s) (CMD_VM_RESOLVE (zero_entry\<lparr>vaddr := a, pid := size_of_int p\<rparr>)) s))"
    by (auto simp: ptedit_resolve_def ptedit_resolve_kernel_def Let_def split: prod.splits)
  then show ?thesis by (simp add: same_statics_ioctl)
qed (auto simp: ptedit_resolve_def ptedit_resolve_user_def ptedit_resolve_user_map_def
    dest!: resolve_user_ext_state intro: user_root_statics)

lemma update_user_level_statics:
  assumes "\<And>a v s t. pset a v s = Some t \<Longrightarrow> same_statics s t"
    and "update_user_level A pset l has a vm cur up s = Some t"
  shows "same_statics s t"
  using assms(2) by (auto simp: update_user_level_def dest!: assms(1) split: if_splits)

lemma invalidate_tlb_pid_statics: "same_statics s (ptedit_invalidate_tlb_pid OS p a s)"
  by (simp add: ptedit_invalidate_tlb_pid_def same_statics_ioctl)

lemma update_user_ext_statics:
  assumes pset: "\<And>a v s t. pset a v s = Some t \<Longrightarrow> same_statics s t"
    and upd: "ptedit_update_user_ext OS a p vm pset s = Some t"
  shows "same_statics s t"
proof -
  have level: "same_statics x y" if "update_user_level A pset l has b vm cur up x = Some y" for A l has b cur up x y
    by (rule update_user_level_statics [OF _ that]) (rule pset)
  obtain cur s1 where s1: "ptedit_resolve OS a p s = Some (cur, s1)"
    using upd by (auto simp: ptedit_update_user_ext_def split: bind_splits)
  obtain root s2 where s2: "user_root OS p s1 = (root, s2)" by fastforce
  have 12: "same_statics s s2"
    using same_statics_trans [OF resolve_statics [OF s1] user_root_statics [of s1 OS p]] s2 by simp
  show ?thesis
  proof (cases "root = 0")
    case True
    then show ?thesis using upd s1 s2 12 by (simp add: ptedit_update_user_ext_def)
  next
    case False
    let ?A = "cfg_arch (os_kernel OS)" and ?D = "ptedit_paging_definition s1"
    obtain s3 s4 s5 s6 s7 where chain:
      "update_user_level ?A pset PTE True a vm cur (pmd cur) s2 = Some s3"
      "update_user_level ?A pset PMD (has_pmd ?D) a vm cur (pud cur) s3 = Some s4"
      "update_user_level ?A pset PUD (has_pud ?D) a vm cur (p4d cur) s4 = Some s5"
      "update_user_level ?A pset P4D (has_p4d ?D) a vm cur (pgd cur) s5 = Some s6"
      "(if has_valid (valid vm) PGD \<and> has_valid (valid cur) PGD \<and> has_pgd ?D
        then pset (root + level_index ?D PGD a * ptedit_entry_size s6) (pgd vm) s6 else Some s6) = Some s7"
      "t = ptedit_invalidate_tlb_pid OS p a s7"
      using upd s1 s2 False by (auto simp: ptedit_update_user_ext_def bind_eq_Some_conv Let_def split del: if_split)
    have "same_statics s6 s7" using chain(5) pset by (auto split: if_splits)
    then show ?thesis
      using 12 level [OF chain(1)] level [OF chain(2)] level [OF chain(3)] level [OF chain(4)]
        invalidate_tlb_pid_statics [of s7 OS p a] chain(6)
      by (metis same_statics_trans)
  qed
qed

lemma pset_statics:
  "ptedit_phys_write_pwrite OS a v s = Some t \<Longrightarrow> same_statics s t"
  "ptedit_phys_write_map OS a v s = Some t \<Longrightarrow> same_statics s t"
  by (auto simp: ptedit_phys_write_pwrite_def ptedit_phys_write_map_def pwrite_def user_store64_def
      split: option.splits)

lemma update_statics: "ptedit_update OS a p vm s = Some (vm', t) \<Longrightarrow> same_statics s t"
proof (cases "ptedit_update_ptr s")
  case Update_kernel
  assume "ptedit_update OS a p vm s = Some (vm', t)"
  with Update_kernel show ?thesis
    by (auto simp: ptedit_update_def ptedit_update_kernel_def Let_def same_statics_ioctl)
next
  case Update_user
  assume "ptedit_update OS a p vm s = Some (vm', t)"
  with Update_user obtain u where u: "ptedit_update_user_ext OS a p vm (ptedit_phys_write_pwrite OS) s = Some u"
    and t: "t = ptedit_invalidate_tlb_pid OS p a u"
    by (auto simp: ptedit_update_def ptedit_update_user_def bind_eq_Some_conv)
  from u have "same_statics s u" by (rule update_user_ext_statics [rotated]) (rule pset_statics)
  then show ?thesis unfolding t using invalidate_tlb_pid_statics by (rule same_statics_trans)
next
  case Update_user_map
  assume "ptedit_update OS a p vm s = Some (vm', t)"
  with Update_user_map obtain u where u: "ptedit_update_user_ext OS a p vm (ptedit_phys_write_map OS) s = Some u"
    and t: "t = ptedit_invalidate_tlb_pid OS p a u"
    by (auto simp: ptedit_update_def ptedit_update_user_map_def bind_eq_Some_conv)
  from u have "same_statics s u" by (rule update_user_ext_statics [rotated]) (rule pset_statics)
  then show ?thesis unfolding t using invalidate_tlb_pid_statics by (rule same_statics_trans)
qed (simp add: ptedit_update_def)

section \<open>Descriptors\<close>

lemma lowest_fd_fresh: "0 \<le> lowest_fd t \<and> lowest_fd t \<notin> set (map fst t)"
proof -
  let ?xs = "filter (\<lambda>n. n \<notin> set (map fst t)) (map int [0..<Suc (length t)])"
  have "?xs \<noteq> []"
  proof
    assume "?xs = []"
    then have "int ` {0..<Suc (length t)} \<subseteq> set (map fst t)" by (auto simp: filter_empty_conv simp del: upt_Suc)
    then have "card (int ` {0..<Suc (length t)}) \<le> card (set (map fst t))" by (intro card_mono) simp_all
    also have "\<dots> \<le> length (map fst t)" by (rule card_length)
    finally show False by (simp add: card_image)
  qed
  then have "hd ?xs \<in> set ?xs" by (rule list.set_sel(1))
  then show ?thesis unfolding lowest_fd_def by (auto simp del: upt_Suc)
qed

section \<open>The states of the library\<close>

text \<open>
  A program starts with the zero-initialised library, on a machine with the module loaded or not, and
  calls the library in any order; the operating system and the other processes may differ between
  calls.
\<close>

inductive lib_step :: "sys \<Rightarrow> sys \<Rightarrow> bool" where
  init: "ptedit_init OS s = (r, t) \<Longrightarrow> lib_step s t"
| cleanup: "lib_step s (ptedit_cleanup s)"
| select: "lib_step s (ptedit_use_implementation OS impl s)"
| resolve: "ptedit_resolve OS a p s = Some (e, t) \<Longrightarrow> lib_step s t"
| update: "ptedit_update OS a p vm s = Some (vm', t) \<Longrightarrow> lib_step s t"
| request: "lib_step s (snd (snd (ioctl OS (ptedit_fd s) req s)))"
| write_page: "lib_step s (ptedit_write_physical_page OS pfn content s)"
| pmap: "lib_step s (snd (ptedit_pmap OS physical len s))"

inductive lib_reach :: "sys \<Rightarrow> bool" where
  start: "lib_reach (start_sys k)"
| step: "lib_reach s \<Longrightarrow> lib_step s t \<Longrightarrow> lib_reach t"

definition paired :: "sys \<Rightarrow> bool" where
  "paired s \<longleftrightarrow> (ptedit_resolve_ptr s, ptedit_update_ptr s) \<in>
     {(Resolve_null, Update_null), (Resolve_kernel, Update_kernel), (Resolve_user, Update_user),
      (Resolve_user_map, Update_user_map)}"

definition lib_inv :: "sys \<Rightarrow> bool" where
  "lib_inv s \<longleftrightarrow> lib_const s \<and> paired s
     \<and> ptedit_paging_definition s \<in> {zero_definition, x86_definition, arm_16k_definition, arm_4k_definition}
     \<and> distinct (map fst (fd_table s)) \<and> (\<forall>fd \<in> set (map fst (fd_table s)). 0 \<le> fd)"

lemma lib_inv_statics: "lib_inv s \<Longrightarrow> same_statics s t \<Longrightarrow> lib_inv t"
  by (simp add: lib_inv_def lib_const_def paired_def same_statics_def)

lemma lib_inv_select: "lib_inv s \<Longrightarrow> lib_inv (ptedit_use_implementation OS impl s)"
proof -
  assume inv: "lib_inv s"
  have root: "lib_inv (snd (ptedit_get_paging_root OS 0 u))" if "lib_inv u" for u
    using that lib_inv_statics [OF that same_statics_same_lib] get_paging_root_same [of OS 0 u] by (metis prod.collapse)
  have frame: "lib_inv (u\<lparr>ptedit_paging_root := x\<rparr>) = lib_inv u" "lib_inv (u\<lparr>ptedit_vmem := y\<rparr>) = lib_inv u"
    "lib_inv (u\<lparr>mappings := ms\<rparr>) = lib_inv u" for u x y ms
    by (simp_all add: lib_inv_def lib_const_def paired_def)
  have set: "lib_inv (s\<lparr>ptedit_resolve_ptr := Resolve_kernel, ptedit_update_ptr := Update_kernel\<rparr>)"
    "lib_inv (s\<lparr>ptedit_resolve_ptr := Resolve_user, ptedit_update_ptr := Update_user\<rparr>)"
    "lib_inv (s\<lparr>ptedit_resolve_ptr := Resolve_user_map, ptedit_update_ptr := Update_user_map\<rparr>)"
    using inv by (simp_all add: lib_inv_def lib_const_def paired_def)
  have mm: "lib_inv (snd (mmap OS fd len off u)) = lib_inv u" for fd len off u
    by (simp add: mmap_def frame split: option.split)
  show ?thesis
    using inv set root [OF set(2)] root [OF set(3)] frame mm
    by (auto simp: ptedit_use_implementation_def Let_def case_prod_beta)
qed

lemma lib_inv_open:
  assumes "lib_inv s"
  shows "lib_inv (snd (open_device s))" "lib_inv (snd (open_umem_file s))"
proof -
  have add: "lib_inv (u\<lparr>fd_table := (lowest_fd (fd_table u), f) # fd_table u\<rparr>)" if "lib_inv u" for u f
    using that lowest_fd_fresh [of "fd_table u"] by (auto simp: lib_inv_def lib_const_def paired_def)
  have "lib_inv (s\<lparr>device_busy := b\<rparr>)" for b using assms by (simp add: lib_inv_def lib_const_def paired_def)
  then show "lib_inv (snd (open_device s))"
    using assms add [of "s\<lparr>device_busy := True\<rparr>"] by (simp add: open_device_def device_open_def EBUSY_def Let_def)
  show "lib_inv (snd (open_umem_file s))"
    using assms add [OF assms] by (simp add: open_umem_file_def Let_def)
qed

lemma lib_inv_init:
  assumes "lib_inv s" and "ptedit_init OS s = (r, t)"
  shows "lib_inv t"
proof -
  have frame: "lib_inv (u\<lparr>ptedit_fd := x\<rparr>) = lib_inv u" "lib_inv (u\<lparr>ptedit_umem := x\<rparr>) = lib_inv u"
    "lib_inv (u\<lparr>ptedit_pagesize := n\<rparr>) = lib_inv u" for u x n
    by (simp_all add: lib_inv_def lib_const_def paired_def)
  have def: "lib_inv (u\<lparr>ptedit_paging_definition := D\<rparr>)"
    if "lib_inv u" "D \<in> {x86_definition, arm_16k_definition, arm_4k_definition}" for u D
    using that by (auto simp: lib_inv_def lib_const_def paired_def)
  define s1 where "s1 = (snd (open_device s))\<lparr>ptedit_fd := fst (open_device s)\<rparr>"
  have s1: "lib_inv s1" using lib_inv_open(1) [OF assms(1)] by (simp add: s1_def frame)
  define o2 where "o2 = (case cfg_arch (os_kernel OS) of X86_64 \<Rightarrow> open_umem_file s1 | AArch64 \<Rightarrow> (0, s1))"
  define s3 where "s3 = (ptedit_use_implementation OS PTEDIT_IMPL_KERNEL ((snd o2)\<lparr>ptedit_umem := fst o2\<rparr>))\<lparr>ptedit_pagesize := os_pagesize OS\<rparr>"
  have "lib_inv (snd o2)" using s1 lib_inv_open(2) [OF s1] by (simp add: o2_def split: arch.split)
  then have s3: "lib_inv s3" by (simp add: s3_def frame lib_inv_select)
  have "t = (if fst (open_device s) < 0 then s1
      else (case cfg_arch (os_kernel OS) of X86_64 \<Rightarrow> s3\<lparr>ptedit_paging_definition := x86_definition\<rparr>
            | AArch64 \<Rightarrow> if ptedit_get_pagesize OS s3 = 16384
                then ptedit_use_implementation OS PTEDIT_IMPL_USER_PREAD (s3\<lparr>ptedit_paging_definition := arm_16k_definition\<rparr>)
                else s3\<lparr>ptedit_paging_definition := arm_4k_definition\<rparr>))"
    using assms(2) by (auto simp: ptedit_init_def Let_def case_prod_beta s1_def o2_def s3_def split: if_splits arch.splits)
  then show ?thesis using s1 def [OF s3] by (auto intro: lib_inv_select split: arch.split)
qed

lemma lib_inv_close: "lib_inv s \<Longrightarrow> lib_inv (close_fd fd s)"
  by (auto simp: close_fd_def device_release_def lib_inv_def lib_const_def paired_def Let_def distinct_map
      inj_on_def split: option.split)

lemma write_page_statics: "same_statics s (ptedit_write_physical_page OS pfn content s)"
  by (auto simp: ptedit_write_physical_page_def Let_def same_statics_ioctl pwrite_def split: option.split)

lemma lib_inv_step: "lib_step s t \<Longrightarrow> lib_inv s \<Longrightarrow> lib_inv t"
proof (induction rule: lib_step.induct)
  case (cleanup s)
  then show ?case by (simp add: ptedit_cleanup_def Let_def lib_inv_close)
next
  case (pmap s OS physical len)
  then show ?case
    by (auto simp: ptedit_pmap_def mmap_def Let_def lib_inv_def lib_const_def paired_def split: option.split)
next
  case (init OS s r t)
  then show ?case by (simp add: lib_inv_init)
next
  case (select s OS impl)
  then show ?case by (simp add: lib_inv_select)
next
  case (resolve OS a p s e t)
  then show ?case using resolve_statics lib_inv_statics by blast
next
  case (update OS a p vm s vm' t)
  then show ?case using update_statics lib_inv_statics by blast
next
  case (request s OS req)
  then show ?case using same_statics_ioctl lib_inv_statics by blast
next
  case (write_page s OS pfn content)
  then show ?case using write_page_statics lib_inv_statics by blast
qed

lemma lib_reach_inv: "lib_reach s \<Longrightarrow> lib_inv s"
proof (induction rule: lib_reach.induct)
  case (start k)
  then show ?case
    by (simp add: start_sys_def kstate.defs lib_inv_def lib_const_def paired_def)
qed (rule lib_inv_step)

text \<open>Once the library is initialised it stays so, whether later calls succeed or not.\<close>

definition lib_ready :: "sys \<Rightarrow> bool" where
  "lib_ready s \<longleftrightarrow> ptedit_paging_definition s \<in> {x86_definition, arm_16k_definition, arm_4k_definition}
     \<and> ptedit_resolve_ptr s \<noteq> Resolve_null"

lemma lib_ready_statics: "lib_ready s \<Longrightarrow> same_statics s t \<Longrightarrow> lib_ready t"
  by (simp add: lib_ready_def same_statics_def)

lemma select_ready:
  shows "ptedit_paging_definition (ptedit_use_implementation OS impl s) = ptedit_paging_definition s"
    and "ptedit_resolve_ptr s \<noteq> Resolve_null \<or> impl = PTEDIT_IMPL_KERNEL \<Longrightarrow>
      ptedit_resolve_ptr (ptedit_use_implementation OS impl s) \<noteq> Resolve_null"
proof -
  have "same_statics u (snd (ptedit_get_paging_root OS 0 u))" for u
    using same_statics_same_lib get_paging_root_same [of OS 0 u] by (metis prod.collapse)
  then have root: "ptedit_paging_definition (snd (ptedit_get_paging_root OS 0 u)) = ptedit_paging_definition u"
    "ptedit_resolve_ptr (snd (ptedit_get_paging_root OS 0 u)) = ptedit_resolve_ptr u" for u
    by (simp_all add: same_statics_def)
  have mm: "ptedit_paging_definition (snd (mmap OS fd len off u)) = ptedit_paging_definition u"
    "ptedit_resolve_ptr (snd (mmap OS fd len off u)) = ptedit_resolve_ptr u" for fd len off u
    by (simp_all add: mmap_def split: option.split)
  show "ptedit_paging_definition (ptedit_use_implementation OS impl s) = ptedit_paging_definition s"
    by (simp add: ptedit_use_implementation_def Let_def case_prod_beta root mm)
  show "ptedit_resolve_ptr s \<noteq> Resolve_null \<or> impl = PTEDIT_IMPL_KERNEL \<Longrightarrow>
      ptedit_resolve_ptr (ptedit_use_implementation OS impl s) \<noteq> Resolve_null"
    by (auto simp: ptedit_use_implementation_def Let_def case_prod_beta root mm)
qed

lemma init_ready: "ptedit_init OS s = (r, t) \<Longrightarrow> r = 0 \<or> lib_ready s \<Longrightarrow> lib_ready t"
  by (auto simp: ptedit_init_def Let_def case_prod_beta lib_ready_def select_ready open_device_def device_open_def
      split: if_splits arch.splits)

lemma lib_ready_step: "lib_step s t \<Longrightarrow> lib_ready s \<Longrightarrow> lib_ready t"
proof (induction rule: lib_step.induct)
  case (cleanup s)
  then show ?case by (simp add: ptedit_cleanup_def Let_def close_fd_def lib_ready_def device_release_def split: option.split)
next
  case (select s OS impl)
  then show ?case by (auto simp: lib_ready_def select_ready)
next
  case (pmap s OS physical len)
  then show ?case by (auto simp: ptedit_pmap_def mmap_def Let_def lib_ready_def split: option.split)
next
  case (init OS s r t)
  then show ?case using init_ready by blast
next
  case (resolve OS a p s e t)
  then show ?case using resolve_statics lib_ready_statics by blast
next
  case (update OS a p vm s vm' t)
  then show ?case using update_statics lib_ready_statics by blast
next
  case (request s OS req)
  then show ?case using same_statics_ioctl lib_ready_statics by blast
next
  case (write_page s OS pfn content)
  then show ?case using write_page_statics lib_ready_statics by blast
qed

section \<open>Properties of the life cycle\<close>

text \<open>
  C10. However a program calls the library: the resolve and the update function belong to the same
  implementation, the size constants are the ones the walk needs, no descriptor is listed twice, and the
  paging definition is still the zero one or one of those the walk is correct for.  From the first
  successful \<open>ptedit_init\<close> on, whatever the program calls after it, the definition is one of the latter and
  an implementation is selected.
\<close>

theorem lib_reach_invariant:
  assumes "lib_reach s"
  shows "(ptedit_resolve_ptr s, ptedit_update_ptr s) \<in>
       {(Resolve_null, Update_null), (Resolve_kernel, Update_kernel), (Resolve_user, Update_user),
        (Resolve_user_map, Update_user_map)}
    \<and> lib_const s
    \<and> (ptedit_paging_definition s = zero_definition \<or> wf_definition (ptedit_paging_definition s))
    \<and> distinct (map fst (fd_table s))
    \<and> (\<forall>OS t u. ptedit_init OS s = (0, t) \<and> lib_step\<^sup>*\<^sup>* t u \<longrightarrow>
         wf_definition (ptedit_paging_definition u) \<and> ptedit_resolve_ptr u \<noteq> Resolve_null)"
proof -
  have ready: "lib_ready u" if "ptedit_init OS s = (0, t)" "lib_step\<^sup>*\<^sup>* t u" for OS t u
    using that(2) by (induction rule: rtranclp_induct) (use init_ready [OF that(1)] lib_ready_step in auto)
  moreover have "wf_definition (ptedit_paging_definition u)" if "lib_ready u" for u
    using that wf_definitions by (auto simp: lib_ready_def)
  ultimately show ?thesis
    using lib_reach_inv [OF assms] wf_definitions by (auto simp: lib_inv_def paired_def lib_ready_def)
qed

theorem lib_reach_invariant_witness:
  "lib_reach sample_map \<and> lib_const sample_map \<and> wf_definition (ptedit_paging_definition sample_map)"
proof -
  have "lib_reach sample_sys" using lib_reach.step [OF lib_reach.start lib_step.init [OF sample_init]] .
  then have "lib_reach sample_map" unfolding sample_map_def by (rule lib_reach.step) (rule lib_step.select)
  moreover have "lib_step\<^sup>*\<^sup>* sample_sys sample_map"
    unfolding sample_map_def by (rule r_into_rtranclp) (rule lib_step.select)
  ultimately show ?thesis
    using lib_reach_invariant [of sample_map] lib_reach_invariant [OF lib_reach.start, of sample_kstate] sample_init by blast
qed

text \<open>
  What a successful initialisation has opened: the device, and on x86 the file of physical memory
  where the module provides it.
\<close>

definition opened :: "sys \<Rightarrow> sys \<Rightarrow> bool" where
  "opened s t \<longleftrightarrow>
     (let fd = lowest_fd (fd_table s); um = lowest_fd ((fd, F_device) # fd_table s) in
      device_busy t \<and> misc_registered t \<and> ptedit_fd t = fd
      \<and> (fd_table t = (fd, F_device) # fd_table s \<and> ptedit_umem t \<le> 0
         \<or> fd_table t = (um, F_umem) # (fd, F_device) # fd_table s \<and> ptedit_umem t = um))"

lemma lowest_fd_zero: "0 \<notin> set (map fst t) \<Longrightarrow> lowest_fd t = 0"
  unfolding lowest_fd_def by (subst upt_conv_Cons) (simp_all del: upt_Suc)

lemma umem_fd_pos: "0 < lowest_fd ((lowest_fd t, f) # t)"
proof -
  let ?um = "lowest_fd ((lowest_fd t, f) # t)"
  have "?um \<noteq> 0" using lowest_fd_zero [of t] lowest_fd_fresh [of "(lowest_fd t, f) # t"] by auto
  then show ?thesis using lowest_fd_fresh [of "(lowest_fd t, f) # t"] by simp
qed

lemma init_opens:
  assumes "ptedit_init OS s = (0, t)"
  shows "misc_registered s \<and> \<not> device_busy s \<and> opened s t"
proof -
  let ?fd = "lowest_fd (fd_table s)"
  let ?s1 = "s\<lparr>device_busy := True, fd_table := (?fd, F_device) # fd_table s, ptedit_fd := ?fd\<rparr>"
  from assms have reg: "misc_registered s" "\<not> device_busy s"
    by (auto simp: ptedit_init_def open_device_def device_open_def EBUSY_def Let_def split: if_splits)
  then have op: "open_device s = (?fd, s\<lparr>device_busy := True, fd_table := (?fd, F_device) # fd_table s\<rparr>)"
    by (simp add: open_device_def device_open_def Let_def)
  have umem: "opened s ((snd (open_umem_file ?s1))\<lparr>ptedit_umem := fst (open_umem_file ?s1)\<rparr>)"
    "opened s (?s1\<lparr>ptedit_umem := 0\<rparr>)"
    using reg by (simp_all add: open_umem_file_def Let_def opened_def)
  have frame: "opened s (u\<lparr>ptedit_pagesize := n\<rparr>) = opened s u"
    "opened s (u\<lparr>ptedit_paging_definition := D\<rparr>) = opened s u" "opened s (u\<lparr>ptedit_paging_root := y\<rparr>) = opened s u"
    "opened s (u\<lparr>ptedit_resolve_ptr := f, ptedit_update_ptr := g\<rparr>) = opened s u" for u n D y f g
    by (simp_all add: opened_def)
  have root: "opened s (snd (ptedit_get_paging_root OS 0 u)) = opened s u" for u
  proof -
    have "same_lib u (snd (ptedit_get_paging_root OS 0 u))" using get_paging_root_same [OF prod.collapse [symmetric]] by blast
    then show ?thesis by (simp add: opened_def same_lib_fields)
  qed
  have "opened s t"
    using assms op lowest_fd_fresh [of "fd_table s"] umem
    by (auto simp: ptedit_init_def Let_def case_prod_beta ptedit_use_implementation_def PTEDIT_IMPL_KERNEL_def
        PTEDIT_IMPL_USER_PREAD_def frame root split: arch.splits if_splits)
  with reg show ?thesis by simp
qed

lemma init_succeeds: "misc_registered s \<Longrightarrow> \<not> device_busy s \<Longrightarrow> fst (ptedit_init OS s) = 0"
  using lowest_fd_fresh [of "fd_table s"]
  by (simp add: ptedit_init_def open_device_def device_open_def Let_def case_prod_beta)

lemma init_busy: "device_busy s \<Longrightarrow> ptedit_init OS s = (- 1, s\<lparr>ptedit_fd := - 1\<rparr>)"
  by (simp add: ptedit_init_def open_device_def device_open_def EBUSY_def Let_def)

lemma opened_fds:
  assumes "opened s t"
  shows "fd_file (ptedit_fd t) t = Some F_device" "0 \<le> ptedit_fd t"
    "0 < ptedit_umem t \<Longrightarrow> fd_file (ptedit_umem t) t = Some F_umem \<and> ptedit_umem t \<noteq> ptedit_fd t"
  using assms lowest_fd_fresh [of "fd_table s"] lowest_fd_fresh [of "(lowest_fd (fd_table s), F_device) # fd_table s"]
  by (auto simp: opened_def Let_def fd_file_def)

lemma filter_fresh: "n \<notin> set (map fst t) \<Longrightarrow> filter (\<lambda>(m, f). m \<noteq> n) t = t"
  by (induction t) auto

lemma cleanup_opened:
  assumes "opened s t"
  shows "\<not> device_busy (ptedit_cleanup t) \<and> misc_registered (ptedit_cleanup t) \<and> fd_table (ptedit_cleanup t) = fd_table s"
proof -
  let ?fd = "lowest_fd (fd_table s)" and ?um = "lowest_fd ((lowest_fd (fd_table s), F_device) # fd_table s)"
  have fresh: "?fd \<notin> set (map fst (fd_table s))" "?um \<noteq> ?fd" "?um \<notin> set (map fst (fd_table s))" "0 \<le> ?fd"
    using lowest_fd_fresh [of "fd_table s"] lowest_fd_fresh [of "(?fd, F_device) # fd_table s"] by auto
  show ?thesis
  proof (cases "0 < ptedit_umem t")
    case True
    with assms have "fd_table t = (?um, F_umem) # (?fd, F_device) # fd_table s" "ptedit_umem t = ?um" "ptedit_fd t = ?fd"
      "misc_registered t"
      by (auto simp: opened_def Let_def)
    then show ?thesis using fresh True
      by (simp add: ptedit_cleanup_def close_fd_def fd_file_def device_release_def Let_def filter_fresh)
  next
    case False
    with assms umem_fd_pos [of "fd_table s" F_device]
    have "fd_table t = (?fd, F_device) # fd_table s" "ptedit_fd t = ?fd" "misc_registered t"
      by (auto simp: opened_def Let_def)
    then show ?thesis using fresh False
      by (simp add: ptedit_cleanup_def close_fd_def fd_file_def device_release_def Let_def filter_fresh)
  qed
qed

text \<open>
  C11. A successful \<open>ptedit_init\<close> owns the device through an open descriptor; \<open>ptedit_cleanup\<close> closes
  every descriptor that was opened, so the table of descriptors is what it was before, the device is
  free, and a following \<open>ptedit_init\<close> succeeds.
\<close>

theorem init_cleanup_init:
  assumes "ptedit_init OS s = (0, t)"
  shows "device_busy t \<and> fd_file (ptedit_fd t) t = Some F_device
    \<and> \<not> device_busy (ptedit_cleanup t) \<and> fd_table (ptedit_cleanup t) = fd_table s
    \<and> fst (ptedit_init OS' (ptedit_cleanup t)) = 0"
proof -
  from init_opens [OF assms] have o: "opened s t" by simp
  then show ?thesis
    using opened_fds(1) [OF o] cleanup_opened [OF o] init_succeeds by (simp add: opened_def Let_def)
qed

theorem init_cleanup_init_witness:
  "ptedit_init sample_os (start_sys sample_kstate) = (0, sample_sys)
   \<and> fd_table (ptedit_cleanup sample_sys) = [(0, F_other), (1, F_other), (2, F_other)]"
  using init_cleanup_init [OF sample_init] sample_init by (simp add: start_sys_def kstate.defs)

text \<open>
  C39. A second \<open>ptedit_init\<close> without \<open>ptedit_cleanup\<close> in between fails and overwrites the descriptor of
  the device with -1: from then on every request of the library fails without an effect,
  \<open>ptedit_cleanup\<close> no longer closes the device, and no later \<open>ptedit_init\<close> succeeds.
\<close>

theorem second_init_loses_device:
  assumes "lib_reach s" and "ptedit_init OS s = (0, t)" and "ptedit_init OS' t = (r, u)"
  shows "r = - 1 \<and> ptedit_fd u = - 1
    \<and> ioctl OS' (ptedit_fd u) req u = (- 1, Out_none, u)
    \<and> device_busy (ptedit_cleanup u)
    \<and> fst (ptedit_init OS'' (ptedit_cleanup u)) = - 1"
proof -
  from init_opens [OF assms(2)] have o: "opened s t" by simp
  then have busy: "device_busy t" by (simp add: opened_def Let_def)
  from assms(3) have u: "r = - 1" "u = t\<lparr>ptedit_fd := - 1\<rparr>" by (auto simp: init_busy [OF busy])
  have "lib_inv t" using lib_reach_inv [OF lib_reach.step [OF assms(1) lib_step.init [OF assms(2)]]] .
  then have none: "fd_file (- 1) t = None"
    by (auto simp: lib_inv_def fd_file_def map_of_eq_None_iff)
  have "device_busy (ptedit_cleanup u)"
    using u(2) busy opened_fds(3) [OF o]
    by (auto simp: ptedit_cleanup_def close_fd_def fd_file_def Let_def)
  then show ?thesis using u none by (simp add: ioctl_def fd_file_def init_busy)
qed

theorem second_init_loses_device_witness:
  "fst (ptedit_init sample_os sample_sys) = - 1
   \<and> ioctl sample_os (- 1) CMD_GET_PAT (sample_sys\<lparr>ptedit_fd := - 1\<rparr>) = (- 1, Out_none, sample_sys\<lparr>ptedit_fd := - 1\<rparr>)"
proof -
  have "device_busy sample_sys" by (simp add: sample_sys_eq)
  then have second: "ptedit_init sample_os sample_sys = (- 1, sample_sys\<lparr>ptedit_fd := - 1\<rparr>)" by (rule init_busy)
  show ?thesis
    using second_init_loses_device [OF lib_reach.start sample_init second, where req = CMD_GET_PAT] second by simp
qed

section \<open>Physical memory\<close>

text \<open>
  The access to a physical page: through \<open>/proc/umem\<close>, which serves the page, or through the module,
  whose direct map reaches the page and whose page size is the one the library uses.
\<close>

definition page_access :: "os \<Rightarrow> u64 \<Rightarrow> sys \<Rightarrow> bool" where
  "page_access OS pfn s \<longleftrightarrow>
     (let n = ptedit_pagesize s; a = pfn * of_nat n; K = os_kernel OS in
      if 0 < ptedit_umem s then fd_file (ptedit_umem s) s = Some F_umem \<and> umem_serves OS a n
      else fd_file (ptedit_fd s) s = Some F_device \<and> real_page_size s = n
           \<and> virt_to_phys K (phys_to_virt K a) = a)"

lemma write_physical_page_stores:
  assumes "page_access OS pfn s" and "length content = ptedit_pagesize s"
  shows "ptedit_write_physical_page OS pfn content s =
    s\<lparr>phys := store_bytes (phys s) (pfn * of_nat (ptedit_pagesize s)) content\<rparr>"
  using assms
  by (auto simp: ptedit_write_physical_page_def page_access_def umem_serves_def pwrite_def ioctl_def
      ioctl_write_page_def Let_def split: if_splits)

lemma read_physical_page_loads:
  assumes "page_access OS pfn s" and "length buffer = ptedit_pagesize s"
  shows "ptedit_read_physical_page OS pfn buffer s =
    (load_bytes (phys s) (pfn * of_nat (ptedit_pagesize s)) (ptedit_pagesize s), s)"
  using assms
  by (auto simp: ptedit_read_physical_page_def page_access_def umem_serves_def pread_def ioctl_def
      ioctl_read_page_def Let_def split: if_splits)

text \<open>
  C12. Both ways to physical pages, \<open>/proc/umem\<close> and the module: writing a page and reading it back
  returns the written bytes, and every byte outside the page keeps its value.
\<close>

theorem physical_page_roundtrip:
  assumes "page_access OS pfn s" and "length content = ptedit_pagesize s" and "length buffer = ptedit_pagesize s"
    and "ptedit_pagesize s \<le> 65536" and "t = ptedit_write_physical_page OS pfn content s"
  shows "ptedit_read_physical_page OS pfn buffer t = (content, t)
    \<and> (\<forall>b. ptedit_pagesize s \<le> unat (b - pfn * of_nat (ptedit_pagesize s)) \<longrightarrow> phys t b = phys s b)"
proof -
  have t: "t = s\<lparr>phys := store_bytes (phys s) (pfn * of_nat (ptedit_pagesize s)) content\<rparr>"
    using assms(5) write_physical_page_stores [OF assms(1,2)] by simp
  have "page_access OS pfn t" using assms(1) by (auto simp: t page_access_def fd_file_def Let_def split: if_splits)
  then have "ptedit_read_physical_page OS pfn buffer t =
      (load_bytes (phys t) (pfn * of_nat (ptedit_pagesize t)) (ptedit_pagesize t), t)"
    by (rule read_physical_page_loads) (simp add: t assms(3))
  moreover have "load_bytes (phys t) (pfn * of_nat (ptedit_pagesize t)) (ptedit_pagesize t) = content"
    using load_bytes_store_bytes [of content "phys s" "pfn * of_nat (ptedit_pagesize s)"] assms(2,4) by (simp add: t)
  ultimately show ?thesis using assms(2,4) by (simp add: t store_bytes_apply)
qed

theorem physical_page_roundtrip_witness:
  "ptedit_read_physical_page sample_os 5 (replicate 4096 0)
     (ptedit_write_physical_page sample_os 5 (replicate 4096 0x41) sample_sys)
   = (replicate 4096 0x41, ptedit_write_physical_page sample_os 5 (replicate 4096 0x41) sample_sys)"
proof -
  have "page_access sample_os 5 sample_sys"
    by (simp add: page_access_def sample_sys_eq sample_os_def umem_serves_def fd_file_def)
  then show ?thesis
    using physical_page_roundtrip [OF _ _ _ _ refl, of sample_os 5 sample_sys "replicate 4096 0x41" "replicate 4096 0"]
    by (simp add: sample_sys_eq)
qed

text \<open>
  C13. When the kernel grants the mapping, the pointer \<open>ptedit_pmap\<close> returns gives access to exactly
  the requested physical bytes, also for an address inside a page: a load at offset \<open>i\<close> reads the
  physical address plus \<open>i\<close>, and a store writes it.
\<close>

theorem pmap_reaches_physical:
  assumes "fd_file (ptedit_umem s) s = Some F_umem"
    and "os_mmap OS F_umem (mappings s) (len + physical mod of_nat (ptedit_pagesize s))
           (physical div of_nat (ptedit_pagesize s) * of_nat (ptedit_pagesize s)) = Some base"
    and "unat len + unat (physical mod of_nat (ptedit_pagesize s)) < 2 ^ 64"
    and "unat i + 8 \<le> unat len"
    and "ptedit_pmap OS physical len s = (q, t)"
  shows "user_load64 (q + i) t = Some (load64 (phys s) (physical + i))
    \<and> user_store64 (q + i) v t = Some (t\<lparr>phys := store64 (phys s) (physical + i) v\<rparr>)"
proof -
  define ps where "ps = (of_nat (ptedit_pagesize s) :: u64)"
  define d where "d = physical mod ps"
  have t: "q = base + d" "t = s\<lparr>mappings := (base, len + d, physical div ps * ps) # mappings s\<rparr>"
    using assms(1,2,5) by (auto simp: ptedit_pmap_def mmap_def Let_def ps_def d_def)
  have "unat (len + d) = unat len + unat d" using assms(3) by (simp add: unat_plus_if' ps_def d_def)
  moreover have "unat (d + i) \<le> unat d + unat i" by (simp add: unat_plus_if')
  moreover have "q + i - base = d + i" by (simp add: t)
  ultimately have inm: "in_mapping (q + i) 8 (base, len + d, physical div ps * ps)"
    using assms(4) unfolding in_mapping_def by (simp only: prod.case)
  have "physical div ps * ps + (q + i - base) = physical + i"
    using div_mult_mod_eq [of physical ps] by (simp add: t d_def add.assoc [symmetric])
  with inm have "mapped (q + i) 8 t = Some (physical + i)" by (simp add: mapped_def t(2))
  then show ?thesis by (simp add: user_load64_def user_store64_def t(2))
qed

theorem pmap_reaches_physical_witness:
  "user_load64 (fst (ptedit_pmap sample_os 0x4004 64 sample_sys) + 4) (snd (ptedit_pmap sample_os 0x4004 64 sample_sys))
   = Some 0x8000000000005067"
proof -
  obtain q t where qt: "ptedit_pmap sample_os 0x4004 64 sample_sys = (q, t)" by fastforce
  have ps: "ptedit_pagesize sample_sys = 4096" by (simp add: sample_sys_eq)
  have "fd_file (ptedit_umem sample_sys) sample_sys = Some F_umem" by (simp add: sample_sys_eq fd_file_def)
  moreover have "\<exists>base. os_mmap sample_os F_umem (mappings sample_sys) (64 + 0x4004 mod 4096) (0x4004 div 4096 * 4096) = Some base"
    by (simp add: sample_os_def)
  then obtain base where "os_mmap sample_os F_umem (mappings sample_sys) (64 + 0x4004 mod 4096) (0x4004 div 4096 * 4096) = Some base" ..
  ultimately show ?thesis
    using pmap_reaches_physical [where s = sample_sys and OS = sample_os and len = 64 and physical = "0x4004" and i = 4 and base = base and q = q and t = t] ps qt
    by (simp add: sample_sys_eq sample_defs sample_loads)
qed

text \<open>
  The serializing barrier writes the root of the current process back as it read it: with a direct
  map that inverts at this root nothing changes but the trace, which shows one read and one write
  section of the lock of the address space.
\<close>

theorem barrier_keeps_state:
  assumes "fd_file (ptedit_fd s) s = Some F_device" and "cfg_arch (os_kernel OS) = X86_64"
    and "current_mm (os_kernel OS) = Some mm" and "\<not> mm_is_locked s"
    and "phys_to_virt (os_kernel OS) (virt_to_phys (os_kernel OS) (mm_pgd s mm)) = mm_pgd s mm"
  shows "ptedit_full_serializing_barrier OS s =
    s\<lparr>trace := trace s @ [Read_lock mm, Read_unlock mm, Write_lock mm, Write_unlock mm]\<rparr>"
  using assms
  by (simp add: ptedit_full_serializing_barrier_def ptedit_get_paging_root_def ptedit_set_paging_root_def
      ioctl_def ioctl_get_root_def ioctl_set_root_def get_mm_def size_of_int_def emit_def Let_def fd_file_def)

theorem barrier_keeps_state_witness:
  "ptedit_full_serializing_barrier sample_os sample_sys =
    sample_sys\<lparr>trace := [Read_lock 3, Read_unlock 3, Write_lock 3, Write_unlock 3]\<rparr>"
  using barrier_keeps_state [of sample_sys sample_os 3]
  by (simp add: sample_sys_eq sample_defs fd_file_def)

end
