(* ===== verification/PT_Print.thy ===== *)
theory PT_Print
  imports PT_Entry
begin

text \<open>
  Printing page-table entries, \<open>ptedit_print_entry_line\<close>, \<open>ptedit_print_entry\<close> and
  \<open>ptedit_print_entry_t\<close> of \<open>ptedit.c\<close>: the text written to the standard output as a string, with the
  escape sequences of the colours.  \<open>%d\<close> prints the small non-negative numbers of the table in decimal,
  \<open>%p\<close> prints as the C library of Linux does.
\<close>

section \<open>Formatted output\<close>

definition PTEDIT_COLOR_GREEN :: string where
  "PTEDIT_COLOR_GREEN = CHR 0x1B # ''[32m''"

definition PTEDIT_COLOR_RESET :: string where
  "PTEDIT_COLOR_RESET = CHR 0x1B # ''[0m''"

definition digit_char :: "nat \<Rightarrow> char" where
  "digit_char d = (if d < 10 then char_of (48 + d) else char_of (87 + d))"

fun digits :: "nat \<Rightarrow> nat \<Rightarrow> string" where
  "digits b n = (if b < 2 \<or> n < b then [digit_char n] else digits b (n div b) @ [digit_char (n mod b)])"

declare digits.simps [simp del]

definition pad :: "nat \<Rightarrow> string \<Rightarrow> string" where
  "pad w s = replicate (w - length s) (CHR '' '') @ s"

definition fmt_d :: "nat \<Rightarrow> nat \<Rightarrow> string" where
  "fmt_d w n = pad w (digits 10 n)"

definition fmt_p :: "nat \<Rightarrow> u64 \<Rightarrow> string" where
  "fmt_p w v = pad w (if v = 0 then ''(nil)'' else ''0x'' @ digits 16 (unat v))"

section \<open>Printing an entry\<close>

definition PTEDIT_B :: "u64 \<Rightarrow> nat \<Rightarrow> nat" where
  "PTEDIT_B v n = (if v AND ull_bit n \<noteq> 0 then 1 else 0)"

text \<open>The format of the macro is the text before the number, the width of the number and the text after it.\<close>

definition PEDIT_PRINT_B :: "string \<times> nat \<times> string \<Rightarrow> nat \<Rightarrow> string" where
  "PEDIT_PRINT_B fmt v =
     (case fmt of (pre, w, post) \<Rightarrow>
       (if v \<noteq> 0 then PTEDIT_COLOR_GREEN @ (pre @ fmt_d w v @ post) @ PTEDIT_COLOR_RESET
        else pre @ fmt_d w v @ post) @ ''|'')"

abbreviation fd :: "string \<times> nat \<times> string" where "fd \<equiv> ('''', 0, '''')"
abbreviation fd2 :: "string \<times> nat \<times> string" where "fd2 \<equiv> ('''', 2, '''')"
abbreviation fsd :: "string \<times> nat \<times> string" where "fsd \<equiv> ('' '', 0, '''')"
abbreviation fsds :: "string \<times> nat \<times> string" where "fsds \<equiv> ('' '', 0, '' '')"

definition newline :: string where "newline = [CHR 0x0A]"

definition print_entry_line_x86 :: "u64 \<Rightarrow> int \<Rightarrow> string" where
  "print_entry_line_x86 entry line =
     (if line = 0 \<or> line = 3 then ''+--+------------------+-+-+-+-+-+-+-+-+--+--+-+-+-+'' @ newline
      else if line = 1 then ''|NX|       PFN        |H|?|?|?|G|S|D|A|UC|WT|U|W|P|'' @ newline
      else if line = 2 then
        ''|''
        @ PEDIT_PRINT_B fsd (PTEDIT_B entry (x86_bit_nr NX))
        @ ('' '' @ fmt_p 16 (drop_bit 12 entry AND (push_bit 40 1 - 1)) @ '' |'')
        @ PEDIT_PRINT_B fd (PTEDIT_B entry (x86_bit_nr PAT_LARGE))
        @ PEDIT_PRINT_B fd (PTEDIT_B entry (x86_bit_nr SOFTW3))
        @ PEDIT_PRINT_B fd (PTEDIT_B entry (x86_bit_nr SOFTW2))
        @ PEDIT_PRINT_B fd (PTEDIT_B entry (x86_bit_nr SOFTW1))
        @ PEDIT_PRINT_B fd (PTEDIT_B entry (x86_bit_nr GLOBAL))
        @ PEDIT_PRINT_B fd (PTEDIT_B entry (x86_bit_nr PSE))
        @ PEDIT_PRINT_B fd (PTEDIT_B entry (x86_bit_nr DIRTY))
        @ PEDIT_PRINT_B fd (PTEDIT_B entry (x86_bit_nr ACCESSED))
        @ PEDIT_PRINT_B fsd (PTEDIT_B entry (x86_bit_nr PCD))
        @ PEDIT_PRINT_B fsd (PTEDIT_B entry (x86_bit_nr PWT))
        @ PEDIT_PRINT_B fd (PTEDIT_B entry (x86_bit_nr USER))
        @ PEDIT_PRINT_B fd (PTEDIT_B entry (x86_bit_nr RW))
        @ PEDIT_PRINT_B fd (PTEDIT_B entry (x86_bit_nr PRESENT))
        @ newline
      else '''')"

text \<open>The cells of the ARMv8 table that combine several bits.\<close>

definition bits5 :: "u64 \<Rightarrow> nat \<Rightarrow> nat \<Rightarrow> nat \<Rightarrow> nat \<Rightarrow> nat \<Rightarrow> nat" where
  "bits5 e a b c d f =
     push_bit 4 (PTEDIT_B e a) OR push_bit 3 (PTEDIT_B e b) OR push_bit 2 (PTEDIT_B e c)
     OR push_bit 1 (PTEDIT_B e d) OR PTEDIT_B e f"

definition bits4 :: "u64 \<Rightarrow> nat \<Rightarrow> nat \<Rightarrow> nat \<Rightarrow> nat \<Rightarrow> nat" where
  "bits4 e a b c d =
     push_bit 3 (PTEDIT_B e a) OR push_bit 2 (PTEDIT_B e b) OR push_bit 1 (PTEDIT_B e c) OR PTEDIT_B e d"

definition bits3 :: "u64 \<Rightarrow> nat \<Rightarrow> nat \<Rightarrow> nat \<Rightarrow> nat" where
  "bits3 e a b c = push_bit 2 (PTEDIT_B e a) OR push_bit 1 (PTEDIT_B e b) OR PTEDIT_B e c"

definition bits2 :: "u64 \<Rightarrow> nat \<Rightarrow> nat \<Rightarrow> nat" where
  "bits2 e a b = push_bit 1 (PTEDIT_B e a) OR PTEDIT_B e b"

definition print_entry_line_arm :: "u64 \<Rightarrow> int \<Rightarrow> string" where
  "print_entry_line_arm entry line =
     (if line = 0 \<or> line = 3 then ''+--+--+--+---+-+--+------------------+--+-+-+-+--+---+-+'' @ newline
      else if line = 1 then ''| ?| ?|XN|PXN|C| ?|        PFN       |NG|A|S|P|NS|MAI|T|'' @ newline
      else if line = 2 then
        ''|''
        @ PEDIT_PRINT_B fd2 (bits5 entry 63 62 61 60 59)
        @ PEDIT_PRINT_B fd2 (bits4 entry 58 57 56 55)
        @ PEDIT_PRINT_B fsd (PTEDIT_B entry 54)
        @ PEDIT_PRINT_B fsds (PTEDIT_B entry 53)
        @ PEDIT_PRINT_B fd (PTEDIT_B entry 52)
        @ PEDIT_PRINT_B fd2 (bits4 entry 51 50 49 48)
        @ ('' '' @ fmt_p 16 (drop_bit 12 entry AND (push_bit 36 1 - 1)) @ '' |'')
        @ PEDIT_PRINT_B fsd (PTEDIT_B entry 11)
        @ PEDIT_PRINT_B fd (PTEDIT_B entry 10)
        @ PEDIT_PRINT_B fd (bits2 entry 9 8)
        @ PEDIT_PRINT_B fd (bits2 entry 7 6)
        @ PEDIT_PRINT_B fsd (PTEDIT_B entry 5)
        @ PEDIT_PRINT_B fsds (bits3 entry 4 3 2)
        @ PEDIT_PRINT_B fd (bits2 entry 1 0)
        @ newline
      else '''')"

definition ptedit_print_entry_line :: "arch \<Rightarrow> u64 \<Rightarrow> int \<Rightarrow> string" where
  "ptedit_print_entry_line A entry line =
     (case A of X86_64 \<Rightarrow> print_entry_line_x86 entry line | AArch64 \<Rightarrow> print_entry_line_arm entry line)"

definition ptedit_print_entry :: "arch \<Rightarrow> u64 \<Rightarrow> string" where
  "ptedit_print_entry A entry = concat (map (\<lambda>i. ptedit_print_entry_line A entry i) [0..3])"

definition print_level :: "arch \<Rightarrow> string \<Rightarrow> level \<Rightarrow> u64 \<Rightarrow> u64 \<Rightarrow> string" where
  "print_level A name l valid_bits entry =
     (if has_valid valid_bits l then (name @ '' of address'' @ newline) @ ptedit_print_entry A entry else '''')"

definition ptedit_print_entry_t :: "arch \<Rightarrow> ptedit_entry_t \<Rightarrow> string" where
  "ptedit_print_entry_t A entry =
     print_level A ''PGD'' PGD (valid entry) (pgd entry)
     @ print_level A ''P4D'' P4D (valid entry) (p4d entry)
     @ print_level A ''PUD'' PUD (valid entry) (pud entry)
     @ print_level A ''PMD'' PMD (valid entry) (pmd entry)
     @ print_level A ''PTE'' PTE (valid entry) (pte entry)"

section \<open>Numbers\<close>

definition char_digit :: "char \<Rightarrow> nat" where
  "char_digit c = (if of_char c < (58 :: nat) then of_char c - 48 else of_char c - 87)"

lemma char_digit [simp]: "d < 16 \<Longrightarrow> char_digit (digit_char d) = d"
  by (auto simp: char_digit_def digit_char_def)

lemma digit_char_plain:
  assumes "d < 16"
  shows "digit_char d \<noteq> CHR '' ''" "digit_char d \<noteq> CHR 0x1B"
proof -
  have "of_char (digit_char d) \<ge> (48 :: nat)" using assms by (auto simp: digit_char_def)
  then show "digit_char d \<noteq> CHR '' ''" "digit_char d \<noteq> CHR 0x1B" by auto
qed

lemma digits_value:
  "2 \<le> b \<Longrightarrow> b \<le> 16 \<Longrightarrow> foldl (\<lambda>a c. a * b + char_digit c) 0 (digits b n) = n"
proof (induction b n rule: digits.induct)
  case (1 b n)
  then show ?case
    by (subst digits.simps) (auto simp: less_le_trans [of _ b 16] div_mult_mod_eq)
qed

lemma digits_inj: "2 \<le> b \<Longrightarrow> b \<le> 16 \<Longrightarrow> digits b n = digits b m \<longleftrightarrow> n = m"
  using digits_value [of b] by metis

lemma digits_plain: "2 \<le> b \<Longrightarrow> b \<le> 16 \<Longrightarrow> c \<in> set (digits b n) \<Longrightarrow> c \<noteq> CHR '' '' \<and> c \<noteq> CHR 0x1B"
proof (induction b n rule: digits.induct)
  case (1 b n)
  have "n < b \<Longrightarrow> n < 16" "n mod b < 16" using 1(2,3) by (auto intro: less_le_trans [of _ b 16])
  with 1 show ?case
    by (subst (asm) (2) digits.simps) (auto simp: digit_char_plain split: if_splits)
qed

lemma digits_not_Nil [simp]: "digits b n \<noteq> []"
  by (subst digits.simps) simp

lemma length_digits: "2 \<le> b \<Longrightarrow> 0 < k \<Longrightarrow> n < b ^ k \<Longrightarrow> length (digits b n) \<le> k"
proof (induction b n arbitrary: k rule: digits.induct)
  case (1 b n)
  show ?case
  proof (cases "n < b")
    case True
    then show ?thesis using 1(3) by (subst digits.simps) simp
  next
    case False
    then have "k \<noteq> 1" using 1(4) by auto
    then obtain j where k: "k = Suc j" "0 < j" using 1(3) by (cases k) auto
    have "n div b < b ^ j" using 1(2,4) k by (simp add: less_mult_imp_div_less mult.commute)
    then have "length (digits b (n div b)) \<le> j" using 1 False k by simp
    then show ?thesis using False 1(2) k by (subst digits.simps) simp
  qed
qed

section \<open>What is visible\<close>

text \<open>The text without the escape sequences of the colours, which end with \<open>m\<close>.\<close>

fun visible :: "bool \<Rightarrow> string \<Rightarrow> string" where
  "visible esc [] = []"
| "visible False (c # cs) = (if c = CHR 0x1B then visible True cs else c # visible False cs)"
| "visible True (c # cs) = visible (c \<noteq> CHR ''m'') cs"

definition plain :: "string \<Rightarrow> bool" where
  "plain s \<longleftrightarrow> CHR 0x1B \<notin> set s"

lemma visible_plain: "plain s \<Longrightarrow> visible False (s @ t) = s @ visible False t"
  by (induction s) (auto simp: plain_def)

lemma visible_colour:
  "visible False (PTEDIT_COLOR_GREEN @ t) = visible False t" "visible False (PTEDIT_COLOR_RESET @ t) = visible False t"
  by (simp_all add: PTEDIT_COLOR_GREEN_def PTEDIT_COLOR_RESET_def)

lemma pad_inj:
  assumes "s = [] \<or> hd s \<noteq> CHR '' ''" and "t = [] \<or> hd t \<noteq> CHR '' ''"
  shows "pad w s = pad w t \<longleftrightarrow> s = t"
proof -
  have drop: "dropWhile (\<lambda>c. c = CHR '' '') (pad w u) = u" if "u = [] \<or> hd u \<noteq> CHR '' ''" for u
    using that unfolding pad_def by (subst dropWhile_append2) (auto simp: dropWhile_eq_self_iff)
  show ?thesis using drop [OF assms(1)] drop [OF assms(2)] by metis
qed

lemma hd_digits: "2 \<le> b \<Longrightarrow> b \<le> 16 \<Longrightarrow> hd (digits b n) \<noteq> CHR '' ''"
  using digits_plain [of b "hd (digits b n)" n] by simp

lemma fmt_d_inj [simp]: "fmt_d w n = fmt_d w m \<longleftrightarrow> n = m"
  by (simp add: fmt_d_def pad_inj hd_digits digits_inj)

lemma fmt_d_plain [simp]: "plain (fmt_d w n)"
  using digits_plain [of 10 _ n] by (auto simp: plain_def fmt_d_def pad_def)

lemma fmt_p_plain [simp]: "plain (fmt_p w v)"
  using digits_plain [of 16 _ "unat v"] by (auto simp: plain_def fmt_p_def pad_def)

lemma fmt_p_inj [simp]: "fmt_p w v = fmt_p w u \<longleftrightarrow> v = u"
  by (auto simp: fmt_p_def pad_inj digits_inj unsigned_word_eqI)

lemma length_fmt_d1: "n < 10 \<Longrightarrow> length (fmt_d 0 n) = 1"
  using length_digits [of 10 1 n] digits_not_Nil [of 10 n] by (cases "digits 10 n") (auto simp: fmt_d_def pad_def)

lemma length_fmt_d2: "n < 100 \<Longrightarrow> length (fmt_d 2 n) = 2"
  using length_digits [of 10 2 n] by (simp add: fmt_d_def pad_def)

lemma length_fmt_p: "unat v < 2 ^ 40 \<Longrightarrow> length (fmt_p 16 v) = 16"
  using length_digits [of 16 10 "unat v"] by (simp add: fmt_p_def pad_def)

text \<open>The visible text of a cell.\<close>

definition cell :: "string \<times> nat \<times> string \<Rightarrow> nat \<Rightarrow> string" where
  "cell fmt v = (case fmt of (pre, w, post) \<Rightarrow> pre @ fmt_d w v @ post @ ''|'')"

lemma visible_cell:
  assumes "plain (fst fmt)" and "plain (snd (snd fmt))"
  shows "visible False (PEDIT_PRINT_B fmt v @ t) = cell fmt v @ visible False t"
proof -
  obtain pre w post where fmt: "fmt = (pre, w, post)" by (metis prod_cases3)
  have "plain pre" "plain post" using assms by (simp_all add: fmt)
  then show ?thesis
    by (simp add: PEDIT_PRINT_B_def fmt cell_def visible_colour visible_plain)
qed

lemma cell_inj: "cell fmt v = cell fmt u \<longleftrightarrow> v = u"
  by (simp add: cell_def split: prod.split)

lemma visible_p: "visible False (('' '' @ fmt_p 16 v @ '' |'') @ t) = '' '' @ fmt_p 16 v @ '' |'' @ visible False t"
  by (simp add: visible_plain)

lemma length_cell:
  "v < 10 \<Longrightarrow> length (cell fd v) = 2" "v < 10 \<Longrightarrow> length (cell fsd v) = 3" "v < 10 \<Longrightarrow> length (cell fsds v) = 4"
  "v < 100 \<Longrightarrow> length (cell fd2 v) = 3"
  by (simp_all add: cell_def length_fmt_d1 length_fmt_d2)

lemma PTEDIT_B_eq: "PTEDIT_B v n = of_bool (bit v n)"
  by (simp add: PTEDIT_B_def and_ull_bit)

lemma bits_eq:
  "bits5 e a b c d f = 16 * of_bool (bit e a) + 8 * of_bool (bit e b) + 4 * of_bool (bit e c) + 2 * of_bool (bit e d) + of_bool (bit e f)"
  "bits4 e a b c d = 8 * of_bool (bit e a) + 4 * of_bool (bit e b) + 2 * of_bool (bit e c) + of_bool (bit e d)"
  "bits3 e a b c = 4 * of_bool (bit e a) + 2 * of_bool (bit e b) + of_bool (bit e c)"
  "bits2 e a b = 2 * of_bool (bit e a) + of_bool (bit e b)"
  unfolding bits5_def bits4_def bits3_def bits2_def PTEDIT_B_eq
  by (cases "bit e a"; cases "bit e b"; cases "bit e c"; cases "bit e d"; cases "bit e f"; simp)+

lemma bits_bounds: "bits5 e a b c d f < 100" "bits4 e a b c d < 100" "bits3 e a b c < 10" "bits2 e a b < 10" "PTEDIT_B e a < 10"
  by (simp_all add: bits_eq PTEDIT_B_eq of_bool_def)

lemma bits_inj:
  "bits5 e a b c d f = bits5 e' a b c d f \<longleftrightarrow>
     bit e a = bit e' a \<and> bit e b = bit e' b \<and> bit e c = bit e' c \<and> bit e d = bit e' d \<and> bit e f = bit e' f"
  "bits4 e a b c d = bits4 e' a b c d \<longleftrightarrow>
     bit e a = bit e' a \<and> bit e b = bit e' b \<and> bit e c = bit e' c \<and> bit e d = bit e' d"
  "bits3 e a b c = bits3 e' a b c \<longleftrightarrow> bit e a = bit e' a \<and> bit e b = bit e' b \<and> bit e c = bit e' c"
  "bits2 e a b = bits2 e' a b \<longleftrightarrow> bit e a = bit e' a \<and> bit e b = bit e' b"
  "PTEDIT_B e a = PTEDIT_B e' a \<longleftrightarrow> bit e a = bit e' a"
  unfolding bits_eq PTEDIT_B_eq of_bool_def by (simp_all split: if_split)

lemma pfn_bound: "w \<le> 40 \<Longrightarrow> unat (v AND (push_bit w 1 - 1) :: u64) < 2 ^ 40"
proof -
  assume w: "w \<le> 40"
  have "unat (v AND (push_bit w 1 - 1)) = take_bit w (unat v)"
    unfolding low_mask_eq by (simp add: unsigned_take_bit_eq flip: take_bit_eq_mask)
  also have "\<dots> < 2 ^ w" by simp
  also have "\<dots> \<le> 2 ^ 40" using w by (rule power_increasing) simp
  finally show ?thesis .
qed

definition pfn_cell :: "nat \<Rightarrow> u64 \<Rightarrow> string" where
  "pfn_cell w e = '' '' @ fmt_p 16 (drop_bit 12 e AND (push_bit w 1 - 1)) @ '' |''"

text \<open>The visible text of the line with the values.\<close>

lemma visible_x86:
  "visible False (print_entry_line_x86 e 2) =
     ''|'' @ cell fsd (PTEDIT_B e 63) @ pfn_cell 40 e
     @ cell fd (PTEDIT_B e 12) @ cell fd (PTEDIT_B e 11) @ cell fd (PTEDIT_B e 10) @ cell fd (PTEDIT_B e 9)
     @ cell fd (PTEDIT_B e 8) @ cell fd (PTEDIT_B e 7) @ cell fd (PTEDIT_B e 6) @ cell fd (PTEDIT_B e 5)
     @ cell fsd (PTEDIT_B e 4) @ cell fsd (PTEDIT_B e 3) @ cell fd (PTEDIT_B e 2) @ cell fd (PTEDIT_B e 1)
     @ cell fd (PTEDIT_B e 0) @ newline"
  by (simp add: print_entry_line_x86_def newline_def pfn_cell_def visible_cell visible_plain
      plain_def [of "[]"] plain_def [of "[c]" for c])

lemma visible_arm:
  "visible False (print_entry_line_arm e 2) =
     ''|'' @ cell fd2 (bits5 e 63 62 61 60 59) @ cell fd2 (bits4 e 58 57 56 55) @ cell fsd (PTEDIT_B e 54)
     @ cell fsds (PTEDIT_B e 53) @ cell fd (PTEDIT_B e 52) @ cell fd2 (bits4 e 51 50 49 48) @ pfn_cell 36 e
     @ cell fsd (PTEDIT_B e 11) @ cell fd (PTEDIT_B e 10) @ cell fd (bits2 e 9 8) @ cell fd (bits2 e 7 6)
     @ cell fsd (PTEDIT_B e 5) @ cell fsds (bits3 e 4 3 2) @ cell fd (bits2 e 1 0) @ newline"
  by (simp add: print_entry_line_arm_def newline_def pfn_cell_def visible_cell visible_plain
      plain_def [of "[]"] plain_def [of "[c]" for c])

lemma length_pfn_cell: "w \<le> 40 \<Longrightarrow> length (pfn_cell w e) = 19"
  unfolding pfn_cell_def by (simp add: length_fmt_p [OF pfn_bound] del: push_bit_of_1)

lemmas line_lengths = length_append length_cell bits_bounds length_pfn_cell

lemma width_values:
  "length (visible False (print_entry_line_x86 e 2)) = 52"
  "length (visible False (print_entry_line_arm e 2)) = 57"
  unfolding visible_x86 visible_arm newline_def by (simp_all add: line_lengths)

lemma width_frame:
  "length (visible False (print_entry_line_x86 e 0)) = 52" "length (visible False (print_entry_line_x86 e 1)) = 52"
  "length (visible False (print_entry_line_x86 e 3)) = 52"
  "length (visible False (print_entry_line_arm e 0)) = 57" "length (visible False (print_entry_line_arm e 1)) = 57"
  "length (visible False (print_entry_line_arm e 3)) = 57"
  by (simp_all add: print_entry_line_x86_def print_entry_line_arm_def newline_def)

section \<open>Properties of the printed table\<close>

text \<open>
  The four lines an entry is printed in have the same visible width on both architectures,
  whatever the entry: the borders, the names of the columns and the values form an aligned table.
\<close>

theorem print_entry_aligned:
  "map (\<lambda>line. length (visible False (ptedit_print_entry_line A e line))) [0, 1, 2, 3] =
     replicate 4 (case A of X86_64 \<Rightarrow> 52 | AArch64 \<Rightarrow> 57)"
  by (cases A) (simp_all add: ptedit_print_entry_line_def width_values width_frame numeral_eq_Suc [of num.One] replicate_Suc eval_nat_numeral)

lemma bit_pfn_cell: "bit (drop_bit 12 e AND (push_bit w 1 - 1)) k \<longleftrightarrow> k < 64 \<and> k < w \<and> bit (e :: u64) (12 + k)"
  by (simp only: bit_and_iff bit_low_mask bit_drop_bit_eq o_apply) auto

lemma word_eq_bits: "x = y \<longleftrightarrow> (\<forall>k. bit x k = bit (y :: u64) k)"
  by (auto intro: bit_eqI)

lemma pfn_cell_inj:
  assumes "w \<le> 52"
  shows "pfn_cell w e = pfn_cell w e' \<longleftrightarrow> (\<forall>k<w. bit e (12 + k) = bit e' (12 + k))"
proof -
  let ?f = "\<lambda>e. drop_bit 12 e AND (push_bit w 1 - 1) :: u64"
  have "pfn_cell w e = pfn_cell w e' \<longleftrightarrow> ?f e = ?f e'" by (simp add: pfn_cell_def del: push_bit_of_1)
  also have "\<dots> \<longleftrightarrow> (\<forall>k. bit (?f e) k = bit (?f e') k)" by (rule word_eq_bits)
  also have "\<dots> \<longleftrightarrow> (\<forall>k<w. bit e (12 + k) = bit e' (12 + k))"
    unfolding bit_pfn_cell
  proof
    assume all: "\<forall>k. (k < 64 \<and> k < w \<and> bit e (12 + k)) = (k < 64 \<and> k < w \<and> bit e' (12 + k))"
    have "bit e (12 + k) = bit e' (12 + k)" if "k < w" for k
     
    proof -
      have "k < 64" using that assms by linarith
      with all [THEN spec, of k] that show ?thesis by blast
    qed
    then show "\<forall>k<w. bit e (12 + k) = bit e' (12 + k)" by blast
  qed blast
  finally show ?thesis .
qed

text \<open>Every cell has a fixed width, so equal lines have equal cells.\<close>

lemma cell_append:
  "v < 10 \<Longrightarrow> u < 10 \<Longrightarrow> cell fd v @ xs = cell fd u @ ys \<longleftrightarrow> v = u \<and> xs = ys"
  "v < 10 \<Longrightarrow> u < 10 \<Longrightarrow> cell fsd v @ xs = cell fsd u @ ys \<longleftrightarrow> v = u \<and> xs = ys"
  "v < 10 \<Longrightarrow> u < 10 \<Longrightarrow> cell fsds v @ xs = cell fsds u @ ys \<longleftrightarrow> v = u \<and> xs = ys"
  "v < 100 \<Longrightarrow> u < 100 \<Longrightarrow> cell fd2 v @ xs = cell fd2 u @ ys \<longleftrightarrow> v = u \<and> xs = ys"
  by (subst append_eq_append_conv; simp add: length_cell cell_inj)+

lemma pfn_cell_append:
  "w \<le> 40 \<Longrightarrow> pfn_cell w e @ xs = pfn_cell w e' @ ys \<longleftrightarrow> (\<forall>k<w. bit e (12 + k) = bit e' (12 + k)) \<and> xs = ys"
  by (subst append_eq_append_conv) (simp_all add: length_pfn_cell pfn_cell_inj)

lemma line_x86_eq:
  "visible False (print_entry_line_x86 e 2) = visible False (print_entry_line_x86 e' 2) \<longleftrightarrow>
     bit e 63 = bit e' 63 \<and> (\<forall>k<40. bit e (12 + k) = bit e' (12 + k)) \<and> (\<forall>n<13. bit e n = bit e' n)"
proof -
  have "(\<forall>n<13. bit e n = bit e' n) \<longleftrightarrow> (\<forall>n\<in>{12, 11, 10, 9, 8, 7, 6, 5, 4, 3, 2, 1, 0}. bit e n = bit e' n)"
    by (simp add: All_less_Suc numeral_eq_Suc)
  note this [simp]
  show ?thesis
    unfolding visible_x86 by (simp add: cell_append pfn_cell_append bits_bounds bits_inj cell_inj)
qed

lemma all_less_16: "(\<forall>n<16. P n) \<longleftrightarrow> (\<forall>n\<in>{15, 14, 13, 12, 11, 10, 9, 8, 7, 6, 5, 4, 3, 2, 1, 0 :: nat}. P n)"
  by (simp add: All_less_Suc numeral_eq_Suc)

lemma line_arm_eq:
  "visible False (print_entry_line_arm e 2) = visible False (print_entry_line_arm e' 2) \<longleftrightarrow>
     (\<forall>n<16. bit e (48 + n) = bit e' (48 + n)) \<and> (\<forall>k<36. bit e (12 + k) = bit e' (12 + k))
     \<and> (\<forall>n<12. bit e n = bit e' n)"
proof -
  have low: "(\<forall>n<12. bit e n = bit e' n) \<longleftrightarrow> (\<forall>n\<in>{11, 10, 9, 8, 7, 6, 5, 4, 3, 2, 1, 0}. bit e n = bit e' n)"
    by (simp add: All_less_Suc numeral_eq_Suc)
  have "(\<forall>n<16. bit e (48 + n) = bit e' (48 + n)) \<longleftrightarrow>
      (\<forall>n\<in>{63, 62, 61, 60, 59, 58, 57, 56, 55, 54, 53, 52, 51, 50, 49, 48}. bit e n = bit e' n)"
    unfolding all_less_16 by simp
  note this [simp] low [simp]
  show ?thesis
    unfolding visible_arm by (simp add: cell_append pfn_cell_append bits_bounds bits_inj cell_inj)
qed

text \<open>The bits of an entry that the table shows.\<close>

definition shown_bits :: "arch \<Rightarrow> u64" where
  "shown_bits A = (case A of X86_64 \<Rightarrow> mask 52 OR ull_bit 63 | AArch64 \<Rightarrow> mask 64)"

lemma and_eq_iff: "x AND m = y AND m \<longleftrightarrow> (\<forall>k. bit m k \<longrightarrow> bit x k = bit (y :: u64) k)"
  unfolding word_eq_bits by (auto simp: bit_and_iff)

lemma all_less_add: "(\<forall>k<a + b. P k) \<longleftrightarrow> (\<forall>k<a. P k) \<and> (\<forall>k<b. P (a + k :: nat))"
proof safe
  fix k assume "\<forall>k<a. P k" "\<forall>k<b. P (a + k)" "k < a + b"
  then show "P k" by (cases "k < a") (auto dest: spec [of _ "k - a"])
qed auto

lemma shown_x86:
  "e AND shown_bits X86_64 = e' AND shown_bits X86_64 \<longleftrightarrow>
     bit e 63 = bit e' 63 \<and> (\<forall>k<40. bit e (12 + k) = bit e' (12 + k)) \<and> (\<forall>n<13. bit e n = bit e' n)"
proof -
  define Q where "Q n \<longleftrightarrow> bit e n = bit e' n" for n
  have "bit (shown_bits X86_64) k \<longleftrightarrow> k = 63 \<or> k < 52" for k
    by (auto simp: shown_bits_def bit_or_iff bit_mask_iff bit_ull_bit)
  then have "e AND shown_bits X86_64 = e' AND shown_bits X86_64 \<longleftrightarrow> (\<forall>k. k = 63 \<or> k < 52 \<longrightarrow> Q k)"
    by (simp add: and_eq_iff Q_def)
  also have "\<dots> \<longleftrightarrow> Q 63 \<and> (\<forall>k<40. Q (12 + k)) \<and> (\<forall>k<12. Q k)"
    using all_less_add [of 12 40 Q] by auto
  also have "\<dots> \<longleftrightarrow> Q 63 \<and> (\<forall>k<40. Q (12 + k)) \<and> (\<forall>k<13. Q k)"
    using All_less_Suc [of 12 Q] by (auto dest: spec [of "\<lambda>k. k < 40 \<longrightarrow> Q (12 + k)" 0])
  finally show ?thesis by (simp only: Q_def)
qed

lemma shown_arm:
  "e AND shown_bits AArch64 = e' AND shown_bits AArch64 \<longleftrightarrow>
     (\<forall>n<16. bit e (48 + n) = bit e' (48 + n)) \<and> (\<forall>k<36. bit e (12 + k) = bit e' (12 + k))
     \<and> (\<forall>n<12. bit e n = bit e' n)"
proof -
  define Q where "Q n \<longleftrightarrow> bit e n = bit e' n" for n
  have "e AND shown_bits AArch64 = e' AND shown_bits AArch64 \<longleftrightarrow> (\<forall>k<64. Q k)"
    by (simp add: and_eq_iff shown_bits_def bit_mask_iff Q_def)
  also have "\<dots> \<longleftrightarrow> (\<forall>n<16. Q (48 + n)) \<and> (\<forall>k<36. Q (12 + k)) \<and> (\<forall>n<12. Q n)"
    using all_less_add [of 48 16 Q] all_less_add [of 12 36 Q] by auto
  finally show ?thesis by (simp only: Q_def)
qed

text \<open>An entry is printed from its shown bits alone.\<close>

lemma line_determined:
  assumes "visible False (ptedit_print_entry_line A e 2) = visible False (ptedit_print_entry_line A e' 2)"
  shows "ptedit_print_entry_line A e 2 = ptedit_print_entry_line A e' 2"
proof (cases A)
  case X86_64
  with assms have "bit e 63 = bit e' 63" "pfn_cell 40 e = pfn_cell 40 e'" "\<And>n. n < 13 \<Longrightarrow> bit e n = bit e' n"
    by (simp_all add: ptedit_print_entry_line_def line_x86_eq pfn_cell_inj)
  then show ?thesis using X86_64
    by (simp add: ptedit_print_entry_line_def print_entry_line_x86_def PTEDIT_B_eq pfn_cell_def)
next
  case AArch64
  with assms have *: "\<And>n. n < 16 \<Longrightarrow> bit e (48 + n) = bit e' (48 + n)" "pfn_cell 36 e = pfn_cell 36 e'"
    "\<And>n. n < 12 \<Longrightarrow> bit e n = bit e' n"
    by (simp_all add: ptedit_print_entry_line_def line_arm_eq pfn_cell_inj)
  then have "\<forall>n\<in>{63, 62, 61, 60, 59, 58, 57, 56, 55, 54, 53, 52, 51, 50, 49, 48}. bit e n = bit e' n"
    using all_less_16 [of "\<lambda>n. bit e (48 + n) = bit e' (48 + n)"] by simp
  with *(2,3) show ?thesis using AArch64
    by (simp add: ptedit_print_entry_line_def print_entry_line_arm_def PTEDIT_B_eq bits_eq pfn_cell_def)
qed

text \<open>
  The printed values identify the entry up to the bits the table does not show: two entries are
  printed alike exactly when they agree on the shown bits, which are all 64 bits on ARMv8, and on x86
  all but bits 52 to 62.
\<close>

theorem print_line_identifies:
  "ptedit_print_entry_line A e 2 = ptedit_print_entry_line A e' 2
   \<longleftrightarrow> e AND shown_bits A = e' AND shown_bits A"
proof -
  have "e AND shown_bits A = e' AND shown_bits A \<longleftrightarrow>
      visible False (ptedit_print_entry_line A e 2) = visible False (ptedit_print_entry_line A e' 2)"
    by (cases A) (simp_all only: ptedit_print_entry_line_def arch.case shown_x86 shown_arm line_x86_eq line_arm_eq)
  then show ?thesis using line_determined by metis
qed

end
