(* ===== verification/PT_Memmap.thy ===== *)
theory PT_Memmap
  imports PT_System PT_Print
begin

text \<open>
  The two tools among the demos that interpret page tables on their own: \<open>demos/memmap.c\<close>, which walks
  all tables of a process through physical pages and lists what is mapped, and \<open>demos/virt2phys.c\<close>,
  which computes a physical address.  The list of \<open>memmap\<close> is compared with the hardware's page walk.
\<close>

section \<open>Classifying entries\<close>

definition is_present :: "arch \<Rightarrow> u64 \<Rightarrow> bool" where
  "is_present A entry =
     (case A of X86_64 \<Rightarrow> entry AND ull_bit (x86_bit_nr PRESENT) \<noteq> 0 | AArch64 \<Rightarrow> entry AND 3 = 3)"

definition is_normal_page :: "arch \<Rightarrow> u64 \<Rightarrow> bool" where
  "is_normal_page A entry =
     (case A of X86_64 \<Rightarrow> entry AND ull_bit (x86_bit_nr PSE) = 0 | AArch64 \<Rightarrow> True)"

definition FIRST_LEVEL_ENTRIES :: "arch \<Rightarrow> nat" where
  "FIRST_LEVEL_ENTRIES A = (case A of X86_64 \<Rightarrow> 256 | AArch64 \<Rightarrow> 512)"

section \<open>memmap\<close>

text \<open>
  The output as a list of items, each of which stands for the text \<open>memmap_text\<close> gives: the dump of an
  entry, the line of a 4 KB page and the line of a 2 MB page.  The four buffers keep their content
  when a page cannot be read.
\<close>

datatype memmap_item = Dump string u64 | Line_4k u64 | Line_2m u64

record memmap =
  mm_sys :: sys
  buf_pdpt :: "u8 list"
  buf_pd :: "u8 list"
  buf_pt :: "u8 list"
  mm_out :: "memmap_item list"
  mem_usage :: u64

definition table_entry :: "u8 list \<Rightarrow> nat \<Rightarrow> u64" where
  "table_entry buf i = le64 (take 8 (drop (8 * i) buf))"

definition put :: "memmap_item list \<Rightarrow> u64 \<Rightarrow> memmap \<Rightarrow> memmap" where
  "put items n m = m\<lparr>mm_out := mm_out m @ items, mem_usage := mem_usage m + n\<rparr>"

definition page_address :: "arch \<Rightarrow> nat \<Rightarrow> nat \<Rightarrow> nat \<Rightarrow> nat \<Rightarrow> u64" where
  "page_address A pml4i pdpti pdi pti =
     (case A of
        X86_64 \<Rightarrow> push_bit 12 (of_nat pti) OR push_bit 21 (of_nat pdi) OR push_bit 30 (of_nat pdpti)
                  OR push_bit 39 (of_nat pml4i)
      | AArch64 \<Rightarrow> push_bit 12 (of_nat pti) OR push_bit 21 (of_nat pdi) OR push_bit 30 (of_nat pml4i))"

definition large_address :: "nat \<Rightarrow> nat \<Rightarrow> nat \<Rightarrow> u64" where
  "large_address pml4i pdpti pdi =
     push_bit 21 (of_nat pdi) OR push_bit 30 (of_nat pdpti) OR push_bit 39 (of_nat pml4i)"

definition memmap_pt :: "arch \<Rightarrow> nat \<Rightarrow> nat \<Rightarrow> nat \<Rightarrow> nat \<Rightarrow> memmap \<Rightarrow> memmap" where
  "memmap_pt A pml4i pdpti pdi pti m =
     (let pt_entry = table_entry (buf_pt m) pti in
      if \<not> is_present A pt_entry then m
      else put [Line_4k (page_address A pml4i pdpti pdi pti)] 4096 (put [Dump ''        PT  '' pt_entry] 0 m))"

definition memmap_pd :: "os \<Rightarrow> nat \<Rightarrow> nat \<Rightarrow> nat \<Rightarrow> memmap \<Rightarrow> memmap" where
  "memmap_pd OS pml4i pdpti pdi m =
     (let A = cfg_arch (os_kernel OS); pd_entry = table_entry (buf_pd m) pdi in
      if \<not> is_present A pd_entry then m
      else
        let m = put [Dump ''    PD  '' pd_entry] 0 m in
        if is_normal_page A pd_entry then
          let (bs, s) = ptedit_read_physical_page OS (ptedit_get_pfn A pd_entry) (buf_pt m) (mm_sys m);
              m = m\<lparr>buf_pt := bs, mm_sys := s\<rparr>
          in fold (memmap_pt A pml4i pdpti pdi) [0..<512] m
        else put [Line_2m (large_address pml4i pdpti pdi)] (2 * 1024 * 1024) m)"

text \<open>The loop over the page directory that an entry of the level above refers to.\<close>

definition memmap_directory :: "os \<Rightarrow> nat \<Rightarrow> nat \<Rightarrow> u64 \<Rightarrow> memmap \<Rightarrow> memmap" where
  "memmap_directory OS pml4i pdpti pdpt_entry m =
     (let (bs, s) = ptedit_read_physical_page OS (ptedit_get_pfn (cfg_arch (os_kernel OS)) pdpt_entry) (buf_pd m) (mm_sys m);
          m = m\<lparr>buf_pd := bs, mm_sys := s\<rparr>
      in fold (memmap_pd OS pml4i pdpti) [0..<512] m)"

definition memmap_pdpt :: "os \<Rightarrow> nat \<Rightarrow> nat \<Rightarrow> memmap \<Rightarrow> memmap" where
  "memmap_pdpt OS pml4i pdpti m =
     (let pdpt_entry = table_entry (buf_pdpt m) pdpti in
      if \<not> is_present (cfg_arch (os_kernel OS)) pdpt_entry then m
      else memmap_directory OS pml4i pdpti pdpt_entry (put [Dump ''PDPT'' pdpt_entry] 0 m))"

text \<open>On ARMv8 there is no PDPT level, and its index is not used.\<close>

definition memmap_pml4 :: "os \<Rightarrow> u8 list \<Rightarrow> nat \<Rightarrow> memmap \<Rightarrow> memmap" where
  "memmap_pml4 OS buf4 pml4i m =
     (let A = cfg_arch (os_kernel OS); pml4_entry = table_entry buf4 pml4i in
      if \<not> is_present A pml4_entry then m
      else
        let m = put [Dump '''' pml4_entry] 0 m in
        case A of
          X86_64 \<Rightarrow>
            (let (bs, s) = ptedit_read_physical_page OS (ptedit_get_pfn A pml4_entry) (buf_pdpt m) (mm_sys m);
                 m = m\<lparr>buf_pdpt := bs, mm_sys := s\<rparr>
             in fold (memmap_pdpt OS pml4i) [0..<512] m)
        | AArch64 \<Rightarrow> memmap_directory OS pml4i 0 pml4_entry m)"

definition memmap_traverse :: "os \<Rightarrow> u64 \<Rightarrow> u64 \<Rightarrow> u8 list \<Rightarrow> memmap \<Rightarrow> memmap" where
  "memmap_traverse OS root pagesize buf4 m =
     (let (buf4, s) = ptedit_read_physical_page OS (root div pagesize) buf4 (mm_sys m)
      in fold (memmap_pml4 OS buf4) [0..<FIRST_LEVEL_ENTRIES (cfg_arch (os_kernel OS))] (m\<lparr>mm_sys := s\<rparr>))"

text \<open>The text of the output; \<open>%zx\<close> and \<open>%zd\<close> print hexadecimal and decimal numbers.\<close>

fun memmap_text :: "arch \<Rightarrow> memmap_item \<Rightarrow> string" where
  "memmap_text A (Dump type entry) = concat (map (\<lambda>i. type @ ptedit_print_entry_line A entry i) [0..3])"
| "memmap_text A (Line_4k v) = ''            -> '' @ digits 16 (unat v) @ newline"
| "memmap_text A (Line_2m v) = ''        -> '' @ digits 16 (unat v) @ newline"

definition fmt_zd :: "i32 \<Rightarrow> string" where
  "fmt_zd v = (if sint v < 0 then ''-'' else [])  @ digits 10 (nat \<bar>sint v\<bar>)"

text \<open>
  \<open>main\<close>, with the process id of the command line and the initial content of the four buffers: the
  exit status, the text and the state.
\<close>

definition memmap_main :: "os \<Rightarrow> i32 \<Rightarrow> u8 list \<Rightarrow> u8 list \<Rightarrow> u8 list \<Rightarrow> u8 list \<Rightarrow> sys \<Rightarrow> int \<times> string \<times> sys" where
  "memmap_main OS proc b4 b3 b2 b1 s =
     (let (r, s) = ptedit_init OS s in
      if r \<noteq> 0 then (1, ''Error: Could not initalize PTEditor, did you load the kernel module?'' @ newline, s)
      else
        let (root, s) = ptedit_get_paging_root OS proc s;
            pagesize = of_int (ptedit_get_pagesize OS s);
            m = memmap_traverse OS root pagesize b4
                  \<lparr>mm_sys = s, buf_pdpt = b3, buf_pd = b2, buf_pt = b1, mm_out = [], mem_usage = 0\<rparr>
        in (0, ''Dumping PID '' @ fmt_zd proc @ newline
               @ concat (map (memmap_text (cfg_arch (os_kernel OS))) (mm_out m))
               @ ''Used memory: '' @ digits 10 (unat (mem_usage m div 1024)) @ '' KB'' @ newline,
            ptedit_cleanup (mm_sys m)))"

section \<open>virt2phys\<close>

definition virt2phys :: "arch \<Rightarrow> u64 \<Rightarrow> ptedit_entry_t \<Rightarrow> u64" where
  "virt2phys A target entry =
     (if is_normal_page A (pmd entry) then push_bit 12 (ptedit_get_pfn A (pte entry)) OR (target AND 0xfff)
      else push_bit 12 (ptedit_get_pfn A (pmd entry)) OR (target AND 0x1fffff))"

section \<open>The list as a function of memory\<close>

definition items_pt :: "arch \<Rightarrow> mem \<Rightarrow> u64 \<Rightarrow> nat \<Rightarrow> nat \<Rightarrow> nat \<Rightarrow> memmap_item list" where
  "items_pt A M base i4 i3 i2 =
     concat (map (\<lambda>i1. let e = load64 M (base + of_nat i1 * 8) in
       if is_present A e then [Dump ''        PT  '' e, Line_4k (page_address A i4 i3 i2 i1)] else []) [0..<512])"

definition items_pd :: "arch \<Rightarrow> mem \<Rightarrow> u64 \<Rightarrow> nat \<Rightarrow> nat \<Rightarrow> memmap_item list" where
  "items_pd A M base i4 i3 =
     concat (map (\<lambda>i2. let e = load64 M (base + of_nat i2 * 8) in
       if is_present A e then
         Dump ''    PD  '' e # (if is_normal_page A e then items_pt A M (ptedit_get_pfn A e * 4096) i4 i3 i2
                               else [Line_2m (large_address i4 i3 i2)])
       else []) [0..<512])"

definition items_pdpt :: "arch \<Rightarrow> mem \<Rightarrow> u64 \<Rightarrow> nat \<Rightarrow> memmap_item list" where
  "items_pdpt A M base i4 =
     concat (map (\<lambda>i3. let e = load64 M (base + of_nat i3 * 8) in
       if is_present A e then Dump ''PDPT'' e # items_pd A M (ptedit_get_pfn A e * 4096) i4 i3 else []) [0..<512])"

definition memmap_items :: "arch \<Rightarrow> mem \<Rightarrow> u64 \<Rightarrow> memmap_item list" where
  "memmap_items A M base =
     concat (map (\<lambda>i4. let e = load64 M (base + of_nat i4 * 8) in
       if is_present A e then
         Dump [] e # (case A of X86_64 \<Rightarrow> items_pdpt A M (ptedit_get_pfn A e * 4096) i4
                      | AArch64 \<Rightarrow> items_pd A M (ptedit_get_pfn A e * 4096) i4 0)
       else []) [0..<FIRST_LEVEL_ENTRIES A])"

fun item_usage :: "memmap_item \<Rightarrow> u64" where
  "item_usage (Dump n e) = 0"
| "item_usage (Line_4k v) = 4096"
| "item_usage (Line_2m v) = 2 * 1024 * 1024"

definition usage :: "memmap_item list \<Rightarrow> u64" where
  "usage items = sum_list (map item_usage items)"

lemma usage_simps [simp]:
  "usage [] = 0" "usage (x # xs) = item_usage x + usage xs" "usage (xs @ ys) = usage xs + usage ys"
  by (simp_all add: usage_def)

text \<open>What a part of the traversal does: it appends items and counts their size.\<close>

definition emits :: "memmap_item list \<Rightarrow> memmap \<Rightarrow> memmap \<Rightarrow> bool" where
  "emits items m m' \<longleftrightarrow> mm_out m' = mm_out m @ items \<and> mem_usage m' = mem_usage m + usage items"

lemma emits_refl: "emits [] m m"
  by (simp add: emits_def)

lemma emits_trans: "emits xs m m' \<Longrightarrow> emits ys m' m'' \<Longrightarrow> emits (xs @ ys) m m''"
  by (simp add: emits_def add.assoc)

lemma fold_emits:
  assumes "\<And>i m. i \<in> set xs \<Longrightarrow> P m \<Longrightarrow> P (step i m) \<and> emits (f i) m (step i m)" and "P m"
  shows "P (fold step xs m) \<and> emits (concat (map f xs)) m (fold step xs m)"
  using assms
proof (induction xs arbitrary: m)
  case Nil
  then show ?case by (simp add: emits_refl)
next
  case (Cons x xs)
  have x: "P (step x m)" "emits (f x) m (step x m)" using Cons.prems by auto
  then have "P (fold step xs (step x m)) \<and> emits (concat (map f xs)) (step x m) (fold step xs (step x m))"
    by (intro Cons.IH) (use Cons.prems in auto)
  with x show ?case using emits_trans by fastforce
qed

lemma table_entry_load:
  assumes "i < 512"
  shows "table_entry (load_bytes M a 4096) i = load64 M (a + of_nat i * 8)"
proof -
  have "take 8 (drop (8 * i) (load_bytes M a 4096)) = load_bytes M (a + of_nat i * 8) 8"
    using assms by (intro nth_equalityI) (simp_all add: load_bytes_def nth_append algebra_simps del: upt_Suc)
  then show ?thesis by (simp add: table_entry_def load64_def)
qed

text \<open>Every physical page can be read, and pages have 4 KB.\<close>

definition all_pages :: "os \<Rightarrow> sys \<Rightarrow> bool" where
  "all_pages OS s \<longleftrightarrow> ptedit_pagesize s = 4096 \<and> (\<forall>pfn. page_access OS pfn s)"

lemma read_all_pages:
  "all_pages OS s \<Longrightarrow> length buffer = 4096 \<Longrightarrow>
   ptedit_read_physical_page OS pfn buffer s = (load_bytes (phys s) (pfn * 4096) 4096, s)"
  using read_physical_page_loads [of OS pfn s buffer] by (simp add: all_pages_def)

definition mm_ok :: "sys \<Rightarrow> memmap \<Rightarrow> bool" where
  "mm_ok s m \<longleftrightarrow> mm_sys m = s \<and> length (buf_pdpt m) = 4096 \<and> length (buf_pd m) = 4096 \<and> length (buf_pt m) = 4096"

lemma mm_ok_put [simp]: "mm_ok s (put xs n m) = mm_ok s m"
  by (simp add: mm_ok_def put_def)

lemma put_bufs [simp]:
  "buf_pdpt (put xs n m) = buf_pdpt m" "buf_pd (put xs n m) = buf_pd m" "buf_pt (put xs n m) = buf_pt m"
  "mm_sys (put xs n m) = mm_sys m"
  by (simp_all add: put_def)

lemma emits_put: "usage xs = n \<Longrightarrow> emits xs m (put xs n m)"
  by (simp add: emits_def put_def)

lemma memmap_pt_emits:
  assumes "buf_pt m = load_bytes M base 4096" and "i < 512"
  shows "emits (let e = load64 M (base + of_nat i * 8) in
    if is_present A e then [Dump ''        PT  '' e, Line_4k (page_address A i4 i3 i2 i)] else []) m (memmap_pt A i4 i3 i2 i m)"
  using assms by (simp add: memmap_pt_def table_entry_load emits_def put_def Let_def)

lemma memmap_pt_keeps: "buf_pdpt (memmap_pt A i4 i3 i2 i m) = buf_pdpt m" "buf_pd (memmap_pt A i4 i3 i2 i m) = buf_pd m"
  "buf_pt (memmap_pt A i4 i3 i2 i m) = buf_pt m" "mm_sys (memmap_pt A i4 i3 i2 i m) = mm_sys m"
  by (simp_all add: memmap_pt_def Let_def)

lemma pt_loop:
  assumes "all_pages OS s" and "mm_ok s m" and "A = cfg_arch (os_kernel OS)"
    and "bs = load_bytes (phys s) base 4096" and "m' = fold (memmap_pt A i4 i3 i2) [0..<512] (m\<lparr>buf_pt := bs, mm_sys := s\<rparr>)"
  shows "mm_ok s m' \<and> buf_pdpt m' = buf_pdpt m \<and> buf_pd m' = buf_pd m \<and> emits (items_pt A (phys s) base i4 i3 i2) m m'"
proof -
  let ?P = "\<lambda>x. mm_ok s x \<and> buf_pdpt x = buf_pdpt m \<and> buf_pd x = buf_pd m \<and> buf_pt x = load_bytes (phys s) base 4096"
  have "?P m' \<and> emits (items_pt A (phys s) base i4 i3 i2) (m\<lparr>buf_pt := bs, mm_sys := s\<rparr>) m'"
    unfolding assms(5) items_pt_def
  proof (rule fold_emits)
    show "?P (memmap_pt A i4 i3 i2 i x) \<and> emits (let e = load64 (phys s) (base + of_nat i * 8) in
        if is_present A e then [Dump ''        PT  '' e, Line_4k (page_address A i4 i3 i2 i)] else []) x (memmap_pt A i4 i3 i2 i x)"
      if "i \<in> set [0..<512]" "?P x" for i x
      using that assms(2) memmap_pt_emits [of x "phys s" base i A i4 i3 i2] by (simp add: mm_ok_def memmap_pt_keeps)
    show "?P (m\<lparr>buf_pt := bs, mm_sys := s\<rparr>)" using assms(2,4) by (simp add: mm_ok_def)
  qed
  then show ?thesis by (simp add: emits_def)
qed

lemma memmap_pd_emits:
  assumes "all_pages OS s" and "mm_ok s m" and "A = cfg_arch (os_kernel OS)"
    and "buf_pd m = load_bytes (phys s) base 4096" and "i < 512" and "m' = memmap_pd OS i4 i3 i m"
  shows "mm_ok s m' \<and> buf_pdpt m' = buf_pdpt m \<and> buf_pd m' = buf_pd m
    \<and> emits (let e = load64 (phys s) (base + of_nat i * 8) in
         if is_present A e then
           Dump ''    PD  '' e # (if is_normal_page A e then items_pt A (phys s) (ptedit_get_pfn A e * 4096) i4 i3 i
                                 else [Line_2m (large_address i4 i3 i)])
         else []) m m'"
proof -
  let ?e = "load64 (phys s) (base + of_nat i * 8)"
  have e: "table_entry (buf_pd m) i = ?e" using assms(4,5) by (simp add: table_entry_load)
  let ?m = "put [Dump ''    PD  '' ?e] 0 m"
  have ok: "mm_ok s ?m" and first: "emits [Dump ''    PD  '' ?e] m ?m" using assms(2) by (simp_all add: emits_put)
  consider "\<not> is_present A ?e" | "is_present A ?e" "is_normal_page A ?e" | "is_present A ?e" "\<not> is_normal_page A ?e" by blast
  then show ?thesis
  proof cases
    case 1
    then show ?thesis using assms(2,3,6) e by (simp add: memmap_pd_def Let_def emits_refl)
  next
    case 2
    have "ptedit_read_physical_page OS (ptedit_get_pfn A ?e) (buf_pt m) s =
        (load_bytes (phys s) (ptedit_get_pfn A ?e * 4096) 4096, s)"
      using read_all_pages [OF assms(1)] assms(2) by (simp add: mm_ok_def)
    then have "m' = fold (memmap_pt A i4 i3 i) [0..<512]
        (?m\<lparr>buf_pt := load_bytes (phys s) (ptedit_get_pfn A ?e * 4096) 4096, mm_sys := s\<rparr>)"
      using 2 assms(2,3,6) e by (simp add: memmap_pd_def Let_def mm_ok_def)
    from pt_loop [OF assms(1) ok assms(3) refl this] emits_trans [OF first] show ?thesis using 2 by (simp add: Let_def)
  next
    case 3
    then have "m' = put [Line_2m (large_address i4 i3 i)] (2 * 1024 * 1024) ?m"
      using assms(3,6) e by (simp add: memmap_pd_def Let_def)
    then show ?thesis
      using 3 assms(2) emits_trans [OF first emits_put [of "[Line_2m (large_address i4 i3 i)]" "2 * 1024 * 1024" ?m]]
      by (simp add: Let_def)
  qed
qed

lemma directory_emits:
  assumes "all_pages OS s" and "mm_ok s m" and "A = cfg_arch (os_kernel OS)" and "m' = memmap_directory OS i4 i3 entry m"
  shows "mm_ok s m' \<and> buf_pdpt m' = buf_pdpt m \<and> emits (items_pd A (phys s) (ptedit_get_pfn A entry * 4096) i4 i3) m m'"
proof -
  let ?base = "ptedit_get_pfn A entry * 4096"
  let ?m = "m\<lparr>buf_pd := load_bytes (phys s) ?base 4096, mm_sys := s\<rparr>"
  let ?P = "\<lambda>x. mm_ok s x \<and> buf_pdpt x = buf_pdpt m \<and> buf_pd x = load_bytes (phys s) ?base 4096"
  have m': "m' = fold (memmap_pd OS i4 i3) [0..<512] ?m"
    using assms read_all_pages [OF assms(1)] by (simp add: memmap_directory_def mm_ok_def Let_def)
  have "?P m' \<and> emits (items_pd A (phys s) ?base i4 i3) ?m m'"
    unfolding m' items_pd_def
    by (rule fold_emits) (use memmap_pd_emits [OF assms(1) _ assms(3) _ _ refl] assms(2) in \<open>auto simp: mm_ok_def\<close>)
  then show ?thesis by (simp add: emits_def)
qed

lemma memmap_pdpt_emits:
  assumes "all_pages OS s" and "mm_ok s m" and "A = cfg_arch (os_kernel OS)"
    and "buf_pdpt m = load_bytes (phys s) base 4096" and "i < 512" and "m' = memmap_pdpt OS i4 i m"
  shows "mm_ok s m' \<and> buf_pdpt m' = buf_pdpt m
    \<and> emits (let e = load64 (phys s) (base + of_nat i * 8) in
         if is_present A e then Dump ''PDPT'' e # items_pd A (phys s) (ptedit_get_pfn A e * 4096) i4 i else []) m m'"
proof -
  let ?e = "load64 (phys s) (base + of_nat i * 8)"
  have e: "table_entry (buf_pdpt m) i = ?e" using assms(4,5) by (simp add: table_entry_load)
  show ?thesis
  proof (cases "is_present A ?e")
    case False
    then show ?thesis using assms(2,3,6) e by (simp add: memmap_pdpt_def Let_def emits_refl)
  next
    case True
    let ?m = "put [Dump ''PDPT'' ?e] 0 m"
    have "m' = memmap_directory OS i4 i ?e ?m" using True assms(3,6) e by (simp add: memmap_pdpt_def Let_def)
    from directory_emits [OF assms(1) _ assms(3) this] emits_trans [OF emits_put [of "[Dump ''PDPT'' ?e]" 0 m]] assms(2)
    show ?thesis using True by (simp add: Let_def)
  qed
qed

lemma memmap_pml4_emits:
  assumes "all_pages OS s" and "mm_ok s m" and "A = cfg_arch (os_kernel OS)"
    and "buf4 = load_bytes (phys s) base 4096" and "i < 512" and "m' = memmap_pml4 OS buf4 i m"
  shows "mm_ok s m'
    \<and> emits (let e = load64 (phys s) (base + of_nat i * 8) in
         if is_present A e then
           Dump [] e # (case A of X86_64 \<Rightarrow> items_pdpt A (phys s) (ptedit_get_pfn A e * 4096) i
                        | AArch64 \<Rightarrow> items_pd A (phys s) (ptedit_get_pfn A e * 4096) i 0)
         else []) m m'"
proof -
  let ?e = "load64 (phys s) (base + of_nat i * 8)"
  have e: "table_entry buf4 i = ?e" using assms(4,5) by (simp add: table_entry_load)
  let ?m = "put [Dump [] ?e] 0 m"
  have ok: "mm_ok s ?m" and first: "emits [Dump [] ?e] m ?m" using assms(2) by (simp_all add: emits_put)
  show ?thesis
  proof (cases "is_present A ?e")
    case False
    then show ?thesis using assms(2,3,6) e by (simp add: memmap_pml4_def Let_def emits_refl)
  next
    case present: True
    show ?thesis
    proof (cases A)
      case AArch64
      then have "m' = memmap_directory OS i 0 ?e ?m"
        using present assms(3,6) e by (simp add: memmap_pml4_def Let_def)
      from directory_emits [OF assms(1) ok assms(3) this] emits_trans [OF first] show ?thesis
        using present AArch64 by (simp add: Let_def)
    next
      case X86_64
      let ?base = "ptedit_get_pfn A ?e * 4096"
      let ?n = "?m\<lparr>buf_pdpt := load_bytes (phys s) ?base 4096, mm_sys := s\<rparr>"
      let ?P = "\<lambda>x. mm_ok s x \<and> buf_pdpt x = load_bytes (phys s) ?base 4096"
      have m': "m' = fold (memmap_pdpt OS i) [0..<512] ?n"
        using present X86_64 assms e read_all_pages [OF assms(1)] by (simp add: memmap_pml4_def mm_ok_def Let_def)
      have "?P m' \<and> emits (items_pdpt A (phys s) ?base i) ?n m'"
        unfolding m' items_pdpt_def
        by (rule fold_emits) (use memmap_pdpt_emits [OF assms(1) _ assms(3) _ _ refl] assms(2) in \<open>auto simp: mm_ok_def\<close>)
      then have "emits (items_pdpt A (phys s) ?base i) ?m m'" "mm_ok s m'" by (simp_all add: emits_def)
      then show ?thesis using present X86_64 emits_trans [OF first] by (simp add: Let_def)
    qed
  qed
qed

lemma traverse_emits:
  assumes "all_pages OS s" and "mm_ok s m" and "length b4 = 4096"
    and "m' = memmap_traverse OS root 4096 b4 m"
  shows "mm_ok s m' \<and> emits (memmap_items (cfg_arch (os_kernel OS)) (phys s) (root div 4096 * 4096)) m m'"
proof -
  let ?A = "cfg_arch (os_kernel OS)"
  have m: "m\<lparr>mm_sys := s\<rparr> = m" using assms(2) by (simp add: mm_ok_def)
  have m': "m' = fold (memmap_pml4 OS (load_bytes (phys s) (root div 4096 * 4096) 4096)) [0..<FIRST_LEVEL_ENTRIES ?A] m"
    using assms(2,4) read_all_pages [OF assms(1,3)] m by (simp add: memmap_traverse_def mm_ok_def Let_def)
  have "i < 512" if "i < FIRST_LEVEL_ENTRIES ?A" for i
    using that by (simp add: FIRST_LEVEL_ENTRIES_def split: arch.splits)
  then show ?thesis
    unfolding m' memmap_items_def
    by (intro fold_emits) (use memmap_pml4_emits [OF assms(1) _ refl refl _ refl] assms(2) in \<open>auto\<close>)
qed

section \<open>The list and the hardware's page walk\<close>

lemma present_x86 [simp]: "is_present X86_64 e \<longleftrightarrow> bit e 0"
  by (simp add: is_present_def and_ull_bit)

lemma normal_x86 [simp]: "is_normal_page X86_64 e \<longleftrightarrow> \<not> bit e 7"
  by (simp add: is_normal_page_def and_ull_bit)

text \<open>The entries that four indices select on x86.\<close>

definition ent :: "mem \<Rightarrow> u64 \<Rightarrow> nat \<Rightarrow> u64" where
  "ent M b i = load64 M (b + of_nat i * 8)"

definition below :: "u64 \<Rightarrow> u64" where
  "below e = ptedit_get_pfn X86_64 e * 4096"

definition pdpt_ent :: "mem \<Rightarrow> u64 \<Rightarrow> nat \<Rightarrow> nat \<Rightarrow> u64" where
  "pdpt_ent M b i4 i3 = ent M (below (ent M b i4)) i3"

definition pd_ent :: "mem \<Rightarrow> u64 \<Rightarrow> nat \<Rightarrow> nat \<Rightarrow> nat \<Rightarrow> u64" where
  "pd_ent M b i4 i3 i2 = ent M (below (pdpt_ent M b i4 i3)) i2"

definition pt_ent :: "mem \<Rightarrow> u64 \<Rightarrow> nat \<Rightarrow> nat \<Rightarrow> nat \<Rightarrow> nat \<Rightarrow> u64" where
  "pt_ent M b i4 i3 i2 i1 = ent M (below (pd_ent M b i4 i3 i2)) i1"

lemmas ent_folds = ent_def [symmetric] below_def [symmetric]

lemma line_4k_iff:
  "Line_4k v \<in> set (memmap_items X86_64 M b) \<longleftrightarrow>
     (\<exists>i4<256. \<exists>i3<512. \<exists>i2<512. \<exists>i1<512. v = page_address X86_64 i4 i3 i2 i1
        \<and> bit (ent M b i4) 0 \<and> bit (pdpt_ent M b i4 i3) 0 \<and> bit (pd_ent M b i4 i3 i2) 0
        \<and> \<not> bit (pd_ent M b i4 i3 i2) 7 \<and> bit (pt_ent M b i4 i3 i2 i1) 0)"
  unfolding memmap_items_def items_pdpt_def items_pd_def items_pt_def Let_def ent_folds
    pdpt_ent_def pd_ent_def pt_ent_def
  by (simp add: FIRST_LEVEL_ENTRIES_def if_distrib [of set] cong: if_cong) fastforce

lemma line_2m_iff:
  "Line_2m v \<in> set (memmap_items X86_64 M b) \<longleftrightarrow>
     (\<exists>i4<256. \<exists>i3<512. \<exists>i2<512. v = large_address i4 i3 i2
        \<and> bit (ent M b i4) 0 \<and> bit (pdpt_ent M b i4 i3) 0 \<and> bit (pd_ent M b i4 i3 i2) 0
        \<and> bit (pd_ent M b i4 i3 i2) 7)"
  unfolding memmap_items_def items_pdpt_def items_pd_def items_pt_def Let_def ent_folds
    pdpt_ent_def pd_ent_def pt_ent_def
  by (simp add: FIRST_LEVEL_ENTRIES_def if_distrib [of set] cong: if_cong) fastforce

text \<open>The walk of an address with given indices.\<close>

definition has_indices :: "u64 \<Rightarrow> nat \<Rightarrow> nat \<Rightarrow> nat \<Rightarrow> nat \<Rightarrow> bool" where
  "has_indices v i4 i3 i2 i1 \<longleftrightarrow>
     level_index x86_definition PGD v = of_nat i4 \<and> level_index x86_definition PUD v = of_nat i3
     \<and> level_index x86_definition PMD v = of_nat i2 \<and> level_index x86_definition PTE v = of_nat i1"

abbreviation visits :: "mem \<Rightarrow> u64 \<Rightarrow> u64 \<Rightarrow> level \<Rightarrow> u64 \<Rightarrow> bool" where
  "visits M b v l e \<equiv> (\<exists>slot. (l, slot, e) \<in> set (hw_walk X86_64 x86_definition M b v))"

lemma hw_next_x86: "hw_next X86_64 l e = (if bit e 0 \<and> \<not> ((l = PUD \<or> l = PMD) \<and> bit e 7) then Some (below e) else None)"
  by (auto simp: hw_next_def below_def cast_present_bits PTEDIT_PAGE_PRESENT_def bit_0 odd_iff_mod_2_eq_one)

lemma visits_x86:
  assumes "has_indices v i4 i3 i2 i1"
  shows "visits M b v PUD e \<longleftrightarrow> bit (ent M b i4) 0 \<and> e = pdpt_ent M b i4 i3"
    "visits M b v PMD e \<longleftrightarrow> bit (ent M b i4) 0 \<and> bit (pdpt_ent M b i4 i3) 0 \<and> \<not> bit (pdpt_ent M b i4 i3) 7
       \<and> e = pd_ent M b i4 i3 i2"
    "visits M b v PTE e \<longleftrightarrow> bit (ent M b i4) 0 \<and> bit (pdpt_ent M b i4 i3) 0 \<and> \<not> bit (pdpt_ent M b i4 i3) 7
       \<and> bit (pd_ent M b i4 i3 i2) 0 \<and> \<not> bit (pd_ent M b i4 i3 i2) 7 \<and> e = pt_ent M b i4 i3 i2 i1"
proof -
  have levels: "walk_levels x86_definition = [PGD, PUD, PMD, PTE]"
    by (simp add: walk_levels_def x86_definition_def)
  note idx = assms [unfolded has_indices_def]
  note walk = hw_walk_def levels page_walk.simps Let_def hw_next_x86 idx ent_folds pdpt_ent_def pd_ent_def pt_ent_def
  show "visits M b v PUD e \<longleftrightarrow> bit (ent M b i4) 0 \<and> e = pdpt_ent M b i4 i3"
    "visits M b v PMD e \<longleftrightarrow> bit (ent M b i4) 0 \<and> bit (pdpt_ent M b i4 i3) 0 \<and> \<not> bit (pdpt_ent M b i4 i3) 7
       \<and> e = pd_ent M b i4 i3 i2"
    "visits M b v PTE e \<longleftrightarrow> bit (ent M b i4) 0 \<and> bit (pdpt_ent M b i4 i3) 0 \<and> \<not> bit (pdpt_ent M b i4 i3) 7
       \<and> bit (pd_ent M b i4 i3 i2) 0 \<and> \<not> bit (pd_ent M b i4 i3 i2) 7 \<and> e = pt_ent M b i4 i3 i2 i1"
    by (auto simp add: walk)
qed

text \<open>Addresses and their indices.\<close>

lemma bit_nat_less: "i < 2 ^ k \<Longrightarrow> bit (i :: nat) n \<Longrightarrow> n < k"
  using bit_take_bit_iff [of k i n] by (simp add: take_bit_nat_eq_self)

lemma bit_index: "i < 512 \<Longrightarrow> bit (of_nat i :: u64) n \<longleftrightarrow> n < 9 \<and> bit i n"
proof -
  assume "i < 512"
  then have "bit i n \<Longrightarrow> n < 9" using bit_nat_less [of i 9 n] by simp
  then show ?thesis by (auto simp: bit_of_nat_iff_bit possible_bit_def bit_of_nat_iff)
qed

lemma level_index_x86:
  "level_index x86_definition PGD v = take_bit 9 (drop_bit 39 v)" "level_index x86_definition PUD v = take_bit 9 (drop_bit 30 v)"
  "level_index x86_definition PMD v = take_bit 9 (drop_bit 21 v)" "level_index x86_definition PTE v = take_bit 9 (drop_bit 12 v)"
  by (simp_all add: level_index_bits level_shift_def level_entries_def x86_definition_def)

lemma bit_index_256: "i < 256 \<Longrightarrow> bit (of_nat i :: u64) n \<longleftrightarrow> n < 8 \<and> bit i n"
proof -
  assume i: "i < 256"
  then have "bit i n \<Longrightarrow> n < 8" using bit_nat_less [of i 8 n] by simp
  then show ?thesis using bit_index [of i n] i by auto
qed

lemma bit_page_address:
  assumes "i4 < 256" "i3 < 512" "i2 < 512" "i1 < 512"
  shows "bit (page_address X86_64 i4 i3 i2 i1) n \<longleftrightarrow>
    12 \<le> n \<and> n < 21 \<and> bit i1 (n - 12) \<or> 21 \<le> n \<and> n < 30 \<and> bit i2 (n - 21)
    \<or> 30 \<le> n \<and> n < 39 \<and> bit i3 (n - 30) \<or> 39 \<le> n \<and> n < 47 \<and> bit i4 (n - 39)"
proof -
  have "bit (push_bit 12 (of_nat i1 :: u64)) n \<longleftrightarrow> 12 \<le> n \<and> n < 21 \<and> bit i1 (n - 12)"
    unfolding bit_push_bit_iff bit_index [OF assms(4)] by auto
  moreover have "bit (push_bit 21 (of_nat i2 :: u64)) n \<longleftrightarrow> 21 \<le> n \<and> n < 30 \<and> bit i2 (n - 21)"
    unfolding bit_push_bit_iff bit_index [OF assms(3)] by auto
  moreover have "bit (push_bit 30 (of_nat i3 :: u64)) n \<longleftrightarrow> 30 \<le> n \<and> n < 39 \<and> bit i3 (n - 30)"
    unfolding bit_push_bit_iff bit_index [OF assms(2)] by auto
  moreover have "bit (push_bit 39 (of_nat i4 :: u64)) n \<longleftrightarrow> 39 \<le> n \<and> n < 47 \<and> bit i4 (n - 39)"
    unfolding bit_push_bit_iff bit_index_256 [OF assms(1)] by auto
  ultimately show ?thesis
    unfolding page_address_def arch.case bit_or_iff by (simp only: disj_assoc)
qed

lemma page_address_indices:
  assumes "i4 < 256" "i3 < 512" "i2 < 512" "i1 < 512"
  shows "has_indices (page_address X86_64 i4 i3 i2 i1) i4 i3 i2 i1"
    and "take_bit 12 (page_address X86_64 i4 i3 i2 i1) = 0"
    and "take_bit 47 (page_address X86_64 i4 i3 i2 i1) = page_address X86_64 i4 i3 i2 i1"
proof -
  note bits = bit_page_address [OF assms] bit_take_bit_iff bit_drop_bit_eq o_apply
    bit_index_256 [OF assms(1)] bit_index [OF assms(2)] bit_index [OF assms(3)] bit_index [OF assms(4)]
  show "take_bit 12 (page_address X86_64 i4 i3 i2 i1) = 0"
    by (rule u64_eqI) (simp add: bits)
  show "take_bit 47 (page_address X86_64 i4 i3 i2 i1) = page_address X86_64 i4 i3 i2 i1"
    by (rule u64_eqI) (simp add: bits; linarith)
  have "take_bit 9 (drop_bit 39 (page_address X86_64 i4 i3 i2 i1)) = of_nat i4"
    by (rule u64_eqI) (simp add: bits; linarith)
  moreover have "take_bit 9 (drop_bit 30 (page_address X86_64 i4 i3 i2 i1)) = of_nat i3"
    by (rule u64_eqI) (simp add: bits; linarith)
  moreover have "take_bit 9 (drop_bit 21 (page_address X86_64 i4 i3 i2 i1)) = of_nat i2"
    by (rule u64_eqI) (simp add: bits; linarith)
  moreover have "take_bit 9 (drop_bit 12 (page_address X86_64 i4 i3 i2 i1)) = of_nat i1"
    by (rule u64_eqI) (simp add: bits; linarith)
  ultimately show "has_indices (page_address X86_64 i4 i3 i2 i1) i4 i3 i2 i1"
    by (simp add: has_indices_def level_index_x86)
qed

lemma unat_take_bit_less: "unat (take_bit k (x :: u64)) < 2 ^ k"
  by (simp add: unsigned_take_bit_eq)

lemma address_indices:
  assumes "take_bit 12 v = 0" and "take_bit 47 v = v"
  shows "\<exists>i4<256. \<exists>i3<512. \<exists>i2<512. \<exists>i1<512. v = page_address X86_64 i4 i3 i2 i1"
proof -
  have range: "bit v n \<Longrightarrow> 12 \<le> n \<and> n < 47" for n
    using arg_cong [where f = "\<lambda>x. bit x n", OF assms(1)] arg_cong [where f = "\<lambda>x. bit x n", OF assms(2)]
    by (auto simp: bit_take_bit_iff)
  let ?x4 = "take_bit 8 (drop_bit 39 v)" and ?x3 = "take_bit 9 (drop_bit 30 v)"
    and ?x2 = "take_bit 9 (drop_bit 21 v)" and ?x1 = "take_bit 9 (drop_bit 12 v)"
  have small: "unat ?x4 < 256" "unat ?x3 < 512" "unat ?x2 < 512" "unat ?x1 < 512"
    using unat_take_bit_less [of 8] unat_take_bit_less [of 9] by simp_all
  have "v = page_address X86_64 (unat ?x4) (unat ?x3) (unat ?x2) (unat ?x1)"
  proof (rule u64_eqI)
    fix n :: nat assume "n < 64"
    show "bit v n = bit (page_address X86_64 (unat ?x4) (unat ?x3) (unat ?x2) (unat ?x1)) n"
    proof -
      consider "n < 12" | "12 \<le> n" "n < 21" | "21 \<le> n" "n < 30" | "30 \<le> n" "n < 39" | "39 \<le> n" "n < 47" | "47 \<le> n"
        by linarith
      then show ?thesis
        unfolding bit_page_address [OF small]
        by cases (use range [of n] in \<open>auto simp: bit_unsigned_iff bit_take_bit_iff bit_drop_bit_eq\<close>)
    qed
  qed
  with small show ?thesis by blast
qed

lemma large_address_eq: "large_address i4 i3 i2 = page_address X86_64 i4 i3 i2 0"
  by (simp add: large_address_def page_address_def)

lemma large_aligned:
  assumes "i4 < 256" "i3 < 512" "i2 < 512" "i1 < 512"
  shows "take_bit 21 (page_address X86_64 i4 i3 i2 i1) = 0 \<longleftrightarrow> i1 = 0"
proof
  assume z: "take_bit 21 (page_address X86_64 i4 i3 i2 i1) = 0"
  have "\<not> bit i1 n" for n
  proof (cases "n < 9")
    case True
    then show ?thesis
      using arg_cong [where f = "\<lambda>x. bit x (12 + n)", OF z] by (simp add: bit_take_bit_iff bit_page_address [OF assms])
  next
    case False
    then show ?thesis using bit_nat_less [of i1 9 n] assms(4) by auto
  qed
  then show "i1 = 0" by (intro bit_eqI) simp
next
  assume "i1 = 0"
  then show "take_bit 21 (page_address X86_64 i4 i3 i2 i1) = 0"
    unfolding word_eq_bits bit_take_bit_iff bit_page_address [OF assms] by auto
qed

text \<open>
  No 1 GB pages: for every address the entry of the PUD level that the hardware visits is not a leaf.
  (\<open>memmap\<close> would follow such an entry as if it referred to a page directory.)
\<close>

definition no_1g_pages :: "mem \<Rightarrow> u64 \<Rightarrow> bool" where
  "no_1g_pages M b \<longleftrightarrow> (\<forall>v e. visits M b v PUD e \<longrightarrow> \<not> (bit e 0 \<and> bit e 7))"

lemma pdpt_plain:
  assumes "no_1g_pages M b" and "i4 < 256" "i3 < 512" and "bit (ent M b i4) 0" and "bit (pdpt_ent M b i4 i3) 0"
  shows "\<not> bit (pdpt_ent M b i4 i3) 7"
proof -
  have "has_indices (page_address X86_64 i4 i3 0 0) i4 i3 0 0" using assms(2,3) by (intro page_address_indices) simp_all
  then have "visits M b (page_address X86_64 i4 i3 0 0) PUD (pdpt_ent M b i4 i3)" using assms(4) by (simp add: visits_x86(1))
  then show ?thesis using assms(1,5) unfolding no_1g_pages_def by blast
qed

lemma line_4k_walk:
  assumes "no_1g_pages M b"
  shows "Line_4k v \<in> set (memmap_items X86_64 M b) \<longleftrightarrow>
    take_bit 12 v = 0 \<and> take_bit 47 v = v \<and> (\<exists>e. visits M b v PTE e \<and> bit e 0)"
proof
  assume "Line_4k v \<in> set (memmap_items X86_64 M b)"
  then obtain i4 i3 i2 i1 where i: "i4 < 256" "i3 < 512" "i2 < 512" "i1 < 512" "v = page_address X86_64 i4 i3 i2 i1"
    and e: "bit (ent M b i4) 0" "bit (pdpt_ent M b i4 i3) 0" "bit (pd_ent M b i4 i3 i2) 0" "\<not> bit (pd_ent M b i4 i3 i2) 7"
      "bit (pt_ent M b i4 i3 i2 i1) 0"
    unfolding line_4k_iff by blast
  note idx = page_address_indices [OF i(1-4), folded i(5)]
  have "visits M b v PTE (pt_ent M b i4 i3 i2 i1)"
    using e pdpt_plain [OF assms i(1,2) e(1,2)] by (simp add: visits_x86(3) [OF idx(1)])
  with idx e(5) show "take_bit 12 v = 0 \<and> take_bit 47 v = v \<and> (\<exists>e. visits M b v PTE e \<and> bit e 0)" by blast
next
  assume v: "take_bit 12 v = 0 \<and> take_bit 47 v = v \<and> (\<exists>e. visits M b v PTE e \<and> bit e 0)"
  then obtain i4 i3 i2 i1 where i: "i4 < 256" "i3 < 512" "i2 < 512" "i1 < 512" "v = page_address X86_64 i4 i3 i2 i1"
    using address_indices by blast
  note idx = page_address_indices(1) [OF i(1-4), folded i(5)]
  from v obtain e where "visits M b v PTE e" "bit e 0" by blast
  with i show "Line_4k v \<in> set (memmap_items X86_64 M b)"
    unfolding line_4k_iff visits_x86(3) [OF idx] by blast
qed

lemma line_2m_walk:
  assumes "no_1g_pages M b"
  shows "Line_2m v \<in> set (memmap_items X86_64 M b) \<longleftrightarrow>
    take_bit 21 v = 0 \<and> take_bit 47 v = v \<and> (\<exists>e. visits M b v PMD e \<and> bit e 0 \<and> bit e 7)"
proof
  assume "Line_2m v \<in> set (memmap_items X86_64 M b)"
  then obtain i4 i3 i2 where i: "i4 < 256" "i3 < 512" "i2 < 512" "v = page_address X86_64 i4 i3 i2 0"
    and e: "bit (ent M b i4) 0" "bit (pdpt_ent M b i4 i3) 0" "bit (pd_ent M b i4 i3 i2) 0" "bit (pd_ent M b i4 i3 i2) 7"
    unfolding line_2m_iff large_address_eq by blast
  have zero: "(0 :: nat) < 512" by simp
  note idx = page_address_indices [OF i(1-3) zero, folded i(4)] large_aligned [OF i(1-3) zero, folded i(4)]
  have "visits M b v PMD (pd_ent M b i4 i3 i2)"
    using e pdpt_plain [OF assms i(1,2) e(1,2)] by (simp add: visits_x86(2) [OF idx(1)])
  with idx e show "take_bit 21 v = 0 \<and> take_bit 47 v = v \<and> (\<exists>e. visits M b v PMD e \<and> bit e 0 \<and> bit e 7)" by blast
next
  assume v: "take_bit 21 v = 0 \<and> take_bit 47 v = v \<and> (\<exists>e. visits M b v PMD e \<and> bit e 0 \<and> bit e 7)"
  then have "take_bit 12 (take_bit 21 v) = 0" by simp
  then have "take_bit 12 v = 0" by (simp add: min_def)
  with v obtain i4 i3 i2 i1 where i: "i4 < 256" "i3 < 512" "i2 < 512" "i1 < 512" "v = page_address X86_64 i4 i3 i2 i1"
    using address_indices by blast
  then have 0: "i1 = 0" using large_aligned [OF i(1-4)] v by simp
  note idx = page_address_indices(1) [OF i(1-4), folded i(5)]
  from v obtain e where "visits M b v PMD e" "bit e 0" "bit e 7" by blast
  with i 0 show "Line_2m v \<in> set (memmap_items X86_64 M b)"
    unfolding line_2m_iff large_address_eq visits_x86(2) [OF idx] by blast
qed

section \<open>Properties of the tools\<close>

text \<open>
  C20. On x86-64, where all physical pages can be read and the process has no 1 GB pages, \<open>memmap\<close> lists
  exactly what is mapped: the 4 KB lines are the page-aligned addresses of the user half for which the hardware's walk
  ends in a present PTE, the 2 MB lines are the addresses for which it ends in a present large PMD
  entry, and the reported memory is the sum of their sizes.  The machine is unchanged.
\<close>

theorem memmap_lists_mappings:
  assumes "all_pages OS s" and "cfg_arch (os_kernel OS) = X86_64" and "length b4 = 4096"
    and "mm_ok s m" and "mm_out m = []" and "mem_usage m = 0"
    and "b = root div 4096 * 4096" and "no_1g_pages (phys s) b"
    and "m' = memmap_traverse OS root 4096 b4 m"
  shows "(Line_4k v \<in> set (mm_out m') \<longleftrightarrow> take_bit 12 v = 0 \<and> take_bit 47 v = v
            \<and> (\<exists>slot e. (PTE, slot, e) \<in> set (hw_walk X86_64 x86_definition (phys s) b v) \<and> bit e 0))
    \<and> (Line_2m v \<in> set (mm_out m') \<longleftrightarrow> take_bit 21 v = 0 \<and> take_bit 47 v = v
            \<and> (\<exists>slot e. (PMD, slot, e) \<in> set (hw_walk X86_64 x86_definition (phys s) b v) \<and> bit e 0 \<and> bit e 7))
    \<and> mem_usage m' = usage (mm_out m') \<and> mm_sys m' = s"
proof -
  have "mm_ok s m'" "emits (memmap_items X86_64 (phys s) b) m m'"
    using traverse_emits [OF assms(1,4,3,9)] assms(2,7) by simp_all
  then have out: "mm_out m' = memmap_items X86_64 (phys s) b" "mem_usage m' = usage (mm_out m')" "mm_sys m' = s"
    using assms(5,6) by (simp_all add: emits_def mm_ok_def)
  show ?thesis unfolding out line_4k_walk [OF assms(8)] line_2m_walk [OF assms(8)] using out(2) [unfolded out(1)] by blast
qed

lemma bit_pfn_mask: "bit (0x000ffffffffff000 :: u64) n \<longleftrightarrow> 12 \<le> n \<and> n < 52"
proof -
  have "(0x000ffffffffff000 :: u64) = push_bit 12 (mask 40)" by (simp add: mask_numeral)
  then have "bit (0x000ffffffffff000 :: u64) n = bit (push_bit 12 (mask 40) :: u64) n" by (rule arg_cong)
  also have "\<dots> \<longleftrightarrow> 12 \<le> n \<and> n < 52" by (auto simp: bit_push_bit_iff bit_mask_iff)
  finally show ?thesis .
qed

lemma pfn_mask: "push_bit 12 (ptedit_get_pfn X86_64 x) = x AND 0x000ffffffffff000"
  unfolding word_eq_bits bit_push_bit_iff bit_and_iff bit_pfn_mask bit_get_pfn pfn_width_def arch.case by auto

text \<open>
  \<open>virt2phys\<close>: for a 4 KB page the result is the frame of the PTE with the offset of the address.
  For a 2 MB page it is the address the hardware computes, except that the bits 12 to 20 of the PMD
  entry, of which bit 12 is the PAT bit, are not removed and are set in the result.
\<close>

theorem virt2phys_result:
  "virt2phys X86_64 v e =
     (if bit (pmd e) 7
      then ((pmd e AND 0x000fffffffe00000) OR (v AND 0x1fffff)) OR (pmd e AND 0x1ff000)
      else (pte e AND 0x000ffffffffff000) OR (v AND 0xfff))"
proof -
  have "x AND 0x000ffffffffff000 = (x AND 0x000fffffffe00000) OR (x AND 0x1ff000)" for x :: u64
  proof -
    have "(0x000ffffffffff000 :: u64) = 0x000fffffffe00000 OR 0x1ff000" by simp
    then show ?thesis by (simp only: bit.conj_disj_distrib)
  qed
  then show ?thesis by (simp add: virt2phys_def pfn_mask or.assoc or.commute or.left_commute)
qed

text \<open>The tables of the sample machine have no 1 GB pages, so the theorem applies to them.\<close>

lemma sample_load:
  assumes "aligned8 a"
  shows "load64 sample_mem a =
    (if a = 0x4008 then 0x8000000000005067 else if a = 0x3010 then 0x2000e7 else if a = 0x3008 then 0x4067
     else if a = 0x2008 then 0x3067 else if a = 0x1000 then 0x2067 else 0)"
proof -
  have step: "load64 (store64 m c v) a = (if a = c then v else load64 m a)" if "aligned8 c" for m c v
    using that assms aligned8_apart [of c a] by (auto simp: mem_simps)
  show ?thesis unfolding sample_mem_def by (simp add: step aligned8_def)
qed

lemma sample_slot:
  assumes "b \<in> {0x1000, 0x2000 :: u64}" and "i < 512"
  shows "unat (b + of_nat i * 8) = unat b + 8 * i" and "aligned8 (b + of_nat i * 8)"
proof -
  have u: "unat (of_nat i * 8 :: u64) = 8 * i" using assms(2) by (simp add: unat_word_ariths unat_of_nat)
  then show "unat (b + of_nat i * 8) = unat b + 8 * i"
    using assms by (auto simp: unat_plus_if' u)
  then show "aligned8 (b + of_nat i * 8)" using assms(1) by (auto simp: aligned8_def)
qed

lemma sample_ents:
  assumes "i < 512"
  shows "ent sample_mem 0x1000 i = (if i = 0 then 0x2067 else 0)" "ent sample_mem 0x2000 i = (if i = 1 then 0x3067 else 0)"
  using sample_slot [of "0x1000" i] sample_slot [of "0x2000" i] assms
  by (auto simp: ent_def sample_load word_unat_eq_iff)

lemma sample_no_1g: "no_1g_pages sample_mem 0x1000"
  unfolding no_1g_pages_def
proof (intro allI impI)
  fix v e
  assume visit: "visits sample_mem 0x1000 v PUD e"
  let ?i = "\<lambda>l. unat (level_index x86_definition l v)"
  have small: "?i l < 512" if "l \<in> {PGD, PUD, PMD, PTE}" for l
    using that unat_take_bit_less [of 9] by (auto simp: level_index_x86)
  have "has_indices v (?i PGD) (?i PUD) (?i PMD) (?i PTE)" by (simp add: has_indices_def)
  with visit have "bit (ent sample_mem 0x1000 (?i PGD)) 0" "e = ent sample_mem (below (ent sample_mem 0x1000 (?i PGD))) (?i PUD)"
    by (simp_all add: visits_x86(1) pdpt_ent_def)
  moreover have "below 0x2067 = 0x2000" by (simp add: below_def ptedit_get_pfn_def pfn_width_def)
  ultimately have "e = 0x3067 \<or> e = 0"
    using sample_ents [OF small [of PGD]] sample_ents [OF small [of PUD]] by (auto split: if_splits)
  then show "\<not> (bit e 0 \<and> bit e 7)" by auto
qed

theorem memmap_lists_mappings_witness:
  "let m = memmap_traverse sample_os 0x1000 4096 (replicate 4096 0)
       \<lparr>mm_sys = sample_sys, buf_pdpt = replicate 4096 0, buf_pd = replicate 4096 0, buf_pt = replicate 4096 0,
        mm_out = [], mem_usage = 0\<rparr>
   in Line_4k sample_vaddr \<in> set (mm_out m) \<and> mm_sys m = sample_sys"
proof -
  let ?m = "\<lparr>mm_sys = sample_sys, buf_pdpt = replicate 4096 0, buf_pd = replicate 4096 0, buf_pt = replicate 4096 0,
      mm_out = [], mem_usage = 0\<rparr> :: memmap"
  have "all_pages sample_os sample_sys"
    by (simp add: all_pages_def page_access_def sample_sys_simps sample_os_def umem_serves_def fd_file_def sample_sys_eq)
  moreover have "cfg_arch (os_kernel sample_os) = X86_64" by (simp add: sample_os_def sample_linux_def)
  moreover have "mm_ok sample_sys ?m" by (simp add: mm_ok_def)
  moreover have "no_1g_pages (phys sample_sys) 0x1000" using sample_no_1g by (simp add: sample_sys_simps)
  ultimately have facts: "(Line_4k sample_vaddr \<in> set (mm_out (memmap_traverse sample_os 0x1000 4096 (replicate 4096 0) ?m)) \<longleftrightarrow>
        take_bit 12 sample_vaddr = 0 \<and> take_bit 47 sample_vaddr = sample_vaddr
        \<and> (\<exists>slot e. (PTE, slot, e) \<in> set (hw_walk X86_64 x86_definition (phys sample_sys) 0x1000 sample_vaddr) \<and> bit e 0))
      \<and> mm_sys (memmap_traverse sample_os 0x1000 4096 (replicate 4096 0) ?m) = sample_sys"
    using memmap_lists_mappings [where OS = sample_os and s = sample_sys and m = ?m and root = "0x1000" and b = "0x1000"
        and v = sample_vaddr and m' = "memmap_traverse sample_os 0x1000 4096 (replicate 4096 0) ?m"] by simp
  have "take_bit 12 sample_vaddr = 0" "take_bit 47 sample_vaddr = sample_vaddr"
    by (simp_all add: sample_vaddr_def)
  moreover have "\<exists>slot e. (PTE, slot, e) \<in> set (hw_walk X86_64 x86_definition (phys sample_sys) 0x1000 sample_vaddr) \<and> bit e 0"
    by (rule exI [of _ "0x4008"], rule exI [of _ "0x8000000000005067"]) (simp add: sample_sys_simps sample_hw_walk)
  ultimately show ?thesis using facts by (simp add: Let_def)
qed

end
