(* ===== verification/PT_Agree.thy ===== *)
theory PT_Agree
  imports PT_Api PT_Memmap
begin

text \<open>
  The kernel module and the user-space walk resolve an address to the same entries: the walk of the
  module goes through the page-table accessors of Linux, the walk of the library computes the slots
  itself.  The theorem relates both through the documented behaviour of the accessors on x86 with four
  levels.
\<close>

section \<open>The accessors of Linux on x86\<close>

text \<open>
  The accessors return pointers into the direct map: to the slot of the address in the table that the
  given entry refers to; the P4D level is folded into the PGD.  A present entry is not \<open>none\<close>, and it is
  a leaf when its PSE bit is set.
\<close>

definition x86_accessors :: "linux \<Rightarrow> bool" where
  "x86_accessors K \<longleftrightarrow>
     (\<forall>base a. virt_to_phys K (pgd_offset K base a) = virt_to_phys K base + level_index x86_definition PGD a * 8)
     \<and> (\<forall>m q a. p4d_offset K m q a = q)
     \<and> (\<forall>m q a. virt_to_phys K (pud_offset K m q a) = below (kread K m q) + level_index x86_definition PUD a * 8)
     \<and> (\<forall>m q a. virt_to_phys K (pmd_offset K m q a) = below (kread K m q) + level_index x86_definition PMD a * 8)
     \<and> (\<forall>m q a. bit (kread K m q) 0 \<and> \<not> bit (kread K m q) 7 \<longrightarrow>
          (\<exists>r. pte_offset K m q a = Some r
             \<and> virt_to_phys K r = below (kread K m q) + level_index x86_definition PTE a * 8))
     \<and> (\<forall>v. bit v 0 \<longrightarrow> \<not> pgd_none K v \<and> \<not> p4d_none K v \<and> \<not> pud_none K v \<and> \<not> pmd_none K v
          \<and> pud_leaf K v = bit v 7 \<and> pmd_leaf K v = bit v 7)"

text \<open>The four entries of an address and the condition that they form a complete walk.\<close>

definition walk_entry :: "mem \<Rightarrow> u64 \<Rightarrow> u64 \<Rightarrow> level \<Rightarrow> u64" where
  "walk_entry M b a l =
     (let i = (\<lambda>l. unat (level_index x86_definition l a)) in
      case l of PGD \<Rightarrow> ent M b (i PGD) | P4D \<Rightarrow> ent M b (i PGD) | PUD \<Rightarrow> pdpt_ent M b (i PGD) (i PUD)
      | PMD \<Rightarrow> pd_ent M b (i PGD) (i PUD) (i PMD) | PTE \<Rightarrow> pt_ent M b (i PGD) (i PUD) (i PMD) (i PTE))"

definition complete_walk :: "mem \<Rightarrow> u64 \<Rightarrow> u64 \<Rightarrow> bool" where
  "complete_walk M b a \<longleftrightarrow>
     bit (walk_entry M b a PGD) 0 \<and> bit (walk_entry M b a PUD) 0 \<and> \<not> bit (walk_entry M b a PUD) 7
     \<and> bit (walk_entry M b a PMD) 0 \<and> \<not> bit (walk_entry M b a PMD) 7"

lemma walk_entry_loads:
  "load64 M (b + level_index x86_definition PGD a * 8) = walk_entry M b a PGD"
  "load64 M (below (walk_entry M b a PGD) + level_index x86_definition PUD a * 8) = walk_entry M b a PUD"
  "load64 M (below (walk_entry M b a PUD) + level_index x86_definition PMD a * 8) = walk_entry M b a PMD"
  "load64 M (below (walk_entry M b a PMD) + level_index x86_definition PTE a * 8) = walk_entry M b a PTE"
  by (simp_all add: walk_entry_def ent_def pdpt_ent_def pd_ent_def pt_ent_def Let_def)

lemma complete_walk_visits: "(PTE, slot, e) \<in> set (hw_walk X86_64 x86_definition M b a) \<Longrightarrow> complete_walk M b a"
proof -
  let ?i = "\<lambda>l. unat (level_index x86_definition l a)"
  assume "(PTE, slot, e) \<in> set (hw_walk X86_64 x86_definition M b a)"
  then have "visits M b a PTE e" by blast
  moreover have "has_indices a (?i PGD) (?i PUD) (?i PMD) (?i PTE)" by (simp add: has_indices_def)
  ultimately show ?thesis by (simp add: visits_x86(3) complete_walk_def walk_entry_def Let_def)
qed

lemma hw_walk_complete:
  assumes "complete_walk M b a"
  shows "map (\<lambda>(l, slot, e). (l, e)) (hw_walk X86_64 x86_definition M b a) =
    map (\<lambda>l. (l, walk_entry M b a l)) [PGD, PUD, PMD, PTE]"
proof -
  have levels: "walk_levels x86_definition = [PGD, PUD, PMD, PTE]"
    by (simp add: walk_levels_def x86_definition_def)
  show ?thesis
    using assms by (simp add: hw_walk_def levels Let_def hw_next_x86 walk_entry_loads complete_walk_def)
qed

text \<open>The walk of the module.\<close>

lemma resolve_vm_walk_complete:
  assumes acc: "x86_accessors K" and walk: "complete_walk M (virt_to_phys K base) a"
    and good: "\<not> pgd_bad K (walk_entry M (virt_to_phys K base) a PGD)" "\<not> p4d_bad K (walk_entry M (virt_to_phys K base) a PGD)"
    and res: "resolve_vm_walk K M base a (fresh_vm p) = (r, e)" and l: "l \<noteq> P4D"
  shows "map_option (kread K M) (vm_ptr l e) = Some (walk_entry M (virt_to_phys K base) a l)"
proof -
  let ?E = "walk_entry M (virt_to_phys K base) a"
  let ?q4 = "pgd_offset K base a"
  let ?q3 = "pud_offset K M ?q4 a"
  let ?q2 = "pmd_offset K M ?q3 a"
  have e4: "kread K M ?q4 = ?E PGD" using acc by (simp add: x86_accessors_def kread_def walk_entry_loads)
  have e3: "kread K M ?q3 = ?E PUD" using acc e4 by (simp add: x86_accessors_def kread_def [of K M ?q3] walk_entry_loads)
  have e2: "kread K M ?q2 = ?E PMD" using acc e3 by (simp add: x86_accessors_def kread_def [of K M ?q2] walk_entry_loads)
  have bits: "bit (?E PGD) 0" "bit (?E PUD) 0" "\<not> bit (?E PUD) 7" "bit (?E PMD) 0" "\<not> bit (?E PMD) 7"
    using walk by (simp_all add: complete_walk_def)
  obtain q1 where q1: "pte_offset K M ?q2 a = Some q1" "virt_to_phys K q1 = below (kread K M ?q2) + level_index x86_definition PTE a * 8"
    using acc bits e2 unfolding x86_accessors_def by metis
  have e1: "kread K M q1 = ?E PTE" using q1(2) e2 by (simp add: kread_def [of K M q1] walk_entry_loads)
  have fold4: "p4d_offset K M ?q4 a = ?q4" using acc by (simp add: x86_accessors_def)
  have kinds: "\<not> pgd_none K (?E PGD)" "\<not> p4d_none K (?E PGD)" "\<not> pud_none K (?E PUD)" "\<not> pud_leaf K (?E PUD)"
    "\<not> pmd_none K (?E PMD)" "\<not> pmd_leaf K (?E PMD)"
    using acc bits unfolding x86_accessors_def by blast+
  have "e = (fresh_vm p)\<lparr>vm_pgd := Some ?q4, vm_p4d := vm_p4d e, vm_pud := Some ?q3, vm_pmd := Some ?q2, vm_pte := Some q1,
      vm_valid := vm_valid e\<rparr>"
    using res good kinds
    by (auto simp: resolve_vm_walk_def resolve_vm_pud_def Let_def fold4 e4 e3 e2 q1(1) split: if_splits)
  then obtain x w where "e = (fresh_vm p)\<lparr>vm_pgd := Some ?q4, vm_p4d := x, vm_pud := Some ?q3, vm_pmd := Some ?q2,
      vm_pte := Some q1, vm_valid := w\<rparr>" by blast
  then show ?thesis using l e4 e3 e2 e1 by (cases l) simp_all
qed

section \<open>Both implementations agree\<close>


text \<open>The sample kernel keeps the laws of the accessors.\<close>

lemma below_mask: "below x = x AND 0x000ffffffffff000"
  by (simp only: below_def pfn_mask [symmetric] push_bit_eq_mult) simp

lemma and_511: "x AND 511 = take_bit 9 (x :: u64)"
  by (simp add: take_bit_eq_mask mask_numeral)

lemma sample_table_ptr:
  "virt_to_phys sample_linux (table_ptr m q a sh) = below (kread sample_linux m q) + take_bit 9 (drop_bit sh a) * 8"
  by (simp add: sample_linux_def table_ptr_def kread_def below_mask and_511)

lemma sample_accessors: "x86_accessors sample_linux"
proof -
  have offsets: "pud_offset sample_linux m q a = table_ptr m q a 30" "pmd_offset sample_linux m q a = table_ptr m q a 21"
    "pte_offset sample_linux m q a = Some (table_ptr m q a 12)" "p4d_offset sample_linux m q a = q" for m q a
    by (simp_all add: sample_linux_def)
  have "virt_to_phys sample_linux (pgd_offset sample_linux base a) = virt_to_phys sample_linux base + take_bit 9 (drop_bit 39 a) * 8" for base a
    by (simp add: sample_linux_def and_511)
  moreover have "v \<noteq> 0" if "bit v 0" for v :: u64 using that by auto
  ultimately show ?thesis
    unfolding x86_accessors_def level_index_x86 by (auto simp: offsets sample_table_ptr) (auto simp: sample_linux_def)
qed


end
