(* ===== verification/PT_Mmu.thy ===== *)
theory PT_Mmu
  imports PT_Agree
begin

text \<open>
  What an edited entry means for the program: the address translation of the processor, for x86 with
  four levels, and the effect of the library's operations on it.  A translation is what the processor
  finds in the tables when it has no cached entry for the page; that the library's updates flush the
  page is shown in \<open>PT_Module\<close>.
\<close>

section \<open>Address translation\<close>

definition leaf_bits :: "level \<Rightarrow> nat" where
  "leaf_bits l = (case l of PTE \<Rightarrow> 12 | PMD \<Rightarrow> 21 | _ \<Rightarrow> 30)"

text \<open>The physical address a leaf entry gives to a virtual address.\<close>

definition leaf_address :: "level \<Rightarrow> u64 \<Rightarrow> u64 \<Rightarrow> u64" where
  "leaf_address l e va =
     (let n = leaf_bits l in push_bit n (take_bit (52 - n) (drop_bit n e)) + take_bit n va)"

definition translate :: "mem \<Rightarrow> u64 \<Rightarrow> u64 \<Rightarrow> u64 option" where
  "translate m root va =
     (let (l, slot, e) = last (hw_walk X86_64 x86_definition m root va) in
      if bit e 0 \<and> (l = PTE \<or> (l = PMD \<or> l = PUD) \<and> bit e 7) then Some (leaf_address l e va) else None)"

text \<open>Instructions can be fetched where no entry of the walk has the NX bit.\<close>

definition fetchable :: "mem \<Rightarrow> u64 \<Rightarrow> u64 \<Rightarrow> bool" where
  "fetchable m root va \<longleftrightarrow>
     translate m root va \<noteq> None \<and> (\<forall>(l, slot, e) \<in> set (hw_walk X86_64 x86_definition m root va). \<not> bit e 63)"

definition same_page :: "u64 \<Rightarrow> u64 \<Rightarrow> bool" where
  "same_page va a \<longleftrightarrow> drop_bit 12 va = drop_bit 12 a"

lemma same_page_index: "same_page va a \<Longrightarrow> level_index x86_definition l va = level_index x86_definition l a"
proof -
  assume "same_page va a"
  then have "drop_bit (n + 12) va = drop_bit (n + 12) a" for n unfolding same_page_def by (metis drop_bit_drop_bit)
  from this [of 0] this [of 9] this [of 18] this [of 27] this [of 36] show ?thesis
    by (cases l) (simp_all add: level_index_bits level_shift_def level_entries_def x86_definition_def)
qed

lemma same_page_walk:
  assumes "same_page va a"
  shows "walk_entry m root va l = walk_entry m root a l" "complete_walk m root va = complete_walk m root a"
proof -
  show entry: "walk_entry m root va l = walk_entry m root a l" for l
    by (simp add: walk_entry_def same_page_index [OF assms])
  show "complete_walk m root va = complete_walk m root a" by (simp add: complete_walk_def entry)
qed

lemma translate_complete:
  assumes "complete_walk m root a"
  shows "translate m root a =
    (if bit (walk_entry m root a PTE) 0 then Some (ptedit_get_pfn X86_64 (walk_entry m root a PTE) * 4096 + take_bit 12 a) else None)"
proof -
  have "last (map (\<lambda>(l, slot, e). (l, e)) (hw_walk X86_64 x86_definition m root a)) = (PTE, walk_entry m root a PTE)"
    by (simp add: hw_walk_complete [OF assms])
  moreover have "hw_walk X86_64 x86_definition m root a \<noteq> []"
    by (simp add: hw_walk_def walk_levels_def Let_def)
  ultimately obtain slot where last: "last (hw_walk X86_64 x86_definition m root a) = (PTE, slot, walk_entry m root a PTE)"
    by (auto simp: last_map split: prod.splits)
  have "push_bit 12 (take_bit 40 (drop_bit 12 e)) = ptedit_get_pfn X86_64 e * 4096" for e
  proof -
    have "take_bit 40 (drop_bit 12 e) = ptedit_get_pfn X86_64 e"
      by (rule u64_eqI) (auto simp: bit_simps bit_get_pfn pfn_width_def)
    then show ?thesis by (simp add: push_bit_eq_mult)
  qed
  then show ?thesis by (simp add: translate_def last leaf_address_def leaf_bits_def Let_def)
qed

lemma fetchable_complete:
  assumes "complete_walk m root a"
  shows "fetchable m root a \<longleftrightarrow> bit (walk_entry m root a PTE) 0
    \<and> (\<forall>l \<in> {PGD, PUD, PMD, PTE}. \<not> bit (walk_entry m root a l) 63)"
proof -
  have "(\<forall>(l, slot, e) \<in> set (hw_walk X86_64 x86_definition m root a). \<not> bit e 63) \<longleftrightarrow>
      (\<forall>(l, e) \<in> set (map (\<lambda>(l, slot, e). (l, e)) (hw_walk X86_64 x86_definition m root a)). \<not> bit e 63)"
    by force
  then show ?thesis by (simp add: fetchable_def translate_complete [OF assms] hw_walk_complete [OF assms])
qed

section \<open>The entries of the library are those of the processor\<close>

text \<open>
  The process edits its own tables: \<open>root\<close> is the root of the current process, and for the user-space
  implementations the root the library has read.
\<close>

definition mmu_config :: "os \<Rightarrow> u64 \<Rightarrow> sys \<Rightarrow> bool" where
  "mmu_config OS root s \<longleftrightarrow>
     cfg_arch (os_kernel OS) = X86_64 \<and> x86_accessors (os_kernel OS) \<and> ptedit_paging_definition s = x86_definition
     \<and> (\<exists>mm. get_mm (os_kernel OS) (size_of_int 0) = Some mm \<and> virt_to_phys (os_kernel OS) (mm_pgd s mm) = root)
     \<and> (ptedit_resolve_ptr s \<noteq> Resolve_kernel \<longrightarrow> fst (user_root OS 0 s) = root)"

text \<open>Present tables down to the PTE, below the frame number the bit-field structures can hold.\<close>

definition plain_entries :: "(level \<Rightarrow> u64 option) \<Rightarrow> bool" where
  "plain_entries E \<longleftrightarrow>
     (\<forall>l e. E l = Some e \<longrightarrow> ptedit_get_pfn X86_64 e < 2 ^ 28
        \<and> (l \<noteq> PTE \<longrightarrow> bit e 0) \<and> (l = PUD \<or> l = PMD \<longrightarrow> \<not> bit e 7))"

lemma mmu_config_same: "mmu_config OS root s \<Longrightarrow> same_lib s t \<Longrightarrow> mmu_config OS root t"
  by (simp add: mmu_config_def same_lib_fields user_root_stable)

lemma user_entries_walk:
  assumes "mmu_config OS root s" and "ptedit_resolve_ptr s \<noteq> Resolve_kernel" and "user_ok access OS a 0 s"
    and "plain_entries (user_entries OS a 0 s)"
  shows "complete_walk (phys s) root a \<and> (\<forall>l. l \<noteq> P4D \<longrightarrow> user_entries OS a 0 s l = Some (walk_entry (phys s) root a l))"
proof -
  let ?L = "lib_walk X86_64 x86_definition (phys s) root a"
  have U: "user_walk OS a 0 s = ?L" using assms(1,2) by (simp add: user_walk_def mmu_config_def)
  have "user_entries OS a 0 s l = Some e" if "(l, slot, e) \<in> set ?L" for l slot e
  proof -
    have "(l, e) \<in> set (map (\<lambda>(l, slot, e). (l, e)) ?L)" using that by force
    moreover have "map fst (map (\<lambda>(l, slot, e). (l, e)) ?L) = map fst ?L" by (simp add: case_prod_beta)
    ultimately show ?thesis
      using distinct_lib_walk [of X86_64 x86_definition "phys s" root a] unfolding user_entries_def U
      by (intro map_of_is_SomeI) (simp_all only:)
  qed
  then have "ptedit_get_pfn X86_64 e < 2 ^ 28 \<and> \<not> (l = PUD \<and> bit e 7)" if "(l, slot, e) \<in> set ?L" for l slot e
    using assms(4) that unfolding plain_entries_def by blast
  then have "\<forall>(l, slot, e) \<in> set ?L. lib_next X86_64 l e = hw_next X86_64 l e"
    using plain_next [symmetric, of X86_64] by auto
  then have W: "hw_walk X86_64 x86_definition (phys s) root a = ?L"
    unfolding hw_walk_def lib_walk_def by (rule page_walk_cong)
  have complete: "complete_walk (phys s) root a"
    using assms(3) complete_walk_visits unfolding user_ok_def U W [symmetric] by blast
  moreover have "user_entries OS a 0 s l = Some (walk_entry (phys s) root a l)" if "l \<noteq> P4D" for l
    using that unfolding user_entries_def U W [symmetric] hw_walk_complete [OF complete] by (cases l) simp_all
  ultimately show ?thesis by blast
qed

text \<open>The physical addresses of the entries of an address.\<close>

definition walk_slot :: "mem \<Rightarrow> u64 \<Rightarrow> u64 \<Rightarrow> level \<Rightarrow> u64" where
  "walk_slot m root a l =
     (let i = (\<lambda>l. level_index x86_definition l a * 8) in
      case l of PGD \<Rightarrow> root + i PGD | P4D \<Rightarrow> root + i PGD | PUD \<Rightarrow> below (walk_entry m root a PGD) + i PUD
      | PMD \<Rightarrow> below (walk_entry m root a PUD) + i PMD | PTE \<Rightarrow> below (walk_entry m root a PMD) + i PTE)"

lemma walk_slot_entry: "load64 m (walk_slot m root a l) = walk_entry m root a l"
  by (cases l) (simp_all add: walk_slot_def walk_entry_loads, simp add: walk_entry_def)

lemma kernel_vm_walk:
  assumes conf: "mmu_config OS root s" and ok: "kernel_ok OS a 0 s" and plain: "plain_entries (kernel_entries OS a 0 s)"
  shows "complete_walk (phys s) root a"
    and "vm_ptr l (snd (kernel_vm OS a 0 s)) = Some q \<Longrightarrow> virt_to_phys (os_kernel OS) q = walk_slot (phys s) root a l"
    and "l \<noteq> P4D \<Longrightarrow> vm_ptr l (snd (kernel_vm OS a 0 s)) \<noteq> None"
proof -
  let ?K = "os_kernel OS" and ?m = "phys s" and ?vm = "snd (kernel_vm OS a 0 s)"
  from conf obtain mm where mm: "get_mm ?K (size_of_int 0) = Some mm" "virt_to_phys ?K (mm_pgd s mm) = root" and acc: "x86_accessors ?K"
    by (auto simp: mmu_config_def)
  define q4 where "q4 = pgd_offset ?K (mm_pgd s mm) a"
  define q3 where "q3 = pud_offset ?K ?m q4 a"
  define q2 where "q2 = pmd_offset ?K ?m q3 a"
  have fold4: "p4d_offset ?K ?m q4 a = q4" using acc by (simp add: x86_accessors_def)
  have "fst (kernel_vm OS a 0 s) = 0" using ok by (simp add: kernel_ok_def)
  then have vm: "vm_pgd ?vm = Some q4" "vm_p4d ?vm \<in> {None, Some q4}" "vm_pud ?vm = Some q3" "vm_pmd ?vm = Some q2"
    "vm_pte ?vm = pte_offset ?K ?m q2 a"
    by (auto simp: kernel_vm_def mm(1) resolve_vm_walk_def resolve_vm_pud_def q4_def [symmetric] fold4 q3_def [symmetric]
        q2_def [symmetric] Let_def fresh_vm_def split: if_splits option.splits)
  have v: "virt_to_phys ?K q4 = root + level_index x86_definition PGD a * 8"
    "virt_to_phys ?K q3 = below (kread ?K ?m q4) + level_index x86_definition PUD a * 8"
    "virt_to_phys ?K q2 = below (kread ?K ?m q3) + level_index x86_definition PMD a * 8"
    using acc mm(2) unfolding x86_accessors_def q3_def q2_def q4_def by simp_all
  have k4: "kread ?K ?m q4 = walk_entry ?m root a PGD"
    by (simp add: kread_def v(1) walk_entry_loads)
  have k3: "kread ?K ?m q3 = walk_entry ?m root a PUD"
    using v(2) k4 by (simp add: kread_def [of ?K ?m q3] walk_entry_loads)
  have k2: "kread ?K ?m q2 = walk_entry ?m root a PMD"
    using v(3) k3 by (simp add: kread_def [of ?K ?m q2] walk_entry_loads)
  have "kernel_entries OS a 0 s PGD = Some (walk_entry ?m root a PGD)" "kernel_entries OS a 0 s PUD = Some (walk_entry ?m root a PUD)"
    "kernel_entries OS a 0 s PMD = Some (walk_entry ?m root a PMD)"
    by (simp_all add: kernel_entries_def vm k4 k3 k2)
  then have bits: "bit (walk_entry ?m root a PGD) 0" "bit (walk_entry ?m root a PUD) 0" "\<not> bit (walk_entry ?m root a PUD) 7"
    "bit (walk_entry ?m root a PMD) 0" "\<not> bit (walk_entry ?m root a PMD) 7"
    using plain unfolding plain_entries_def by blast+
  then show "complete_walk (phys s) root a" by (simp add: complete_walk_def)
  obtain q1 where q1: "pte_offset ?K ?m q2 a = Some q1" "virt_to_phys ?K q1 = below (kread ?K ?m q2) + level_index x86_definition PTE a * 8"
    using acc k2 bits unfolding x86_accessors_def by metis
  show "l \<noteq> P4D \<Longrightarrow> vm_ptr l ?vm \<noteq> None" by (cases l) (simp_all add: vm q1)
  show "vm_ptr l ?vm = Some q \<Longrightarrow> virt_to_phys ?K q = walk_slot ?m root a l"
    using vm q1 v k4 k3 k2 by (cases l) (auto simp: walk_slot_def)
qed

lemma kernel_entries_walk:
  assumes "mmu_config OS root s" and "kernel_ok OS a 0 s" and "plain_entries (kernel_entries OS a 0 s)"
  shows "complete_walk (phys s) root a \<and> (\<forall>l. l \<noteq> P4D \<longrightarrow> kernel_entries OS a 0 s l = Some (walk_entry (phys s) root a l))"
proof -
  have "kernel_entries OS a 0 s l = Some (walk_entry (phys s) root a l)" if "l \<noteq> P4D" for l
    using kernel_vm_walk(2,3) [OF assms, of l] that by (force simp: kernel_entries_def kread_def walk_slot_entry)
  then show ?thesis using kernel_vm_walk(1) [OF assms] by blast
qed

lemma api_entries_walk:
  assumes "mmu_config OS root s" and "api_ok OS a 0 s" and "plain_entries (api_entries OS a 0 s)"
  shows "complete_walk (phys s) root a"
    and "l \<noteq> P4D \<Longrightarrow> api_entries OS a 0 s l = Some (walk_entry (phys s) root a l)"
proof -
  have "complete_walk (phys s) root a \<and> (\<forall>l. l \<noteq> P4D \<longrightarrow> api_entries OS a 0 s l = Some (walk_entry (phys s) root a l))"
    using assms(2)
  proof (cases rule: api_ok_cases)
    case 1 then show ?thesis using kernel_entries_walk [OF assms(1)] assms(3) by (simp add: api_entries_def)
  next
    case 2 then show ?thesis using user_entries_walk [OF assms(1)] assms(3) by (simp add: api_entries_def pread_ok_def)
  next
    case 3 then show ?thesis using user_entries_walk [OF assms(1)] assms(3) by (simp add: api_entries_def map_ok_def)
  qed
  then show "complete_walk (phys s) root a"
    and "l \<noteq> P4D \<Longrightarrow> api_entries OS a 0 s l = Some (walk_entry (phys s) root a l)" by simp_all
qed

text \<open>
  The state of a page of the program: its PTE is \<open>w\<close>, its upper entries are \<open>up\<close>, and the library finds
  the entries the processor uses.
\<close>

definition page_state :: "os \<Rightarrow> u64 \<Rightarrow> u64 \<Rightarrow> (level \<Rightarrow> u64) \<Rightarrow> u64 \<Rightarrow> sys \<Rightarrow> bool" where
  "page_state OS root a up w s \<longleftrightarrow>
     mmu_config OS root s \<and> api_ok OS a 0 s \<and> plain_entries (api_entries OS a 0 s) \<and> api_entries OS a 0 s PTE = Some w
     \<and> (\<forall>l \<in> {PGD, PUD, PMD}. walk_entry (phys s) root a l = up l)"

lemma page_state_walk:
  assumes "page_state OS root a up w s"
  shows "complete_walk (phys s) root a" "walk_entry (phys s) root a PTE = w" "ptedit_get_pfn X86_64 w < 2 ^ 28"
proof -
  from assms have "mmu_config OS root s" "api_ok OS a 0 s" "plain_entries (api_entries OS a 0 s)" "api_entries OS a 0 s PTE = Some w"
    by (simp_all add: page_state_def)
  with api_entries_walk [of OS root s a] show "complete_walk (phys s) root a" "walk_entry (phys s) root a PTE = w" by simp_all
  show "ptedit_get_pfn X86_64 w < 2 ^ 28"
    using \<open>plain_entries _\<close> \<open>api_entries OS a 0 s PTE = _\<close> unfolding plain_entries_def by blast
qed

lemma page_state_frame:
  assumes "page_state OS root a up w s" and "same_lib s t" and "phys t = phys s"
  shows "page_state OS root a up w t"
  using assms api.ok_frame [of OS a 0 s t] mmu_config_same by (auto simp: page_state_def)

text \<open>Editing the PTE of an address edits the state of its page.\<close>

lemma edit_pte_page:
  assumes st: "page_state OS root a up w s" and f: "f w = Some v" and small: "ptedit_get_pfn X86_64 v < 2 ^ 28"
  shows "\<exists>u. edit_pte (ptedit_resolve OS) (ptedit_update OS) f a 0 s = Some u \<and> same_lib s u \<and> page_state OS root a up v u"
proof -
  from st have conf: "mmu_config OS root s" and ok: "api_ok OS a 0 s" and plain: "plain_entries (api_entries OS a 0 s)"
    and w: "api_entries OS a 0 s PTE = Some w"
    by (simp_all add: page_state_def)
  obtain u where u: "edit_pte (ptedit_resolve OS) (ptedit_update OS) f a 0 s = Some u" "same_lib s u" "api_ok OS a 0 u"
    "api_entries OS a 0 u = (api_entries OS a 0 s)(PTE \<mapsto> v)"
    by (rule api.edit_pte_entries [where f = f and v = v, OF ok w f])
  have conf': "mmu_config OS root u" by (rule mmu_config_same [OF conf u(2)])
  have plain': "plain_entries (api_entries OS a 0 u)" using plain small by (simp add: u(4) plain_entries_def)
  have "walk_entry (phys u) root a l = walk_entry (phys s) root a l" if "l \<in> {PGD, PUD, PMD}" for l
    using api_entries_walk(2) [OF conf ok plain, of l] api_entries_walk(2) [OF conf' u(3) plain', of l] that
    by (auto simp: u(4))
  then show ?thesis using st u conf' plain' by (auto simp: page_state_def)
qed

lemma get_pfn_cong:
  "(\<And>n. 12 \<le> n \<Longrightarrow> n < 52 \<Longrightarrow> bit x n = bit y n) \<Longrightarrow> ptedit_get_pfn X86_64 x = ptedit_get_pfn X86_64 (y :: u64)"
  by (intro u64_eqI) (auto simp: bit_get_pfn pfn_width_def)

lemma set_bit_page:
  assumes "page_state OS root a up w s" and "nr < 12 \<or> 52 \<le> nr" and "nr < 64"
  shows "\<exists>u. ptedit_pte_set_bit OS a 0 (int nr) s = Some u \<and> same_lib s u \<and> page_state OS root a up (w OR ull_bit nr) u"
proof -
  have "ptedit_get_pfn X86_64 (w OR ull_bit nr) = ptedit_get_pfn X86_64 w"
    using assms(2) by (intro get_pfn_cong) (auto simp: bit_simps bit_ull_bit)
  then show ?thesis
    unfolding pte_ops_edit using assms(3) page_state_walk(3) [OF assms(1)]
    by (intro edit_pte_page [OF assms(1)]) (simp_all add: c_shl_ull_1)
qed

lemma clear_bit_page:
  assumes "page_state OS root a up w s" and "nr < 12 \<or> 52 \<le> nr" and "nr < 64"
  shows "\<exists>u. ptedit_pte_clear_bit OS a 0 (int nr) s = Some u \<and> same_lib s u \<and> page_state OS root a up (w AND NOT (ull_bit nr)) u"
proof -
  have "ptedit_get_pfn X86_64 (w AND NOT (ull_bit nr)) = ptedit_get_pfn X86_64 w"
    using assms(2) by (intro get_pfn_cong) (auto simp: bit_simps bit_ull_bit)
  then show ?thesis
    unfolding pte_ops_edit using assms(3) page_state_walk(3) [OF assms(1)]
    by (intro edit_pte_page [OF assms(1)]) (simp_all add: c_shl_ull_1)
qed

lemma pfn_28:
  assumes "pfn < 2 ^ 28"
  shows "ptedit_get_pfn X86_64 (ptedit_set_pfn X86_64 w pfn) = pfn"
    "ptedit_set_pfn X86_64 (ptedit_set_pfn X86_64 w pfn) (ptedit_get_pfn X86_64 w) = w"
    "bit (ptedit_set_pfn X86_64 w pfn) 0 = bit w 0"
proof -
  have wide: "pfn < 2 ^ pfn_width X86_64" using less_le_trans [OF assms, of "2 ^ 40"] by (simp add: pfn_width_def)
  then show "ptedit_get_pfn X86_64 (ptedit_set_pfn X86_64 w pfn) = pfn"
    by (intro u64_eqI) (auto simp: get_set_pfn_iff bit_simps dest: pfn_bit_bound)
  show "ptedit_set_pfn X86_64 (ptedit_set_pfn X86_64 w pfn) (ptedit_get_pfn X86_64 w) = w"
    using wide by (simp add: set_set_pfn set_get_pfn)
  show "bit (ptedit_set_pfn X86_64 w pfn) 0 = bit w 0" by (simp add: bit_set_pfn)
qed

lemma set_pfn_page:
  assumes "page_state OS root a up w s" and "pfn < 2 ^ 28"
  shows "\<exists>u. ptedit_pte_set_pfn OS a 0 pfn s = Some u \<and> same_lib s u \<and> page_state OS root a up (ptedit_set_pfn X86_64 w pfn) u"
proof -
  have "cfg_arch (os_kernel OS) = X86_64" using assms(1) by (simp add: page_state_def mmu_config_def)
  then show ?thesis
    unfolding pte_ops_edit using assms(2) pfn_28(1) [OF assms(2), of w] by (intro edit_pte_page [OF assms(1)]) simp_all
qed

lemma translate_page:
  assumes "page_state OS root a up w s" and "same_page va a"
  shows "translate (phys s) root va =
    (if bit w 0 then Some (ptedit_get_pfn X86_64 w * 4096 + take_bit 12 va) else None)"
  using translate_complete [of "phys s" root va] page_state_walk [OF assms(1)] by (simp add: same_page_walk [OF assms(2)])

lemma fetchable_page:
  assumes "page_state OS root a up w s" and "same_page va a"
  shows "fetchable (phys s) root va \<longleftrightarrow> bit w 0 \<and> \<not> bit w 63 \<and> (\<forall>l \<in> {PGD, PUD, PMD}. \<not> bit (up l) 63)"
  using fetchable_complete [of "phys s" root va] page_state_walk [OF assms(1)] assms(1)
  by (auto simp: same_page_walk [OF assms(2)] page_state_def)

section \<open>What the program sees\<close>

text \<open>The page of the sample machine, with each of the three implementations.\<close>

lemma sample_walk_entries:
  "walk_entry sample_mem 0x1000 sample_vaddr PGD = 0x2067" "walk_entry sample_mem 0x1000 sample_vaddr PUD = 0x3067"
  "walk_entry sample_mem 0x1000 sample_vaddr PMD = 0x4067" "walk_entry sample_mem 0x1000 sample_vaddr PTE = 0x8000000000005067"
proof -
  show pgd: "walk_entry sample_mem 0x1000 sample_vaddr PGD = 0x2067"
    by (simp add: walk_entry_loads(1) [symmetric] level_index_x86 sample_vaddr_def sample_loads)
  show pud: "walk_entry sample_mem 0x1000 sample_vaddr PUD = 0x3067"
    unfolding walk_entry_loads(2) [symmetric] pgd by (simp add: below_mask level_index_x86 sample_vaddr_def sample_loads)
  show pmd: "walk_entry sample_mem 0x1000 sample_vaddr PMD = 0x4067"
    unfolding walk_entry_loads(3) [symmetric] pud by (simp add: below_mask level_index_x86 sample_vaddr_def sample_loads)
  show "walk_entry sample_mem 0x1000 sample_vaddr PTE = 0x8000000000005067"
    unfolding walk_entry_loads(4) [symmetric] pmd by (simp add: below_mask level_index_x86 sample_vaddr_def sample_loads)
qed

definition sample_entries :: "level \<Rightarrow> u64" where
  "sample_entries l = (case l of PGD \<Rightarrow> 0x2067 | P4D \<Rightarrow> 0x2067 | PUD \<Rightarrow> 0x3067 | PMD \<Rightarrow> 0x4067 | PTE \<Rightarrow> 0x8000000000005067)"

lemma sample_mmu_config:
  "mmu_config sample_os 0x1000 sample_sys" "mmu_config sample_os 0x1000 sample_pread" "mmu_config sample_os 0x1000 sample_map"
proof -
  have K: "os_kernel sample_os = sample_linux" "cfg_arch sample_linux = X86_64" "get_mm sample_linux (size_of_int 0) = Some 3"
    by (simp_all add: sample_os_def sample_linux_def get_mm_def size_of_int_def)
  have root: "virt_to_phys sample_linux (sample_roots 3) = 0x1000"
    by (simp add: sample_linux_def sample_roots_def)
  show "mmu_config sample_os 0x1000 sample_sys" "mmu_config sample_os 0x1000 sample_pread" "mmu_config sample_os 0x1000 sample_map"
    by (simp_all add: mmu_config_def K sample_accessors root sample_user_root sample_sys_simps)
       (simp_all add: sample_pread_eq sample_map_eq sample_sys_simps root)
qed

lemma sample_api_entries:
  assumes "s \<in> {sample_sys, sample_pread, sample_map}" and "l \<noteq> P4D"
  shows "api_entries sample_os sample_vaddr 0 s l = Some (sample_entries l)"
proof -
  have "kernel_entries sample_os sample_vaddr 0 sample_sys l = Some (sample_entries l)"
    using assms(2) by (cases l) (simp_all add: kernel_entries_def sample_kernel_vm sample_entries_def,
      simp_all add: kread_def sample_os_def sample_linux_def sample_sys_simps sample_loads)
  moreover have "user_entries sample_os sample_vaddr 0 sample_pread l = Some (sample_entries l)"
    "user_entries sample_os sample_vaddr 0 sample_map l = Some (sample_entries l)"
    using assms(2) by (cases l; simp add: user_entries_def sample_user_walk sample_walk sample_entries_def)+
  moreover have "ptedit_resolve_ptr sample_pread = Resolve_user" "ptedit_resolve_ptr sample_map = Resolve_user_map"
    by (simp_all add: sample_pread_eq sample_map_eq)
  ultimately show ?thesis using assms(1) by (auto simp: api_entries_def sample_sys_simps)
qed

lemma sample_page_state:
  assumes s: "s \<in> {sample_sys, sample_pread, sample_map}"
  shows "page_state sample_os 0x1000 sample_vaddr sample_entries 0x8000000000005067 s"
proof -
  have P4D: "api_entries sample_os sample_vaddr 0 s P4D \<in> {None, Some 0x2067}"
    using s by (auto simp: api_entries_def kernel_entries_def user_entries_def sample_kernel_vm sample_user_walk sample_walk
        sample_pread_eq [THEN arg_cong, of ptedit_resolve_ptr] sample_map_eq [THEN arg_cong, of ptedit_resolve_ptr] sample_sys_simps)
       (simp add: kread_def sample_os_def sample_linux_def sample_loads)
  have plain: "\<forall>e \<in> {0x2067, 0x3067, 0x4067, 0x8000000000005067}. ptedit_get_pfn X86_64 e < 2 ^ 28 \<and> bit e 0 \<and> \<not> bit e 7"
    by (simp add: ptedit_get_pfn_def bit_numeral_rec pfn_width_def)
  have "e \<in> {0x2067, 0x3067, 0x4067, 0x8000000000005067}"
    if "api_entries sample_os sample_vaddr 0 s l = Some e" for l e
    using that sample_api_entries [OF s, of l] P4D by (cases l) (auto simp: sample_entries_def)
  then have "plain_entries (api_entries sample_os sample_vaddr 0 s)"
    using plain unfolding plain_entries_def by blast
  moreover have "api_ok sample_os sample_vaddr 0 s" "mmu_config sample_os 0x1000 s" "phys s = sample_mem"
    using s sample_api_ok sample_mmu_config by (auto simp: sample_pread_eq sample_map_eq sample_sys_simps)
  ultimately show ?thesis
    using sample_api_entries [OF s, of PTE] by (simp add: page_state_def sample_walk_entries sample_entries_def)
qed

text \<open>
  C16. Replacing the frame number redirects the memory accesses of the program: with any implementation,
  after the call the processor translates every address of the page to the new frame, at the same
  offset, and after setting the old number again to the old one.
\<close>

theorem set_pfn_redirects_accesses:
  assumes "page_state OS root a up w s" and "bit w 0" and "pfn < 2 ^ 28"
  shows "\<exists>u v. ptedit_pte_set_pfn OS a 0 pfn s = Some u \<and> ptedit_pte_set_pfn OS a 0 (ptedit_get_pfn X86_64 w) u = Some v
    \<and> (\<forall>va. same_page va a \<longrightarrow>
          translate (phys s) root va = Some (ptedit_get_pfn X86_64 w * 4096 + take_bit 12 va)
          \<and> translate (phys u) root va = Some (pfn * 4096 + take_bit 12 va)
          \<and> translate (phys v) root va = translate (phys s) root va)"
proof -
  obtain u where u: "ptedit_pte_set_pfn OS a 0 pfn s = Some u" "page_state OS root a up (ptedit_set_pfn X86_64 w pfn) u"
    using set_pfn_page [OF assms(1,3)] by blast
  obtain v where v: "ptedit_pte_set_pfn OS a 0 (ptedit_get_pfn X86_64 w) u = Some v" "page_state OS root a up w v"
    using set_pfn_page [OF u(2) page_state_walk(3) [OF assms(1)]] by (auto simp: pfn_28 [OF assms(3)])
  show ?thesis
    using u(1) v(1) assms(2) translate_page [OF assms(1)] translate_page [OF u(2)] translate_page [OF v(2)]
    by (auto simp: pfn_28 [OF assms(3)])
qed

theorem set_pfn_redirects_accesses_witness:
  "\<exists>u v. ptedit_pte_set_pfn sample_os sample_vaddr 0 0x77 sample_sys = Some u
    \<and> ptedit_pte_set_pfn sample_os sample_vaddr 0 5 u = Some v
    \<and> translate (phys sample_sys) 0x1000 (sample_vaddr + 0x123) = Some 0x5123
    \<and> translate (phys u) 0x1000 (sample_vaddr + 0x123) = Some 0x77123
    \<and> translate (phys v) 0x1000 (sample_vaddr + 0x123) = Some 0x5123"
proof -
  have page: "same_page (sample_vaddr + 0x123) sample_vaddr" "take_bit 12 (sample_vaddr + 0x123) = 0x123"
    by (simp_all add: same_page_def sample_vaddr_def take_bit_eq_mask mask_numeral)
  have "ptedit_get_pfn X86_64 0x8000000000005067 = 5" "bit (0x8000000000005067 :: u64) 0"
    by (simp_all add: ptedit_get_pfn_def pfn_width_def)
  with set_pfn_redirects_accesses [OF sample_page_state [of sample_sys], of "0x77"] page show ?thesis by fastforce
qed

text \<open>
  C17. Bit operations on the PTE control the accesses of the program: clearing the present bit makes the
  accesses to the page fault, and setting it makes them succeed as before; setting the NX bit forbids
  fetching instructions from the page, and clearing it allows it where the levels above allow it.
\<close>

theorem bits_control_accesses:
  assumes "page_state OS root a up w s" and "bit w 0" and "same_page va a"
  shows "(\<exists>u v. ptedit_pte_clear_bit OS a 0 (int (x86_bit_nr PRESENT)) s = Some u
        \<and> ptedit_pte_set_bit OS a 0 (int (x86_bit_nr PRESENT)) u = Some v
        \<and> translate (phys u) root va = None \<and> translate (phys v) root va = translate (phys s) root va)
    \<and> (\<exists>u v. ptedit_pte_set_bit OS a 0 (int (x86_bit_nr NX)) s = Some u
        \<and> ptedit_pte_clear_bit OS a 0 (int (x86_bit_nr NX)) u = Some v
        \<and> \<not> fetchable (phys u) root va
        \<and> (fetchable (phys v) root va \<longleftrightarrow> (\<forall>l \<in> {PGD, PUD, PMD}. \<not> bit (up l) 63)))"
proof
  let ?x = "w AND NOT (ull_bit 0)"
  obtain u where u: "ptedit_pte_clear_bit OS a 0 (int 0) s = Some u" "page_state OS root a up ?x u"
    using clear_bit_page [OF assms(1), of 0] by auto
  obtain v where v: "ptedit_pte_set_bit OS a 0 (int 0) u = Some v" "page_state OS root a up (?x OR ull_bit 0) v"
    using set_bit_page [OF u(2), of 0] by auto
  have x: "\<not> bit ?x 0" "?x OR ull_bit 0 = w" using assms(2) by (auto simp: bit_simps bit_ull_bit intro!: u64_eqI)
  show "\<exists>u v. ptedit_pte_clear_bit OS a 0 (int (x86_bit_nr PRESENT)) s = Some u
      \<and> ptedit_pte_set_bit OS a 0 (int (x86_bit_nr PRESENT)) u = Some v
      \<and> translate (phys u) root va = None \<and> translate (phys v) root va = translate (phys s) root va"
    using u(1) v(1) x translate_page [OF u(2) assms(3)] translate_page [OF v(2) assms(3)] translate_page [OF assms(1,3)]
    by auto
next
  let ?y = "w OR ull_bit 63"
  obtain u where u: "ptedit_pte_set_bit OS a 0 (int 63) s = Some u" "page_state OS root a up ?y u"
    using set_bit_page [OF assms(1), of 63] by auto
  obtain v where v: "ptedit_pte_clear_bit OS a 0 (int 63) u = Some v" "page_state OS root a up (?y AND NOT (ull_bit 63)) v"
    using clear_bit_page [OF u(2), of 63] by auto
  have y: "bit ?y 63" "\<not> bit (?y AND NOT (ull_bit 63)) 63" "bit (?y AND NOT (ull_bit 63)) 0"
    using assms(2) by (simp_all add: bit_simps bit_ull_bit)
  show "\<exists>u v. ptedit_pte_set_bit OS a 0 (int (x86_bit_nr NX)) s = Some u
      \<and> ptedit_pte_clear_bit OS a 0 (int (x86_bit_nr NX)) u = Some v
      \<and> \<not> fetchable (phys u) root va \<and> (fetchable (phys v) root va \<longleftrightarrow> (\<forall>l \<in> {PGD, PUD, PMD}. \<not> bit (up l) 63))"
    using u(1) v(1) y fetchable_page [OF u(2) assms(3)] fetchable_page [OF v(2) assms(3)]
    by auto
qed

theorem bits_control_accesses_witness:
  "(\<exists>u. ptedit_pte_clear_bit sample_os sample_vaddr 0 0 sample_pread = Some u
      \<and> translate (phys u) 0x1000 (sample_vaddr + 0x123) = None)
    \<and> (\<exists>u v. ptedit_pte_set_bit sample_os sample_vaddr 0 63 sample_map = Some u
      \<and> ptedit_pte_clear_bit sample_os sample_vaddr 0 63 u = Some v
      \<and> \<not> fetchable (phys u) 0x1000 (sample_vaddr + 0x123) \<and> fetchable (phys v) 0x1000 (sample_vaddr + 0x123))"
proof -
  have page: "same_page (sample_vaddr + 0x123) sample_vaddr" by (simp add: same_page_def sample_vaddr_def)
  have bits: "bit (0x8000000000005067 :: u64) 0" "\<forall>l \<in> {PGD, PUD, PMD}. \<not> bit (sample_entries l) 63"
    by (simp_all add: sample_entries_def)
  note P = bits_control_accesses [OF sample_page_state bits(1) page]
  show ?thesis using conjunct1 [OF P [of sample_pread]] conjunct2 [OF P [of sample_map]] bits(2) by fastforce
qed

end
