(* ===== verification/PT_Tlb.thy ===== *)
theory PT_Tlb
  imports PT_Concurrent PT_Mmu
begin

text \<open>
  Translations that the processors have cached.  While requests to the module are in progress, the
  processors load translations from the tables as they are at that moment and drop cached ones at any
  time; the flushes of the module remove them.  What a flush removes is Linux code and hardware: the
  pages of the range given to \<open>flush_tlb_mm_range\<close>, on all processors.
\<close>

section \<open>Cached translations\<close>

text \<open>The translation of a page: an address space and a page number with the frame's address.\<close>

type_synonym tlb = "nat \<times> u64 \<Rightarrow> u64 option"

definition flushed_pages :: "u64 \<Rightarrow> u64 \<Rightarrow> nat \<Rightarrow> u64 list" where
  "flushed_pages a b sh = map (\<lambda>k. drop_bit 12 (a + of_nat (k * 2 ^ sh))) [0..<(unat (b - a) + 2 ^ sh - 1) div 2 ^ sh]"

fun flush_event :: "kevent \<Rightarrow> tlb \<Rightarrow> tlb" where
  "flush_event (Flush_tlb_range mm a b sh freed) T =
     (\<lambda>(m, p). if m = mm \<and> p \<in> set (flushed_pages a b sh) then None else T (m, p))"
| "flush_event _ T = T"

definition page_translation :: "linux \<Rightarrow> kstate \<Rightarrow> nat \<Rightarrow> u64 \<Rightarrow> u64 option" where
  "page_translation K s mm p = translate (phys s) (virt_to_phys K (mm_pgd s mm)) (push_bit 12 p)"

definition coherent :: "linux \<Rightarrow> kstate \<Rightarrow> tlb \<Rightarrow> nat \<Rightarrow> u64 \<Rightarrow> bool" where
  "coherent K s T mm p \<longleftrightarrow> (\<forall>q. T (mm, p) = Some q \<longrightarrow> page_translation K s mm p = Some q)"

definition new_events :: "config \<Rightarrow> config \<Rightarrow> kevent list" where
  "new_events c c' = drop (length (trace (shared c))) (trace (shared c'))"

inductive tstep :: "linux \<Rightarrow> config \<times> tlb \<Rightarrow> config \<times> tlb \<Rightarrow> bool" for K where
  kernel: "kstep K c c' \<Longrightarrow> tstep K (c, T) (c', fold flush_event (new_events c c') T)"
| load: "page_translation K (shared c) mm p = Some q \<Longrightarrow> tstep K (c, T) (c, T((mm, p) \<mapsto> q))"
| evict: "tstep K (c, T) (c, T((mm, p) := None))"

section \<open>What the steps of a request keep\<close>

definition tlb_config :: "kstate \<Rightarrow> tlb_fn \<times> nat \<times> nat" where
  "tlb_config s = (invalidate_tlb_fn s, real_page_size s, real_page_shift s)"

lemma tlb_config_emit [simp]: "tlb_config (emit e s) = tlb_config s"
  by (simp add: tlb_config_def emit_def)

lemma exec_config: "tlb_config (snd (exec K a (f, s))) = tlb_config s"
  by (cases a) (simp_all add: tlb_config_def put_step_def update_level_def Let_def PT_Linux.invalidate_tlb_def
      invalidate_tlb_kernel_def invalidate_tlb_custom_def emit_def split: option.split tlb_fn.split arch.split)

lemma exec_frame:
  assumes "\<not> is_copy a"
  shows "f_user (fst (exec K a (f, s))) = f_user f" "vm_pid (f_vm (fst (exec K a (f, s)))) = vm_pid (f_vm f)"
proof -
  have look: "f_user (look l b q g) = f_user g" "vm_pid (f_vm (look l b q g)) = vm_pid (f_vm g)" for l b q g
    by (cases l; simp add: look_def found_def Let_def)+
  show "f_user (fst (exec K a (f, s))) = f_user f" "vm_pid (f_vm (fst (exec K a (f, s)))) = vm_pid (f_vm f)"
    using assms by (cases a; simp add: walk_step_def look Let_def split: option.split)+
qed

lemma body_ends: "request_body K mm (Req_update u) = bs @ [a] \<Longrightarrow> a = Flush" "\<not> list_ex is_copy (request_body K mm r)"
  "request_body K mm r \<noteq> []"
proof -
  show "request_body K mm (Req_update u) = bs @ [a] \<Longrightarrow> a = Flush"
    using arg_cong [of "request_body K mm (Req_update u)" "bs @ [a]" last] by (simp add: put_actions_def)
  show "\<not> list_ex is_copy (request_body K mm r)" "request_body K mm r \<noteq> []"
    by (cases r; simp add: walk_actions_def lower_actions_def put_actions_def)+
qed

lemma one_page: "flushed_pages a (a + 4096) 12 = [drop_bit 12 a]"
  by (simp add: flushed_pages_def)

lemma coherent_view: "shared_view s' = shared_view s \<Longrightarrow> coherent K s' T mm p = coherent K s T mm p"
  by (simp add: coherent_def page_translation_def view_eq)

lemma coherent_load: "page_translation K s mm' p' = Some q \<Longrightarrow> coherent K s T mm p \<Longrightarrow> coherent K s (T((mm', p') \<mapsto> q)) mm p"
  by (auto simp: coherent_def)

lemma coherent_evict: "coherent K s T mm p \<Longrightarrow> coherent K s (T((mm', p') := None)) mm p"
  by (auto simp: coherent_def)

section \<open>The invariant\<close>

text \<open>
  An update that is inside still has its flush to make, or has made it and its page is coherent; and
  while no thread is inside exclusively, the page of the last update is coherent.
\<close>

definition tlb_ok :: "linux \<Rightarrow> request list \<Rightarrow> nat \<Rightarrow> kstate \<Rightarrow> config \<Rightarrow> tlb \<Rightarrow> bool" where
  "tlb_ok K rs M s0 c T \<longleftrightarrow>
     config_ok K rs s0 c \<and> tlb_config (shared c) = (Tlb_kernel, 4096, 12)
     \<and> (\<forall>i u. i < length rs \<longrightarrow> rs ! i = Req_update u \<longrightarrow>
          (\<forall>as. t_pc (threads c ! i) = Inside as \<longrightarrow>
               f_user (t_frame (threads c ! i)) = u \<and> vm_pid (f_vm (t_frame (threads c ! i))) = pid u
               \<and> (\<exists>bs. request_body K M (rs ! i) = bs @ as)
               \<and> (as = [] \<longrightarrow> coherent K (shared c) T M (drop_bit 12 (vaddr u)))))
     \<and> ((\<forall>i. inside_at c i \<longrightarrow> request_mode (rs ! i) = Shared) \<longrightarrow>
          (\<forall>u. history c \<noteq> [] \<longrightarrow> rs ! last (history c) = Req_update u \<longrightarrow> coherent K (shared c) T M (drop_bit 12 (vaddr u))))"

lemma tlb_okD:
  assumes "tlb_ok K rs M s0 c T"
  shows "config_ok K rs s0 c" "tlb_config (shared c) = (Tlb_kernel, 4096, 12)"
    and "i < length rs \<Longrightarrow> rs ! i = Req_update u \<Longrightarrow> t_pc (threads c ! i) = Inside as \<Longrightarrow>
      f_user (t_frame (threads c ! i)) = u \<and> vm_pid (f_vm (t_frame (threads c ! i))) = pid u \<and> (\<exists>bs. request_body K M (rs ! i) = bs @ as)"
    and "i < length rs \<Longrightarrow> rs ! i = Req_update u \<Longrightarrow> t_pc (threads c ! i) = Inside [] \<Longrightarrow> coherent K (shared c) T M (drop_bit 12 (vaddr u))"
    and "(\<And>i. inside_at c i \<Longrightarrow> request_mode (rs ! i) = Shared) \<Longrightarrow> history c \<noteq> [] \<Longrightarrow> rs ! last (history c) = Req_update u \<Longrightarrow>
      coherent K (shared c) T M (drop_bit 12 (vaddr u))"
  using assms unfolding tlb_ok_def by blast+

text \<open>Steps of the hardware.\<close>

lemma tlb_ok_hardware:
  assumes "tlb_ok K rs M s0 c T" and "\<And>p. coherent K (shared c) T M p \<Longrightarrow> coherent K (shared c) T' M p"
  shows "tlb_ok K rs M s0 c T'"
  using assms unfolding tlb_ok_def by blast

text \<open>
  A step of thread \<open>i\<close> that keeps the shared state, or is made inside an exclusive section: the
  obligations of thread \<open>i\<close> itself, of the others, and at the end of a section.
\<close>

lemma tlb_ok_move:
  assumes ok: "tlb_ok K rs M s0 c T" and ok': "config_ok K rs s0 c'" "tlb_config (shared c') = (Tlb_kernel, 4096, 12)"
    and c': "threads c' = (threads c)[i := t]" and i: "i < length rs"
    and mine: "\<And>u as. rs ! i = Req_update u \<Longrightarrow> t_pc t = Inside as \<Longrightarrow>
        f_user (t_frame t) = u \<and> vm_pid (f_vm (t_frame t)) = pid u \<and> (\<exists>bs. request_body K M (rs ! i) = bs @ as)
        \<and> (as = [] \<longrightarrow> coherent K (shared c') T' M (drop_bit 12 (vaddr u)))"
    and calm: "\<not> (inside_at c i \<and> is_Inside (t_pc t) \<and> request_mode (rs ! i) = Exclusive) \<Longrightarrow>
        shared_view (shared c') = shared_view (shared c) \<and> T' = T"
    and hist: "history c' = history c \<or> history c' = history c @ [i] \<and> t_pc (threads c ! i) = Inside []"
      "inside_at c i \<Longrightarrow> request_mode (rs ! i) = Exclusive \<Longrightarrow> \<not> is_Inside (t_pc t) \<Longrightarrow> history c' = history c @ [i]"
  shows "tlb_ok K rs M s0 c' T'"
proof -
  note D = tlb_okD [OF ok] and E = config_okD [OF tlb_okD(1) [OF ok]] and F = config_okD [OF ok'(1)]
  have th: "threads c' ! j = (if j = i then t else threads c ! j)" for j using c' i E(1) by simp
  have ins: "inside_at c' j \<longleftrightarrow> (if j = i then is_Inside (t_pc t) else inside_at c j)" for j
    using i E(1) th c' by (simp add: inside_at_def)
  have coh: "coherent K (shared c') T' M p = coherent K (shared c) T M p"
    if "\<not> (inside_at c i \<and> is_Inside (t_pc t) \<and> request_mode (rs ! i) = Exclusive)" for p
    using calm [OF that] coherent_view [of "shared c'" "shared c" K T M p] by simp
  have "f_user (t_frame (threads c' ! j)) = u \<and> vm_pid (f_vm (t_frame (threads c' ! j))) = pid u
      \<and> (\<exists>bs. request_body K M (rs ! j) = bs @ as) \<and> (as = [] \<longrightarrow> coherent K (shared c') T' M (drop_bit 12 (vaddr u)))"
    if j: "j < length rs" "rs ! j = Req_update u" "t_pc (threads c' ! j) = Inside as" for j u as
  proof (cases "j = i")
    case True
    with j th mine show ?thesis by simp
  next
    case False
    with j th have pc: "t_pc (threads c ! j) = Inside as" by simp
    then have "inside_at c j" "inside_at c' j" using j E(1) F(1) th False by (simp_all add: inside_at_def)
    then have "\<not> (inside_at c i \<and> is_Inside (t_pc t) \<and> request_mode (rs ! i) = Exclusive)"
      using E(3) [of i j] False by auto
    from coh [OF this] D(3,4) [OF j(1,2)] pc False th show ?thesis by auto
  qed
  moreover have "coherent K (shared c') T' M (drop_bit 12 (vaddr u))"
    if all: "\<And>j. inside_at c' j \<Longrightarrow> request_mode (rs ! j) = Shared" and h: "history c' \<noteq> []" "rs ! last (history c') = Req_update u" for u
  proof -
    have quiet: "\<not> (inside_at c i \<and> is_Inside (t_pc t) \<and> request_mode (rs ! i) = Exclusive)" using all [of i] ins [of i] by auto
    show ?thesis
    proof (cases "history c' = history c")
      case True
      have "request_mode (rs ! j) = Shared" if "inside_at c j" for j
      proof (cases "j = i")
        case j: True
        show ?thesis
        proof (rule ccontr)
          assume "request_mode (rs ! j) \<noteq> Shared"
          then have ex: "request_mode (rs ! i) = Exclusive" using j by (cases "request_mode (rs ! i)") auto
          then have "\<not> is_Inside (t_pc t)" using quiet that j by auto
          from hist(2) [OF _ ex this] True that j show False by simp
        qed
      qed (use all ins that in auto)
      then show ?thesis using D(5) [of u] h True coh [OF quiet] by simp
    next
      case False
      with hist(1) have "history c' = history c @ [i]" "t_pc (threads c ! i) = Inside []" by auto
      then show ?thesis using D(4) [OF i] h coh [OF quiet] by simp
    qed
  qed
  ultimately show ?thesis unfolding tlb_ok_def using ok' by blast
qed

lemma flush_lock_events [simp]: "flush_event (lock_event md mm) T = T" "flush_event (unlock_event md mm) T = T"
  by (cases md; simp)+

lemma new_events_thread:
  "new_events c (with_thread i t (shared c) c) = []" "new_events c (with_thread i t (emit e (shared c)) c) = [e]"
  "new_events c (d\<lparr>history := h\<rparr>) = new_events c d"
  by (simp_all add: new_events_def with_thread_def emit_def)

lemma with_thread_sel:
  "threads (with_thread i t s c) = (threads c)[i := t]" "history (with_thread i t s c) = history c"
  by (simp_all add: with_thread_def)

lemma tlb_ok_inside:
  assumes ok: "tlb_ok K rs M s0 c T" and M: "one_space K M rs" and X: "cfg_arch K = X86_64"
    and pids: "\<And>e. Req_update e \<in> set rs \<Longrightarrow> \<exists>p. pid e = size_of_int p"
    and i: "i < length (threads c)" and pc: "t_pc (threads c ! i) = Inside (a # as)"
    and ex: "exec K a (t_frame (threads c ! i), shared c) = (f, s)"
  defines "c' \<equiv> with_thread i ((threads c ! i)\<lparr>t_pc := Inside as, t_frame := f\<rparr>) s c"
  shows "tlb_ok K rs M s0 c' (fold flush_event (new_events c c') T)"
proof (rule tlb_ok_move [OF ok])
  note D = tlb_okD [OF ok] and E = config_okD [OF tlb_okD(1) [OF ok]]
  from i E(1) show i': "i < length rs" by simp
  have c': "threads c' = (threads c)[i := (threads c ! i)\<lparr>t_pc := Inside as, t_frame := f\<rparr>]" "shared c' = s" "history c' = history c"
    by (simp_all add: c'_def with_thread_def)
  show "config_ok K rs s0 c'" unfolding c'_def by (rule step_inside [OF D(1) i pc ex])
  show "tlb_config (shared c') = (Tlb_kernel, 4096, 12)" using exec_config [of K a "t_frame (threads c ! i)" "shared c"] ex D(2) c' by simp
  show "threads c' = (threads c)[i := (threads c ! i)\<lparr>t_pc := Inside as, t_frame := f\<rparr>]" by (rule c'(1))
  have ins: "inside_at c i" using i pc by (simp add: inside_at_def)
  note T = thread_okD [OF E(2) [OF i']]
  show "shared_view (shared c') = shared_view (shared c) \<and> fold flush_event (new_events c c') T = T"
    if "\<not> (inside_at c i \<and> is_Inside (t_pc ((threads c ! i)\<lparr>t_pc := Inside as, t_frame := f\<rparr>)) \<and> request_mode (rs ! i) = Exclusive)"
  proof -
    have "request_mode (rs ! i) = Shared" using that ins by (cases "request_mode (rs ! i)") auto
    then have "is_walk a" using T(4) [OF pc] by simp
    then have "s = shared c" using exec_reads [of a K "t_frame (threads c ! i)" "shared c"] ex by simp
    then show ?thesis by (simp add: c'_def new_events_thread)
  qed
  show "history c' = history c \<or> history c' = history c @ [i] \<and> t_pc (threads c ! i) = Inside []" using c'(3) by simp
  show "f_user (t_frame ((threads c ! i)\<lparr>t_pc := Inside as, t_frame := f\<rparr>)) = u
      \<and> vm_pid (f_vm (t_frame ((threads c ! i)\<lparr>t_pc := Inside as, t_frame := f\<rparr>))) = pid u \<and> (\<exists>bs. request_body K M (rs ! i) = bs @ bs')
      \<and> (bs' = [] \<longrightarrow> coherent K (shared c') (fold flush_event (new_events c c') T) M (drop_bit 12 (vaddr u)))"
    if u: "rs ! i = Req_update u" and bs': "t_pc ((threads c ! i)\<lparr>t_pc := Inside as, t_frame := f\<rparr>) = Inside bs'" for u bs'
  proof -
    obtain bs where fr: "f_user (t_frame (threads c ! i)) = u" "vm_pid (f_vm (t_frame (threads c ! i))) = pid u"
      and body: "request_body K M (rs ! i) = bs @ a # as"
      using D(3) [OF i' u pc] by blast
    have "\<not> is_copy a" using body_ends(2) [of K M "rs ! i"] body by simp
    note keep = exec_frame [OF this, of K "t_frame (threads c ! i)" "shared c", unfolded ex fr]
    have "coherent K (shared c') (fold flush_event (new_events c c') T) M (drop_bit 12 (vaddr u))" if "as = []"
    proof -
      have a: "a = Flush" using body_ends(1) [of K M u bs a] body u that by simp
      obtain p where p: "pid u = size_of_int p" using pids [of u] u i' by (metis nth_mem)
      have "request_mm K (rs ! i) = Some M" using T(3) [OF pc] one_spaceD [OF M i'] by auto
      then have "get_mm K (size_of_int (ucast (pid u))) = Some M" using u p get_mm_pid_t [of K p] by simp
      then have "s = emit (Flush_tlb_range M (vaddr u) (vaddr u + 4096) 12 False) (shared c)"
        using ex D(2) X fr by (auto simp: a PT_Linux.invalidate_tlb_def invalidate_tlb_kernel_def tlb_config_def)
      then show ?thesis by (simp add: c'_def new_events_thread coherent_def one_page)
    qed
    with keep body bs' show ?thesis by auto
  qed
qed (use pc in simp)

lemma tlb_ok_kernel:
  assumes step: "kstep K c c'" and ok: "tlb_ok K rs M s0 c T" and M: "one_space K M rs" and X: "cfg_arch K = X86_64"
    and pids: "\<And>e. Req_update e \<in> set rs \<Longrightarrow> \<exists>p. pid e = size_of_int p"
  shows "tlb_ok K rs M s0 c' (fold flush_event (new_events c c') T)"
proof -
  note D = tlb_okD [OF ok] and E = config_okD [OF tlb_okD(1) [OF ok]]
  have ok': "config_ok K rs s0 c'" by (rule config_ok_step [OF step D(1) M])
  from step show ?thesis
  proof cases
    case (lock i t md mm)
    from lock(2) E(1) have i: "i < length rs" by simp
    note T = thread_okD [OF E(2) [OF i]]
    have mm: "request_mm K (rs ! i) = Some M"
      using lock(3,5) T(1) one_spaceD [OF M i] by (auto simp: program_lock)
    then have body: "p_body (t_prog t) = request_body K M (rs ! i)" using lock(3) T(1) by (simp add: program_of_def)
    show ?thesis
      using ok' D(2) T(2) lock(3,4) body body_ends(3) [of K M "rs ! i"] i lock(1)
      by (intro tlb_ok_move [OF ok, where i = i and t = "t\<lparr>t_pc := Inside (p_body (t_prog t))\<rparr>"])
        (auto simp: with_thread_sel new_events_thread inside_at_def fresh_vm_def)
  next
    case (no_lock i t)
    with E(1) ok' D(2) show ?thesis
      by (intro tlb_ok_move [OF ok, where i = i and t = "t\<lparr>t_pc := After (p_tail (t_prog t))\<rparr>"])
        (auto simp: with_thread_sel new_events_thread inside_at_def)
  next
    case (inside i t a as f s)
    then show ?thesis using tlb_ok_inside [OF ok M X pids, of i a as f s] by simp
  next
    case (unlock i t md mm)
    from unlock(2) E(1) have i: "i < length rs" by simp
    have "request_mode (rs ! i) = md" using unlock(3,5) thread_okD(1) [OF E(2) [OF i]] by (auto simp: program_lock)
    with unlock i ok' D(2) show ?thesis
      by (intro tlb_ok_move [OF ok, where i = i and t = "t\<lparr>t_pc := After (p_tail (t_prog t))\<rparr>"])
        (auto simp: with_thread_sel new_events_thread inside_at_def)
  next
    case (after i t a as f s)
    from after(2) E(1) have i: "i < length rs" by simp
    have "is_copy a" using thread_okD(5) [OF E(2) [OF i]] after(3,4) by simp
    then have "s = shared c" using exec_reads [of a K "t_frame t" "shared c"] after(5) by simp
    with after i ok' D(2) show ?thesis
      by (intro tlb_ok_move [OF ok, where i = i and t = "t\<lparr>t_pc := After as, t_frame := f\<rparr>"])
        (auto simp: with_thread_sel new_events_thread inside_at_def)
  qed
qed

lemma tlb_ok_start: "tlb_config s = (Tlb_kernel, 4096, 12) \<Longrightarrow> tlb_ok K rs M s (start K rs s) T"
  using config_ok_start [of K rs s] by (auto simp: tlb_ok_def start_def thread_of_def)

lemma tlb_ok_reach:
  assumes "(tstep K)\<^sup>*\<^sup>* (start K rs s, T0) (c, T)" and "tlb_config s = (Tlb_kernel, 4096, 12)" and "one_space K M rs"
    and "cfg_arch K = X86_64" and "\<And>e. Req_update e \<in> set rs \<Longrightarrow> \<exists>p. pid e = size_of_int p"
  shows "tlb_ok K rs M s c T"
  using assms(1)
proof (induction rule: rtranclp_induct2)
  case refl
  then show ?case using assms(2) by (rule tlb_ok_start)
next
  case (step c T c' T')
  from step.hyps(2) show ?case
  proof cases
    case kernel
    then show ?thesis using tlb_ok_kernel [OF _ step.IH assms(3,4,5)] by simp
  next
    case (load mm p q)
    then show ?thesis using tlb_ok_hardware [OF step.IH] coherent_load by metis
  next
    case (evict mm p)
    then show ?thesis using tlb_ok_hardware [OF step.IH] coherent_evict by metis
  qed
qed

text \<open>A run of the module is a run in which the processors load nothing.\<close>

lemma kernel_run: "(kstep K)\<^sup>*\<^sup>* c c' \<Longrightarrow> \<exists>T'. (tstep K)\<^sup>*\<^sup>* (c, T) (c', T')"
proof (induction rule: rtranclp_induct)
  case (step d e)
  then obtain T' where "(tstep K)\<^sup>*\<^sup>* (c, T) (d, T')" by blast
  then show ?case using tstep.kernel [OF step.hyps(2), of T'] by (blast intro: rtranclp.rtrancl_into_rtrancl)
qed blast

section \<open>No stale translation of an updated page\<close>



text \<open>
  A request that sets the root changes the tables of a process without flushing: what was cached stays.
\<close>

lemma set_root_keeps_translations:
  assumes "request_mm K (Req_set_root g) = Some M"
  shows "\<exists>c. (tstep K)\<^sup>*\<^sup>* (start K [Req_set_root g] s, T) (c, T) \<and> finished c \<and> mm_pgd (shared c) M = phys_to_virt K (paging_root g)"
proof -
  define t where "t = thread_of K (Req_set_root g)"
  have prog: "p_lock (program_of K (Req_set_root g)) = Some (Exclusive, M)" "p_body (program_of K (Req_set_root g)) = [Put_root M (paging_root g)]"
    "p_tail (program_of K (Req_set_root g)) = []"
    using assms by (simp_all add: program_of_def)
  let ?c0 = "start K [Req_set_root g] s" and ?s1 = "emit (Write_lock M) s"
  let ?c1 = "with_thread 0 (t\<lparr>t_pc := Inside [Put_root M (paging_root g)]\<rparr>) ?s1 ?c0"
  let ?s2 = "?s1\<lparr>mm_pgd := (mm_pgd ?s1)(M := phys_to_virt K (paging_root g))\<rparr>"
  let ?c2 = "with_thread 0 (t\<lparr>t_pc := Inside []\<rparr>) ?s2 ?c1"
  let ?c3 = "(with_thread 0 (t\<lparr>t_pc := After []\<rparr>) (emit (Write_unlock M) ?s2) ?c2)\<lparr>history := [0]\<rparr>"
  have "kstep K ?c0 ?c1"
    using kstep.lock [of 0 ?c0 t Exclusive M K] prog by (simp add: start_def t_def thread_of_def lock_free_def holds_def)
  from tstep.kernel [OF this, of T] have 1: "tstep K (?c0, T) (?c1, T)" by (simp add: new_events_def start_def emit_def with_thread_def)
  have "kstep K ?c1 ?c2"
    using kstep.inside [of 0 ?c1 "t\<lparr>t_pc := Inside [Put_root M (paging_root g)]\<rparr>" "Put_root M (paging_root g)" "[]" K "t_frame t" ?s2]
    by (simp add: start_def t_def thread_of_def)
  from tstep.kernel [OF this, of T] have 2: "tstep K (?c1, T) (?c2, T)" by (simp add: new_events_def)
  have "kstep K ?c2 ?c3"
    using kstep.unlock [of 0 ?c2 "t\<lparr>t_pc := Inside []\<rparr>" Exclusive M K] prog by (simp add: start_def t_def thread_of_def with_thread_def)
  from tstep.kernel [OF this, of T] have 3: "tstep K (?c2, T) (?c3, T)" by (simp add: new_events_def emit_def with_thread_def)
  from 1 2 3 have "(tstep K)\<^sup>*\<^sup>* (?c0, T) (?c3, T)" by (meson converse_rtranclp_into_rtranclp rtranclp.rtrancl_refl)
  moreover have "finished ?c3" "mm_pgd (shared ?c3) M = phys_to_virt K (paging_root g)"
    by (simp_all add: finished_def start_def with_thread_def emit_def)
  ultimately show ?thesis by blast
qed

end
