(* ===== verification/PT_Process.thy ===== *)
theory PT_Process
  imports PT_Mmu PT_System PT_Print
begin

text \<open>
  The program that uses the library: its accesses to its own memory, and what the demonstration
  programs use of Linux to get memory.  An access goes through a mapping of physical memory or through
  the address translation of the processor (\<open>PT_Mmu\<close>, x86 with four levels); where the page is absent
  the page-fault handler of Linux runs, and an access that still fails ends the program (\<open>None\<close>).
\<close>

section \<open>Memory accesses of the program\<close>

text \<open>
  Linux: anonymous mappings (the address and the new state), their removal, and the page-fault
  handler.  The bytes of an uninitialised local array are a parameter as well.
\<close>

record process_os =
  mmap_anon :: "u64 \<Rightarrow> sys \<Rightarrow> u64 \<times> sys"
  munmap_anon :: "u64 \<Rightarrow> u64 \<Rightarrow> sys \<Rightarrow> sys"
  page_fault :: "u64 \<Rightarrow> sys \<Rightarrow> sys"
  uninit :: "nat \<Rightarrow> u8 list"

definition process_root :: "os \<Rightarrow> sys \<Rightarrow> u64" where
  "process_root OS s =
     (case get_mm (os_kernel OS) 0 of None \<Rightarrow> 0 | Some mm \<Rightarrow> virt_to_phys (os_kernel OS) (mm_pgd s mm))"

text \<open>The physical address that an access to \<open>n\<close> bytes at \<open>a\<close> reaches.\<close>

definition access_address :: "os \<Rightarrow> u64 \<Rightarrow> nat \<Rightarrow> sys \<Rightarrow> u64 option" where
  "access_address OS a n s =
     (case mapped a n s of Some p \<Rightarrow> Some p | None \<Rightarrow> translate (phys s) (process_root OS s) a)"

definition touch :: "os \<Rightarrow> process_os \<Rightarrow> u64 \<Rightarrow> nat \<Rightarrow> sys \<Rightarrow> (u64 \<times> sys) option" where
  "touch OS P a n s =
     (case access_address OS a n s of
        Some p \<Rightarrow> Some (p, s)
      | None \<Rightarrow> (let s = page_fault P a s in map_option (\<lambda>p. (p, s)) (access_address OS a n s)))"

definition load_char :: "os \<Rightarrow> process_os \<Rightarrow> u64 \<Rightarrow> sys \<Rightarrow> (u8 \<times> sys) option" where
  "load_char OS P a s = do { (p, s) \<leftarrow> touch OS P a 1 s; Some (phys s p, s) }"

definition store_char :: "os \<Rightarrow> process_os \<Rightarrow> u64 \<Rightarrow> u8 \<Rightarrow> sys \<Rightarrow> sys option" where
  "store_char OS P a c s = do { (p, s) \<leftarrow> touch OS P a 1 s; Some (s\<lparr>phys := (phys s)(p := c)\<rparr>) }"

definition load_size :: "os \<Rightarrow> process_os \<Rightarrow> u64 \<Rightarrow> sys \<Rightarrow> (u64 \<times> sys) option" where
  "load_size OS P a s = do { (p, s) \<leftarrow> touch OS P a 8 s; Some (load64 (phys s) p, s) }"

definition store_size :: "os \<Rightarrow> process_os \<Rightarrow> u64 \<Rightarrow> u64 \<Rightarrow> sys \<Rightarrow> sys option" where
  "store_size OS P a v s = do { (p, s) \<leftarrow> touch OS P a 8 s; Some (s\<lparr>phys := store64 (phys s) p v\<rparr>) }"

fun memset :: "os \<Rightarrow> process_os \<Rightarrow> u64 \<Rightarrow> u8 \<Rightarrow> nat \<Rightarrow> sys \<Rightarrow> sys option" where
  "memset OS P a c 0 s = Some s"
| "memset OS P a c (Suc n) s = do { s \<leftarrow> store_char OS P a c s; memset OS P (a + 1) c n s }"

text \<open>
  The output of the demonstration programs: a line is the text of the format string, without tag and
  colours, and the printed arguments.
\<close>

datatype arg = Arg_char u8 | Arg_ptr u64 | Arg_num u64 | Arg_int int | Arg_str string

type_synonym line = "string \<times> arg list"

section \<open>Frames and tables\<close>

text \<open>The eight bytes at \<open>slot\<close> lie outside the 4 KB frame \<open>pfn\<close>.\<close>

definition off_frame :: "u64 \<Rightarrow> u64 \<Rightarrow> bool" where
  "off_frame pfn slot \<longleftrightarrow> 4096 \<le> unat (slot - pfn * 4096) \<and> 8 \<le> unat (pfn * 4096 - slot)"

lemma unat_circle:
  fixes x y :: u64
  assumes "n \<le> unat (x - y)" and "k \<le> unat (y - x)" and "i < k"
  shows "n \<le> unat (x + of_nat i - y)"
proof -
  have hi: "k \<le> unat (- (x - y))" using assms(2) by simp
  have "x - y \<noteq> 0"
  proof
    assume "x - y = 0"
    then have "y - x = 0" by simp
    with assms(2,3) show False by (simp only: unat_0)
  qed
  then have "unat (- (x - y)) = 2 ^ 64 - unat (x - y)" by (rule unat_neg)
  with hi assms(3) have "unat (x - y) + i < 2 ^ 64" by linarith
  then have "unat (x - y + of_nat i) = unat (x - y) + i" by (rule unat_add_small)
  moreover have "x + of_nat i - y = x - y + of_nat i" by simp
  ultimately show ?thesis using assms(1) by (simp only:)
qed

lemma load64_cong: "(\<And>i. i < 8 \<Longrightarrow> m' (a + of_nat i) = m (a + of_nat i)) \<Longrightarrow> load64 m' a = load64 m a"
proof -
  assume "\<And>i. i < 8 \<Longrightarrow> m' (a + of_nat i) = m (a + of_nat i)"
  then have "load_bytes m' a 8 = load_bytes m a 8" by (simp add: load_bytes_def)
  then show ?thesis by (simp add: load64_def)
qed

lemma load64_off_frame:
  assumes "off_frame pfn slot" and "length bs = 4096"
  shows "load64 (store_bytes m (pfn * 4096) bs) slot = load64 m slot"
proof (rule load64_cong)
  fix i :: nat assume "i < 8"
  with assms(1) have "4096 \<le> unat (slot + of_nat i - pfn * 4096)" unfolding off_frame_def by (intro unat_circle) simp_all
  then show "store_bytes m (pfn * 4096) bs (slot + of_nat i) = m (slot + of_nat i)"
    using assms(2) by (simp add: store_bytes_apply)
qed

lemma store64_off_frame:
  assumes "off_frame pfn slot" and "i < 4096"
  shows "store64 m slot v (pfn * 4096 + of_nat i) = m (pfn * 4096 + of_nat i)"
proof -
  have "8 \<le> unat (pfn * 4096 + of_nat i - slot)" using assms unfolding off_frame_def by (intro unat_circle) simp_all
  then show ?thesis by (simp add: store64_def store_bytes_apply)
qed

section \<open>Pages of the program with the kernel implementation\<close>

lemma walk_P4D: "walk_slot m root a P4D = walk_slot m root a PGD" "walk_entry m root a P4D = walk_entry m root a PGD"
  by (simp_all add: walk_slot_def walk_entry_def)

lemma page_state_kernel:
  assumes "page_state OS root a up w s" and "ptedit_resolve_ptr s = Resolve_kernel"
  shows "mmu_config OS root s" "kernel_ok OS a 0 s" "plain_entries (kernel_entries OS a 0 s)" "ptedit_update_ptr s = Update_kernel"
  using assms by (auto simp: page_state_def api_entries_def elim!: api_ok_cases)

lemma kernel_memory:
  assumes ok: "kernel_ok OS a p s" and ag: "agree (os_kernel OS) (phys s) m (snd (kernel_vm OS a p s))"
  shows "kernel_vm OS a p (s\<lparr>phys := m\<rparr>) = kernel_vm OS a p s" "kernel_ok OS a p (s\<lparr>phys := m\<rparr>)"
proof -
  let ?K = "os_kernel OS"
  have walk: "kernel_vm OS a p u =
      resolve_vm_walk ?K (phys u) (mm_pgd u (the (get_mm ?K (size_of_int p)))) a (fresh_vm (size_of_int p))" for u
    by (simp add: kernel_vm_def Let_def)
  have "kernel_vm OS a p s = (0, snd (kernel_vm OS a p s))" using ok by (simp add: kernel_ok_def prod_eq_iff)
  from resolve_vm_walk_agree [OF _ this [unfolded walk] ag [unfolded walk]] ok
  show vm: "kernel_vm OS a p (s\<lparr>phys := m\<rparr>) = kernel_vm OS a p s"
    by (simp add: walk kernel_ok_def prod_eq_iff)
  show "kernel_ok OS a p (s\<lparr>phys := m\<rparr>)" using ok by (simp add: kernel_ok_def vm fd_file_def)
qed

text \<open>A change of memory that leaves the tables of a page alone keeps the state of the page.\<close>

lemma page_state_memory:
  assumes st: "page_state OS root a up w s" and ptr: "ptedit_resolve_ptr s = Resolve_kernel"
    and m: "\<And>l. l \<noteq> PTE \<Longrightarrow> load64 m (walk_slot (phys s) root a l) = walk_entry (phys s) root a l"
    and e: "load64 m (walk_slot (phys s) root a PTE) = v" and small: "ptedit_get_pfn X86_64 v < 2 ^ 28"
  shows "page_state OS root a up v (s\<lparr>phys := m\<rparr>)"
proof -
  let ?K = "os_kernel OS" and ?t = "s\<lparr>phys := m\<rparr>" and ?vm = "snd (kernel_vm OS a 0 s)"
  note conf = page_state_kernel(1) [OF st ptr] and ok = page_state_kernel(2) [OF st ptr] and plain = page_state_kernel(3) [OF st ptr]
  note slots = kernel_vm_walk [OF conf ok plain]
  have "agree ?K (phys s) m ?vm"
    unfolding agree_def kread_def by (auto simp: slots(2) m walk_slot_entry)
  note vm = kernel_memory(1) [OF ok this] and ok' = kernel_memory(2) [OF ok this]
  have E: "kernel_entries OS a 0 ?t l = (if l = PTE then Some v else kernel_entries OS a 0 s l)" for l
  proof (cases "vm_ptr l ?vm")
    case None
    then show ?thesis using slots(3) [of PTE] by (auto simp: kernel_entries_def vm)
  next
    case (Some q)
    then have "virt_to_phys ?K q = walk_slot (phys s) root a l" by (rule slots(2))
    with Some m [of l] e show ?thesis by (auto simp: kernel_entries_def vm kread_def walk_slot_entry)
  qed
  have conf': "mmu_config OS root ?t" using conf mmu_config_same [of OS root s ?t] by simp
  have plain': "plain_entries (kernel_entries OS a 0 ?t)" using plain small by (auto simp: plain_entries_def E)
  have "walk_entry m root a l = walk_entry (phys s) root a l" if "l \<in> {PGD, PUD, PMD}" for l
    using kernel_entries_walk [OF conf' ok' plain'] kernel_entries_walk [OF conf ok plain] E [of l] that by auto
  then show ?thesis
    using st conf' ok' plain' E [of PTE] by (auto simp: page_state_def api_ok_def api_entries_def ptr split: update_fn.splits)
qed

lemma page_state_mappings:
  assumes "page_state OS root a up w s" and "ptedit_resolve_ptr s = Resolve_kernel"
  shows "page_state OS root a up w (s\<lparr>mappings := ms\<rparr>)"
proof -
  let ?t = "s\<lparr>mappings := ms\<rparr>"
  have vm: "kernel_vm OS a 0 ?t = kernel_vm OS a 0 s" by (simp add: kernel_vm_def)
  then have "kernel_entries OS a 0 ?t = kernel_entries OS a 0 s" "kernel_ok OS a 0 ?t = kernel_ok OS a 0 s"
    by (simp_all add: fun_eq_iff kernel_entries_def kernel_ok_def fd_file_def)
  moreover have "mmu_config OS root ?t = mmu_config OS root s" using assms(2) by (simp add: mmu_config_def)
  ultimately show ?thesis using assms by (simp add: page_state_def api_ok_def api_entries_def split: update_fn.splits)
qed

text \<open>Storing a new PTE in its slot, by whatever way.\<close>

lemma page_state_store_pte:
  assumes st: "page_state OS root a up w s" and ptr: "ptedit_resolve_ptr s = Resolve_kernel"
    and small: "ptedit_get_pfn X86_64 v < 2 ^ 28"
  shows "page_state OS root a up v (s\<lparr>phys := store64 (phys s) (walk_slot (phys s) root a PTE) v\<rparr>)"
proof (rule page_state_memory [OF st ptr _ _ small])
  let ?slot = "walk_slot (phys s) root a PTE"
  note k = page_state_kernel [OF st ptr]
  note slots = kernel_vm_walk [OF k(1-3)]
  fix l assume "l \<noteq> PTE"
  obtain q where q: "vm_pte (snd (kernel_vm OS a 0 s)) = Some q" using slots(3) [of PTE] by auto
  have "apart ?slot (walk_slot (phys s) root a l)" if "l \<noteq> PTE" "l \<noteq> P4D" for l
    using k(2) slots(2) [of PTE q] slots(2,3) [of l] q that by (force simp: kernel_ok_def)
  from this [of l] this [of PGD] \<open>l \<noteq> PTE\<close>
  show "load64 (store64 (phys s) ?slot v) (walk_slot (phys s) root a l) = walk_entry (phys s) root a l"
    by (cases "l = P4D") (simp_all add: mem_simps walk_slot_entry walk_P4D)
qed (simp add: mem_simps)

text \<open>Updating the PTE stores it in its slot and changes no other byte.\<close>

lemma update_page:
  assumes st: "page_state OS root a up w s" and ptr: "ptedit_resolve_ptr s = Resolve_kernel"
    and vm: "valid vm = valid_mask PTE" and small: "ptedit_get_pfn X86_64 (pte vm) < 2 ^ 28"
  shows "\<exists>vm' u. ptedit_update OS a 0 vm s = Some (vm', u) \<and> same_lib s u
    \<and> phys u = store64 (phys s) (walk_slot (phys s) root a PTE) (pte vm) \<and> page_state OS root a up (pte vm) u"
proof -
  let ?K = "os_kernel OS" and ?slot = "walk_slot (phys s) root a PTE"
  note k = page_state_kernel [OF st ptr]
  from k(2) obtain mm q where ok: "fd_file (ptedit_fd s) s = Some F_device" "get_mm ?K (size_of_int 0) = Some mm"
    "fst (kernel_vm OS a 0 s) = 0" "vm_pte (snd (kernel_vm OS a 0 s)) = Some q" "kernel_laws ?K"
    by (auto simp: kernel_ok_def elim: kernel_pte)
  from kernel_update [OF ok(1-4) vm] obtain vm' u where u: "ptedit_update_kernel OS a 0 vm s = Some (vm', u)" "same_lib s u"
    "phys u = set_pte ?K (phys s) q (pte vm)"
    by blast
  then have mem: "phys u = store64 (phys s) ?slot (pte vm)"
    using ok(4,5) kernel_vm_walk(2) [OF k(1-3), of PTE q] by (simp add: kernel_laws_def)
  have "page_state OS root a up (pte vm) (s\<lparr>phys := phys u\<rparr>)" unfolding mem by (rule page_state_store_pte [OF st ptr small])
  moreover have "same_lib (s\<lparr>phys := phys u\<rparr>) u"
    using u(2) by (simp add: same_lib_def)
  ultimately have "page_state OS root a up (pte vm) u" by (rule page_state_frame) simp
  with u(1,2) mem k(4) show ?thesis by (simp add: ptedit_update_def)
qed

lemma page_state_upper:
  assumes "page_state OS root a up w s" and "l \<in> {PGD, PUD, PMD}"
  shows "ptedit_get_pfn X86_64 (up l) < 2 ^ 28" "bit (up l) 0"
proof -
  from assms have "api_entries OS a 0 s l = Some (up l)" "plain_entries (api_entries OS a 0 s)"
    using api_entries_walk(2) [of OS root s a l] by (auto simp: page_state_def)
  with assms(2) show "ptedit_get_pfn X86_64 (up l) < 2 ^ 28" "bit (up l) 0" unfolding plain_entries_def by blast+
qed

section \<open>Accesses to a page\<close>

lemma process_root_config: "mmu_config OS root s \<Longrightarrow> process_root OS s = root"
  by (auto simp: process_root_def mmu_config_def size_of_int_def)

lemma process_root_simps [simp]:
  "process_root OS (s\<lparr>phys := m\<rparr>) = process_root OS s" "process_root OS (s\<lparr>mappings := ms\<rparr>) = process_root OS s"
  by (simp_all add: process_root_def split: option.split)

lemma process_root_frame: "same_lib s t \<Longrightarrow> process_root OS t = process_root OS s"
  by (simp add: process_root_def same_lib_fields split: option.split)

lemma page_offset_add:
  fixes a :: u64
  assumes "take_bit 12 a = 0" and "k < 4096"
  shows "same_page (a + of_nat k) a" "take_bit 12 (a + of_nat k) = of_nat k"
proof -
  have "take_bit 12 (unat a) = 0" using arg_cong [OF assms(1), of unat] by (simp add: unsigned_take_bit_eq)
  then have mod: "unat a mod 4096 = 0" by (simp add: take_bit_eq_mod)
  then obtain q where q: "unat a = 4096 * q" by (metis mod_0_imp_dvd dvdE)
  have "unat a < 2 ^ 64" using unsigned_less [of a] by simp
  with q have "q < 2 ^ 52" by simp
  with q assms(2) have "unat a + k < 2 ^ 64" by simp
  then have sum: "unat (a + of_nat k) = 4096 * q + k" using q by (simp add: unat_add_small)
  have "unat (drop_bit 12 (a + of_nat k)) = unat (drop_bit 12 a)"
    unfolding unat_drop_bit_eq sum q using assms(2) by (simp add: drop_bit_eq_div)
  then show "same_page (a + of_nat k) a" unfolding same_page_def by (simp only: word_unat_eq_iff)
  have "unat (take_bit 12 (a + of_nat k)) = k"
    unfolding unsigned_take_bit_eq sum using assms(2) by (simp add: take_bit_eq_mod)
  from arg_cong [OF this, of "of_nat :: nat \<Rightarrow> u64"] show "take_bit 12 (a + of_nat k) = of_nat k" by simp
qed

text \<open>
  A page of the program as the processor sees it: aligned, present, not covered by a mapping of physical
  memory, with a frame that holds none of the tables that map it.
\<close>

definition process_page :: "os \<Rightarrow> u64 \<Rightarrow> u64 \<Rightarrow> u64 \<Rightarrow> sys \<Rightarrow> bool" where
  "process_page OS root a w s \<longleftrightarrow>
     process_root OS s = root \<and> complete_walk (phys s) root a \<and> walk_entry (phys s) root a PTE = w \<and> bit w 0
     \<and> take_bit 12 a = 0 \<and> (\<forall>i < 4096. mapped (a + of_nat i) 1 s = None)
     \<and> (\<forall>l. off_frame (ptedit_get_pfn X86_64 w) (walk_slot (phys s) root a l))"

lemma process_page_reaches:
  assumes page: "process_page OS root a w s" and "i < 4096" and "0 < n"
  shows "access_address OS (a + of_nat i) n s = Some (ptedit_get_pfn X86_64 w * 4096 + of_nat i)"
proof -
  let ?a = "a + of_nat i"
  from page have a: "take_bit 12 a = 0" and walk: "complete_walk (phys s) root a" "walk_entry (phys s) root a PTE = w" "bit w 0"
    and root: "process_root OS s = root" and m: "mapped ?a 1 s = None"
    using assms(2) by (simp_all add: process_page_def)
  have "mapped ?a n s = None"
    using m assms(3) by (auto simp: mapped_def find_None_iff in_mapping_def split: prod.splits) fastforce
  moreover have "translate (phys s) root ?a = Some (ptedit_get_pfn X86_64 w * 4096 + of_nat i)"
    using translate_complete [of "phys s" root ?a] walk
    by (simp add: same_page_walk [OF page_offset_add(1) [OF a assms(2)]] page_offset_add(2) [OF a assms(2)])
  ultimately show ?thesis by (simp add: access_address_def root)
qed

text \<open>Memory writes that leave the tables of the page alone.\<close>

lemma walk_memory:
  assumes "\<And>l. load64 m' (walk_slot m root a l) = walk_entry m root a l"
  shows "walk_entry m' root a l = walk_entry m root a l" "walk_slot m' root a l = walk_slot m root a l"
proof -
  have pgd: "walk_entry m' root a PGD = walk_entry m root a PGD"
    using assms [of PGD] by (simp add: walk_slot_def walk_entry_loads)
  have pud: "walk_entry m' root a PUD = walk_entry m root a PUD"
    using assms [of PUD] pgd walk_entry_loads(2) [of m' root a] by (simp add: walk_slot_def)
  have pmd: "walk_entry m' root a PMD = walk_entry m root a PMD"
    using assms [of PMD] pud walk_entry_loads(3) [of m' root a] by (simp add: walk_slot_def)
  show slot: "walk_slot m' root a l = walk_slot m root a l" for l using pgd pud pmd by (simp add: walk_slot_def split: level.split)
  show "walk_entry m' root a l = walk_entry m root a l"
    using assms [of l] by (simp add: walk_slot_entry [of m', symmetric] slot)
qed

lemma process_page_memory:
  assumes "process_page OS root a w s"
    and m: "\<And>l. load64 m (walk_slot (phys s) root a l) = walk_entry (phys s) root a l"
  shows "process_page OS root a w (s\<lparr>phys := m\<rparr>)"
  using assms(1) walk_memory [OF m]
  by (simp add: process_page_def complete_walk_def mapped_def)

lemma process_page_write_frame:
  assumes "process_page OS root a w s" and "\<And>l. off_frame pfn (walk_slot (phys s) root a l)" and "length bs = 4096"
  shows "process_page OS root a w (s\<lparr>phys := store_bytes (phys s) (pfn * 4096) bs\<rparr>)"
  by (rule process_page_memory [OF assms(1)]) (simp add: load64_off_frame [OF assms(2,3)] walk_slot_entry)

lemma process_page_load_char:
  assumes "process_page OS root a w s"
  shows "load_char OS P a s = Some (phys s (ptedit_get_pfn X86_64 w * 4096), s)"
proof -
  have "access_address OS a 1 s = Some (ptedit_get_pfn X86_64 w * 4096)" using process_page_reaches [OF assms, of 0 1] by simp
  then show ?thesis unfolding load_char_def touch_def by simp
qed

lemma process_page_store_char:
  assumes page: "process_page OS root a w s" and i: "i < 4096"
  shows "store_char OS P (a + of_nat i) c s =
      Some (s\<lparr>phys := (phys s)(ptedit_get_pfn X86_64 w * 4096 + of_nat i := c)\<rparr>)"
    and "process_page OS root a w (s\<lparr>phys := (phys s)(ptedit_get_pfn X86_64 w * 4096 + of_nat i := c)\<rparr>)"
proof -
  let ?p = "ptedit_get_pfn X86_64 w * 4096 + of_nat i"
  show "store_char OS P (a + of_nat i) c s = Some (s\<lparr>phys := (phys s)(?p := c)\<rparr>)"
    unfolding store_char_def touch_def process_page_reaches [OF assms zero_less_one] by simp
  have "load64 ((phys s)(?p := c)) (walk_slot (phys s) root a l) = walk_entry (phys s) root a l" for l
  proof -
    have off: "off_frame (ptedit_get_pfn X86_64 w) (walk_slot (phys s) root a l)" using page by (simp add: process_page_def)
    have "walk_slot (phys s) root a l + of_nat j \<noteq> ?p" if "j < 8" for j
    proof
      assume "walk_slot (phys s) root a l + of_nat j = ?p"
      moreover have "4096 \<le> unat (walk_slot (phys s) root a l + of_nat j - ptedit_get_pfn X86_64 w * 4096)"
        using off that unfolding off_frame_def by (intro unat_circle) simp_all
      ultimately have "4096 \<le> unat (of_nat i :: u64)" by simp
      with i show False by (simp add: unat_of_nat take_bit_eq_mod)
    qed
    then have "load64 ((phys s)(?p := c)) (walk_slot (phys s) root a l) = load64 (phys s) (walk_slot (phys s) root a l)"
      by (intro load64_cong) simp
    then show ?thesis by (simp add: walk_slot_entry)
  qed
  then show "process_page OS root a w (s\<lparr>phys := (phys s)(?p := c)\<rparr>)" by (rule process_page_memory [OF page])
qed

lemma memset_from:
  "process_page OS root a w s \<Longrightarrow> k + n \<le> 4096 \<Longrightarrow>
   memset OS P (a + of_nat k) c n s =
     Some (s\<lparr>phys := store_bytes (phys s) (ptedit_get_pfn X86_64 w * 4096 + of_nat k) (replicate n c)\<rparr>)"
proof (induction n arbitrary: k s)
  case 0
  then show ?case by simp
next
  case (Suc n)
  let ?p = "ptedit_get_pfn X86_64 w * 4096 + of_nat k"
  have k: "k < 4096" using Suc.prems(2) by simp
  note step = process_page_store_char [OF Suc.prems(1) k]
  let ?t = "s\<lparr>phys := (phys s)(?p := c)\<rparr>" and ?q = "ptedit_get_pfn X86_64 w * 4096 + of_nat (Suc k)"
  have "memset OS P (a + of_nat (Suc k)) c n ?t = Some (?t\<lparr>phys := store_bytes (phys ?t) ?q (replicate n c)\<rparr>)"
    by (rule Suc.IH [OF step(2)]) (use Suc.prems(2) in simp)
  moreover have "?t\<lparr>phys := store_bytes (phys ?t) ?q (replicate n c)\<rparr> = s\<lparr>phys := store_bytes ((phys s)(?p := c)) ?q (replicate n c)\<rparr>"
    by simp
  moreover have "a + of_nat (Suc k) = a + of_nat k + 1" "?q = ?p + 1" by simp_all
  ultimately show ?case by (simp only: memset.simps step(1) Option.bind.simps replicate_Suc store_bytes.simps)
qed

text \<open>Filling a page of the program fills its frame and changes no other byte.\<close>

lemma memset_page:
  assumes "process_page OS root a w s"
  shows "memset OS P a c 4096 s =
    Some (s\<lparr>phys := store_bytes (phys s) (ptedit_get_pfn X86_64 w * 4096) (replicate 4096 c)\<rparr>)"
  using memset_from [OF assms, of 0 4096 P c] by simp

text \<open>
  Demand paging: a page that Linux has mapped gets its frame when it is accessed first.  The state in
  which the first access to \<open>a\<close> finds its page: after the page fault, where there is one.
\<close>

definition first_touch :: "os \<Rightarrow> process_os \<Rightarrow> u64 \<Rightarrow> sys \<Rightarrow> sys" where
  "first_touch OS P a s = (if access_address OS a 1 s = None then page_fault P a s else s)"

lemma first_touch_present: "process_page OS root a w s \<Longrightarrow> first_touch OS P a s = s"
  using process_page_reaches [of OS root a w s 0 1] by (simp add: first_touch_def)

lemma memset_first_touch:
  assumes "process_page OS root a w (first_touch OS P a s)"
  shows "memset OS P a c 4096 s =
    Some ((first_touch OS P a s)\<lparr>phys := store_bytes (phys (first_touch OS P a s)) (ptedit_get_pfn X86_64 w * 4096) (replicate 4096 c)\<rparr>)"
proof -
  have "access_address OS a 1 (first_touch OS P a s) \<noteq> None" using process_page_reaches [OF assms, of 0 1] by simp
  then have "store_char OS P a c s = store_char OS P a c (first_touch OS P a s)"
    by (auto simp: store_char_def touch_def first_touch_def Let_def)
  then have "memset OS P a c (Suc n) s = memset OS P a c (Suc n) (first_touch OS P a s)" for n by (simp only: memset.simps)
  from this [of 4095] show ?thesis using memset_page [OF assms, of P c] by simp
qed

lemma store64_store_bytes_frame:
  assumes "off_frame pfn slot" and "length bs = 4096"
  shows "store64 (store_bytes m (pfn * 4096) bs) slot v = store_bytes (store64 m slot v) (pfn * 4096) bs"
proof
  fix x
  show "store64 (store_bytes m (pfn * 4096) bs) slot v x = store_bytes (store64 m slot v) (pfn * 4096) bs x"
  proof (cases "unat (x - pfn * 4096) < 4096")
    case True
    then have "x = pfn * 4096 + of_nat (unat (x - pfn * 4096))" by simp
    with store64_off_frame [OF assms(1) True, of "store_bytes m (pfn * 4096) bs" v] True assms(2) show ?thesis
      by (simp add: store_bytes_apply)
  qed (use assms(2) in \<open>simp add: store64_def store_bytes_apply\<close>)
qed

section \<open>A page in the hands of the library\<close>

definition own_page :: "os \<Rightarrow> u64 \<Rightarrow> u64 \<Rightarrow> (level \<Rightarrow> u64) \<Rightarrow> u64 \<Rightarrow> sys \<Rightarrow> bool" where
  "own_page OS root a up w s \<longleftrightarrow>
     page_state OS root a up w s \<and> ptedit_resolve_ptr s = Resolve_kernel \<and> process_page OS root a w s"

lemma own_pageD:
  assumes "own_page OS root a up w s"
  shows "page_state OS root a up w s" "ptedit_resolve_ptr s = Resolve_kernel" "process_page OS root a w s" "bit w 0"
    "off_frame (ptedit_get_pfn X86_64 w) (walk_slot (phys s) root a l)"
  using assms by (simp_all add: own_page_def process_page_def)

lemma own_pageI:
  assumes st: "page_state OS root a up w s" and "ptedit_resolve_ptr s = Resolve_kernel" "bit w 0" "take_bit 12 a = 0"
    and "\<And>i. i < 4096 \<Longrightarrow> mapped (a + of_nat i) 1 s = None"
    and "\<And>l. off_frame (ptedit_get_pfn X86_64 w) (walk_slot (phys s) root a l)"
  shows "own_page OS root a up w s"
proof -
  have "mmu_config OS root s" using st by (simp add: page_state_def)
  then show ?thesis
    using assms page_state_walk [OF st] process_root_config [of OS root s] by (simp add: own_page_def process_page_def)
qed

text \<open>The slots of a page do not depend on its PTE.\<close>

lemma page_state_slots:
  assumes "page_state OS root a up w s" and "page_state OS root a up v t"
  shows "walk_slot (phys t) root a l = walk_slot (phys s) root a l"
  using assms by (simp add: page_state_def walk_slot_def split: level.split)

text \<open>Memory writes that leave the tables of the page alone, log entries and new mappings.\<close>

lemma own_page_memory:
  assumes own: "own_page OS root a up w s"
    and m: "\<And>l. load64 m (walk_slot (phys s) root a l) = walk_entry (phys s) root a l"
  shows "own_page OS root a up w (s\<lparr>phys := m\<rparr>)"
proof -
  have st: "page_state OS root a up w s" and ptr: "ptedit_resolve_ptr s = Resolve_kernel"
    using own by (simp_all add: own_page_def)
  have st': "page_state OS root a up w (s\<lparr>phys := m\<rparr>)"
    using page_state_memory [OF st ptr m] m [of PTE] page_state_walk [OF st] by simp
  show ?thesis using own st' process_page_memory [OF own_pageD(3) [OF own] m] by (simp add: own_page_def)
qed

lemma own_page_write_frame:
  assumes "own_page OS root a up w s" and "\<And>l. off_frame pfn (walk_slot (phys s) root a l)" and "length bs = 4096"
  shows "own_page OS root a up w (s\<lparr>phys := store_bytes (phys s) (pfn * 4096) bs\<rparr>)"
  by (rule own_page_memory [OF assms(1)]) (simp add: load64_off_frame [OF assms(2,3)] walk_slot_entry)

lemma own_page_frame:
  assumes "own_page OS root a up w s" and "same_lib s t" and "phys t = phys s"
  shows "own_page OS root a up w t"
  using assms page_state_frame [of OS root a up w s t]
  by (simp add: own_page_def process_page_def process_root_frame same_lib_fields mapped_def)

lemma own_page_mapping:
  assumes own: "own_page OS root a up w s" and "4096 \<le> unat (a - base)" and "4096 \<le> unat (base - a)" and "len \<le> 4096"
  shows "own_page OS root a up w (s\<lparr>mappings := (base, len, off) # mappings s\<rparr>)"
proof -
  have "\<not> in_mapping (a + of_nat i) 1 (base, len, off)" if "i < 4096" for i
  proof -
    have "4096 \<le> unat (a + of_nat i - base)" using assms(2,3) that by (rule unat_circle)
    moreover have "unat len \<le> 4096" using assms(4) by (simp add: word_le_nat_alt)
    ultimately show ?thesis by (simp add: in_mapping_def)
  qed
  then show ?thesis using own page_state_mappings [of OS root a up w s]
    by (simp add: own_page_def process_page_def mapped_def)
qed

lemma own_page_store_pte:
  assumes own: "own_page OS root a up w s" and v: "bit v 0" "ptedit_get_pfn X86_64 v < 2 ^ 28"
    and off: "\<And>l. off_frame (ptedit_get_pfn X86_64 v) (walk_slot (phys s) root a l)"
  shows "own_page OS root a up v (s\<lparr>phys := store64 (phys s) (walk_slot (phys s) root a PTE) v\<rparr>)" (is "own_page OS root a up v ?t")
proof -
  note st = own_pageD(1) [OF own] and st' = page_state_store_pte [OF own_pageD(1,2) [OF own] v(2)]
  show ?thesis
    using own off v(1) st' page_state_slots [OF st st'] page_state_walk [OF st']
    by (simp add: own_page_def process_page_def mapped_def)
qed

text \<open>The library on a page of the program.\<close>

lemma resolve_page:
  assumes "page_state OS root a up w s"
  shows "\<exists>e t. ptedit_resolve OS a 0 s = Some (e, t) \<and> same_lib s t \<and> phys t = phys s \<and> has_valid (valid e) PTE
    \<and> pte e = w \<and> pgd e = up PGD \<and> pud e = up PUD \<and> pmd e = up PMD \<and> pgd e \<noteq> 0"
proof -
  from assms have st: "mmu_config OS root s" "api_ok OS a 0 s" "plain_entries (api_entries OS a 0 s)"
    and up: "\<forall>l \<in> {PGD, PUD, PMD}. walk_entry (phys s) root a l = up l"
    by (simp_all add: page_state_def)
  obtain e t where e: "ptedit_resolve OS a 0 s = Some (e, t)" "view e = api_entries OS a 0 s" "same_lib s t" "phys t = phys s"
    using api.resolve_entries [OF st(2)] by blast
  have "view e l = Some (walk_entry (phys s) root a l)" if "l \<noteq> P4D" for l
    using api_entries_walk(2) [OF st that] e(2) by simp
  then have "has_valid (valid e) l \<and> entry_of l e = walk_entry (phys s) root a l" if "l \<noteq> P4D" for l
    using that unfolding view_def by (metis option.distinct(1) option.inject)
  from this [of PGD] this [of PUD] this [of PMD] this [of PTE]
  have f: "has_valid (valid e) PTE" "pgd e = up PGD" "pud e = up PUD" "pmd e = up PMD" "pte e = w"
    using up page_state_walk(2) [OF assms] by simp_all
  have "bit (up PGD) 0" using page_state_walk(1) [OF assms] up by (simp add: complete_walk_def)
  then have "pgd e \<noteq> 0" using f(2) by auto
  with e f show ?thesis by blast
qed

lemma get_pfn_page:
  assumes "page_state OS root a up w s"
  shows "\<exists>t. ptedit_pte_get_pfn OS a 0 s = Some (ptedit_get_pfn X86_64 w, t) \<and> same_lib s t \<and> phys t = phys s"
  using resolve_page [OF assms] assms by (auto simp: ptedit_pte_get_pfn_def page_state_def mmu_config_def)

lemma own_page_update:
  assumes own: "own_page OS root a up w s" and vm: "valid vm = valid_mask PTE" "bit (pte vm) 0"
    and small: "ptedit_get_pfn X86_64 (pte vm) < 2 ^ 28"
    and off: "\<And>l. off_frame (ptedit_get_pfn X86_64 (pte vm)) (walk_slot (phys s) root a l)"
  shows "\<exists>vm' u. ptedit_update OS a 0 vm s = Some (vm', u) \<and> same_lib s u
    \<and> phys u = store64 (phys s) (walk_slot (phys s) root a PTE) (pte vm) \<and> own_page OS root a up (pte vm) u"
proof -
  from update_page [OF own_pageD(1,2) [OF own] vm(1) small] obtain vm' u where u: "ptedit_update OS a 0 vm s = Some (vm', u)" "same_lib s u"
    "phys u = store64 (phys s) (walk_slot (phys s) root a PTE) (pte vm)"
    by blast
  have "own_page OS root a up (pte vm) (s\<lparr>phys := phys u\<rparr>)" unfolding u(3) by (rule own_page_store_pte [OF own vm(2) small off])
  moreover have "same_lib (s\<lparr>phys := phys u\<rparr>) u" using u(2) by (simp add: same_lib_def)
  ultimately have "own_page OS root a up (pte vm) u" by (rule own_page_frame) simp
  with u show ?thesis by blast
qed

lemma invalidate_tlb_same: "same_lib s (ptedit_invalidate_tlb OS a s)" "phys (ptedit_invalidate_tlb OS a s) = phys s"
  by (auto simp: ptedit_invalidate_tlb_def ioctl_def PT_Linux.invalidate_tlb_def invalidate_tlb_kernel_def invalidate_tlb_custom_def
      split: tlb_fn.split arch.split option.split)

lemma init_phys: "phys (snd (ptedit_init OS s)) = phys s"
proof -
  have root: "phys (snd (ptedit_get_paging_root OS 0 u)) = phys u" for u
    using get_paging_root_same [of OS 0 u] by (metis prod.collapse)
  show ?thesis
    by (auto simp: ptedit_init_def open_device_def device_open_def open_umem_file_def ptedit_use_implementation_def
        PTEDIT_IMPL_KERNEL_def PTEDIT_IMPL_USER_PREAD_def Let_def case_prod_beta root split: arch.split)
qed

end
