(* ===== verification/PT_Example.thy ===== *)
theory PT_Example
  imports PT_Process
begin

text \<open>
  The example program \<open>example.c\<close>: it maps the frame of one page into the page-table entry of another,
  reads the old frame as a physical page and through a mapping, overwrites the new frame, and restores
  the entry.  The theorem follows a whole run through the library, the kernel module and the processor.
\<close>

section \<open>The program\<close>

definition verdict :: "bool \<Rightarrow> line" where
  "verdict b = (if b then ''OK!'' else ''Fail!'', [])"

text \<open>The program reads the byte once to print it and once to compare it.\<close>

definition read_and_check :: "os \<Rightarrow> process_os \<Rightarrow> string \<Rightarrow> u64 \<Rightarrow> u8 \<Rightarrow> sys \<Rightarrow> (line list \<times> sys) option" where
  "read_and_check OS P msg a expected s = do {
     (x, s) \<leftarrow> load_char OS P a s;
     (y, s) \<leftarrow> load_char OS P a s;
     Some ([(msg, [Arg_char x]), verdict (y = expected)], s)
   }"

text \<open>The part between the two edits of the entry, which works on the physical frames.\<close>

definition example_frames ::
  "os \<Rightarrow> process_os \<Rightarrow> u8 list \<Rightarrow> u64 \<Rightarrow> u64 \<Rightarrow> u64 \<Rightarrow> sys \<Rightarrow> (line list \<times> sys) option" where
  "example_frames OS P page address address_pfn target_pfn s = do {
     let (page, s) = ptedit_read_physical_page OS address_pfn page s;
     first \<leftarrow> (case page of [] \<Rightarrow> None | c # cs \<Rightarrow> Some c);
     let ps = of_int (ptedit_get_pagesize OS s);
     let (new_addr, s) = ptedit_pmap OS (address_pfn * ps) ps s;
     (o1, s) \<leftarrow> read_and_check OS P ''old address[0] (via pmap) ='' new_addr 0x41 s;
     let n = nat (ptedit_get_pagesize OS s);
     let page = replicate n 0x43 @ drop n page;
     let s = ptedit_write_physical_page OS target_pfn page s;
     let s = ptedit_full_serializing_barrier OS s;
     (o2, s) \<leftarrow> read_and_check OS P ''address[0] ='' address 0x43 s;
     Some ([(''Reading physical page of address'', []),
            (''old address[0] (via physical page) ='', [Arg_char first]), verdict (first = 0x41),
            (''Mapping physical address to new virtual address'', [Arg_num (address_pfn * ps)]),
            (''mapped to virtual address'', [Arg_ptr new_addr])] @ o1
           @ [(''Overwriting physical page of target with Cs'', [])] @ o2, s)
   }"

definition example_body ::
  "os \<Rightarrow> process_os \<Rightarrow> u8 list \<Rightarrow> u64 \<Rightarrow> u64 \<Rightarrow> sys \<Rightarrow> (line list \<times> sys) option" where
  "example_body OS P page address target s = do {
     let A = cfg_arch (os_kernel OS);
     (vm, s) \<leftarrow> ptedit_resolve OS address 0 s;
     if pgd vm = 0 then Some ([(''Could not resolve PTs'', [])], s)
     else do {
       (o1, s) \<leftarrow> read_and_check OS P ''address[0] ='' address 0x41 s;
       let address_pfn = ptedit_get_pfn A (pte vm);
       (target_pfn, s) \<leftarrow> ptedit_pte_get_pfn OS target 0 s;
       let new = vm\<lparr>pte := ptedit_set_pfn A (pte vm) target_pfn, valid := valid_mask PTE\<rparr>;
       (new, s) \<leftarrow> ptedit_update OS address 0 new s;
       (o2, s) \<leftarrow> read_and_check OS P ''address[0] ='' address 0x42 s;
       (o3, s) \<leftarrow> example_frames OS P page address address_pfn target_pfn s;
       s \<leftarrow> ptedit_pte_set_pfn OS address 0 address_pfn s;
       Some ([('''', [Arg_str (ptedit_print_entry_t A vm)]), (''PTE PFN'', [Arg_num (cast_pte_pfn A (pte vm))])] @ o1
             @ [(''Set PFN of address to PFN of target'', [])] @ o2 @ o3 @ [(''Resetting PFN of address'', [])], s)
     }
   }"

text \<open>The exit code, the output and the state at the end.\<close>

definition example_main :: "os \<Rightarrow> process_os \<Rightarrow> sys \<Rightarrow> (int \<times> line list \<times> sys) option" where
  "example_main OS P s =
     (let (r, s) = ptedit_init OS s in
      if r \<noteq> 0 then Some (1, [(''Could not initialize ptedit (did you load the kernel module?)'', [])], s)
      else do {
        let page = uninit P (nat (ptedit_get_pagesize OS s));
        let (address, s) = mmap_anon P 4096 s;
        s \<leftarrow> memset OS P address 0x41 4096 s;
        let (target, s) = mmap_anon P 4096 s;
        s \<leftarrow> memset OS P target 0x42 4096 s;
        (out, s) \<leftarrow> example_body OS P page address target s;
        let s = munmap_anon P target 4096 (munmap_anon P address 4096 s);
        let s = ptedit_cleanup s;
        Some (0, [(''address @'', [Arg_ptr address]), (''target @'', [Arg_ptr target])] @ out, s)
      })"

section \<open>A run\<close>

lemma read_and_check_page:
  assumes "own_page OS root a up w s" and "phys s (ptedit_get_pfn X86_64 w * 4096) = c"
  shows "read_and_check OS P msg a c s = Some ([(msg, [Arg_char c]), (''OK!'', [])], s)"
  using assms(2) by (simp add: read_and_check_def process_page_load_char [OF own_pageD(3) [OF assms(1)]] verdict_def)

lemma first_byte:
  "store_bytes m (pfn * 4096) (replicate 4096 c) (pfn * 4096) = c"
  by (simp add: store_bytes_apply)

text \<open>
  What the part on the frames relies on: the files of the module serve the two frames, a mapping of
  physical memory is granted and does not overlap the page, and the direct map inverts at the root.
\<close>

definition serves_frames :: "os \<Rightarrow> u64 \<Rightarrow> u64 \<Rightarrow> u64 \<Rightarrow> u64 \<Rightarrow> sys \<Rightarrow> bool" where
  "serves_frames OS a F G base s \<longleftrightarrow>
     (let K = os_kernel OS in
      cfg_arch K = X86_64 \<and> fd_file (ptedit_fd s) s = Some F_device
      \<and> 0 < ptedit_umem s \<and> fd_file (ptedit_umem s) s = Some F_umem
      \<and> umem_serves OS (F * 4096) 4096 \<and> umem_serves OS (G * 4096) 4096
      \<and> ptedit_pagesize s = 4096 \<and> real_page_size s = 4096
      \<and> os_mmap OS F_umem (mappings s) 4096 (F * 4096) = Some base
      \<and> 4096 \<le> unat (a - base) \<and> 4096 \<le> unat (base - a)
      \<and> \<not> mm_is_locked s
      \<and> (\<exists>mm. current_mm K = Some mm \<and> phys_to_virt K (virt_to_phys K (mm_pgd s mm)) = mm_pgd s mm))"

lemma serves_frames_frame: "serves_frames OS a F G base s \<Longrightarrow> same_lib s t \<Longrightarrow> serves_frames OS a F G base t"
  unfolding same_lib_def by (elim ssubst) (simp add: serves_frames_def fd_file_def)

definition verdicts :: "line list \<Rightarrow> line list" where
  "verdicts out = filter (\<lambda>l. l \<in> {verdict True, verdict False}) out"

lemma verdicts_simps [simp]:
  "verdicts [] = []" "verdicts (out @ out') = verdicts out @ verdicts out'"
  "verdicts ((msg, x # xs) # ls) = verdicts ls"
  "verdicts ((''OK!'', []) # ls) = (''OK!'', []) # verdicts ls"
  by (simp_all add: verdicts_def verdict_def)

lemma page_multiple: "(x * 4096 :: u64) mod 4096 = 0" "(x * 4096 :: u64) div 4096 * 4096 = x * 4096"
proof -
  have "x * 4096 = push_bit 12 x" by (simp add: push_bit_eq_mult)
  moreover have "take_bit 12 (push_bit 12 x) = 0" by (rule u64_eqI) (simp add: bit_simps)
  ultimately show mod: "(x * 4096 :: u64) mod 4096 = 0" by (simp add: take_bit_eq_mod)
  show "(x * 4096 :: u64) div 4096 * 4096 = x * 4096" using div_mult_mod_eq [of "x * 4096" 4096] mod by simp
qed

lemma load_bytes_first: "0 < n \<Longrightarrow> load_bytes m a n = m a # tl (load_bytes m a n)"
  by (simp add: load_bytes_def upt_conv_Cons del: upt_Suc)

lemma example_frames_run:
  assumes own: "own_page OS root a up v s" and serves: "serves_frames OS a F (ptedit_get_pfn X86_64 v) base s"
    and byte: "phys s (F * 4096) = 0x41" and page: "length page = 4096"
  shows "\<exists>out t. example_frames OS P page a F (ptedit_get_pfn X86_64 v) s = Some (out, t)
    \<and> verdicts out = replicate 3 (''OK!'', []) \<and> own_page OS root a up v t"
proof -
  let ?G = "ptedit_get_pfn X86_64 v" and ?K = "os_kernel OS"
  from serves obtain mm where f: "cfg_arch ?K = X86_64" "fd_file (ptedit_fd s) s = Some F_device" "0 < ptedit_umem s"
    "fd_file (ptedit_umem s) s = Some F_umem" "umem_serves OS (F * 4096) 4096" "umem_serves OS (?G * 4096) 4096"
    "ptedit_pagesize s = 4096" "real_page_size s = 4096" "os_mmap OS F_umem (mappings s) 4096 (F * 4096) = Some base"
    "4096 \<le> unat (a - base)" "4096 \<le> unat (base - a)" "\<not> mm_is_locked s"
    "current_mm ?K = Some mm" "phys_to_virt ?K (virt_to_phys ?K (mm_pgd s mm)) = mm_pgd s mm"
    by (auto simp: serves_frames_def Let_def)
  define content where "content = load_bytes (phys s) (F * 4096) 4096"
  have content: "length content = 4096" "content = phys s (F * 4096) # tl content"
    unfolding content_def by (simp, rule load_bytes_first) simp
  obtain cs where cs: "content = 0x41 # cs" using content(2) byte by metis
  then have drop: "drop 4095 cs = []" using content(1) by simp
  have read: "ptedit_read_physical_page OS F page s = (content, s)"
    using read_physical_page_loads [of OS F s page] f page by (simp add: page_access_def content_def)
  have size: "ptedit_get_pagesize OS x = 4096" if "fd_file (ptedit_fd x) x = Some F_device" "real_page_size x = 4096" for x
    using that by (simp add: ptedit_get_pagesize_def ioctl_def)
  define s1 where "s1 = s\<lparr>mappings := (base, 4096, F * 4096) # mappings s\<rparr>"
  have pmap: "ptedit_pmap OS (F * 4096) 4096 s = (base, s1)"
    using f by (simp add: ptedit_pmap_def mmap_def page_multiple s1_def)
  have s1: "fd_file (ptedit_fd s1) s1 = Some F_device" "real_page_size s1 = 4096" "phys s1 = phys s"
    using f by (simp_all add: s1_def fd_file_def)
  have own1: "own_page OS root a up v s1" unfolding s1_def using own f(10,11) by (rule own_page_mapping) simp
  have "mapped base 1 s1 = Some (F * 4096)" by (simp add: mapped_def s1_def in_mapping_def)
  then have "load_char OS P base s1 = Some (0x41, s1)"
    using byte s1(3) unfolding load_char_def touch_def access_address_def by simp
  then have check1: "read_and_check OS P msg base 0x41 s1 = Some ([(msg, [Arg_char 0x41]), (''OK!'', [])], s1)" for msg
    by (simp add: read_and_check_def verdict_def)
  define s2 where "s2 = s1\<lparr>phys := store_bytes (phys s1) (?G * 4096) (replicate 4096 0x43)\<rparr>"
  have "page_access OS ?G s1" using f by (simp add: page_access_def s1_def fd_file_def)
  then have written: "ptedit_write_physical_page OS ?G (replicate 4096 0x43) s1 = s2"
    using write_physical_page_stores [of OS ?G s1 "replicate 4096 0x43"] f by (simp add: s2_def s1_def)
  have own2: "own_page OS root a up v s2"
    unfolding s2_def by (rule own_page_write_frame [OF own1 own_pageD(5) [OF own1]]) simp
  define s3 where "s3 = ptedit_full_serializing_barrier OS s2"
  have "s3 = s2\<lparr>trace := trace s2 @ [Read_lock mm, Read_unlock mm, Write_lock mm, Write_unlock mm]\<rparr>"
    unfolding s3_def using f by (intro barrier_keeps_state) (simp_all add: s2_def s1_def fd_file_def)
  then have own3: "own_page OS root a up v s3" and mem3: "phys s3 = phys s2" using own_page_frame [OF own2, of s3] by simp_all
  have check3: "read_and_check OS P msg a 0x43 s3 = Some ([(msg, [Arg_char 0x43]), (''OK!'', [])], s3)" for msg
    by (rule read_and_check_page [OF own3]) (simp add: mem3 s2_def first_byte)
  have "example_frames OS P page a F ?G s = Some ([(''Reading physical page of address'', []),
      (''old address[0] (via physical page) ='', [Arg_char 0x41]), (''OK!'', []),
      (''Mapping physical address to new virtual address'', [Arg_num (F * 4096)]), (''mapped to virtual address'', [Arg_ptr base]),
      (''old address[0] (via pmap) ='', [Arg_char 0x41]), (''OK!'', []),
      (''Overwriting physical page of target with Cs'', []), (''address[0] ='', [Arg_char 0x43]), (''OK!'', [])], s3)"
    unfolding example_frames_def read Let_def prod.case cs
    by (simp add: size f s1 pmap check1 drop written s3_def [symmetric] check3 verdict_def)
  then show ?thesis using own3 by (simp add: verdicts_def verdict_def eval_nat_numeral)
qed

lemma example_body_run:
  assumes own: "own_page OS root a up w s" and target: "page_state OS root b up' w' s"
    and serves: "serves_frames OS a (ptedit_get_pfn X86_64 w) (ptedit_get_pfn X86_64 w') base s"
    and off: "\<And>l. off_frame (ptedit_get_pfn X86_64 w') (walk_slot (phys s) root a l)"
    and bytes: "phys s (ptedit_get_pfn X86_64 w * 4096) = 0x41" "phys s (ptedit_get_pfn X86_64 w' * 4096) = 0x42"
    and page: "length page = 4096"
  shows "\<exists>out t. example_body OS P page a b s = Some (out, t) \<and> verdicts out = replicate 5 (''OK!'', [])
    \<and> page_state OS root a up w t"
proof -
  let ?F = "ptedit_get_pfn X86_64 w" and ?G = "ptedit_get_pfn X86_64 w'"
  let ?v = "ptedit_set_pfn X86_64 w ?G"
  have A: "cfg_arch (os_kernel OS) = X86_64" using serves by (simp add: serves_frames_def Let_def)
  note st = own_pageD(1) [OF own] and w = own_pageD(4) [OF own]
  have G: "?G < 2 ^ 28" by (rule page_state_walk(3) [OF target])
  obtain e s1 where e: "ptedit_resolve OS a 0 s = Some (e, s1)" "pte e = w" "pgd e \<noteq> 0" and s1: "same_lib s s1" "phys s1 = phys s"
    using resolve_page [OF st] by blast
  have own1: "own_page OS root a up w s1" by (rule own_page_frame [OF own s1])
  have check1: "read_and_check OS P msg a 0x41 s1 = Some ([(msg, [Arg_char 0x41]), (''OK!'', [])], s1)" for msg
    by (rule read_and_check_page [OF own1]) (simp add: s1(2) bytes(1))
  obtain s2 where s2: "ptedit_pte_get_pfn OS b 0 s1 = Some (?G, s2)" "same_lib s1 s2" "phys s2 = phys s1"
    using get_pfn_page [OF page_state_frame [OF target s1]] by blast
  have own2: "own_page OS root a up w s2" by (rule own_page_frame [OF own1 s2(2,3)])
  let ?new = "e\<lparr>pte := ?v, valid := valid_mask PTE\<rparr>"
  obtain vm u where u: "ptedit_update OS a 0 ?new s2 = Some (vm, u)" "same_lib s2 u"
    "phys u = store64 (phys s2) (walk_slot (phys s2) root a PTE) ?v" "own_page OS root a up ?v u"
    using own_page_update [OF own2, of ?new] pfn_28 [OF G, of w] w off s1(2) s2(3) G by auto
  have bytes_u: "phys u (?F * 4096) = 0x41" "phys u (?G * 4096) = 0x42"
    using store64_off_frame [of ?F "walk_slot (phys s2) root a PTE" 0 "phys s2" ?v] own2
      store64_off_frame [of ?G "walk_slot (phys s2) root a PTE" 0 "phys s2" ?v] off [of PTE] bytes s1(2) s2(3)
    by (simp_all add: u(3) own_page_def process_page_def)
  have check2: "read_and_check OS P msg a 0x42 u = Some ([(msg, [Arg_char 0x42]), (''OK!'', [])], u)" for msg
    by (rule read_and_check_page [OF u(4)]) (simp add: pfn_28 [OF G] bytes_u)
  have "same_lib s u" using same_lib_trans [OF same_lib_trans [OF s1(1) s2(2)] u(2)] .
  then have "serves_frames OS a ?F (ptedit_get_pfn X86_64 ?v) base u"
    using serves_frames_frame [OF serves] by (simp add: pfn_28 [OF G])
  from example_frames_run [OF u(4) this bytes_u(1) page, of P] obtain o3 t where t: "example_frames OS P page a ?F ?G u = Some (o3, t)"
    "verdicts o3 = replicate 3 (''OK!'', [])" "own_page OS root a up ?v t"
    by (auto simp: pfn_28 [OF G])
  obtain x where x: "ptedit_pte_set_pfn OS a 0 ?F t = Some x" "page_state OS root a up w x"
    using set_pfn_page [of OS root a up ?v t ?F] t(3) page_state_walk(3) [OF st] by (auto simp: own_page_def pfn_28 [OF G])
  have "\<exists>out. example_body OS P page a b s = Some (out, x) \<and> verdicts out = replicate 5 (''OK!'', [])"
  proof (intro exI conjI)
    show "example_body OS P page a b s = Some ([('''', [Arg_str (ptedit_print_entry_t X86_64 e)]), (''PTE PFN'', [Arg_num (cast_pte_pfn X86_64 w)]),
        (''address[0] ='', [Arg_char 0x41]), (''OK!'', []), (''Set PFN of address to PFN of target'', []), (''address[0] ='', [Arg_char 0x42]), (''OK!'', [])]
        @ o3 @ [(''Resetting PFN of address'', [])], x)"
      by (simp add: example_body_def A e check1 s2(1) u(1) check2 t(1) x(1))
  next
    show "verdicts ([('''', [Arg_str (ptedit_print_entry_t X86_64 e)]), (''PTE PFN'', [Arg_num (cast_pte_pfn X86_64 w)]),
        (''address[0] ='', [Arg_char 0x41]), (''OK!'', []), (''Set PFN of address to PFN of target'', []), (''address[0] ='', [Arg_char 0x42]), (''OK!'', [])]
        @ o3 @ [(''Resetting PFN of address'', [])]) = replicate 5 (''OK!'', [])"
      using t(2) by (simp add: verdicts_def verdict_def eval_nat_numeral)
  qed
  with x(2) show ?thesis by blast
qed

text \<open>
  What the program relies on of Linux when it has accessed its two mappings: both pages are present, on
  different frames, the frame of each page holds none of its tables and that of the second page none of the
  tables of the first, the first page still holds what the program wrote, and no file or mapping of the
  library has been touched.
\<close>

definition example_machine ::
  "os \<Rightarrow> u64 \<Rightarrow> u64 \<Rightarrow> u64 \<Rightarrow> (level \<Rightarrow> u64) \<Rightarrow> (level \<Rightarrow> u64) \<Rightarrow> u64 \<Rightarrow> u64 \<Rightarrow> u64 \<Rightarrow> sys \<Rightarrow> bool" where
  "example_machine OS root a b up up' w w' base s \<longleftrightarrow>
     (let F = ptedit_get_pfn X86_64 w; G = ptedit_get_pfn X86_64 w' in
      own_page OS root a up w s \<and> own_page OS root b up' w' s \<and> F \<noteq> G
      \<and> (\<forall>l. off_frame G (walk_slot (phys s) root a l))
      \<and> phys s (F * 4096) = 0x41 \<and> serves_frames OS a F G base s)"

lemma frames_distinct:
  fixes F G :: u64
  assumes "F < 2 ^ 28" and "G < 2 ^ 28" and "F \<noteq> G"
  shows "4096 \<le> unat (F * 4096 - G * 4096)"
proof -
  have lt: "unat F < 2 ^ 28" "unat G < 2 ^ 28" using assms(1,2) by (simp_all add: word_less_nat_alt)
  have mult: "unat (x * 4096) = unat x * 4096" if "unat x < 2 ^ 28" for x :: u64
    using that by (simp add: unat_word_ariths)
  have "unat F \<noteq> unat G" using assms(3) by (simp add: word_unat_eq_iff)
  then show ?thesis using lt by (simp add: unat_sub_if' mult) arith
qed

text \<open>
  C18. The example program works on x86 with 4 KB pages and the kernel implementation: when the module is
  loaded, Linux grants its mappings and, at the first access to each, its page-fault handler puts a frame
  of its own below 2^28 behind the page (\<open>first_touch\<close>), the program runs to the end, returns 0, all five
  comparisons print OK (the byte before and after the frame number is replaced, the old frame as a
  physical page and through a mapping, and the new frame after it is overwritten), and before the pages
  are unmapped the entry is restored.
\<close>

theorem example_all_checks_pass:
  assumes "ptedit_init OS s = (0, s0)" and "ptedit_get_pagesize OS s0 = 4096" and "length (uninit P 4096) = 4096"
    and "mmap_anon P 4096 s0 = (a, s1)" and "s2 = first_touch OS P a s1" and "own_page OS root a up w s2"
    and "mmap_anon P 4096 (s2\<lparr>phys := store_bytes (phys s2) (ptedit_get_pfn X86_64 w * 4096) (replicate 4096 0x41)\<rparr>) = (b, s3)"
    and "s4 = first_touch OS P b s3" and "example_machine OS root a b up up' w w' base s4"
  shows "\<exists>out t. example_main OS P s =
      Some (0, out, ptedit_cleanup (munmap_anon P b 4096 (munmap_anon P a 4096 t)))
    \<and> verdicts out = replicate 5 (verdict True) \<and> page_state OS root a up w t"
proof -
  let ?F = "ptedit_get_pfn X86_64 w" and ?G = "ptedit_get_pfn X86_64 w'"
  from assms(9) have own: "own_page OS root a up w s4" "own_page OS root b up' w' s4" and neq: "?F \<noteq> ?G"
    and off: "\<And>l. off_frame ?G (walk_slot (phys s4) root a l)" and A: "phys s4 (?F * 4096) = 0x41"
    and serves: "serves_frames OS a ?F ?G base s4"
    by (simp_all add: example_machine_def Let_def)
  have first: "memset OS P a 0x41 4096 s1 = Some (s2\<lparr>phys := store_bytes (phys s2) (?F * 4096) (replicate 4096 0x41)\<rparr>)"
    using assms(6) unfolding assms(5) by (intro memset_first_touch own_pageD(3))
  define t where "t = s4\<lparr>phys := store_bytes (phys s4) (?G * 4096) (replicate 4096 0x42)\<rparr>"
  have fill: "memset OS P b 0x42 4096 s3 = Some t"
    using own(2) unfolding t_def assms(8) by (intro memset_first_touch own_pageD(3))
  have own_t: "own_page OS root a up w t" unfolding t_def by (rule own_page_write_frame [OF own(1) off]) simp
  have target: "page_state OS root b up' w' t"
    unfolding t_def by (rule own_pageD(1), rule own_page_write_frame [OF own(2) own_pageD(5) [OF own(2)]]) simp
  have "?F < 2 ^ 28" "?G < 2 ^ 28" using own page_state_walk(3) by (auto simp: own_page_def)
  from frames_distinct [OF this neq] have bytes: "phys t (?F * 4096) = 0x41" "phys t (?G * 4096) = 0x42"
    using A by (simp_all add: t_def store_bytes_apply)
  have "same_lib s4 t" by (simp add: t_def)
  note serves_t = serves_frames_frame [OF serves this]
  have off_t: "off_frame ?G (walk_slot (phys t) root a l)" for l
    using off page_state_slots [of OS root a up w s4 w t l] own(1) own_t by (simp add: own_page_def)
  obtain out u where u: "example_body OS P (uninit P 4096) a b t = Some (out, u)" "verdicts out = replicate 5 (''OK!'', [])"
    "page_state OS root a up w u"
    using example_body_run [OF own_t target serves_t off_t bytes assms(3), of P] by blast
  have "example_main OS P s = Some (0, [(''address @'', [Arg_ptr a]), (''target @'', [Arg_ptr b])] @ out,
      ptedit_cleanup (munmap_anon P b 4096 (munmap_anon P a 4096 u)))"
    by (simp add: example_main_def assms(1-4,7) first fill u(1))
  then show ?thesis using u(2,3) by (fastforce simp: verdict_def)
qed

section \<open>The example on the sample machine\<close>

text \<open>
  The sample tables with a second page, 0x40202000 on frame 6.  Linux returns the two pages in turn and
  sets the entry of a page when it is accessed first.
\<close>

definition sample_vaddr2 :: u64 where "sample_vaddr2 = 0x40202000"

definition sample_mem2 :: mem where
  "sample_mem2 = store64 sample_mem 0x4010 0x8000000000006067"

definition sample_sys2 :: sys where
  "sample_sys2 = sample_sys\<lparr>phys := sample_mem2\<rparr>"

definition sample_process :: process_os where
  "sample_process =
     \<lparr>mmap_anon = (\<lambda>len s. (if load64 (phys s) 0x4008 = 0 then sample_vaddr else sample_vaddr2, s)),
      munmap_anon = (\<lambda>a len s. s),
      page_fault = (\<lambda>a s. if a = sample_vaddr then s\<lparr>phys := store64 (phys s) 0x4008 0x8000000000005067\<rparr>
        else if a = sample_vaddr2 then s\<lparr>phys := store64 (phys s) 0x4010 0x8000000000006067\<rparr> else s),
      uninit = (\<lambda>n. replicate n 0)\<rparr>"

definition sample_empty :: mem where
  "sample_empty = store64 (store64 (store64 (store64 (\<lambda>a. 0) 0x1000 0x2067) 0x2008 0x3067) 0x3008 0x4067) 0x3010 0x2000e7"

lemma sample_empty_filled: "store64 sample_empty 0x4008 0x8000000000005067 = sample_mem"
  by (simp add: sample_empty_def sample_mem_def)

lemma sample_loads2:
  "load64 sample_mem2 0x1000 = 0x2067" "load64 sample_mem2 0x2008 = 0x3067" "load64 sample_mem2 0x3008 = 0x4067"
  "load64 sample_mem2 0x4008 = 0x8000000000005067" "load64 sample_mem2 0x4010 = 0x8000000000006067"
  by (simp_all add: sample_mem2_def mem_simps apart_def sample_loads)

lemma sample_sys2_simps:
  "phys sample_sys2 = sample_mem2" "ptedit_resolve_ptr sample_sys2 = Resolve_kernel" "ptedit_fd sample_sys2 = 3"
  "ptedit_umem sample_sys2 = 4" "ptedit_pagesize sample_sys2 = 4096" "real_page_size sample_sys2 = 4096"
  "fd_table sample_sys2 = [(4, F_umem), (3, F_device), (0, F_other), (1, F_other), (2, F_other)]"
  "mm_pgd sample_sys2 = sample_roots" "\<not> mm_is_locked sample_sys2" "mappings sample_sys2 = []"
  by (simp_all add: sample_sys2_def sample_sys_simps) (simp add: sample_sys_eq sample_defs)

lemma sample_init_phys:
  "ptedit_init sample_os (start_sys (sample_kstate\<lparr>phys := m\<rparr>)) = (0, sample_sys2\<lparr>phys := m\<rparr>)"
  by (simp add: sample_sys2_def sample_sys_eq ptedit_init_def open_device_def device_open_def open_umem_file_def
      lowest_fd_def ptedit_use_implementation_def PTEDIT_IMPL_KERNEL_def sample_defs Let_def)

lemma sample_slots:
  assumes "walk_entry m 0x1000 a PGD = 0x2067" "walk_entry m 0x1000 a PUD = 0x3067" "walk_entry m 0x1000 a PMD = 0x4067"
    and "a \<in> {sample_vaddr, sample_vaddr2}"
  shows "walk_slot m 0x1000 a PGD = 0x1000" "walk_slot m 0x1000 a P4D = 0x1000" "walk_slot m 0x1000 a PUD = 0x2008"
    "walk_slot m 0x1000 a PMD = 0x3008" "walk_slot m 0x1000 a PTE = (if a = sample_vaddr then 0x4008 else 0x4010)"
  using assms
  by (auto simp: walk_slot_def below_mask level_index_x86 sample_vaddr_def sample_vaddr2_def)

lemma sample_page1: "page_state sample_os 0x1000 sample_vaddr sample_entries 0x8000000000005067 sample_sys2"
proof -
  note slots = sample_slots [OF sample_walk_entries(1-3), simplified]
  have small: "ptedit_get_pfn X86_64 0x8000000000005067 < 2 ^ 28" by (simp add: ptedit_get_pfn_def pfn_width_def)
  have "load64 sample_mem2 (walk_slot (phys sample_sys) 0x1000 sample_vaddr l) = walk_entry (phys sample_sys) 0x1000 sample_vaddr l"
    if "l \<noteq> PTE" for l
    using that by (cases l) (simp_all add: sample_sys_simps slots sample_loads2 sample_walk_entries walk_P4D(2))
  moreover have "load64 sample_mem2 (walk_slot (phys sample_sys) 0x1000 sample_vaddr PTE) = 0x8000000000005067"
    by (simp add: sample_sys_simps slots sample_loads2)
  ultimately show ?thesis
    unfolding sample_sys2_def
    by (intro page_state_memory [OF sample_page_state [of sample_sys] sample_sys_simps(14) _ _ small]) simp_all
qed

lemma sample_kernel_vm2:
  "kernel_vm sample_os sample_vaddr2 0 sample_sys2 =
     (0, \<lparr>vm_pid = 0, vm_pgd = Some (0x1000 + direct_map), vm_p4d = Some (0x1000 + direct_map),
          vm_pud = Some (0x2008 + direct_map), vm_pmd = Some (0x3008 + direct_map),
          vm_pte = Some (0x4010 + direct_map), vm_valid = 31\<rparr>)"
  by (simp add: kernel_vm_def sample_sys2_def sample_sys_simps get_mm_def resolve_vm_walk_def resolve_vm_pud_def
      sample_os_def sample_linux_def Let_def kread_def table_ptr_def sample_vaddr2_def sample_roots_def
      direct_map_def sample_loads2 fresh_vm_def valid_mask_def ull_bit_def size_of_int_def)

definition sample_entries2 :: "level \<Rightarrow> u64" where
  "sample_entries2 = sample_entries(PTE := 0x8000000000006067)"

lemma sample_page2: "page_state sample_os 0x1000 sample_vaddr2 sample_entries 0x8000000000006067 sample_sys2"
proof -
  have "\<forall>l q. l \<noteq> PTE \<longrightarrow> vm_ptr l (snd (kernel_vm sample_os sample_vaddr2 0 sample_sys2)) = Some q \<longrightarrow>
      apart 0x4010 (q - direct_map)"
    by (simp add: sample_kernel_vm2 all_levels apart_def)
  then have ok: "kernel_ok sample_os sample_vaddr2 0 sample_sys2"
    using sample_kernel_laws
    by (simp add: kernel_ok_def sample_kernel_vm2 sample_sys2_simps fd_file_def get_mm_def size_of_int_def)
      (simp add: sample_os_def sample_linux_def)
  have conf: "mmu_config sample_os 0x1000 sample_sys2"
    using mmu_config_same [OF sample_mmu_config(1), of sample_sys2] by (simp add: sample_sys2_def)
  have E: "kernel_entries sample_os sample_vaddr2 0 sample_sys2 l = Some (sample_entries2 l)" for l
    by (cases l) (simp_all add: kernel_entries_def sample_kernel_vm2 sample_entries2_def sample_entries_def,
      simp_all add: kread_def sample_os_def sample_linux_def sample_sys2_def sample_loads2)
  have "ptedit_get_pfn X86_64 (sample_entries2 l) < 2 ^ 28 \<and> bit (sample_entries2 l) 0 \<and> \<not> bit (sample_entries2 l) 7" for l
    by (cases l) (simp_all add: sample_entries2_def sample_entries_def ptedit_get_pfn_def pfn_width_def bit_numeral_rec)
  then have plain: "plain_entries (kernel_entries sample_os sample_vaddr2 0 sample_sys2)" by (simp add: plain_entries_def E)
  have "walk_entry (phys sample_sys2) 0x1000 sample_vaddr2 l = sample_entries l" if "l \<in> {PGD, PUD, PMD}" for l
    using kernel_entries_walk [OF conf ok plain] E [of l] that by (auto simp: sample_entries2_def)
  then show ?thesis
    using conf ok plain E [of PTE]
    by (simp add: page_state_def api_ok_def api_entries_def sample_sys2_def sample_sys_simps sample_entries2_def)
qed

lemma sample_own_pages:
  "own_page sample_os 0x1000 sample_vaddr sample_entries 0x8000000000005067 sample_sys2"
  "own_page sample_os 0x1000 sample_vaddr2 sample_entries 0x8000000000006067 sample_sys2"
  "off_frame 5 (walk_slot (phys sample_sys2) 0x1000 sample_vaddr l)" "off_frame 6 (walk_slot (phys sample_sys2) 0x1000 sample_vaddr l)"
  "off_frame 5 (walk_slot (phys sample_sys2) 0x1000 sample_vaddr2 l)"
proof -
  have up: "walk_entry (phys sample_sys2) 0x1000 a l = sample_entries l"
    if "a \<in> {sample_vaddr, sample_vaddr2}" "l \<in> {PGD, PUD, PMD}" for a l
    using that sample_page1 sample_page2 by (auto simp: page_state_def)
  have slots: "walk_slot (phys sample_sys2) 0x1000 a l \<in> {0x1000, 0x2008, 0x3008, 0x4008, 0x4010}"
    if "a \<in> {sample_vaddr, sample_vaddr2}" for a l
    using sample_slots [of "phys sample_sys2" a] up [OF that] that by (cases l) (auto simp: sample_entries_def)
  have off: "\<forall>x \<in> {0x1000, 0x2008, 0x3008, 0x4008, 0x4010}. off_frame 5 x \<and> off_frame 6 x"
    by (simp add: off_frame_def)
  then show "off_frame 5 (walk_slot (phys sample_sys2) 0x1000 sample_vaddr l)" "off_frame 6 (walk_slot (phys sample_sys2) 0x1000 sample_vaddr l)"
    "off_frame 5 (walk_slot (phys sample_sys2) 0x1000 sample_vaddr2 l)" for l
    using slots by blast+
  have pfn: "ptedit_get_pfn X86_64 0x8000000000005067 = 5" "ptedit_get_pfn X86_64 0x8000000000006067 = 6"
    by (simp_all add: ptedit_get_pfn_def pfn_width_def)
  have no: "mapped x n sample_sys2 = None" for x n by (simp add: mapped_def sample_sys2_def sample_sys_eq sample_defs)
  have aligned: "take_bit 12 sample_vaddr = 0" "take_bit 12 sample_vaddr2 = 0"
    by (simp_all add: sample_vaddr_def sample_vaddr2_def take_bit_eq_mask mask_numeral)
  have off6: "off_frame 6 (walk_slot (phys sample_sys2) 0x1000 sample_vaddr2 l)"
    "off_frame 5 (walk_slot (phys sample_sys2) 0x1000 sample_vaddr l)" for l
    using off slots by blast+
  show "own_page sample_os 0x1000 sample_vaddr sample_entries 0x8000000000005067 sample_sys2"
    "own_page sample_os 0x1000 sample_vaddr2 sample_entries 0x8000000000006067 sample_sys2"
    by (rule own_pageI; simp add: sample_page1 sample_page2 no aligned pfn off6 sample_sys2_simps(2))+
qed

lemma sample_not_present:
  assumes "load64 (phys s) 0x1000 = 0x2067" "load64 (phys s) 0x2008 = 0x3067" "load64 (phys s) 0x3008 = 0x4067"
    and "a = sample_vaddr \<and> load64 (phys s) 0x4008 = 0 \<or> a = sample_vaddr2 \<and> load64 (phys s) 0x4010 = 0"
    and "mappings s = []" "mm_pgd s = sample_roots"
  shows "access_address sample_os a 1 s = None"
proof -
  have "process_root sample_os s = 0x1000"
    by (simp add: process_root_def assms(6) sample_os_def sample_linux_def get_mm_def sample_roots_def)
  moreover have "translate (phys s) 0x1000 a = None"
    using assms(4)
    by (elim disjE conjE)
      (simp_all add: translate_def hw_walk_def walk_levels_def x86_definition_def level_index_bits level_shift_def level_entries_def
        sample_vaddr_def sample_vaddr2_def Let_def assms(1-3) hw_next_def cast_present_bits ptedit_get_pfn_def pfn_width_def
        PTEDIT_PAGE_PRESENT_def take_bit_eq_mask mask_numeral)
  ultimately show ?thesis by (simp add: access_address_def mapped_def assms(5))
qed

theorem example_all_checks_pass_witness:
  "\<exists>out t. example_main sample_os sample_process (start_sys (sample_kstate\<lparr>phys := sample_empty\<rparr>)) = Some (0, out, t)
    \<and> verdicts out = replicate 5 (verdict True)"
proof -
  let ?w = "0x8000000000005067 :: u64" and ?w' = "0x8000000000006067 :: u64"
  let ?s1 = "sample_sys2\<lparr>phys := sample_empty\<rparr>" and ?s2 = "sample_sys2\<lparr>phys := sample_mem\<rparr>"
  let ?s3 = "?s2\<lparr>phys := store_bytes (phys ?s2) (5 * 4096) (replicate 4096 0x41)\<rparr>"
  let ?s4 = "sample_sys2\<lparr>phys := store_bytes (phys sample_sys2) (5 * 4096) (replicate 4096 0x41)\<rparr>"
  have pfn: "ptedit_get_pfn X86_64 ?w = 5" "ptedit_get_pfn X86_64 ?w' = 6"
    by (simp_all add: ptedit_get_pfn_def pfn_width_def)
  have offs: "off_frame 5 0x1000" "off_frame 5 0x2008" "off_frame 5 0x3008" "off_frame 5 0x4008" "off_frame 5 0x4010"
    by (simp_all add: off_frame_def)
  have empty: "load64 sample_empty 0x4008 = 0" "load64 sample_mem 0x4010 = 0"
    "load64 sample_empty 0x1000 = 0x2067" "load64 sample_empty 0x2008 = 0x3067" "load64 sample_empty 0x3008 = 0x4067"
    by (simp_all add: sample_empty_def sample_mem_def mem_simps apart_def)
  have loads3: "load64 (phys ?s3) x = load64 sample_mem x" if "x \<in> {0x1000, 0x2008, 0x3008, 0x4008, 0x4010}" for x
    using that offs load64_off_frame [of 5 x "replicate 4096 0x41" sample_mem] by auto
  have fault1: "first_touch sample_os sample_process sample_vaddr ?s1 = ?s2"
    using sample_not_present [of ?s1 sample_vaddr]
    by (simp add: first_touch_def sample_process_def sample_empty_filled empty sample_sys2_simps)
  have "access_address sample_os sample_vaddr2 1 ?s3 = None"
    by (rule sample_not_present) (simp_all add: loads3 [simplified] sample_loads empty sample_sys2_simps)
  then have fault2: "first_touch sample_os sample_process sample_vaddr2 ?s3 = ?s4"
    using store64_store_bytes_frame [OF offs(5), of "replicate 4096 0x41" sample_mem ?w']
    by (simp add: first_touch_def sample_process_def sample_vaddr_def sample_vaddr2_def sample_sys2_simps sample_mem2_def)
  have slots: "walk_slot sample_mem2 0x1000 sample_vaddr l \<in> {0x1000, 0x2008, 0x3008, 0x4008}" for l
    using sample_slots [of sample_mem2 sample_vaddr] sample_page1
    by (cases l) (auto simp: page_state_def sample_sys2_simps sample_entries_def)
  have "load64 sample_mem x = load64 sample_mem2 x" if "x \<in> {0x1000, 0x2008, 0x3008, 0x4008}" for x
    using that by (auto simp: sample_loads sample_loads2)
  then have own2: "own_page sample_os 0x1000 sample_vaddr sample_entries ?w ?s2"
    using own_page_memory [OF sample_own_pages(1), of sample_mem] slots by (simp add: sample_sys2_simps walk_slot_entry)
  have byte: "phys ?s4 0x5000 = 0x41" using first_byte [of "phys sample_sys2" 5 "0x41"] by simp
  have own: "own_page sample_os 0x1000 sample_vaddr sample_entries ?w ?s4" "own_page sample_os 0x1000 sample_vaddr2 sample_entries ?w' ?s4"
    by (rule own_page_write_frame [OF sample_own_pages(1) sample_own_pages(3)], simp,
      rule own_page_write_frame [OF sample_own_pages(2) sample_own_pages(5)], simp)
  have "walk_slot (phys ?s4) 0x1000 sample_vaddr l = walk_slot (phys sample_sys2) 0x1000 sample_vaddr l" for l
    using page_state_slots [OF sample_page1, of ?w ?s4 l] own(1) by (simp add: own_page_def)
  then have off: "off_frame 6 (walk_slot (phys ?s4) 0x1000 sample_vaddr l)" for l using sample_own_pages(4) by (simp only:)
  have "serves_frames sample_os sample_vaddr 5 6 0x7f0000000000 ?s4"
    by (simp add: serves_frames_def sample_sys2_simps fd_file_def umem_serves_def)
      (simp add: sample_os_def sample_linux_def sample_vaddr_def)
  then have machine: "example_machine sample_os 0x1000 sample_vaddr sample_vaddr2 sample_entries sample_entries ?w ?w' 0x7f0000000000 ?s4"
    using own byte off by (simp add: example_machine_def pfn)
  have size: "ptedit_get_pagesize sample_os ?s1 = 4096" "length (uninit sample_process 4096) = 4096"
    by (simp_all add: ptedit_get_pagesize_def ioctl_def sample_sys2_simps fd_file_def sample_process_def)
  have m1: "mmap_anon sample_process 4096 ?s1 = (sample_vaddr, ?s1)" by (simp add: sample_process_def empty)
  have m2: "mmap_anon sample_process 4096 ?s3 = (sample_vaddr2, ?s3)"
    using loads3 [of "0x4008"] by (simp add: sample_process_def sample_loads)
  show ?thesis
    using example_all_checks_pass [OF sample_init_phys size m1 fault1 [symmetric] own2 _ fault2 [symmetric] machine] m2 by (simp add: pfn) blast
qed

end
