(* ===== verification/PT_MapPt.thy ===== *)
theory PT_MapPt
  imports PT_Example
begin

text \<open>
  The demonstration \<open>demos/map_pt.c\<close>: the program maps the page table of one of its own pages into its
  address space, finds the entry of the page there and redirects the page to another frame with a plain
  store.
\<close>

section \<open>The program\<close>

text \<open>From the resolved entries on; \<open>secret_pte\<close> and \<open>target_entry\<close> are what the library returned.\<close>

definition map_pt_edit ::
  "os \<Rightarrow> process_os \<Rightarrow> u64 \<Rightarrow> ptedit_entry_t \<Rightarrow> u64 \<Rightarrow> sys \<Rightarrow> (line list \<times> sys) option" where
  "map_pt_edit OS P target target_entry secret_pte s = do {
     let A = cfg_arch (os_kernel OS);
     let pt_pfn = cast_pfn A (pmd target_entry);
     let ps = of_int (ptedit_get_pagesize OS s);
     let (table, s) = ptedit_pmap OS (pt_pfn * ps) ps s;
     let entry = drop_bit 12 target AND 0x1ff;
     let mapped_entry = table + entry * 8;
     (x, s) \<leftarrow> load_size OS P mapped_entry s;
     (y, s) \<leftarrow> load_size OS P mapped_entry s;
     s \<leftarrow> store_size OS P mapped_entry (ptedit_set_pfn A y (ptedit_get_pfn A secret_pte)) s;
     let s = ptedit_invalidate_tlb OS target s;
     (c, s) \<leftarrow> load_char OS P target s;
     (d, s) \<leftarrow> load_char OS P target s;
     s \<leftarrow> store_size OS P mapped_entry (pte target_entry) s;
     Some ([(''PT mapped at'', [Arg_ptr table]), (''Entry:'', [Arg_num entry]),
            (if x \<noteq> pte target_entry then ''Something went wrong...'' else ''Worked!'', []),
            (''Target[0]:'', [Arg_char c]), (if d = 0x53 then ''Success!'' else ''Fail!'', [])], s)
   }"

definition map_pt_main :: "os \<Rightarrow> process_os \<Rightarrow> sys \<Rightarrow> (int \<times> line list \<times> sys) option" where
  "map_pt_main OS P s = do {
     let (target, s) = mmap_anon P 4096 s;
     let (secret, s) = mmap_anon P 4096 s;
     s \<leftarrow> memset OS P target 0x42 4096 s;
     s \<leftarrow> memset OS P secret 0x53 4096 s;
     let (r, s) = ptedit_init OS s;
     if r \<noteq> 0 then
       Some (1, [(''Error: Could not initalize PTEditor, did you load the kernel module?'', [])], s)
     else do {
       (secret_entry, s) \<leftarrow> ptedit_resolve OS secret 0 s;
       (target_entry, s) \<leftarrow> ptedit_resolve OS target 0 s;
       (out, s) \<leftarrow> map_pt_edit OS P target target_entry (pte secret_entry) s;
       let s = ptedit_cleanup s;
       Some (0, [('''', [Arg_str (ptedit_print_entry (cfg_arch (os_kernel OS)) (pte target_entry))])] @ out
                @ [(''Done'', [])], s)
     }
   }"

section \<open>A run\<close>

text \<open>
  What the mapping of the page table relies on: the file of the module is open, the mapping is granted
  and does not overlap the page.
\<close>

definition maps_table :: "os \<Rightarrow> u64 \<Rightarrow> u64 \<Rightarrow> u64 \<Rightarrow> sys \<Rightarrow> bool" where
  "maps_table OS a T base s \<longleftrightarrow>
     cfg_arch (os_kernel OS) = X86_64 \<and> fd_file (ptedit_fd s) s = Some F_device
     \<and> fd_file (ptedit_umem s) s = Some F_umem \<and> ptedit_pagesize s = 4096 \<and> real_page_size s = 4096
     \<and> os_mmap OS F_umem (mappings s) 4096 (T * 4096) = Some base
     \<and> 4096 \<le> unat (a - base) \<and> 4096 \<le> unat (base - a)"

lemma maps_table_frame: "maps_table OS a T base s \<Longrightarrow> same_lib s t \<Longrightarrow> maps_table OS a T base t"
  unfolding same_lib_def by (elim ssubst) (simp add: maps_table_def fd_file_def)

lemma mapped_entry_address:
  assumes "mappings s = (base, 4096, T * 4096) # ms"
  shows "access_address OS (base + (drop_bit 12 a AND 0x1ff) * 8) 8 s = Some (T * 4096 + level_index x86_definition PTE a * 8)"
proof -
  define i where "i = level_index x86_definition PTE a"
  have idx: "drop_bit 12 a AND 0x1ff = i" by (simp add: i_def level_index_x86 and_511)
  have i: "unat i < 512" unfolding i_def level_index_x86 unsigned_take_bit_eq using take_bit_nat_less_exp [of 9] by simp
  then have "unat (i * 8) = unat i * 8" by (simp add: unat_word_ariths)
  with i have "in_mapping (base + i * 8) 8 (base, 4096, T * 4096)" by (simp add: in_mapping_def)
  then show ?thesis using assms by (simp add: access_address_def mapped_def idx i_def)
qed

definition answers :: "line list \<Rightarrow> line list" where
  "answers out = filter (\<lambda>l. fst l \<in> {''Something went wrong...'', ''Worked!'', ''Success!'', ''Fail!''}) out"

lemma map_pt_edit_run:
  assumes own: "own_page OS root a up w s" and w': "ptedit_get_pfn X86_64 w' < 2 ^ 28"
    and maps: "maps_table OS a (ptedit_get_pfn X86_64 (up PMD)) base s"
    and off: "\<And>l. off_frame (ptedit_get_pfn X86_64 w') (walk_slot (phys s) root a l)"
    and byte: "phys s (ptedit_get_pfn X86_64 w' * 4096) = 0x53" and e: "pmd e = up PMD" "pte e = w"
  shows "\<exists>out t. map_pt_edit OS P a e w' s = Some (out, t) \<and> answers out = [(''Worked!'', []), (''Success!'', [])]
    \<and> page_state OS root a up w t"
proof -
  let ?T = "ptedit_get_pfn X86_64 (up PMD)" and ?G = "ptedit_get_pfn X86_64 w'"
  let ?v = "ptedit_set_pfn X86_64 w ?G" and ?p = "base + (drop_bit 12 a AND 0x1ff) * 8"
  note st = own_pageD(1) [OF own]
  from maps have f: "cfg_arch (os_kernel OS) = X86_64" "fd_file (ptedit_fd s) s = Some F_device"
    "fd_file (ptedit_umem s) s = Some F_umem" "ptedit_pagesize s = 4096" "real_page_size s = 4096"
    "os_mmap OS F_umem (mappings s) 4096 (?T * 4096) = Some base" "4096 \<le> unat (a - base)" "4096 \<le> unat (base - a)"
    by (simp_all add: maps_table_def)
  have pfn: "cast_pfn X86_64 (up PMD) = ?T" using page_state_upper(1) [OF st, of PMD] by (simp add: cast_pfn_x86_iff)
  define s1 where "s1 = s\<lparr>mappings := (base, 4096, ?T * 4096) # mappings s\<rparr>"
  have pmap: "ptedit_pmap OS (?T * 4096) 4096 s = (base, s1)"
    using f by (simp add: ptedit_pmap_def mmap_def page_multiple s1_def)
  have size: "ptedit_get_pagesize OS s = 4096" using f by (simp add: ptedit_get_pagesize_def ioctl_def)
  have own1: "own_page OS root a up w s1" unfolding s1_def using own f(7,8) by (rule own_page_mapping) simp
  have slot: "?T * 4096 + level_index x86_definition PTE a * 8 = walk_slot (phys s) root a PTE"
    using st by (simp add: page_state_def walk_slot_def below_def)
  have at: "access_address OS ?p 8 x = Some (walk_slot (phys s) root a PTE)" if "mappings x = mappings s1" for x
    using mapped_entry_address [of x base ?T "mappings s" OS a] that by (simp add: s1_def slot)
  have "load64 (phys s1) (walk_slot (phys s) root a PTE) = w"
    using page_state_walk(2) [OF st] by (simp add: s1_def walk_slot_entry)
  then have load: "load_size OS P ?p s1 = Some (w, s1)" by (simp add: load_size_def touch_def at)
  define s2 where "s2 = s1\<lparr>phys := store64 (phys s1) (walk_slot (phys s1) root a PTE) ?v\<rparr>"
  have store1: "store_size OS P ?p ?v s1 = Some s2" by (simp add: store_size_def touch_def at s2_def, simp add: s1_def)
  note G = pfn_28 [OF w', of w]
  have own2: "own_page OS root a up ?v s2"
    unfolding s2_def using G own_pageD(4) [OF own] w' off by (intro own_page_store_pte [OF own1]) (simp_all add: s1_def)
  have slots2: "walk_slot (phys s2) root a l = walk_slot (phys s) root a l" for l
    by (rule page_state_slots [OF st own_pageD(1) [OF own2]])
  define s3 where "s3 = ptedit_invalidate_tlb OS a s2"
  have s3: "same_lib s2 s3" "phys s3 = phys s2" unfolding s3_def by (simp_all add: invalidate_tlb_same)
  have own3: "own_page OS root a up ?v s3" by (rule own_page_frame [OF own2 s3])
  have "phys s2 (?G * 4096) = 0x53"
    using store64_off_frame [OF off [of PTE], of 0 "phys s" ?v] byte by (simp add: s2_def s1_def)
  then have char: "load_char OS P a s3 = Some (0x53, s3)"
    using process_page_load_char [OF own_pageD(3) [OF own3], of P] by (simp add: G s3(2))
  define s4 where "s4 = s3\<lparr>phys := store64 (phys s3) (walk_slot (phys s3) root a PTE) w\<rparr>"
  have "mappings s3 = mappings s1" using same_lib_fields(2) [OF s3(1)] by (simp add: s2_def)
  then have store2: "store_size OS P ?p w s3 = Some s4"
    by (simp add: store_size_def touch_def at s4_def s3(2) slots2)
  have "page_state OS root a up w s4"
    unfolding s4_def using own_pageD(1,2) [OF own3] page_state_walk(3) [OF st] by (intro page_state_store_pte) simp_all
  then show ?thesis
    by (simp add: map_pt_edit_def f(1) e pfn size pmap Let_def load store1 s3_def [symmetric] char store2 answers_def)
qed

text \<open>
  The program that maps a page table into its own address space works: when Linux gives it two
  mappings, whose pages get different frames at the first access, and grants the mapping of the table, it
  finds the entry of its page in the mapped table (it prints Worked), after the store through the mapping and the TLB invalidation the page shows the
  other frame (it prints Success), and it runs to the end with the entry restored.
\<close>

theorem map_pt_redirects_page:
  assumes "mmap_anon P 4096 s = (a, s1)" and "mmap_anon P 4096 s1 = (b, s2)"
    and A: "u = first_touch OS P a s2" "process_page OS root a w u"
    and s3: "s3 = u\<lparr>phys := store_bytes (phys u) (ptedit_get_pfn X86_64 w * 4096) (replicate 4096 0x42)\<rparr>"
    and B: "v = first_touch OS P b s3" "process_page OS root b w' v" and G: "G = ptedit_get_pfn X86_64 w'"
    and s4: "s4 = v\<lparr>phys := store_bytes (phys v) (G * 4096) (replicate 4096 0x53)\<rparr>"
    and init: "ptedit_init OS s4 = (0, t)" and own: "own_page OS root a up w t" and secret: "page_state OS root b up' w' t"
    and off: "\<And>l. off_frame G (walk_slot (phys t) root a l)"
    and table: "maps_table OS a (ptedit_get_pfn X86_64 (up PMD)) base t"
  shows "\<exists>out x. map_pt_main OS P s = Some (0, out, ptedit_cleanup x) \<and> answers out = [(''Worked!'', []), (''Success!'', [])]
    \<and> page_state OS root a up w x"
proof -
  have fill1: "memset OS P a 0x42 4096 s2 = Some s3"
    unfolding s3 A(1) by (rule memset_first_touch [OF A(2) [unfolded A(1)]])
  have fill2: "memset OS P b 0x53 4096 s3 = Some s4"
    unfolding s4 B(1) G by (rule memset_first_touch [OF B(2) [unfolded B(1)]])
  have "phys t = phys s4" using init_phys [of OS s4] init by simp
  then have byte: "phys t (G * 4096) = 0x53" using first_byte by (simp add: s4)
  obtain e' t1 where t1: "ptedit_resolve OS b 0 t = Some (e', t1)" "pte e' = w'" "same_lib t t1" "phys t1 = phys t"
    using resolve_page [OF secret] by blast
  have own1: "own_page OS root a up w t1" by (rule own_page_frame [OF own t1(3,4)])
  obtain e t2 where t2: "ptedit_resolve OS a 0 t1 = Some (e, t2)" "pte e = w" "pmd e = up PMD" "same_lib t1 t2" "phys t2 = phys t1"
    using resolve_page [OF own_pageD(1) [OF own1]] by blast
  have own2: "own_page OS root a up w t2" by (rule own_page_frame [OF own1 t2(4,5)])
  have maps: "maps_table OS a (ptedit_get_pfn X86_64 (up PMD)) base t2"
    by (rule maps_table_frame [OF maps_table_frame [OF table t1(3)] t2(4)])
  have off2: "off_frame (ptedit_get_pfn X86_64 w') (walk_slot (phys t2) root a l)" for l
    using off by (simp add: t1(4) t2(5) G)
  have "phys t2 (ptedit_get_pfn X86_64 w' * 4096) = 0x53" using byte by (simp add: t1(4) t2(5) G)
  from map_pt_edit_run [OF own2 page_state_walk(3) [OF secret] maps off2 this t2(3,2), of P]
  obtain out x where x: "map_pt_edit OS P a e w' t2 = Some (out, x)" "answers out = [(''Worked!'', []), (''Success!'', [])]"
    "page_state OS root a up w x"
    by blast
  let ?out = "[('''', [Arg_str (ptedit_print_entry (cfg_arch (os_kernel OS)) w)])] @ out @ [(''Done'', [])]"
  have "map_pt_main OS P s = Some (0, ?out, ptedit_cleanup x)"
    by (simp add: map_pt_main_def assms(1,2) fill1 fill2 init t1(1,2) t2(1,2) x(1))
  moreover have "answers ?out = [(''Worked!'', []), (''Success!'', [])]" using x(2) by (simp add: answers_def)
  ultimately show ?thesis using x(3) by blast
qed

section \<open>The variant without a mapping of physical memory\<close>

text \<open>
  \<open>demos/map_pt_manual.c\<close> gets the page table into its address space by pointing the entry of a third
  page, \<open>window\<close> here, to it.
\<close>

definition map_pt_manual_edit ::
  "os \<Rightarrow> process_os \<Rightarrow> u64 \<Rightarrow> u64 \<Rightarrow> ptedit_entry_t \<Rightarrow> u64 \<Rightarrow> ptedit_entry_t \<Rightarrow> sys \<Rightarrow> (line list \<times> sys) option" where
  "map_pt_manual_edit OS P window target target_entry secret_pte pt_entry s = do {
     let A = cfg_arch (os_kernel OS);
     let old_pte = pte pt_entry;
     let pt_entry = pt_entry\<lparr>pte := ptedit_set_pfn A (pte pt_entry) (ptedit_get_pfn A (pmd target_entry)), valid := valid_mask PTE\<rparr>;
     (pt_entry, s) \<leftarrow> ptedit_update OS window 0 pt_entry s;
     let entry = drop_bit 12 target AND 0x1ff;
     let mapped_entry = window + entry * 8;
     (x, s) \<leftarrow> load_size OS P mapped_entry s;
     (y, s) \<leftarrow> load_size OS P mapped_entry s;
     s \<leftarrow> store_size OS P mapped_entry (ptedit_set_pfn A y (ptedit_get_pfn A secret_pte)) s;
     let s = ptedit_invalidate_tlb OS target s;
     (c, s) \<leftarrow> load_char OS P target s;
     (d, s) \<leftarrow> load_char OS P target s;
     s \<leftarrow> store_size OS P mapped_entry (pte target_entry) s;
     let pt_entry = pt_entry\<lparr>pte := old_pte, valid := valid_mask PTE\<rparr>;
     (pt_entry, s) \<leftarrow> ptedit_update OS window 0 pt_entry s;
     Some ([(''Entry:'', [Arg_num entry]),
            (if x \<noteq> pte target_entry then ''Something went wrong...'' else ''Worked!'', []),
            (''Target[0]:'', [Arg_char c]), (if d = 0x53 then ''Success!'' else ''Fail!'', [])], s)
   }"

definition map_pt_manual_main :: "os \<Rightarrow> process_os \<Rightarrow> sys \<Rightarrow> (int \<times> line list \<times> sys) option" where
  "map_pt_manual_main OS P s = do {
     let (window, s) = mmap_anon P 4096 s;
     let (target, s) = mmap_anon P 4096 s;
     let (secret, s) = mmap_anon P 4096 s;
     s \<leftarrow> memset OS P window 0x41 4096 s;
     s \<leftarrow> memset OS P target 0x42 4096 s;
     s \<leftarrow> memset OS P secret 0x53 4096 s;
     let (r, s) = ptedit_init OS s;
     if r \<noteq> 0 then
       Some (1, [(''Error: Could not initalize PTEditor, did you load the kernel module?'', [])], s)
     else do {
       (secret_entry, s) \<leftarrow> ptedit_resolve OS secret 0 s;
       (target_entry, s) \<leftarrow> ptedit_resolve OS target 0 s;
       (pt_entry, s) \<leftarrow> ptedit_resolve OS window 0 s;
       (out, s) \<leftarrow> map_pt_manual_edit OS P window target target_entry (pte secret_entry) pt_entry s;
       let s = ptedit_cleanup s;
       Some (0, [('''', [Arg_str (ptedit_print_entry (cfg_arch (os_kernel OS)) (pte target_entry))])] @ out
                @ [(''Done'', [])], s)
     }
   }"

text \<open>A page whose tables the written slot does not touch.\<close>

lemma page_state_elsewhere:
  assumes "page_state OS root b up w s" and "ptedit_resolve_ptr s = Resolve_kernel"
    and "\<And>l. apart slot (walk_slot (phys s) root b l)"
  shows "page_state OS root b up w (s\<lparr>phys := store64 (phys s) slot v\<rparr>)"
  using page_state_memory [OF assms(1,2), of "store64 (phys s) slot v" w] assms(3) page_state_walk(2,3) [OF assms(1)]
  by (simp add: mem_simps walk_slot_entry)

lemma window_access:
  assumes st: "page_state OS root a up w s" and win: "page_state OS root window up' v s"
    and v: "ptedit_get_pfn X86_64 v = ptedit_get_pfn X86_64 (up PMD)" "bit v 0" and al: "take_bit 12 window = 0"
    and none: "\<And>i. i < 4096 \<Longrightarrow> mapped (window + of_nat i) 8 s = None"
  shows "access_address OS (window + (drop_bit 12 a AND 0x1ff) * 8) 8 s = Some (walk_slot (phys s) root a PTE)"
proof -
  define i where "i = unat (level_index x86_definition PTE a)"
  have i: "i < 512" unfolding i_def level_index_x86 unsigned_take_bit_eq using take_bit_nat_less_exp [of 9] by simp
  have idx: "(drop_bit 12 a AND 0x1ff) * 8 = of_nat (i * 8)" "level_index x86_definition PTE a * 8 = of_nat (i * 8)"
    by (simp_all add: i_def level_index_x86 and_511)
  have lt: "i * 8 < 4096" using i by simp
  have "walk_slot (phys s) root a PTE = ptedit_get_pfn X86_64 (up PMD) * 4096 + of_nat (i * 8)"
    using st unfolding idx(2) [symmetric] by (simp add: page_state_def walk_slot_def below_def)
  moreover have "process_root OS s = root" using st by (simp add: page_state_def process_root_config)
  moreover have "translate (phys s) root (window + of_nat (i * 8)) = Some (ptedit_get_pfn X86_64 (up PMD) * 4096 + of_nat (i * 8))"
    using translate_page [OF win page_offset_add(1) [OF al lt]] page_offset_add(2) [OF al lt] v by (simp del: of_nat_mult)
  ultimately show ?thesis using none [OF lt] by (simp add: access_address_def idx(1) del: of_nat_mult)
qed

lemma own_page_elsewhere:
  assumes "own_page OS root a up w s" and "\<And>l. apart slot (walk_slot (phys s) root a l)"
  shows "own_page OS root a up w (s\<lparr>phys := store64 (phys s) slot v\<rparr>)"
  by (rule own_page_memory [OF assms(1)]) (simp add: assms(2) mem_simps walk_slot_entry)

lemma update_window:
  assumes win: "page_state OS root b ub wb s" and own: "own_page OS root a up w s"
    and apart: "\<And>l. apart (walk_slot (phys s) root b PTE) (walk_slot (phys s) root a l)"
    and vm: "valid vm = valid_mask PTE" "ptedit_get_pfn X86_64 (pte vm) < 2 ^ 28"
  shows "\<exists>vm' u. ptedit_update OS b 0 vm s = Some (vm', u) \<and> same_lib s u
    \<and> phys u = store64 (phys s) (walk_slot (phys s) root b PTE) (pte vm)
    \<and> page_state OS root b ub (pte vm) u \<and> own_page OS root a up w u"
proof -
  obtain vm' u where u: "ptedit_update OS b 0 vm s = Some (vm', u)" "same_lib s u"
    "phys u = store64 (phys s) (walk_slot (phys s) root b PTE) (pte vm)" "page_state OS root b ub (pte vm) u"
    using update_page [OF win own_pageD(2) [OF own] vm] by blast
  have "own_page OS root a up w (s\<lparr>phys := phys u\<rparr>)" unfolding u(3) by (rule own_page_elsewhere [OF own apart])
  moreover have "same_lib (s\<lparr>phys := phys u\<rparr>) u" using u(2) by (simp add: same_lib_def)
  ultimately have "own_page OS root a up w u" by (rule own_page_frame) simp
  with u show ?thesis by blast
qed

text \<open>
  The variant works as well: with three pages whose entries do not overlap, both answers are positive
  and at the end the entries of the page and of the window are what they were.
\<close>

theorem map_pt_manual_edit_run:
  assumes own: "own_page OS root a up w s" and win: "page_state OS root b ub wb s" and wb: "bit wb 0" "take_bit 12 b = 0"
    and none: "\<And>i. i < 4096 \<Longrightarrow> mapped (b + of_nat i) 8 s = None"
    and apart: "\<And>l. apart (walk_slot (phys s) root b PTE) (walk_slot (phys s) root a l)"
      "\<And>l. apart (walk_slot (phys s) root a PTE) (walk_slot (phys s) root b l)"
    and w': "ptedit_get_pfn X86_64 w' < 2 ^ 28"
    and off: "\<And>l. off_frame (ptedit_get_pfn X86_64 w') (walk_slot (phys s) root a l)"
      "off_frame (ptedit_get_pfn X86_64 w') (walk_slot (phys s) root b PTE)"
    and byte: "phys s (ptedit_get_pfn X86_64 w' * 4096) = 0x53" and e: "pmd e = up PMD" "pte e = w" "pte f = wb"
  shows "\<exists>out t. map_pt_manual_edit OS P b a e w' f s = Some (out, t) \<and> answers out = [(''Worked!'', []), (''Success!'', [])]
    \<and> page_state OS root a up w t \<and> page_state OS root b ub wb t"
proof -
  let ?T = "ptedit_get_pfn X86_64 (up PMD)" and ?G = "ptedit_get_pfn X86_64 w'" and ?p = "b + (drop_bit 12 a AND 0x1ff) * 8"
  let ?v = "ptedit_set_pfn X86_64 w ?G" and ?vb = "ptedit_set_pfn X86_64 wb ?T" and ?slot = "walk_slot (phys s) root a PTE"
  note st = own_pageD(1) [OF own]
  have A: "cfg_arch (os_kernel OS) = X86_64" using st by (simp add: page_state_def mmu_config_def)
  have T: "?T < 2 ^ 28" using page_state_upper(1) [OF st, of PMD] by simp
  note G = pfn_28 [OF w', of w] and T' = pfn_28 [OF T, of wb]
  let ?f = "f\<lparr>pte := ?vb, valid := valid_mask PTE\<rparr>"
  obtain f1 s1 where s1: "ptedit_update OS b 0 ?f s = Some (f1, s1)" "same_lib s s1"
    "phys s1 = store64 (phys s) (walk_slot (phys s) root b PTE) ?vb" "page_state OS root b ub ?vb s1" "own_page OS root a up w s1"
    using update_window [OF win own apart(1), of ?f] T T'(1) by auto
  have slots: "walk_slot (phys x) root a l = walk_slot (phys s) root a l" if "page_state OS root a up y x" for x y l
    by (rule page_state_slots [OF st that])
  have bslots: "walk_slot (phys x) root b l = walk_slot (phys s) root b l" if "page_state OS root b ub y x" for x y l
    by (rule page_state_slots [OF win that])
  have access: "access_address OS ?p 8 x = Some ?slot" if "page_state OS root a up y x" "page_state OS root b ub ?vb x" "same_lib s x" for x y
    using window_access [OF that(1,2) T'(1)] T'(3) wb none slots [OF that(1)] same_lib_fields(2) [OF that(3)] by (simp add: mapped_def)
  note at1 = access [OF own_pageD(1) [OF s1(5)] s1(4,2)]
  have "load64 (phys s1) ?slot = w"
    using page_state_walk(2) [OF own_pageD(1) [OF s1(5)]] slots [OF own_pageD(1) [OF s1(5)]] by (metis walk_slot_entry)
  then have load: "load_size OS P ?p s1 = Some (w, s1)" by (simp add: load_size_def touch_def at1)
  define s2 where "s2 = s1\<lparr>phys := store64 (phys s1) ?slot ?v\<rparr>"
  have store1: "store_size OS P ?p ?v s1 = Some s2" by (simp add: store_size_def touch_def at1 s2_def)
  have own2: "own_page OS root a up ?v s2"
    using own_page_store_pte [OF s1(5), of ?v] G w' own_pageD(4) [OF own] off(1) slots [OF own_pageD(1) [OF s1(5)]] by (simp add: s2_def)
  have win2: "page_state OS root b ub ?vb s2"
    unfolding s2_def using own_pageD(2) [OF s1(5)] apart(2) bslots [OF s1(4)] by (intro page_state_elsewhere [OF s1(4)]) simp_all
  define s3 where "s3 = ptedit_invalidate_tlb OS a s2"
  have s3: "same_lib s2 s3" "phys s3 = phys s2" unfolding s3_def by (simp_all add: invalidate_tlb_same)
  have own3: "own_page OS root a up ?v s3" and win3: "page_state OS root b ub ?vb s3"
    by (rule own_page_frame [OF own2 s3], rule page_state_frame [OF win2 s3])
  have "phys s2 (?G * 4096) = 0x53"
    using store64_off_frame [OF off(1) [of PTE], of 0 "phys s1" ?v] store64_off_frame [OF off(2), of 0 "phys s" ?vb] byte
    by (simp add: s2_def s1(3))
  then have char: "load_char OS P a s3 = Some (0x53, s3)"
    using process_page_load_char [OF own_pageD(3) [OF own3], of P] by (simp add: G s3(2))
  have same3: "same_lib s s3" using same_lib_trans [OF s1(2) same_lib_trans [OF _ s3(1)]] by (simp add: s2_def)
  define s4 where "s4 = s3\<lparr>phys := store64 (phys s3) ?slot w\<rparr>"
  have store2: "store_size OS P ?p w s3 = Some s4"
    by (simp add: store_size_def touch_def access [OF own_pageD(1) [OF own3] win3 same3] s4_def)
  have own4: "own_page OS root a up w s4"
    using own_page_store_pte [OF own3, of w] own_pageD(4,5) [OF own] page_state_walk(3) [OF st] slots [OF own_pageD(1) [OF own3]]
    by (simp add: s4_def)
  have win4: "page_state OS root b ub ?vb s4"
    unfolding s4_def using own_pageD(2) [OF own3] apart(2) bslots [OF win3] by (intro page_state_elsewhere [OF win3]) simp_all
  let ?f4 = "f1\<lparr>pte := wb, valid := valid_mask PTE\<rparr>"
  obtain f5 s5 where s5: "ptedit_update OS b 0 ?f4 s4 = Some (f5, s5)" "page_state OS root b ub wb s5" "own_page OS root a up w s5"
    using update_window [OF win4 own4, of ?f4] apart(1) page_state_walk(3) [OF win] bslots [OF win4] slots [OF own_pageD(1) [OF own4]] by auto
  show ?thesis
    using s5(2) own_pageD(1) [OF s5(3)]
    by (simp add: map_pt_manual_edit_def A e s1(1) Let_def load store1 s3_def [symmetric] char store2 s5(1) answers_def)
qed

section \<open>The demonstration on the sample machine\<close>

text \<open>The kernel of the sample machine hands out its two pages, the second entry being set by the first call.\<close>

definition sample_process2 :: process_os where
  "sample_process2 =
     \<lparr>mmap_anon = (\<lambda>len s. if load64 (phys s) 0x4010 = 0
        then (sample_vaddr, s\<lparr>phys := store64 (phys s) 0x4010 0x8000000000006067\<rparr>) else (sample_vaddr2, s)),
      munmap_anon = (\<lambda>a len s. s), page_fault = (\<lambda>a s. s), uninit = (\<lambda>n. replicate n 0)\<rparr>"

lemma process_page_cong:
  "process_page OS root a w s \<Longrightarrow> phys t = phys s \<Longrightarrow> mm_pgd t = mm_pgd s \<Longrightarrow> mappings t = mappings s \<Longrightarrow>
   process_page OS root a w t"
  by (simp add: process_page_def process_root_def mapped_def split: option.splits)

lemma sample_init_memory:
  "ptedit_init sample_os ((start_sys sample_kstate)\<lparr>phys := m\<rparr>) = (0, sample_sys\<lparr>phys := m\<rparr>)"
  by (simp add: sample_sys_eq ptedit_init_def open_device_def device_open_def open_umem_file_def
      lowest_fd_def ptedit_use_implementation_def PTEDIT_IMPL_KERNEL_def sample_defs Let_def)

theorem map_pt_redirects_page_witness:
  "\<exists>out u. map_pt_main sample_os sample_process2 (start_sys sample_kstate) = Some (0, out, u)
    \<and> answers out = [(''Worked!'', []), (''Success!'', [])]"
proof -
  let ?w = "0x8000000000005067 :: u64" and ?w' = "0x8000000000006067 :: u64"
  let ?s2 = "(start_sys sample_kstate)\<lparr>phys := sample_mem2\<rparr>"
  let ?m3 = "store_bytes sample_mem2 (5 * 4096) (replicate 4096 0x42)"
  let ?m4 = "store_bytes ?m3 (6 * 4096) (replicate 4096 0x53)"
  let ?t3 = "sample_sys2\<lparr>phys := ?m3\<rparr>" and ?t = "sample_sys\<lparr>phys := ?m4\<rparr>"
  have pfn: "ptedit_get_pfn X86_64 ?w = 5" "ptedit_get_pfn X86_64 ?w' = 6" "ptedit_get_pfn X86_64 (sample_entries PMD) = 4"
    by (simp_all add: ptedit_get_pfn_def pfn_width_def sample_entries_def)
  have "load64 sample_mem 0x4010 = 0" by (simp add: sample_mem_def mem_simps apart_def)
  then have maps: "mmap_anon sample_process2 4096 (start_sys sample_kstate) = (sample_vaddr, ?s2)"
    "mmap_anon sample_process2 4096 ?s2 = (sample_vaddr2, ?s2)"
    by (simp_all add: sample_process2_def sample_loads2 start_sys_def sample_kstate_def initial_kstate_def kstate.defs sample_mem2_def mem_simps)
  have cong: "process_page sample_os 0x1000 a w sample_sys2 \<Longrightarrow> process_page sample_os 0x1000 a w ?s2" for a w
    by (erule process_page_cong) (simp_all add: sample_sys2_simps start_sys_def sample_kstate_def initial_kstate_def kstate.defs)
  note pages = cong [OF own_pageD(3) [OF sample_own_pages(1)]] cong [OF own_pageD(3) [OF sample_own_pages(2)]]
  have own3: "own_page sample_os 0x1000 sample_vaddr sample_entries ?w ?t3" "own_page sample_os 0x1000 sample_vaddr2 sample_entries ?w' ?t3"
    using own_page_write_frame [OF sample_own_pages(1,3), of "replicate 4096 0x42"]
      own_page_write_frame [OF sample_own_pages(2,5), of "replicate 4096 0x42"] by (simp_all add: sample_sys2_simps)
  have off: "off_frame 6 (walk_slot (phys ?t3) 0x1000 sample_vaddr l)" for l
    using page_state_slots [OF sample_page1 own_pageD(1) [OF own3(1)], of l] sample_own_pages(4) [of l] by simp
  have t: "?t = ?t3\<lparr>phys := store_bytes (phys ?t3) (6 * 4096) (replicate 4096 0x53)\<rparr>" by (simp add: sample_sys2_def)
  have own: "own_page sample_os 0x1000 sample_vaddr sample_entries ?w ?t" "own_page sample_os 0x1000 sample_vaddr2 sample_entries ?w' ?t"
    unfolding t using own_page_write_frame [OF own3(1) off, of "replicate 4096 0x53"]
      own_page_write_frame [OF own3(2) own_pageD(5) [OF own3(2)], of "replicate 4096 0x53"] by (simp_all add: pfn)
  have table: "maps_table sample_os sample_vaddr (ptedit_get_pfn X86_64 (sample_entries PMD)) 0x7f0000000000 ?t"
    by (simp add: maps_table_def pfn sample_sys_simps fd_file_def, simp add: sample_os_def sample_vaddr_def sample_sys_eq sample_defs)
  let ?s3 = "?s2\<lparr>phys := ?m3\<rparr>"
  have page3: "process_page sample_os 0x1000 sample_vaddr2 ?w' ?s3"
    using process_page_write_frame [OF pages(2), of 5 "replicate 4096 0x42"] sample_own_pages(5) by (simp add: sample_sys2_simps)
  have touch: "?s2 = first_touch sample_os sample_process2 sample_vaddr ?s2" "?s3 = first_touch sample_os sample_process2 sample_vaddr2 ?s3"
    using first_touch_present [OF pages(1)] first_touch_present [OF page3] by simp_all
  have s3: "?s3 = ?s2\<lparr>phys := store_bytes (phys ?s2) (ptedit_get_pfn X86_64 ?w * 4096) (replicate 4096 0x42)\<rparr>"
    by (simp add: pfn)
  have s4: "?s3\<lparr>phys := ?m4\<rparr> = ?s3\<lparr>phys := store_bytes (phys ?s3) (6 * 4096) (replicate 4096 0x53)\<rparr>"
    by simp
  have init: "ptedit_init sample_os (?s3\<lparr>phys := ?m4\<rparr>) = (0, ?t)" using sample_init_memory [of ?m4] by simp
  have "off_frame 6 (walk_slot (phys ?t) 0x1000 sample_vaddr l)" for l
    using off page_state_slots [OF own_pageD(1) [OF own3(1)] own_pageD(1) [OF own(1)], of l] by simp
  from map_pt_redirects_page [OF maps touch(1) pages(1) s3 touch(2) page3 pfn(2) [symmetric] s4 init own(1) own_pageD(1) [OF own(2)] this table]
  show ?thesis by blast
qed

end
