(* ===== verification/PT_Performance.thy ===== *)
theory PT_Performance
  imports PT_Process
begin

text \<open>
  The demonstration \<open>demos/performance.c\<close>, which measures the three implementations and compares the
  entries they return.  The clock is a parameter, the sequence of the values that \<open>rdtsc\<close> returns.
\<close>

section \<open>Comparing two resolved entries\<close>

text \<open>The difference is kept in an \<open>int\<close>, so an assignment drops the upper half of the 64-bit difference.\<close>

definition diff_level :: "ptedit_entry_t \<Rightarrow> ptedit_entry_t \<Rightarrow> level \<Rightarrow> i32 \<Rightarrow> i32" where
  "diff_level e1 e2 l diff =
     (if has_valid (valid e1) l \<and> has_valid (valid e2) l
      then ucast (size_of_int diff OR (entry_of l e1 XOR entry_of l e2)) else diff)"

definition is_same :: "ptedit_entry_t \<Rightarrow> ptedit_entry_t \<Rightarrow> bool" where
  "is_same e1 e2 =
     (let diff = 0;
          diff = diff_level e1 e2 PGD diff;
          diff = diff_level e1 e2 P4D diff;
          diff = diff_level e1 e2 PUD diff;
          diff = diff_level e1 e2 PMD diff;
          diff = diff_level e1 e2 PTE diff
      in diff = 0)"

definition REPEAT :: nat where "REPEAT = 10000"

fun resolve_repeat :: "os \<Rightarrow> u64 \<Rightarrow> nat \<Rightarrow> ptedit_entry_t \<Rightarrow> sys \<Rightarrow> (ptedit_entry_t \<times> sys) option" where
  "resolve_repeat OS target 0 entry s = Some (entry, s)"
| "resolve_repeat OS target (Suc n) entry s = do {
     (entry, s) \<leftarrow> ptedit_resolve OS target 0 s;
     resolve_repeat OS target n entry s
   }"

definition cycles :: "(nat \<Rightarrow> u64) \<Rightarrow> nat \<Rightarrow> arg" where
  "cycles clock i = Arg_int (sint (ucast ((clock (i + 1) - clock i) div of_nat REPEAT) :: i32))"

definition report_difference :: "arch \<Rightarrow> ptedit_entry_t \<Rightarrow> ptedit_entry_t \<Rightarrow> line list" where
  "report_difference A entry entry_us =
     (if \<not> is_same entry entry_us
      then [(''Kernel and user-space resolver do not agree!'', []),
            ('''', [Arg_str (ptedit_print_entry_t A entry)]), ('''', [Arg_str (ptedit_print_entry_t A entry_us)])]
      else [])"

text \<open>\<open>target\<close> is the address of the global variable.\<close>

definition performance_main ::
  "os \<Rightarrow> process_os \<Rightarrow> (nat \<Rightarrow> u64) \<Rightarrow> ptedit_entry_t \<Rightarrow> u64 \<Rightarrow> sys \<Rightarrow> (int \<times> line list \<times> sys) option" where
  "performance_main OS P clock uninit_entry target s =
     (let A = cfg_arch (os_kernel OS); (r, s) = ptedit_init OS s in
      if r \<noteq> 0 then Some (1, [(''Error: Could not initalize PTEditor, did you load the kernel module?'', [])], s)
      else do {
        s \<leftarrow> store_size OS P target 0x58 s;
        let s = ptedit_use_implementation OS PTEDIT_IMPL_KERNEL s;
        (entry, s) \<leftarrow> resolve_repeat OS target REPEAT uninit_entry s;
        let s = ptedit_use_implementation OS PTEDIT_IMPL_USER s;
        (entry_us, s) \<leftarrow> resolve_repeat OS target REPEAT uninit_entry s;
        let o2 = report_difference A entry entry_us;
        let s = ptedit_use_implementation OS PTEDIT_IMPL_USER_PREAD s;
        (entry_us, s) \<leftarrow> resolve_repeat OS target REPEAT entry_us s;
        let o3 = report_difference A entry entry_us;
        let s = ptedit_cleanup s;
        Some (0, [(''Kernel implementation takes cycles/resolve'', [cycles clock 0]),
                  (''User implementation takes cycles/resolve'', [cycles clock 2])] @ o2
                 @ [(''User (pread) implementation takes cycles/resolve'', [cycles clock 4])] @ o3
                 @ [(''Done'', [])], s)
      })"

lemma diff_level_bits:
  "bit (diff_level e1 e2 l diff) n \<longleftrightarrow>
     bit diff n \<or> n < 32 \<and> has_valid (valid e1) l \<and> has_valid (valid e2) l \<and> bit (entry_of l e1) n \<noteq> bit (entry_of l e2) n"
  using bit_imp_le_length [of diff n]
  by (auto simp: diff_level_def bit_simps size_of_int_def bit_ucast_iff bit_signed_iff)

lemma low_half_eq: "take_bit 32 x = take_bit 32 (y :: u64) \<longleftrightarrow> (\<forall>n < 32. bit x n = bit y n)"
proof
  assume "take_bit 32 x = take_bit 32 y"
  then have "bit (take_bit 32 x) n = bit (take_bit 32 y) n" for n by simp
  then show "\<forall>n < 32. bit x n = bit y n" unfolding bit_take_bit_iff by blast
qed (auto intro!: u64_eqI simp: bit_take_bit_iff)

lemma diff_level_zero:
  "diff_level e1 e2 l diff = 0 \<longleftrightarrow> diff = 0 \<and>
     (has_valid (valid e1) l \<and> has_valid (valid e2) l \<longrightarrow> take_bit 32 (entry_of l e1) = take_bit 32 (entry_of l e2))"
proof -
  have "diff_level e1 e2 l diff = 0 \<longleftrightarrow> (\<forall>n. \<not> bit (diff_level e1 e2 l diff) n)" "diff = 0 \<longleftrightarrow> (\<forall>n. \<not> bit diff n)"
    unfolding bit_eq_iff using bit_imp_le_length by auto blast+
  then show ?thesis by (auto simp: diff_level_bits low_half_eq)
qed

text \<open>
  The comparison of the performance demonstration decides whether the entries of the levels that
  are valid in both results agree in their lower 32 bits only: a difference in the upper half, such as
  the NX bit or the frame number above 2^20, is never reported.
\<close>

theorem is_same_compares_low_half:
  "(is_same e1 e2 \<longleftrightarrow> (\<forall>l. has_valid (valid e1) l \<and> has_valid (valid e2) l \<longrightarrow>
      take_bit 32 (entry_of l e1) = take_bit 32 (entry_of l e2)))
   \<and> is_same e1 (e1\<lparr>pte := pte e1 XOR push_bit 32 x\<rparr>)"
proof -
  have spec: "is_same a b \<longleftrightarrow> (\<forall>l. has_valid (valid a) l \<and> has_valid (valid b) l \<longrightarrow>
      take_bit 32 (entry_of l a) = take_bit 32 (entry_of l b))" for a b
    unfolding all_levels is_same_def Let_def diff_level_zero by blast
  have "take_bit 32 (pte e1) = take_bit 32 (pte e1 XOR push_bit 32 x)"
    by (rule u64_eqI) (auto simp: bit_simps)
  then have "is_same e1 (e1\<lparr>pte := pte e1 XOR push_bit 32 x\<rparr>)" unfolding spec all_levels by simp
  with spec show ?thesis by blast
qed

theorem is_same_compares_low_half_witness:
  "is_same (zero_entry\<lparr>pte := 0x8000000000005067, valid := 31\<rparr>) (zero_entry\<lparr>pte := 0x5067, valid := 31\<rparr>)
    \<and> \<not> is_same (zero_entry\<lparr>pte := 0x5067, valid := 31\<rparr>) (zero_entry\<lparr>pte := 0x5065, valid := 31\<rparr>)"
proof
  have "zero_entry\<lparr>pte := v, valid := 31\<rparr>\<lparr>pte := x\<rparr> = zero_entry\<lparr>pte := x, valid := 31\<rparr>" for v x by simp
  moreover have "pte (zero_entry\<lparr>pte := 0x8000000000005067, valid := 31\<rparr>) XOR push_bit 32 0x80000000 = 0x5067" by simp
  ultimately show "is_same (zero_entry\<lparr>pte := 0x8000000000005067, valid := 31\<rparr>) (zero_entry\<lparr>pte := 0x5067, valid := 31\<rparr>)"
    using conjunct2 [OF is_same_compares_low_half [of "zero_entry\<lparr>pte := 0x8000000000005067, valid := 31\<rparr>" zero_entry "0x80000000"]]
    by (simp only:)
  have "has_valid 31 PTE" "take_bit 32 (0x5067 :: u64) \<noteq> take_bit 32 0x5065"
    by (simp_all add: has_valid_def valid_mask_def ull_bit_def take_bit_eq_mask mask_numeral)
  then show "\<not> is_same (zero_entry\<lparr>pte := 0x5067, valid := 31\<rparr>) (zero_entry\<lparr>pte := 0x5065, valid := 31\<rparr>)"
    using conjunct1 [OF is_same_compares_low_half [of "zero_entry\<lparr>pte := 0x5067, valid := 31\<rparr>" "zero_entry\<lparr>pte := 0x5065, valid := 31\<rparr>" 0]]
    by (auto dest: spec [of _ PTE])
qed

text \<open>The implementations agree on a page of the program, so the comparison holds for their results.\<close>

lemma resolve_repeat_page:
  "page_state OS root a up w s \<Longrightarrow> 0 < n \<Longrightarrow>
   \<exists>e t. resolve_repeat OS a n e0 s = Some (e, t) \<and> same_lib s t \<and> phys t = phys s
     \<and> (\<forall>l. l \<noteq> P4D \<longrightarrow> entry_of l e = (if l = PTE then w else up l))"
proof (induction n arbitrary: s e0)
  case 0
  then show ?case by simp
next
  case (Suc n)
  obtain e t where e: "ptedit_resolve OS a 0 s = Some (e, t)" "same_lib s t" "phys t = phys s"
    "pte e = w" "pgd e = up PGD" "pud e = up PUD" "pmd e = up PMD"
    using resolve_page [OF Suc.prems(1)] by blast
  have "entry_of l e = (if l = PTE then w else up l)" if "l \<noteq> P4D" for l using that e(4-7) by (cases l) simp_all
  moreover have "page_state OS root a up w t" by (rule page_state_frame [OF Suc.prems(1) e(2,3)])
  ultimately show ?case
    using e(1-3) Suc.IH [of t e] same_lib_trans [OF e(2)] by (cases "n = 0") fastforce+
qed

text \<open>A variable of the program in the page of the sample machine.\<close>

definition sample_proc :: process_os where
  "sample_proc = \<lparr>mmap_anon = (\<lambda>len s. (0, s)), munmap_anon = (\<lambda>a len s. s), page_fault = (\<lambda>a s. s), uninit = (\<lambda>n. [])\<rparr>"

definition sample_stored :: sys where
  "sample_stored = sample_sys\<lparr>phys := store64 sample_mem 0x5000 0x58\<rparr>"

lemma sample_translate:
  assumes "page_state sample_os 0x1000 sample_vaddr sample_entries 0x8000000000005067 s"
  shows "translate (phys s) 0x1000 sample_vaddr = Some 0x5000"
proof -
  have "ptedit_get_pfn X86_64 0x8000000000005067 = 5" by (simp add: ptedit_get_pfn_def pfn_width_def)
  with translate_page [OF assms, of sample_vaddr] show ?thesis
    by (simp add: same_page_def sample_vaddr_def take_bit_eq_mask mask_numeral)
qed

lemma sample_access:
  assumes "phys s = sample_mem" and "mm_pgd s = sample_roots" and "mappings s = []"
  shows "access_address sample_os sample_vaddr 8 s = Some 0x5000"
proof -
  have "process_root sample_os s = process_root sample_os sample_sys"
    using assms(2) by (simp add: process_root_def sample_sys_simps split: option.split)
  then have "process_root sample_os s = 0x1000" using process_root_config [OF sample_mmu_config(1)] by simp
  then show ?thesis
    using sample_translate [OF sample_page_state [of sample_sys]] assms(1,3)
    by (simp add: access_address_def mapped_def sample_sys_simps)
qed

lemma sample_store:
  "store_size sample_os sample_proc sample_vaddr 0x58 sample_sys = Some sample_stored"
  "store_size sample_os sample_proc sample_vaddr 0x58 (start_sys sample_kstate) =
     Some ((start_sys sample_kstate)\<lparr>phys := store64 sample_mem 0x5000 0x58\<rparr>)"
proof -
  have "mappings sample_sys = []" by (simp add: sample_sys_eq sample_defs)
  then have "access_address sample_os sample_vaddr 8 sample_sys = Some 0x5000"
    by (intro sample_access) (simp_all add: sample_sys_simps)
  then show "store_size sample_os sample_proc sample_vaddr 0x58 sample_sys = Some sample_stored"
    by (simp add: store_size_def touch_def sample_stored_def sample_sys_simps)
  have "access_address sample_os sample_vaddr 8 (start_sys sample_kstate) = Some 0x5000"
    by (rule sample_access) (simp_all add: sample_defs)
  then show "store_size sample_os sample_proc sample_vaddr 0x58 (start_sys sample_kstate) =
     Some ((start_sys sample_kstate)\<lparr>phys := store64 sample_mem 0x5000 0x58\<rparr>)"
    by (simp add: store_size_def touch_def) (simp add: sample_defs)
qed

lemma sample_stored_init:
  "ptedit_init sample_os ((start_sys sample_kstate)\<lparr>phys := store64 sample_mem 0x5000 0x58\<rparr>) = (0, sample_stored)"
  by (simp add: sample_stored_def sample_sys_eq ptedit_init_def open_device_def device_open_def open_umem_file_def
      lowest_fd_def ptedit_use_implementation_def PTEDIT_IMPL_KERNEL_def sample_defs Let_def)

lemma sample_stored_page:
  "page_state sample_os 0x1000 sample_vaddr sample_entries 0x8000000000005067 sample_stored"
proof -
  have slots: "walk_slot sample_mem 0x1000 sample_vaddr l \<in> {0x1000, 0x2008, 0x3008, 0x4008}" for l
    using sample_walk_entries by (cases l) (simp_all add: walk_slot_def below_mask level_index_x86 sample_vaddr_def)
  have "\<forall>x \<in> {0x1000, 0x2008, 0x3008, 0x4008}. apart 0x5000 x" by (simp add: apart_def)
  then have "load64 (store64 sample_mem 0x5000 0x58) (walk_slot sample_mem 0x1000 sample_vaddr l) = walk_entry sample_mem 0x1000 sample_vaddr l" for l
    using slots [of l] by (metis load64_store64_apart walk_slot_entry)
  then show ?thesis
    unfolding sample_stored_def using sample_walk_entries(4)
    by (intro page_state_memory [OF sample_page_state [of sample_sys] sample_sys_simps(14)])
      (simp_all add: sample_sys_simps ptedit_get_pfn_def pfn_width_def)
qed

section \<open>Changing the implementation\<close>

lemma hw_walk_slots:
  assumes "complete_walk m root a"
  shows "hw_walk X86_64 x86_definition m root a =
    map (\<lambda>l. (l, walk_slot m root a l, walk_entry m root a l)) [PGD, PUD, PMD, PTE]"
proof -
  have levels: "walk_levels x86_definition = [PGD, PUD, PMD, PTE]" by (simp add: walk_levels_def x86_definition_def)
  show ?thesis
    using assms by (simp add: hw_walk_def levels Let_def hw_next_x86 walk_entry_loads complete_walk_def walk_slot_def)
qed

lemma kernel_page_slots:
  assumes st: "page_state OS root a up w s" and ptr: "ptedit_resolve_ptr s = Resolve_kernel"
  shows "l \<noteq> P4D \<Longrightarrow> ptedit_get_pfn X86_64 (walk_entry (phys s) root a l) < 2 ^ 28"
    "l \<in> {PGD, PUD, PMD} \<Longrightarrow> apart (walk_slot (phys s) root a PTE) (walk_slot (phys s) root a l)"
proof -
  note k = page_state_kernel [OF st ptr]
  note vm = kernel_vm_walk [OF k(1-3)]
  show "l \<noteq> P4D \<Longrightarrow> ptedit_get_pfn X86_64 (walk_entry (phys s) root a l) < 2 ^ 28"
    using kernel_entries_walk [OF k(1-3)] k(3) unfolding plain_entries_def by blast
  assume l: "l \<in> {PGD, PUD, PMD}"
  then obtain q where q: "vm_ptr l (snd (kernel_vm OS a 0 s)) = Some q" using vm(3) [of l] by auto
  obtain r where r: "vm_ptr PTE (snd (kernel_vm OS a 0 s)) = Some r" using vm(3) [of PTE] by auto
  have "apart (virt_to_phys (os_kernel OS) r) (virt_to_phys (os_kernel OS) q)"
    using k(2) q r l unfolding kernel_ok_def by auto
  then show "apart (walk_slot (phys s) root a PTE) (walk_slot (phys s) root a l)"
    by (simp add: vm(2) [OF q] vm(2) [OF r])
qed

text \<open>
  A page that the kernel implementation resolves is a page for a user-space implementation as well,
  when its root is the root of the process and it can access the slots.
\<close>

lemma user_page_state:
  assumes st: "page_state OS root a up w s" and ptr: "ptedit_resolve_ptr s = Resolve_kernel"
    and t: "phys t = phys s" "mm_pgd t = mm_pgd s" "ptedit_paging_definition t = ptedit_paging_definition s"
      "lib_const t" "fst (user_root OS 0 t) = root" "root \<noteq> 0"
    and impl: "ptedit_resolve_ptr t = Resolve_user \<and> ptedit_update_ptr t = Update_user \<and> acc = pread_acc
      \<or> ptedit_resolve_ptr t = Resolve_user_map \<and> ptedit_update_ptr t = Update_user_map \<and> acc = map_acc"
    and acc: "\<And>l. acc OS (walk_slot (phys s) root a l) t"
  shows "page_state OS root a up w t" "user_entries OS a 0 t P4D = None"
proof -
  have conf: "mmu_config OS root s" using st by (simp add: page_state_def)
  note complete = page_state_walk(1) [OF st]
  have D: "ptedit_paging_definition t = x86_definition" "cfg_arch (os_kernel OS) = X86_64"
    using conf t(3) by (simp_all add: mmu_config_def)
  have "plain_tables X86_64 (hw_walk X86_64 x86_definition (phys s) root a)"
    using kernel_page_slots(1) [OF st ptr] complete by (simp add: plain_tables_def hw_walk_slots complete_walk_def)
  then have walk: "user_walk OS a 0 t = map (\<lambda>l. (l, walk_slot (phys s) root a l, walk_entry (phys s) root a l)) [PGD, PUD, PMD, PTE]"
    by (simp only: user_walk_def D t(1,5) plain_walk hw_walk_slots [OF complete])
  have entries: "user_entries OS a 0 t l = (if l = P4D then None else Some (walk_entry (phys s) root a l))" for l
    by (cases l) (simp_all add: user_entries_def walk)
  then show "user_entries OS a 0 t P4D = None" by simp
  have "user_ok acc OS a 0 t"
    using t(4-6) acc kernel_page_slots(2) [OF st ptr] by (simp add: user_ok_def walk D wf_definitions)
  with impl have ok: "api_ok OS a 0 t" by (auto simp: api_ok_def pread_ok_def map_ok_def)
  have "plain_entries (user_entries OS a 0 t)"
    using kernel_page_slots(1) [OF st ptr] complete
    by (auto simp: plain_entries_def entries complete_walk_def split: if_splits) (metis level.exhaust)
  moreover have "mmu_config OS root t" using conf t by (auto simp: mmu_config_def)
  moreover have "api_entries OS a 0 t = user_entries OS a 0 t" using impl by (auto simp: api_entries_def)
  ultimately show "page_state OS root a up w t"
    using ok st page_state_walk(2) [OF st] by (auto simp: page_state_def entries t(1))
qed

text \<open>What the walks depend on apart from the selected implementation.\<close>

definition same_base :: "sys \<Rightarrow> sys \<Rightarrow> bool" where
  "same_base s t \<longleftrightarrow>
     phys t = phys s \<and> mm_pgd t = mm_pgd s \<and> ptedit_paging_definition t = ptedit_paging_definition s
     \<and> fd_table t = fd_table s \<and> ptedit_fd t = ptedit_fd s \<and> ptedit_umem t = ptedit_umem s
     \<and> ptedit_pfn_multiply t = ptedit_pfn_multiply s \<and> ptedit_entry_size t = ptedit_entry_size s"

lemma same_base_lib: "same_lib s t \<Longrightarrow> phys t = phys s \<Longrightarrow> same_base s t"
  by (simp add: same_base_def same_lib_fields)

lemma same_base_trans: "same_base s t \<Longrightarrow> same_base t u \<Longrightarrow> same_base s u"
  by (simp add: same_base_def)

lemma paging_root_config:
  assumes "mmu_config OS root s" and "fd_file (ptedit_fd s) s = Some F_device" and "same_base s t"
  shows "fst (ptedit_get_paging_root OS 0 t) = root"
  using assms
  by (auto simp: mmu_config_def same_base_def ptedit_get_paging_root_def ioctl_def ioctl_get_root_def Let_def emit_def fd_file_def
      split: if_splits)

text \<open>
  The library can use every implementation on the page: it has read its constants, the descriptor of
  the physical memory is open and serves the tables, and the kernel grants the mapping of the first
  32 GB, in which the tables lie.
\<close>

definition any_implementation :: "os \<Rightarrow> u64 \<Rightarrow> u64 \<Rightarrow> u64 \<Rightarrow> sys \<Rightarrow> bool" where
  "any_implementation OS root a base s \<longleftrightarrow>
     ptedit_resolve_ptr s = Resolve_kernel \<and> lib_const s \<and> root \<noteq> 0 \<and> \<not> bit root 0
     \<and> fd_file (ptedit_umem s) s = Some F_umem
     \<and> (\<forall>l. umem_serves OS (walk_slot (phys s) root a l) 8 \<and> walk_slot (phys s) root a l \<le> 2 ^ 35 - 8)
     \<and> ptedit_vmem s = 0 \<and> os_mmap OS F_umem (mappings s) (push_bit 30 32) 0 = Some base"

lemma even_root: "\<not> bit root 0 \<Longrightarrow> root AND size_of_int (NOT 1) = root"
  by (rule u64_eqI, rename_tac n, case_tac n) (auto simp: bit_simps size_of_int_def bit_signed_iff bit_1_iff)

lemma select_ptr:
  assumes "i \<in> {PTEDIT_IMPL_USER, PTEDIT_IMPL_USER_PREAD}"
  shows "ptedit_resolve_ptr (ptedit_use_implementation OS i t) \<noteq> Resolve_kernel"
proof -
  have "ptedit_resolve_ptr (snd (ptedit_get_paging_root OS 0 u)) = ptedit_resolve_ptr u" for u
    using get_paging_root_same [of OS 0 u] by (metis prod.collapse same_lib_fields(11))
  moreover have "ptedit_resolve_ptr (snd (mmap OS fd n off u)) = ptedit_resolve_ptr u" for fd n off u
    by (simp add: mmap_def split: option.split)
  ultimately show ?thesis
    using assms by (auto simp: ptedit_use_implementation_def PTEDIT_IMPL_KERNEL_def PTEDIT_IMPL_USER_PREAD_def PTEDIT_IMPL_USER_def
        Let_def case_prod_beta)
qed

lemma select_root:
  assumes st: "page_state OS root a up w s" and any: "any_implementation OS root a base s" and t: "same_base s t"
  obtains u where "ptedit_get_paging_root OS 0 t = (root, u)" "same_lib t u" "same_base s u"
    "fst (user_root OS 0 (u\<lparr>ptedit_paging_root := root\<rparr>)) = root"
proof -
  from any have s: "ptedit_resolve_ptr s = Resolve_kernel" "\<not> bit root 0" by (simp_all add: any_implementation_def)
  note k = page_state_kernel [OF st s(1)]
  obtain u where u: "ptedit_get_paging_root OS 0 t = (root, u)"
    using paging_root_config [OF k(1) _ t] k(2) by (metis kernel_ok_def prod.collapse)
  moreover have "same_lib t u" "same_base s u"
    using get_paging_root_same [OF u] same_base_trans [OF t same_base_lib] by simp_all
  moreover have "fst (user_root OS 0 (u\<lparr>ptedit_paging_root := root\<rparr>)) = root"
    using even_root [OF s(2)] by (simp add: user_root_def)
  ultimately show ?thesis by (rule that)
qed

lemma select_pread_page:
  assumes st: "page_state OS root a up w s" and any: "any_implementation OS root a base s" and t: "same_base s t"
  shows "page_state OS root a up w (ptedit_use_implementation OS PTEDIT_IMPL_USER_PREAD t)"
    "user_entries OS a 0 (ptedit_use_implementation OS PTEDIT_IMPL_USER_PREAD t) P4D = None"
proof -
  let ?t = "t\<lparr>ptedit_resolve_ptr := Resolve_user, ptedit_update_ptr := Update_user\<rparr>"
  have "same_base s ?t" using t by (simp add: same_base_def)
  from select_root [OF st any this] obtain u where u: "ptedit_get_paging_root OS 0 ?t = (root, u)" "same_lib ?t u" "same_base s u"
    "fst (user_root OS 0 (u\<lparr>ptedit_paging_root := root\<rparr>)) = root" .
  define v where "v = u\<lparr>ptedit_paging_root := root\<rparr>"
  have v: "ptedit_use_implementation OS PTEDIT_IMPL_USER_PREAD t = v" "fst (user_root OS 0 v) = root" "same_base s v"
    "ptedit_resolve_ptr v = Resolve_user" "ptedit_update_ptr v = Update_user"
    using u same_lib_fields(11,12) [OF u(2)]
    by (simp_all add: ptedit_use_implementation_def PTEDIT_IMPL_KERNEL_def PTEDIT_IMPL_USER_PREAD_def v_def same_base_def)
  from any have kernel: "ptedit_resolve_ptr s = Resolve_kernel" by (simp add: any_implementation_def)
  show "page_state OS root a up w (ptedit_use_implementation OS PTEDIT_IMPL_USER_PREAD t)"
    "user_entries OS a 0 (ptedit_use_implementation OS PTEDIT_IMPL_USER_PREAD t) P4D = None"
    unfolding v(1) using any v(2-5)
    by (intro user_page_state [OF st kernel, of v pread_acc];
      simp add: any_implementation_def same_base_def lib_const_def pread_acc_def fd_file_def)+
qed

text \<open>The mapping of the first 32 GB reaches every slot.\<close>

lemma first_mapping:
  assumes "x \<le> 2 ^ 35 - 8" and "mappings t = (base, push_bit 30 32, 0) # ms"
  shows "mapped (base + x) 8 t = Some x"
proof -
  have "unat x \<le> unat (2 ^ 35 - 8 :: u64)" using assms(1) by (simp add: word_le_nat_alt)
  with assms(2) show ?thesis by (simp add: mapped_def in_mapping_def push_bit_eq_mult)
qed

lemma select_map_page:
  assumes st: "page_state OS root a up w s" and any: "any_implementation OS root a base s"
    and t: "same_base s t" "mappings t = mappings s" "ptedit_vmem t = 0"
  shows "page_state OS root a up w (ptedit_use_implementation OS PTEDIT_IMPL_USER t)"
    "user_entries OS a 0 (ptedit_use_implementation OS PTEDIT_IMPL_USER t) P4D = None"
    "same_base s (ptedit_use_implementation OS PTEDIT_IMPL_USER t)"
proof -
  let ?t = "t\<lparr>ptedit_resolve_ptr := Resolve_user_map, ptedit_update_ptr := Update_user_map\<rparr>"
  have "same_base s ?t" using t by (simp add: same_base_def)
  from select_root [OF st any this] obtain u where u: "ptedit_get_paging_root OS 0 ?t = (root, u)" "same_lib ?t u" "same_base s u"
    "fst (user_root OS 0 (u\<lparr>ptedit_paging_root := root\<rparr>)) = root" .
  define v where "v = u\<lparr>ptedit_paging_root := root, mappings := (base, push_bit 30 32, 0) # mappings s, ptedit_vmem := base\<rparr>"
  from any have kernel: "ptedit_resolve_ptr s = Resolve_kernel"
    and umem: "fd_file (ptedit_umem s) s = Some F_umem" and grant: "os_mmap OS F_umem (mappings s) (push_bit 30 32) 0 = Some base"
    by (simp_all add: any_implementation_def)
  have fields: "ptedit_vmem u = 0" "mappings u = mappings s" "ptedit_resolve_ptr u = Resolve_user_map" "ptedit_update_ptr u = Update_user_map"
    using same_lib_fields [OF u(2)] t by simp_all
  have "fd_file (ptedit_umem u) u = Some F_umem" using u(3) umem by (simp add: same_base_def fd_file_def)
  then have v: "ptedit_use_implementation OS PTEDIT_IMPL_USER t = v"
    using u(1) fields grant
    by (simp add: ptedit_use_implementation_def PTEDIT_IMPL_KERNEL_def PTEDIT_IMPL_USER_PREAD_def PTEDIT_IMPL_USER_def
        mmap_def fd_file_def v_def Let_def del: push_bit_numeral)
  have b: "same_base s v" "fst (user_root OS 0 v) = root" "ptedit_resolve_ptr v = Resolve_user_map" "ptedit_update_ptr v = Update_user_map"
    using u(3,4) fields by (simp_all add: same_base_def v_def user_root_def)
  then show "same_base s (ptedit_use_implementation OS PTEDIT_IMPL_USER t)" by (simp add: v)
  have "map_acc OS (walk_slot (phys s) root a l) v" for l
    using any first_mapping [of "walk_slot (phys s) root a l" v base "mappings s"]
    by (simp add: any_implementation_def map_acc_def v_def)
  with b any show "page_state OS root a up w (ptedit_use_implementation OS PTEDIT_IMPL_USER t)"
    "user_entries OS a 0 (ptedit_use_implementation OS PTEDIT_IMPL_USER t) P4D = None"
    unfolding v
    by (intro user_page_state [OF st kernel, of v map_acc]; simp add: any_implementation_def same_base_def lib_const_def)+
qed

section \<open>The comparison succeeds\<close>

lemma resolve_repeat_user:
  assumes st: "page_state OS root a up w s" and "user_entries OS a 0 s P4D = None" and "ptedit_resolve_ptr s \<noteq> Resolve_kernel" and "0 < n"
    and r: "resolve_repeat OS a n e0 s = Some (e, t)"
  shows "\<not> has_valid (valid e) P4D"
  using assms
proof (induction n arbitrary: s e0)
  case (Suc n)
  have ok: "api_ok OS a 0 s" and P4D: "api_entries OS a 0 s P4D = None" using Suc.prems by (simp_all add: page_state_def api_entries_def)
  obtain f u where f: "ptedit_resolve OS a 0 s = Some (f, u)" "view f = api_entries OS a 0 s" "same_lib s u" "phys u = phys s"
    using api.resolve_entries [OF ok] by blast
  have "\<not> has_valid (valid f) P4D" using P4D f(2) by (auto simp: view_def fun_eq_iff dest: spec [of _ P4D] split: if_splits)
  moreover have "page_state OS root a up w u" by (rule page_state_frame [OF Suc.prems(1) f(3,4)])
  moreover have "user_entries OS a 0 u P4D = None" "ptedit_resolve_ptr u \<noteq> Resolve_kernel"
    using Suc.prems(2,3) f(3,4) user_root_stable [OF f(3)] by (simp_all add: user_entries_def user_walk_def same_lib_fields)
  ultimately show ?case using Suc.IH [of u f] Suc.prems(5) f(1) by (cases "n = 0") simp_all
qed simp

lemma agreeing_results:
  assumes "page_state OS root a up w s" and "page_state OS root a up w t"
    and "resolve_repeat OS a REPEAT e0 s = Some (e, s')" and "resolve_repeat OS a REPEAT e1 t = Some (e', t')"
    and "\<not> has_valid (valid e') P4D"
  shows "is_same e e'"
proof -
  have "entry_of l e = entry_of l e'" if "l \<noteq> P4D" for l
    using resolve_repeat_page [OF assms(1), of REPEAT e0] resolve_repeat_page [OF assms(2), of REPEAT e1] assms(3,4) that
    by (auto simp: REPEAT_def)
  then have "diff_level e e' l 0 = 0" for l using assms(5) by (cases "l = P4D") (auto simp: diff_level_zero)
  then show ?thesis by (simp add: is_same_def Let_def)
qed

text \<open>The loop with a user-space implementation returns entries that agree with those of the kernel.\<close>

lemma user_loop_agrees:
  assumes k: "page_state OS root a up w s" "resolve_repeat OS a REPEAT e0 s = Some (e, s')"
    and t: "page_state OS root a up w t" "user_entries OS a 0 t P4D = None" "ptedit_resolve_ptr t \<noteq> Resolve_kernel"
  obtains e' t' where "resolve_repeat OS a REPEAT e1 t = Some (e', t')" "same_lib t t'" "phys t' = phys t"
    "report_difference A e e' = []"
proof -
  obtain e' t' where e': "resolve_repeat OS a REPEAT e1 t = Some (e', t')" "same_lib t t'" "phys t' = phys t"
    using resolve_repeat_page [OF t(1), of REPEAT e1] by (auto simp: REPEAT_def)
  have "\<not> has_valid (valid e') P4D" using resolve_repeat_user [OF t _ e'(1)] by (simp add: REPEAT_def)
  with agreeing_results [OF k(1) t(1) k(2) e'(1)] have "report_difference A e e' = []" by (simp add: report_difference_def)
  with e' show ?thesis by (rule that)
qed

text \<open>
  The performance demonstration never reports a difference: when the module is loaded and every
  implementation can reach the tables of the variable, the program runs to the end, all three
  implementations resolve the address in every round, and both comparisons with the result of the
  kernel succeed.
\<close>

theorem performance_reports_no_difference:
  assumes init: "ptedit_init OS s = (0, s0)" and store: "store_size OS P target 0x58 s0 = Some s1"
    and st: "page_state OS root target up w s1" and any: "any_implementation OS root target base s1"
  shows "\<exists>t. performance_main OS P clock e0 target s = Some (0,
      [(''Kernel implementation takes cycles/resolve'', [cycles clock 0]), (''User implementation takes cycles/resolve'', [cycles clock 2]),
       (''User (pread) implementation takes cycles/resolve'', [cycles clock 4]), (''Done'', [])], t)"
proof -
  let ?A = "cfg_arch (os_kernel OS)"
  from any have s1: "ptedit_resolve_ptr s1 = Resolve_kernel" "ptedit_vmem s1 = 0" by (simp_all add: any_implementation_def)
  have kernel: "ptedit_use_implementation OS PTEDIT_IMPL_KERNEL s1 = s1"
    using s1(1) page_state_kernel(4) [OF st s1(1)] by (simp add: ptedit_use_implementation_def)
  obtain e t where e: "resolve_repeat OS target REPEAT e0 s1 = Some (e, t)" "same_lib s1 t" "phys t = phys s1"
    using resolve_repeat_page [OF st, of REPEAT e0] by (auto simp: REPEAT_def)
  define t1 where "t1 = ptedit_use_implementation OS PTEDIT_IMPL_USER t"
  have t1: "page_state OS root target up w t1" "user_entries OS target 0 t1 P4D = None" "same_base s1 t1"
    unfolding t1_def using s1(2) same_lib_fields(2,9) [OF e(2)]
    by (intro select_map_page [OF st any same_base_lib [OF e(2,3)]]; simp)+
  have "ptedit_resolve_ptr t1 \<noteq> Resolve_kernel" unfolding t1_def by (rule select_ptr) simp
  from user_loop_agrees [OF st e(1) t1(1,2) this] obtain e1 t2 where
    e1: "resolve_repeat OS target REPEAT e0 t1 = Some (e1, t2)" "same_lib t1 t2" "phys t2 = phys t1" "report_difference ?A e e1 = []" .
  define t3 where "t3 = ptedit_use_implementation OS PTEDIT_IMPL_USER_PREAD t2"
  have t3: "page_state OS root target up w t3" "user_entries OS target 0 t3 P4D = None"
    unfolding t3_def by (intro select_pread_page [OF st any same_base_trans [OF t1(3) same_base_lib [OF e1(2,3)]]])+
  have "ptedit_resolve_ptr t3 \<noteq> Resolve_kernel" unfolding t3_def by (rule select_ptr) simp
  from user_loop_agrees [OF st e(1) t3 this] obtain e2 t4 where
    e2: "resolve_repeat OS target REPEAT e1 t3 = Some (e2, t4)" "report_difference ?A e e2 = []" .
  show ?thesis
    using e(1) e1(1,4) e2 by (simp add: performance_main_def init store kernel Let_def t1_def [symmetric] t3_def [symmetric])
qed

theorem performance_reports_no_difference_witness:
  "\<exists>t. performance_main sample_os sample_proc (\<lambda>i. of_nat i * 20000) zero_entry sample_vaddr (start_sys sample_kstate) = Some (0,
      [(''Kernel implementation takes cycles/resolve'', [Arg_int 2]), (''User implementation takes cycles/resolve'', [Arg_int 2]),
       (''User (pread) implementation takes cycles/resolve'', [Arg_int 2]), (''Done'', [])], t)"
proof -
  have "walk_slot (phys sample_stored) 0x1000 sample_vaddr l \<in> {0x1000, 0x2008, 0x3008, 0x4008}" for l
    using sample_stored_page
    by (cases l) (simp_all add: page_state_def sample_entries_def walk_slot_def below_mask level_index_x86 sample_vaddr_def)
  moreover have "\<forall>x \<in> {0x1000, 0x2008, 0x3008, 0x4008}. umem_serves sample_os x 8 \<and> x \<le> 2 ^ 35 - 8"
    by (simp add: umem_serves_def sample_os_def)
  ultimately have "umem_serves sample_os (walk_slot (phys sample_stored) 0x1000 sample_vaddr l) 8
      \<and> walk_slot (phys sample_stored) 0x1000 sample_vaddr l \<le> 2 ^ 35 - 8" for l
    by blast
  moreover have "mappings sample_stored = []" "ptedit_vmem sample_stored = 0" "fd_file (ptedit_umem sample_stored) sample_stored = Some F_umem"
    "ptedit_resolve_ptr sample_stored = Resolve_kernel" "lib_const sample_stored"
    by (simp_all add: sample_stored_def sample_sys_eq sample_defs lib_const_def fd_file_def)
  moreover have "os_mmap sample_os F_umem [] (push_bit 30 32) 0 = Some 0x7f0000000000" by (simp add: sample_os_def)
  ultimately have "any_implementation sample_os 0x1000 sample_vaddr 0x7f0000000000 sample_stored"
    unfolding any_implementation_def by (simp add: bit_numeral_rec)
  from performance_reports_no_difference [OF sample_init sample_store(1) sample_stored_page this, of "\<lambda>i. of_nat i * 20000" zero_entry]
  show ?thesis by (simp add: cycles_def REPEAT_def)
qed

end
