(* ===== verification/PT_Demos.thy ===== *)
theory PT_Demos
  imports PT_Performance
begin

text \<open>
  Further demonstration programs: \<open>demos/tlb_test.c\<close>, \<open>demos/clear_bits.c\<close> and
  the main program of \<open>demos/virt2phys.c\<close>.  The clock of the measurements is a parameter, the sequence
  of the values that \<open>rdtsc\<close> returns.
\<close>

section \<open>Measuring the TLB invalidation\<close>

text \<open>One loop: the access to the variable, then the request between two readings of the clock.\<close>

fun tlb_loop ::
  "os \<Rightarrow> process_os \<Rightarrow> (nat \<Rightarrow> u64) \<Rightarrow> u64 \<Rightarrow> nat \<Rightarrow> nat \<Rightarrow> u64 \<Rightarrow> sys \<Rightarrow> (u64 \<times> nat \<times> sys) option" where
  "tlb_loop OS P clock target 0 k tot s = Some (tot, k, s)"
| "tlb_loop OS P clock target (Suc n) k tot s = do {
     (p, s) \<leftarrow> touch OS P target 8 s;
     let start = clock k;
     let (r, out, s) = ioctl OS (ptedit_fd s) (CMD_INVALIDATE_TLB target) s;
     tlb_loop OS P clock target n (k + 2) (tot + (clock (k + 1) - start)) s
   }"

text \<open>
  \<open>target\<close> is the address of the local variable.  The program prints the sum divided by the number of
  repetitions as a \<open>float\<close>; the sum itself stands for it.
\<close>

definition tlb_test_main ::
  "os \<Rightarrow> process_os \<Rightarrow> (nat \<Rightarrow> u64) \<Rightarrow> u64 \<Rightarrow> sys \<Rightarrow> (int \<times> line list \<times> sys) option" where
  "tlb_test_main OS P clock target s = do {
     s \<leftarrow> store_size OS P target 0x58 s;
     (let (r, s) = ptedit_init OS s in
      if r \<noteq> 0 then Some (1, [(''Error: Could not initalize PTEditor, did you load the kernel module?'', [])], s)
      else do {
        let (r, s) = ptedit_switch_tlb_invalidation OS TLB_INVALIDATION_KERNEL s;
        let tot = 0;
        (tot, k, s) \<leftarrow> tlb_loop OS P clock target REPEAT 0 tot s;
        let o1 = [(''TLB invalidation:'', [Arg_num tot])];
        let (r, s) = ptedit_switch_tlb_invalidation OS TLB_INVALIDATION_CUSTOM s;
        (tot, k, s) \<leftarrow> tlb_loop OS P clock target REPEAT k tot s;
        let o2 = [(''TLB invalidation:'', [Arg_num tot])];
        let s = ptedit_cleanup s;
        Some (0, [(''Setting TLB invalidation method to kernel version'', [])] @ o1
                 @ [(''Setting TLB invalidation method to kernel version'', [])] @ o2 @ [(''Done'', [])], s)
      })
   }"

text \<open>The time of the \<open>n\<close> measurements from reading \<open>k\<close> on.\<close>

definition loop_time :: "(nat \<Rightarrow> u64) \<Rightarrow> nat \<Rightarrow> nat \<Rightarrow> u64" where
  "loop_time clock k n = (\<Sum>i < n. clock (k + 2 * i + 1) - clock (k + 2 * i))"

lemma access_address_frame:
  "same_lib s t \<Longrightarrow> phys t = phys s \<Longrightarrow> access_address OS a n t = access_address OS a n s"
  by (simp add: access_address_def mapped_def same_lib_fields process_root_frame split: option.split)

lemma tlb_loop_run:
  assumes "access_address OS a 8 s = Some p"
  shows "\<exists>t. tlb_loop OS P clock a n k tot s = Some (tot + loop_time clock k n, k + 2 * n, t)
    \<and> same_lib s t \<and> phys t = phys s"
  using assms
proof (induction n arbitrary: k tot s)
  case 0
  then show ?case by (simp add: loop_time_def)
next
  case (Suc n)
  let ?t = "ptedit_invalidate_tlb OS a s" and ?x = "tot + (clock (k + 1) - clock k)"
  have acc: "access_address OS a 8 ?t = Some p"
    using access_address_frame [OF invalidate_tlb_same] Suc.prems by simp
  obtain u where u: "tlb_loop OS P clock a n (k + 2) ?x ?t = Some (?x + loop_time clock (k + 2) n, k + 2 + 2 * n, u)"
    "same_lib ?t u" "phys u = phys ?t"
    using Suc.IH [OF acc, of "k + 2" ?x] by blast
  have time: "loop_time clock k (Suc n) = (clock (k + 1) - clock k) + loop_time clock (k + 2) n"
    unfolding loop_time_def by (subst sum.lessThan_Suc_shift) simp
  have "tlb_loop OS P clock a (Suc n) k tot s = tlb_loop OS P clock a n (k + 2) ?x ?t"
    using Suc.prems by (simp add: touch_def ptedit_invalidate_tlb_def split: prod.split)
  moreover have "same_lib s u" using same_lib_trans [OF invalidate_tlb_same(1) u(2)] .
  ultimately show ?case using u by (auto simp: time invalidate_tlb_same add.assoc)
qed

lemma switch_tlb_state:
  "\<exists>r t. ptedit_switch_tlb_invalidation OS i s = (r, t) \<and> phys t = phys s \<and> mm_pgd t = mm_pgd s \<and> mappings t = mappings s"
  by (auto simp: ptedit_switch_tlb_invalidation_def ioctl_def ioctl_switch_tlb_def emit_def Let_def)

lemma access_address_cong:
  "phys t = phys s \<Longrightarrow> mm_pgd t = mm_pgd s \<Longrightarrow> mappings t = mappings s \<Longrightarrow> access_address OS a n t = access_address OS a n s"
  by (simp add: access_address_def mapped_def process_root_def split: option.split)

text \<open>
  The TLB measurement of the demonstration: with the module loaded and the variable accessible the
  program runs to the end, but the second printed sum is not the time of the second loop: it adds that
  time to the sum of the first loop, because the sum is not reset.
\<close>

theorem tlb_test_adds_up:
  assumes "store_size OS P a 0x58 s = Some s'" and "ptedit_init OS s' = (0, s0)" and "access_address OS a 8 s0 = Some p"
  shows "\<exists>t. tlb_test_main OS P clock a s = Some (0,
      [(''Setting TLB invalidation method to kernel version'', []), (''TLB invalidation:'', [Arg_num (loop_time clock 0 10000)]),
       (''Setting TLB invalidation method to kernel version'', []),
       (''TLB invalidation:'', [Arg_num (loop_time clock 0 10000 + loop_time clock 20000 10000)]), (''Done'', [])], t)"
proof -
  obtain r s1 where s1: "ptedit_switch_tlb_invalidation OS TLB_INVALIDATION_KERNEL s0 = (r, s1)"
    "phys s1 = phys s0" "mm_pgd s1 = mm_pgd s0" "mappings s1 = mappings s0"
    using switch_tlb_state by metis
  have acc1: "access_address OS a 8 s1 = Some p" using access_address_cong [OF s1(2-4)] assms(3) by simp
  obtain s2 where s2: "tlb_loop OS P clock a REPEAT 0 0 s1 = Some (loop_time clock 0 REPEAT, 2 * REPEAT, s2)" "same_lib s1 s2" "phys s2 = phys s1"
    using tlb_loop_run [OF acc1, of P clock REPEAT 0 0] by auto
  have acc2: "access_address OS a 8 s2 = Some p" using access_address_frame [OF s2(2,3)] acc1 by simp
  obtain r' s3 where s3: "ptedit_switch_tlb_invalidation OS TLB_INVALIDATION_CUSTOM s2 = (r', s3)"
    "phys s3 = phys s2" "mm_pgd s3 = mm_pgd s2" "mappings s3 = mappings s2"
    using switch_tlb_state by metis
  have acc3: "access_address OS a 8 s3 = Some p" using access_address_cong [OF s3(2-4)] acc2 by simp
  obtain s4 where s4: "tlb_loop OS P clock a REPEAT (2 * REPEAT) (loop_time clock 0 REPEAT) s3 =
      Some (loop_time clock 0 REPEAT + loop_time clock (2 * REPEAT) REPEAT, 2 * REPEAT + 2 * REPEAT, s4)"
    using tlb_loop_run [OF acc3, of P clock REPEAT "2 * REPEAT"] by blast
  have "tlb_test_main OS P clock a s = Some (0,
      [(''Setting TLB invalidation method to kernel version'', []), (''TLB invalidation:'', [Arg_num (loop_time clock 0 REPEAT)]),
       (''Setting TLB invalidation method to kernel version'', []),
       (''TLB invalidation:'', [Arg_num (loop_time clock 0 REPEAT + loop_time clock (2 * REPEAT) REPEAT)]), (''Done'', [])],
      ptedit_cleanup s4)"
    by (simp add: tlb_test_main_def assms(1,2) s1(1) s2(1) s3(1) s4)
  then show ?thesis by (simp add: REPEAT_def)
qed

theorem tlb_test_adds_up_witness:
  "\<exists>t. tlb_test_main sample_os sample_proc of_nat sample_vaddr (start_sys sample_kstate) = Some (0,
      [(''Setting TLB invalidation method to kernel version'', []), (''TLB invalidation:'', [Arg_num 10000]),
       (''Setting TLB invalidation method to kernel version'', []), (''TLB invalidation:'', [Arg_num 20000]), (''Done'', [])], t)"
proof -
  have root: "process_root sample_os sample_stored = 0x1000"
    using process_root_config [of sample_os "0x1000" sample_stored] sample_stored_page by (simp add: page_state_def)
  have "mappings sample_stored = []" by (simp add: sample_stored_def sample_sys_eq sample_defs)
  then have acc: "access_address sample_os sample_vaddr 8 sample_stored = Some 0x5000"
    using sample_translate [OF sample_stored_page] root by (simp add: access_address_def mapped_def)
  have "loop_time of_nat k n = of_nat n" for k n by (simp add: loop_time_def)
  with tlb_test_adds_up [OF sample_store(2) sample_stored_init acc, where clock = of_nat] show ?thesis by simp
qed

section \<open>Clearing and setting the accessed bit\<close>

definition print_three :: "arch \<Rightarrow> ptedit_entry_t \<Rightarrow> line list" where
  "print_three A entry = map (\<lambda>e. ('''', [Arg_str (ptedit_print_entry A e)])) [pte entry, pmd entry, pud entry]"

definition clear_bits_edit :: "os \<Rightarrow> u64 \<Rightarrow> sys \<Rightarrow> (line list \<times> sys) option" where
  "clear_bits_edit OS addr s = do {
     let A = cfg_arch (os_kernel OS);
     (entry, s) \<leftarrow> ptedit_resolve OS addr 0 s;
     s \<leftarrow> ptedit_pte_clear_bit OS addr 0 (int (x86_bit_nr ACCESSED)) s;
     (entry, s) \<leftarrow> ptedit_resolve OS addr 0 s;
     let o1 = print_three A entry;
     s \<leftarrow> ptedit_pte_set_bit OS addr 0 (int (x86_bit_nr ACCESSED)) s;
     (entry, s) \<leftarrow> ptedit_resolve OS addr 0 s;
     let o2 = print_three A entry;
     s \<leftarrow> ptedit_pte_set_bit OS addr 0 (int (x86_bit_nr ACCESSED)) s;
     Some (o1 @ o2, s)
   }"

definition clear_bits_main :: "os \<Rightarrow> process_os \<Rightarrow> sys \<Rightarrow> (int \<times> line list \<times> sys) option" where
  "clear_bits_main OS P s =
     (let (r, s) = ptedit_init OS s in
      if r \<noteq> 0 then Some (1, [(''Error: Could not initalize PTEditor, did you load the kernel module?'', [])], s)
      else do {
        let (addr, s) = mmap_anon P (2 * 1024 * 1024) s;
        s \<leftarrow> memset OS P addr 0x42 (2 * 1024 * 1024) s;
        (out, s) \<leftarrow> clear_bits_edit OS addr s;
        let s = munmap_anon P addr 4096 s;
        let s = ptedit_cleanup s;
        Some (0, out, s)
      })"

text \<open>
  The six tables show the PTE with the accessed bit cleared and then set; the upper entries stay as
  they are, also after the last call, which the comment of the program attributes to the PD entry.
\<close>

lemma clear_bits_tables:
  assumes "page_state OS root a up w s"
  shows "\<exists>t. clear_bits_edit OS a s = Some (map (\<lambda>e. ('''', [Arg_str (ptedit_print_entry X86_64 e)]))
      [w AND NOT (ull_bit 5), up PMD, up PUD, w OR ull_bit 5, up PMD, up PUD], t)
    \<and> page_state OS root a up (w OR ull_bit 5) t"
proof -
  have A: "cfg_arch (os_kernel OS) = X86_64" using assms by (simp add: page_state_def mmu_config_def)
  have bits: "(w AND NOT (ull_bit 5)) OR ull_bit 5 = w OR ull_bit 5" "(w OR ull_bit 5) OR ull_bit 5 = w OR ull_bit 5"
    by (rule u64_eqI; auto simp: bit_simps bit_ull_bit)+
  obtain e s1 where s1: "ptedit_resolve OS a 0 s = Some (e, s1)" "same_lib s s1" "phys s1 = phys s"
    using resolve_page [OF assms] by blast
  note p1 = page_state_frame [OF assms s1(2,3)]
  obtain s2 where s2: "ptedit_pte_clear_bit OS a 0 (int 5) s1 = Some s2" "page_state OS root a up (w AND NOT (ull_bit 5)) s2"
    using clear_bit_page [OF p1, of 5] by auto
  obtain f s3 where s3: "ptedit_resolve OS a 0 s2 = Some (f, s3)" "same_lib s2 s3" "phys s3 = phys s2"
    "pte f = w AND NOT (ull_bit 5)" "pmd f = up PMD" "pud f = up PUD"
    using resolve_page [OF s2(2)] by blast
  obtain s4 where s4: "ptedit_pte_set_bit OS a 0 (int 5) s3 = Some s4" "page_state OS root a up (w OR ull_bit 5) s4"
    using set_bit_page [OF page_state_frame [OF s2(2) s3(2,3)], of 5] by (auto simp: bits)
  obtain g s5 where s5: "ptedit_resolve OS a 0 s4 = Some (g, s5)" "same_lib s4 s5" "phys s5 = phys s4"
    "pte g = w OR ull_bit 5" "pmd g = up PMD" "pud g = up PUD"
    using resolve_page [OF s4(2)] by blast
  obtain s6 where s6: "ptedit_pte_set_bit OS a 0 (int 5) s5 = Some s6" "page_state OS root a up (w OR ull_bit 5) s6"
    using set_bit_page [OF page_state_frame [OF s4(2) s5(2,3)], of 5] by (auto simp: bits)
  show ?thesis
    using s6(2) s2(1) s4(1) s6(1) by (simp add: clear_bits_edit_def A s1(1) s3 s5 print_three_def)
qed

section \<open>Printing a physical address\<close>

text \<open>\<open>target\<close> is the address of the global variable.\<close>

definition virt2phys_main :: "os \<Rightarrow> process_os \<Rightarrow> u64 \<Rightarrow> sys \<Rightarrow> (int \<times> line list \<times> sys) option" where
  "virt2phys_main OS P target s =
     (let A = cfg_arch (os_kernel OS); (r, s) = ptedit_init OS s in
      if r \<noteq> 0 then Some (1, [(''Error: Could not initalize PTEditor, did you load the kernel module?'', [])], s)
      else do {
        s \<leftarrow> store_size OS P target 0x58 s;
        (entry, s) \<leftarrow> ptedit_resolve OS target 0 s;
        let kind = (if is_normal_page A (pmd entry)
                    then [(''Page is 4KB'', []), ('''', [Arg_str (ptedit_print_entry A (pte entry))])]
                    else [(''Page is 2MB'', []), ('''', [Arg_str (ptedit_print_entry A (pmd entry))])]);
        let s = ptedit_cleanup s;
        Some (0, kind @ [(''Virtual address:'', [Arg_ptr target]),
                         (''Physical address:'', [Arg_num (virt2phys A target entry)]), (''Done'', [])], s)
      })"

lemma frame_and_offset: "push_bit 12 x OR (v AND 0xfff) = x * 4096 + take_bit 12 (v :: u64)"
proof -
  have off: "v AND 0xfff = take_bit 12 v" by (simp add: take_bit_eq_mask mask_numeral)
  have "push_bit 12 x AND take_bit 12 v = 0" by (rule u64_eqI) (simp add: bit_simps)
  then have "push_bit 12 x OR take_bit 12 v = push_bit 12 x + take_bit 12 v" by (simp add: disjunctive_add_eq_or)
  then show ?thesis unfolding off by (simp add: push_bit_eq_mult)
qed

text \<open>
  For a page of the program the tool prints the physical address to which the processor translates
  the address of the variable.
\<close>

theorem virt2phys_prints_translation:
  assumes "ptedit_init OS s = (0, s0)" and "store_size OS P target 0x58 s0 = Some s1"
    and st: "page_state OS root target up w s1" and w: "bit w 0"
  shows "\<exists>out t q. virt2phys_main OS P target s = Some (0, out, t) \<and> translate (phys s1) root target = Some q
    \<and> (''Physical address:'', [Arg_num q]) \<in> set out \<and> (''Page is 4KB'', []) \<in> set out"
proof -
  have A: "cfg_arch (os_kernel OS) = X86_64" using st by (simp add: page_state_def mmu_config_def)
  obtain e t where e: "ptedit_resolve OS target 0 s1 = Some (e, t)" "pte e = w" "pmd e = up PMD"
    using resolve_page [OF st] by blast
  have "\<not> bit (up PMD) 7" using page_state_walk(1) [OF st] st by (simp add: complete_walk_def page_state_def)
  then have normal: "is_normal_page X86_64 (pmd e)" by (simp add: is_normal_page_def e(3) and_ull_bit)
  have "virt2phys X86_64 target e = ptedit_get_pfn X86_64 w * 4096 + take_bit 12 target"
    using normal by (simp add: virt2phys_def e(2) frame_and_offset)
  moreover have "translate (phys s1) root target = Some (ptedit_get_pfn X86_64 w * 4096 + take_bit 12 target)"
    using translate_page [OF st] w by (simp add: same_page_def)
  ultimately show ?thesis using assms(1,2) e normal by (simp add: virt2phys_main_def A)
qed

theorem virt2phys_prints_translation_witness:
  "\<exists>out t. virt2phys_main sample_os sample_proc sample_vaddr (start_sys sample_kstate) = Some (0, out, t)
    \<and> (''Physical address:'', [Arg_num 0x5000]) \<in> set out"
proof -
  have "bit (0x8000000000005067 :: u64) 0" by simp
  from virt2phys_prints_translation [OF sample_init sample_store(1) sample_stored_page this] sample_translate [OF sample_stored_page]
  show ?thesis by auto
qed

end
