(* ===== verification/PT_Nx.thy ===== *)
theory PT_Nx
  imports PT_Performance
begin

text \<open>
  The demonstration \<open>demos/nx.c\<close>: a parent process clears the NX bit in the page-table entry of its
  child, after which the child can execute a function that \<open>mprotect\<close> has made non-executable, while the
  parent's own entry stays as it is.
\<close>

section \<open>Making a page of another process executable\<close>

definition NX_BIT :: "arch \<Rightarrow> nat" where
  "NX_BIT A = (case A of X86_64 \<Rightarrow> x86_bit_nr NX | AArch64 \<Rightarrow> arm_bit_nr XN)"

definition nx_function_aligned :: "u64 \<Rightarrow> u64" where
  "nx_function_aligned nx_function = (nx_function + 4096) AND NOT 0xfff"

text \<open>The parent between the initialisation and the cleanup.\<close>

definition nx_parent :: "os \<Rightarrow> u64 \<Rightarrow> i32 \<Rightarrow> sys \<Rightarrow> (line list \<times> sys) option" where
  "nx_parent OS page child s = do {
     let nr = int (NX_BIT (cfg_arch (os_kernel OS)));
     (b1, s) \<leftarrow> ptedit_pte_get_bit OS page child nr s;
     s \<leftarrow> ptedit_pte_clear_bit OS page child nr s;
     (b2, s) \<leftarrow> ptedit_pte_get_bit OS page child nr s;
     (b3, s) \<leftarrow> ptedit_pte_get_bit OS page 0 nr s;
     Some ([(''Child entry should have NX bit set'', []),
            (if b1 then ''Child mapping is non-executable'' else ''Child mapping is executable'', []),
            (''Clearing child's NX bit...'', []), (''Check NX bit of child'', []),
            (if b2 then ''Child mapping is still non-executable'' else ''Child mapping is executable'', []),
            (''Own entry should have NX bit set'', []),
            (if b3 then ''Own mapping is non-executable'' else ''Own mapping is executable'', [])], s)
   }"

text \<open>
  The rest of the program.  Linux starts the child and takes the right to execute a page; \<open>code\<close> are
  the addresses of the instructions of \<open>nx_function\<close>.  Fetching an instruction that the tables forbid
  ends the process.
\<close>

record nx_os =
  mprotect_read :: "u64 \<Rightarrow> sys \<Rightarrow> sys"
  fork_child :: "sys \<Rightarrow> i32 \<times> sys"

definition call_nx_function :: "os \<Rightarrow> u64 list \<Rightarrow> sys \<Rightarrow> line list option" where
  "call_nx_function OS code s =
     (if \<forall>va \<in> set code. fetchable (phys s) (process_root OS s) va then Some [(''Hello'', [])] else None)"

text \<open>The child before and after its sleep: its output, and whether it is alive.\<close>

definition nx_child_look :: "os \<Rightarrow> process_os \<Rightarrow> u64 \<Rightarrow> sys \<Rightarrow> line list \<times> bool \<times> sys" where
  "nx_child_look OS P page s =
     (case load_char OS P page s of
        None \<Rightarrow> ([], False, s)
      | Some (c, s) \<Rightarrow> ([(if c \<noteq> 0 then ''Function is mapped'' else ''Function is not mapped in child!'', [])], True, s))"

definition nx_child_call :: "os \<Rightarrow> u64 list \<Rightarrow> bool \<Rightarrow> sys \<Rightarrow> line list \<times> bool" where
  "nx_child_call OS code alive s =
     (if \<not> alive then ([], False)
      else case call_nx_function OS code s of
        None \<Rightarrow> ([(''Executing previously non-executable function'', [])], False)
      | Some out \<Rightarrow> ([(''Executing previously non-executable function'', [])] @ out @ [(''Child exited normally!'', [])], True))"

text \<open>
  Both processes in the order their sleeps arrange: the parent initialises the library, the child looks
  at the page, the parent edits the tables of the child, the child calls the function, and the parent
  waits for it.  \<open>C\<close> is the system as the child sees it.  The result is the exit code of the parent, the
  output of both processes and the state.
\<close>

definition nx_main ::
  "os \<Rightarrow> os \<Rightarrow> process_os \<Rightarrow> nx_os \<Rightarrow> u64 list \<Rightarrow> u64 \<Rightarrow> sys \<Rightarrow> (int \<times> line list \<times> line list \<times> sys) option" where
  "nx_main OS C P N code nx_function s = do {
     let page = nx_function_aligned nx_function;
     hello \<leftarrow> call_nx_function OS code s;
     let o1 = (''Expect 'Hello':'', []) # hello;
     let s = mprotect_read N page s;
     let (child, s) = fork_child N s;
     let (r, s) = ptedit_init OS s;
     let (c1, alive, s) = nx_child_look C P page s;
     if r \<noteq> 0 then
       Some (1, o1 @ [(''Error: Could not initalize PTEditor, did you load the kernel module?'', [])],
             c1 @ fst (nx_child_call C code alive s), s)
     else do {
       (out, s) \<leftarrow> nx_parent OS page child s;
       let s = ptedit_cleanup s;
       let (c2, exited) = nx_child_call C code alive s;
       Some (0, o1 @ out @ [(if exited then ''Success'' else ''Fail'', []), (''Done'', [])], c1 @ c2, s)
     }
   }"

text \<open>The kernel implementation on the tables of two processes.\<close>

lemma kernel_get_bit:
  assumes "ptedit_resolve_ptr s = Resolve_kernel" and "kernel_ok OS a p s" and "kernel_entries OS a p s PTE = Some w" and "nr < 64"
  shows "\<exists>t. ptedit_pte_get_bit OS a p (int nr) s = Some (bit w nr, t) \<and> same_lib s t \<and> phys t = phys s"
proof -
  obtain e t where e: "ptedit_resolve_kernel OS a p s = Some (e, t)" "view e = kernel_entries OS a p s" "same_lib s t" "phys t = phys s"
    using kernel_impl.resolve_entries [OF assms(2)] by blast
  then have "pte e = w" using assms(3) by (auto simp: view_def fun_eq_iff dest: spec [of _ PTE] split: if_splits)
  with e assms(1,4) show ?thesis by (auto simp: ptedit_pte_get_bit_def ptedit_resolve_def c_shl_ull_1 and_ull_bit)
qed

lemma kernel_clear_bit:
  assumes ptr: "ptedit_resolve_ptr s = Resolve_kernel" "ptedit_update_ptr s = Update_kernel" and ok: "kernel_ok OS a p s"
    and w: "kernel_entries OS a p s PTE = Some w" and q: "vm_pte (snd (kernel_vm OS a p s)) = Some q" and nr: "nr < 64"
  shows "\<exists>u. ptedit_pte_clear_bit OS a p (int nr) s = Some u \<and> same_lib s u
    \<and> phys u = store64 (phys s) (virt_to_phys (os_kernel OS) q) (w AND NOT (ull_bit nr))"
proof -
  let ?v = "w AND NOT (ull_bit nr)"
  obtain e t where e: "ptedit_resolve_kernel OS a p s = Some (e, t)" "view e = kernel_entries OS a p s" "same_lib s t" "phys t = phys s"
    using kernel_impl.resolve_entries [OF ok] by blast
  have pte: "has_valid (valid e) PTE" "pte e = w"
    using fun_cong [OF e(2), of PTE] w by (auto simp: view_def split: if_splits)
  let ?new = "e\<lparr>pte := ?v, valid := valid_mask PTE\<rparr>"
  have ok_t: "kernel_ok OS a p t" using kernel_impl.ok_frame [OF ok e(3,4)] by simp
  obtain mm where mm: "get_mm (os_kernel OS) (size_of_int p) = Some mm" "kernel_laws (os_kernel OS)"
    using ok by (auto simp: kernel_ok_def)
  have "fd_file (ptedit_fd t) t = Some F_device" "fst (kernel_vm OS a p t) = 0" using ok_t by (simp_all add: kernel_ok_def)
  moreover have "vm_pte (snd (kernel_vm OS a p t)) = Some q" using q kernel_vm_frame [OF e(3,4)] by simp
  ultimately obtain vm' u where u: "ptedit_update_kernel OS a p ?new t = Some (vm', u)" "same_lib t u" "phys u = set_pte (os_kernel OS) (phys t) q ?v"
    using kernel_update [of t OS p mm a q ?new] mm(1) by auto
  have "same_lib s u" using same_lib_trans [OF e(3) u(2)] .
  moreover have "phys u = store64 (phys s) (virt_to_phys (os_kernel OS) q) ?v" using u(3) e(4) mm(2) by (simp add: kernel_laws_def)
  moreover have "ptedit_pte_clear_bit OS a p (int nr) s = Some u"
    using ptr e(1,3) u(1) pte nr
    by (simp add: ptedit_pte_clear_bit_def ptedit_resolve_def ptedit_update_def c_shl_ull_1 same_lib_fields)
  ultimately show ?thesis by blast
qed

text \<open>The entries of an address space none of whose slots overlaps the written one.\<close>

lemma kernel_entries_elsewhere:
  assumes ok: "kernel_ok OS a p s"
    and apart: "\<And>l r. vm_ptr l (snd (kernel_vm OS a p s)) = Some r \<Longrightarrow> apart slot (virt_to_phys (os_kernel OS) r)"
    and u: "same_lib s u" "phys u = store64 (phys s) slot v"
  shows "kernel_ok OS a p u \<and> kernel_entries OS a p u = kernel_entries OS a p s"
proof -
  let ?t = "s\<lparr>phys := store64 (phys s) slot v\<rparr>"
  have same: "kread (os_kernel OS) (store64 (phys s) slot v) r = kread (os_kernel OS) (phys s) r"
    if "vm_ptr l (snd (kernel_vm OS a p s)) = Some r" for l r
    using apart [OF that] by (simp add: kread_def mem_simps)
  then have "agree (os_kernel OS) (phys s) (phys ?t) (snd (kernel_vm OS a p s))" by (simp add: agree_def)
  from kernel_memory [OF ok this]
  have t: "kernel_ok OS a p ?t" "kernel_vm OS a p ?t = kernel_vm OS a p s" by simp_all
  have "kernel_entries OS a p ?t = kernel_entries OS a p s"
    by (rule ext) (auto simp: kernel_entries_def t(2) same map_option_case split: option.split)
  moreover have "same_lib ?t u" "phys u = phys ?t" using u by (simp_all add: same_lib_def)
  ultimately show ?thesis using kernel_impl.ok_frame [OF t(1), of u] by simp
qed

text \<open>The report of the parent when it succeeds.\<close>

definition nx_report :: "string list" where
  "nx_report =
     [''Child entry should have NX bit set'', ''Child mapping is non-executable'',
      ''Clearing child's NX bit...'', ''Check NX bit of child'', ''Child mapping is executable'',
      ''Own entry should have NX bit set'', ''Own mapping is non-executable'']"

text \<open>
  What the parent reports and writes when the page is mapped non-executable in both processes and the
  child has tables of its own.
\<close>

lemma nx_parent_run:
  assumes ptr: "ptedit_resolve_ptr s = Resolve_kernel" "ptedit_update_ptr s = Update_kernel"
    and child: "kernel_ok OS a p s" "kernel_entries OS a p s PTE = Some w" "vm_pte (snd (kernel_vm OS a p s)) = Some q"
    and own: "kernel_ok OS a 0 s" "kernel_entries OS a 0 s PTE = Some w0"
    and nx: "bit w (NX_BIT (cfg_arch (os_kernel OS)))" "bit w0 (NX_BIT (cfg_arch (os_kernel OS)))"
    and apart: "\<And>l r. vm_ptr l (snd (kernel_vm OS a 0 s)) = Some r \<Longrightarrow>
      apart (virt_to_phys (os_kernel OS) q) (virt_to_phys (os_kernel OS) r)"
  shows "\<exists>out u. nx_parent OS a p s = Some (out, u)
    \<and> map fst out = nx_report
    \<and> same_lib s u \<and> phys u = store64 (phys s) (virt_to_phys (os_kernel OS) q) (w AND NOT (ull_bit (NX_BIT (cfg_arch (os_kernel OS)))))"
proof -
  let ?nr = "NX_BIT (cfg_arch (os_kernel OS))"
  have nr: "?nr < 64" by (simp add: NX_BIT_def split: arch.split)
  obtain s1 where s1: "ptedit_pte_get_bit OS a p (int ?nr) s = Some (True, s1)" "same_lib s s1" "phys s1 = phys s"
    using kernel_get_bit [OF ptr(1) child(1,2) nr] nx(1) by auto
  note vm1 = kernel_vm_frame [OF s1(2,3)]
  have c1: "kernel_ok OS a p s1" "kernel_entries OS a p s1 PTE = Some w" "vm_pte (snd (kernel_vm OS a p s1)) = Some q"
    using kernel_impl.ok_frame [OF child(1) s1(2,3)] child(2,3) vm1 by simp_all
  have o1: "kernel_ok OS a 0 s1" "kernel_entries OS a 0 s1 = kernel_entries OS a 0 s"
    using kernel_impl.ok_frame [OF own(1) s1(2,3)] by simp_all
  have ptr1: "ptedit_resolve_ptr s1 = Resolve_kernel" "ptedit_update_ptr s1 = Update_kernel" using ptr s1(2) by (simp_all add: same_lib_fields)
  let ?v = "w AND NOT (ull_bit ?nr)"
  obtain s2 where s2: "ptedit_pte_clear_bit OS a p (int ?nr) s1 = Some s2" "same_lib s1 s2"
    "phys s2 = store64 (phys s1) (virt_to_phys (os_kernel OS) q) ?v"
    using kernel_clear_bit [OF ptr1 c1 nr] by blast
  have api1: "api_ok OS a p s1" "api_entries OS a p s1 PTE = Some w" using c1 ptr1 by (simp_all add: api_ok_def api_entries_def)
  have f: "map_option (\<lambda>b. w AND NOT b) (c_shl_ull 1 (int ?nr)) = Some ?v" using nr by (simp add: c_shl_ull_1)
  obtain u where u: "ptedit_pte_clear_bit OS a p (int ?nr) s1 = Some u" "api_ok OS a p u" "api_entries OS a p u = (api_entries OS a p s1)(PTE \<mapsto> ?v)"
    unfolding pte_ops_edit by (rule api.edit_pte_entries [where f = "\<lambda>w. map_option (\<lambda>b. w AND NOT b) (c_shl_ull 1 (int ?nr))", OF api1 f])
  have ptr2: "ptedit_resolve_ptr s2 = Resolve_kernel" "ptedit_update_ptr s2 = Update_kernel" using ptr1 s2(2) by (simp_all add: same_lib_fields)
  then have c2: "kernel_ok OS a p s2" "kernel_entries OS a p s2 PTE = Some ?v"
    using u s2(1) by (simp_all add: api_ok_def api_entries_def)
  have "apart (virt_to_phys (os_kernel OS) q) (virt_to_phys (os_kernel OS) r)" if "vm_ptr l (snd (kernel_vm OS a 0 s1)) = Some r" for l r
    using apart that vm1 by simp
  from kernel_entries_elsewhere [OF o1(1) this s2(2,3)] o1(2)
  have o2: "kernel_ok OS a 0 s2" "kernel_entries OS a 0 s2 = kernel_entries OS a 0 s" by simp_all
  obtain s3 where s3: "ptedit_pte_get_bit OS a p (int ?nr) s2 = Some (False, s3)" "same_lib s2 s3" "phys s3 = phys s2"
    using kernel_get_bit [OF ptr2(1) c2 nr] nr by (auto simp: bit_simps bit_ull_bit)
  have o3: "kernel_ok OS a 0 s3" "kernel_entries OS a 0 s3 = kernel_entries OS a 0 s"
    using kernel_impl.ok_frame [OF o2(1) s3(2,3)] o2(2) by simp_all
  have ptr3: "ptedit_resolve_ptr s3 = Resolve_kernel" using ptr2(1) s3(2) by (simp add: same_lib_fields)
  obtain s4 where s4: "ptedit_pte_get_bit OS a 0 (int ?nr) s3 = Some (True, s4)" "same_lib s3 s4" "phys s4 = phys s3"
    using kernel_get_bit [OF ptr3 o3(1) _ nr, of w0] own(2) o3(2) nx(2) by auto
  have "same_lib s s4" using s1(2) s2(2) s3(2) s4(2) by (blast intro: same_lib_trans)
  moreover have "phys s4 = store64 (phys s) (virt_to_phys (os_kernel OS) q) ?v" using s1(3) s2(3) s3(3) s4(3) by simp
  ultimately show ?thesis by (simp add: nx_parent_def nx_report_def Let_def s1(1) s2(1) s3(1) s4(1))
qed

section \<open>The child runs the function\<close>

text \<open>The system as a process with another address space sees it.\<close>

definition as_process :: "nat \<Rightarrow> os \<Rightarrow> os" where
  "as_process mm OS = OS\<lparr>os_kernel := (os_kernel OS)\<lparr>current_mm := Some mm\<rparr>\<rparr>"

lemma kread_process: "kread (K\<lparr>current_mm := c\<rparr>) = kread K"
  by (intro ext) (simp add: kread_def)

lemma kernel_laws_process: "kernel_laws (K\<lparr>current_mm := c\<rparr>) = kernel_laws K"
proof -
  have sel: "set_pte (K\<lparr>current_mm := c\<rparr>) = set_pte K" "virt_to_phys (K\<lparr>current_mm := c\<rparr>) = virt_to_phys K"
    "p4d_offset (K\<lparr>current_mm := c\<rparr>) = p4d_offset K" "pud_offset (K\<lparr>current_mm := c\<rparr>) = pud_offset K"
    "pmd_offset (K\<lparr>current_mm := c\<rparr>) = pmd_offset K" "pte_offset (K\<lparr>current_mm := c\<rparr>) = pte_offset K"
    by simp_all
  show ?thesis unfolding kernel_laws_def kread_process sel ..
qed

lemma resolve_vm_walk_process:
  "resolve_vm_walk (K\<lparr>current_mm := c\<rparr>) m b a (fresh_vm x) =
     map_prod id (\<lambda>e. e\<lparr>vm_pid := x\<rparr>) (resolve_vm_walk K m b a (fresh_vm y))"
proof -
  have pud: "resolve_vm_pud (K\<lparr>current_mm := c\<rparr>) m a q e =
      map_prod id (\<lambda>e. e\<lparr>vm_pid := x\<rparr>) (resolve_vm_pud K m a q (e\<lparr>vm_pid := y\<rparr>))" if "vm_pid e = x" for q e
    using that by (cases e) (simp add: resolve_vm_pud_def kread_def Let_def split: option.split)
  show ?thesis by (simp add: resolve_vm_walk_def kread_def Let_def fresh_vm_def pud)
qed

lemma x86_accessors_process: "x86_accessors (K\<lparr>current_mm := c\<rparr>) = x86_accessors K"
  by (simp add: x86_accessors_def kread_process)

lemma as_process_kernel:
  assumes "get_mm (os_kernel OS) (size_of_int p) = Some mm"
  shows "kernel_vm (as_process mm OS) a 0 s = map_prod id (\<lambda>e. e\<lparr>vm_pid := 0\<rparr>) (kernel_vm OS a p s)"
    "kernel_entries (as_process mm OS) a 0 s = kernel_entries OS a p s"
    "kernel_ok (as_process mm OS) a 0 s = kernel_ok OS a p s"
proof -
  have mm: "get_mm ((os_kernel OS)\<lparr>current_mm := Some mm\<rparr>) (size_of_int 0) = Some mm" by (simp add: get_mm_def size_of_int_def)
  show vm: "kernel_vm (as_process mm OS) a 0 s = map_prod id (\<lambda>e. e\<lparr>vm_pid := 0\<rparr>) (kernel_vm OS a p s)"
    using resolve_vm_walk_process [where K = "os_kernel OS" and c = "Some mm" and m = "phys s" and b = "mm_pgd s mm" and a = a and x = 0 and y = "size_of_int p"]
    by (simp add: kernel_vm_def as_process_def mm assms Let_def) (simp add: size_of_int_def)
  have ptr: "vm_ptr l (e\<lparr>vm_pid := 0\<rparr>) = vm_ptr l e" for l e by (cases l) simp_all
  show "kernel_entries (as_process mm OS) a 0 s = kernel_entries OS a p s"
    by (rule ext) (simp add: kernel_entries_def vm ptr, simp add: as_process_def kread_process)
  have K: "os_kernel (as_process mm OS) = (os_kernel OS)\<lparr>current_mm := Some mm\<rparr>" by (simp add: as_process_def)
  have fst_vm: "fst (kernel_vm (as_process mm OS) a 0 s) = fst (kernel_vm OS a p s)" by (simp add: vm)
  have ptrs: "vm_ptr l (snd (kernel_vm (as_process mm OS) a 0 s)) = vm_ptr l (snd (kernel_vm OS a p s))" for l by (simp add: vm ptr)
  have v2p: "virt_to_phys (os_kernel (as_process mm OS)) = virt_to_phys (os_kernel OS)" by (simp add: K)
  show "kernel_ok (as_process mm OS) a 0 s = kernel_ok OS a p s"
    using assms unfolding kernel_ok_def fst_vm ptrs ptrs [of PTE, unfolded vm_ptr.simps] v2p K kernel_laws_process mm by simp
qed

lemma child_page:
  assumes mm: "get_mm (os_kernel OS) (size_of_int p) = Some mm" and st: "page_state (as_process mm OS) root a up w s"
    and ptr: "ptedit_resolve_ptr s = Resolve_kernel"
  obtains q where "kernel_ok OS a p s" "kernel_entries OS a p s PTE = Some w" "vm_pte (snd (kernel_vm OS a p s)) = Some q"
    "virt_to_phys (os_kernel OS) q = walk_slot (phys s) root a PTE"
proof -
  note k = page_state_kernel [OF st ptr] and vm = kernel_vm_walk [OF page_state_kernel(1-3) [OF st ptr]]
  obtain q where q: "vm_ptr PTE (snd (kernel_vm (as_process mm OS) a 0 s)) = Some q" using vm(3) [of PTE] by auto
  show ?thesis
  proof (rule that)
    show "kernel_ok OS a p s" using k(2) as_process_kernel(3) [OF mm] by blast
    show "kernel_entries OS a p s PTE = Some w"
      using st ptr by (simp add: page_state_def api_entries_def as_process_kernel(2) [OF mm])
    show "vm_pte (snd (kernel_vm OS a p s)) = Some q" using q by (simp add: as_process_kernel(1) [OF mm])
    show "virt_to_phys (os_kernel OS) q = walk_slot (phys s) root a PTE" using vm(2) [OF q] by (simp add: as_process_def)
  qed
qed

lemma fetchable_elsewhere:
  assumes "complete_walk m root va" and "\<And>l. apart slot (walk_slot m root va l)"
  shows "fetchable (store64 m slot v) root va = fetchable m root va"
proof -
  have "load64 (store64 m slot v) (walk_slot m root va l) = walk_entry m root va l" for l
    using assms(2) by (simp add: mem_simps walk_slot_entry)
  note walk = walk_memory(1) [OF this]
  have "complete_walk (store64 m slot v) root va" using assms(1) by (simp add: complete_walk_def walk)
  then show ?thesis using assms(1) by (simp add: fetchable_complete walk)
qed

lemma cleanup_memory: "phys (ptedit_cleanup s) = phys s" "mm_pgd (ptedit_cleanup s) = mm_pgd s"
  by (simp_all add: ptedit_cleanup_def close_fd_def Let_def device_release_def split: option.split)

text \<open>The tables of both processes when the parent edits the entry of the child.\<close>

definition nx_tables :: "os \<Rightarrow> nat \<Rightarrow> u64 \<Rightarrow> u64 \<Rightarrow> u64 \<Rightarrow> u64 list \<Rightarrow> sys \<Rightarrow> bool" where
  "nx_tables OS mm root root0 a code s \<longleftrightarrow>
     ptedit_resolve_ptr s = Resolve_kernel
     \<and> (\<exists>up w. page_state (as_process mm OS) root a up w s \<and> bit w 0 \<and> bit w 63 \<and> (\<forall>l \<in> {PGD, PUD, PMD}. \<not> bit (up l) 63))
     \<and> (\<exists>up w. page_state OS root0 a up w s \<and> bit w 63)
     \<and> (\<forall>l. apart (walk_slot (phys s) root a PTE) (walk_slot (phys s) root0 a l))
     \<and> (\<forall>va \<in> set code. same_page va a \<or> complete_walk (phys s) root va \<and> fetchable (phys s) root va
          \<and> (\<forall>l. apart (walk_slot (phys s) root a PTE) (walk_slot (phys s) root va l)))"

text \<open>The parent's edit on these tables.\<close>

lemma nx_parent_tables:
  assumes mm: "get_mm (os_kernel OS) (size_of_int p) = Some mm" and tabs: "nx_tables OS mm root root0 a code s"
  obtains out u where "nx_parent OS a p s = Some (out, u)" "same_lib s u"
    "map fst out = nx_report"
    "\<forall>va \<in> set code. fetchable (phys u) root va" "\<not> fetchable (phys u) root0 a"
proof -
  from tabs obtain up w up0 w0 where ptr: "ptedit_resolve_ptr s = Resolve_kernel"
    and child: "page_state (as_process mm OS) root a up w s" "bit w 0" "bit w 63" "\<forall>l \<in> {PGD, PUD, PMD}. \<not> bit (up l) 63"
    and own: "page_state OS root0 a up0 w0 s" "bit w0 63"
    and apart: "\<And>l. apart (walk_slot (phys s) root a PTE) (walk_slot (phys s) root0 a l)"
    and code: "\<forall>va \<in> set code. same_page va a \<or> complete_walk (phys s) root va \<and> fetchable (phys s) root va
          \<and> (\<forall>l. apart (walk_slot (phys s) root a PTE) (walk_slot (phys s) root va l))"
    unfolding nx_tables_def by blast
  obtain q where q: "kernel_ok OS a p s" "kernel_entries OS a p s PTE = Some w" "vm_pte (snd (kernel_vm OS a p s)) = Some q"
    "virt_to_phys (os_kernel OS) q = walk_slot (phys s) root a PTE"
    by (rule child_page [OF mm child(1) ptr])
  note k = page_state_kernel [OF own(1) ptr]
  have A: "cfg_arch (os_kernel OS) = X86_64" using k(1) by (simp add: mmu_config_def)
  then have nr: "NX_BIT (cfg_arch (os_kernel OS)) = 63" by (simp add: NX_BIT_def)
  have ent: "kernel_entries OS a 0 s PTE = Some w0" using own(1) ptr by (simp add: page_state_def api_entries_def)
  have ap: "apart (walk_slot (phys s) root a PTE) (virt_to_phys (os_kernel OS) r)"
    if "vm_ptr l (snd (kernel_vm OS a 0 s)) = Some r" for l r
    using apart [of l] kernel_vm_walk(2) [OF k(1-3) that] by simp
  note run = nx_parent_run [OF ptr k(4) q(1-3) k(2) ent, unfolded nr q(4), OF child(3) own(2)]
  have "\<exists>out u. nx_parent OS a p s = Some (out, u) \<and> map fst out = nx_report \<and> same_lib s u
      \<and> phys u = store64 (phys s) (walk_slot (phys s) root a PTE) (w AND NOT (ull_bit 63))"
    by (rule run) (rule ap)
  then obtain out u where u: "nx_parent OS a p s = Some (out, u)" "same_lib s u"
    "map fst out = nx_report"
    "phys u = store64 (phys s) (walk_slot (phys s) root a PTE) (w AND NOT (ull_bit 63))"
    by blast
  have "ptedit_get_pfn X86_64 (w AND NOT (ull_bit 63)) = ptedit_get_pfn X86_64 w"
    by (intro get_pfn_cong) (auto simp: bit_simps bit_ull_bit)
  then have after: "page_state (as_process mm OS) root a up (w AND NOT (ull_bit 63)) (s\<lparr>phys := phys u\<rparr>)"
    unfolding u(4) using page_state_walk(3) [OF child(1)] by (intro page_state_store_pte [OF child(1) ptr]) simp
  have "fetchable (phys u) root va" if "va \<in> set code" for va
  proof (cases "same_page va a")
    case True
    then show ?thesis using fetchable_page [OF after, of va] child by (simp add: bit_simps bit_ull_bit)
  next
    case False
    with code that have va: "complete_walk (phys s) root va" "fetchable (phys s) root va"
      "\<And>l. apart (walk_slot (phys s) root a PTE) (walk_slot (phys s) root va l)"
      by blast+
    from fetchable_elsewhere [OF va(1,3)] va(2) show ?thesis by (simp add: u(4))
  qed
  moreover have "\<not> fetchable (phys u) root0 a"
    using fetchable_elsewhere [OF page_state_walk(1) [OF own(1)] apart] fetchable_page [OF own(1), of a] own(2)
    by (simp add: u(4) same_page_def)
  ultimately show ?thesis using that u(1-3) by blast
qed

text \<open>
  C24. The whole NX demonstration: when \<open>mprotect\<close> and \<open>fork\<close> have left the page non-executable in both
  processes and the child has tables of its own, the parent reports the bit of the child, clears it and
  finds its own bit unchanged; the child, which could not have fetched from the page before, then
  executes the function and exits normally, while the page stays non-executable in the parent.
\<close>

theorem nx_child_executes:
  assumes "call_nx_function OS code s = Some hello"
    and "fork_child N (mprotect_read N (nx_function_aligned f) s) = (p, s1)" and "ptedit_init OS s1 = (0, s2)"
    and "load_char (as_process mm OS) P (nx_function_aligned f) s2 = Some (c, s3)" and "c \<noteq> 0"
    and mm: "get_mm (os_kernel OS) (size_of_int p) = Some mm" and tabs: "nx_tables OS mm root root0 (nx_function_aligned f) code s3"
  shows "\<not> fetchable (phys s3) root (nx_function_aligned f)
    \<and> (\<exists>out t. nx_main OS (as_process mm OS) P N code f s = Some (0, out,
         [(''Function is mapped'', []), (''Executing previously non-executable function'', []), (''Hello'', []),
          (''Child exited normally!'', [])], t)
       \<and> map fst out = ''Expect 'Hello':'' # map fst hello @ nx_report @ [''Success'', ''Done'']
       \<and> \<not> fetchable (phys t) root0 (nx_function_aligned f))"
proof -
  let ?a = "nx_function_aligned f" and ?C = "as_process mm OS"
  from tabs obtain up w where w: "page_state ?C root ?a up w s3" "bit w 63" unfolding nx_tables_def by blast
  obtain out u where u: "nx_parent OS ?a p s3 = Some (out, u)" "same_lib s3 u"
    "map fst out = nx_report"
    "\<forall>va \<in> set code. fetchable (phys u) root va" "\<not> fetchable (phys u) root0 ?a"
    by (rule nx_parent_tables [OF mm tabs])
  have "process_root ?C s3 = root" using w(1) by (simp add: page_state_def process_root_config)
  then have "process_root ?C (ptedit_cleanup u) = root"
    using cleanup_memory(2) [of u] same_lib_fields [OF u(2)] by (simp add: process_root_def split: option.splits)
  then have "nx_child_call ?C code True (ptedit_cleanup u) = ([(''Executing previously non-executable function'', []), (''Hello'', []),
      (''Child exited normally!'', [])], True)"
    using u(4) by (simp add: nx_child_call_def call_nx_function_def cleanup_memory)
  moreover have "\<not> fetchable (phys s3) root ?a" using fetchable_page [OF w(1), of ?a] w(2) by (simp add: same_page_def)
  ultimately show ?thesis
    using assms(1-5) u by (simp add: nx_main_def nx_child_look_def Let_def cleanup_memory)
qed

text \<open>The sample machine with tables for its second process, which maps the same frame, and code in it.\<close>

definition sample_mem3 :: mem where
  "sample_mem3 = store64 (store64 (store64 (store64 (store64 sample_mem 0x9000 0xa067) 0xa008 0xb067) 0xb008 0xc067)
     0xc008 0x8000000000005067) 0x5000 0x9090909090909090"

definition sample_sys3 :: sys where
  "sample_sys3 = sample_sys\<lparr>phys := sample_mem3\<rparr>"

lemma sample_loads3:
  "load64 sample_mem3 0x1000 = 0x2067" "load64 sample_mem3 0x2008 = 0x3067" "load64 sample_mem3 0x3008 = 0x4067"
  "load64 sample_mem3 0x4008 = 0x8000000000005067"
  "load64 sample_mem3 0x9000 = 0xa067" "load64 sample_mem3 0xa008 = 0xb067" "load64 sample_mem3 0xb008 = 0xc067"
  "load64 sample_mem3 0xc008 = 0x8000000000005067"
  by (simp_all add: sample_mem3_def mem_simps apart_def sample_loads)

lemma sample_sys3_simps:
  "phys sample_sys3 = sample_mem3" "ptedit_resolve_ptr sample_sys3 = Resolve_kernel" "ptedit_update_ptr sample_sys3 = Update_kernel"
  "ptedit_fd sample_sys3 = 3" "fd_table sample_sys3 = [(4, F_umem), (3, F_device), (0, F_other), (1, F_other), (2, F_other)]"
  "mm_pgd sample_sys3 = sample_roots"
  by (simp_all add: sample_sys3_def sample_sys_simps)

lemma sample_kernel_vm3:
  "kernel_vm sample_os sample_vaddr 0 sample_sys3 =
     (0, \<lparr>vm_pid = 0, vm_pgd = Some (0x1000 + direct_map), vm_p4d = Some (0x1000 + direct_map),
          vm_pud = Some (0x2008 + direct_map), vm_pmd = Some (0x3008 + direct_map),
          vm_pte = Some (0x4008 + direct_map), vm_valid = 31\<rparr>)"
  "kernel_vm sample_os sample_vaddr 42 sample_sys3 =
     (0, \<lparr>vm_pid = 42, vm_pgd = Some (0x9000 + direct_map), vm_p4d = Some (0x9000 + direct_map),
          vm_pud = Some (0xa008 + direct_map), vm_pmd = Some (0xb008 + direct_map),
          vm_pte = Some (0xc008 + direct_map), vm_valid = 31\<rparr>)"
  by (simp_all add: kernel_vm_def sample_sys3_simps get_mm_def resolve_vm_walk_def resolve_vm_pud_def
      sample_os_def sample_linux_def Let_def kread_def table_ptr_def sample_vaddr_def sample_roots_def
      direct_map_def sample_loads3 fresh_vm_def valid_mask_def ull_bit_def size_of_int_def)

lemma sample_kernel_ok3: "kernel_ok sample_os sample_vaddr 0 sample_sys3" "kernel_ok sample_os sample_vaddr 42 sample_sys3"
proof -
  have "\<forall>l q. l \<noteq> PTE \<longrightarrow> vm_ptr l (snd (kernel_vm sample_os sample_vaddr 0 sample_sys3)) = Some q \<longrightarrow> apart 0x4008 (q - direct_map)"
    "\<forall>l q. l \<noteq> PTE \<longrightarrow> vm_ptr l (snd (kernel_vm sample_os sample_vaddr 42 sample_sys3)) = Some q \<longrightarrow> apart 0xc008 (q - direct_map)"
    by (simp_all add: sample_kernel_vm3 all_levels apart_def)
  then show "kernel_ok sample_os sample_vaddr 0 sample_sys3" "kernel_ok sample_os sample_vaddr 42 sample_sys3"
    using sample_kernel_laws
    by (simp_all add: kernel_ok_def sample_kernel_vm3 sample_sys3_simps fd_file_def get_mm_def size_of_int_def)
      (simp_all add: sample_os_def sample_linux_def)
qed

definition sample_entries3 :: "level \<Rightarrow> u64" where
  "sample_entries3 l = (case l of PGD \<Rightarrow> 0xa067 | P4D \<Rightarrow> 0xa067 | PUD \<Rightarrow> 0xb067 | PMD \<Rightarrow> 0xc067 | PTE \<Rightarrow> 0x8000000000005067)"

lemma sample_walk3: "walk_entry sample_mem3 0x9000 sample_vaddr l = sample_entries3 l"
proof -
  have pgd: "walk_entry sample_mem3 0x9000 sample_vaddr PGD = 0xa067"
    by (simp add: walk_entry_loads(1) [symmetric] level_index_x86 sample_vaddr_def sample_loads3)
  have pud: "walk_entry sample_mem3 0x9000 sample_vaddr PUD = 0xb067"
    unfolding walk_entry_loads(2) [symmetric] pgd by (simp add: below_mask level_index_x86 sample_vaddr_def sample_loads3)
  have pmd: "walk_entry sample_mem3 0x9000 sample_vaddr PMD = 0xc067"
    unfolding walk_entry_loads(3) [symmetric] pud by (simp add: below_mask level_index_x86 sample_vaddr_def sample_loads3)
  have "walk_entry sample_mem3 0x9000 sample_vaddr PTE = 0x8000000000005067"
    unfolding walk_entry_loads(4) [symmetric] pmd by (simp add: below_mask level_index_x86 sample_vaddr_def sample_loads3)
  with pgd pud pmd show ?thesis by (cases l) (simp_all add: sample_entries3_def walk_P4D)
qed

lemma sample_slots3:
  "walk_slot sample_mem3 0x9000 sample_vaddr PTE = 0xc008"
  "walk_slot sample_mem 0x1000 sample_vaddr l \<in> {0x1000, 0x2008, 0x3008, 0x4008}"
proof -
  show "walk_slot sample_mem3 0x9000 sample_vaddr PTE = 0xc008"
    unfolding walk_slot_def sample_walk3 by (simp add: sample_entries3_def below_mask level_index_x86 sample_vaddr_def)
  show "walk_slot sample_mem 0x1000 sample_vaddr l \<in> {0x1000, 0x2008, 0x3008, 0x4008}"
    using sample_walk_entries by (cases l) (simp_all add: walk_slot_def below_mask level_index_x86 sample_vaddr_def)
qed

lemma sample_child_mm: "get_mm (os_kernel sample_os) (size_of_int 42) = Some 7"
  by (simp add: sample_os_def sample_linux_def get_mm_def size_of_int_def)

lemma sample_child_page:
  "page_state (as_process 7 sample_os) 0x9000 sample_vaddr sample_entries3 0x8000000000005067 sample_sys3"
proof -
  let ?C = "as_process 7 sample_os"
  have entries: "kernel_entries ?C sample_vaddr 0 sample_sys3 l = Some (sample_entries3 l)" for l
    unfolding as_process_kernel(2) [OF sample_child_mm] kernel_entries_def sample_kernel_vm3 sample_sys3_simps
    by (cases l) (simp_all add: kread_def sample_os_def sample_linux_def sample_loads3 sample_entries3_def)
  have "plain_entries (kernel_entries ?C sample_vaddr 0 sample_sys3)"
    by (auto simp: plain_entries_def entries sample_entries3_def ptedit_get_pfn_def pfn_width_def bit_numeral_rec split: level.splits)
  moreover have "x86_accessors ((os_kernel sample_os)\<lparr>current_mm := Some 7\<rparr>)"
    using x86_accessors_process sample_accessors by (simp add: sample_os_def)
  then have "mmu_config ?C 0x9000 sample_sys3"
    by (simp add: mmu_config_def as_process_def sample_sys3_simps sample_sys_simps get_mm_def size_of_int_def)
      (simp add: sample_sys3_def sample_sys_simps sample_os_def sample_linux_def sample_roots_def)
  moreover have "kernel_ok ?C sample_vaddr 0 sample_sys3"
    using sample_kernel_ok3(2) as_process_kernel(3) [OF sample_child_mm] by blast
  ultimately show ?thesis
    using entries [of PTE] by (simp add: page_state_def api_ok_def api_entries_def sample_sys3_simps sample_walk3 sample_entries3_def)
qed

lemma sample_own_page:
  "page_state sample_os 0x1000 sample_vaddr sample_entries 0x8000000000005067 sample_sys3"
proof -
  have "\<forall>x \<in> {0x1000, 0x2008, 0x3008, 0x4008}. load64 sample_mem3 x = load64 sample_mem x" by (simp add: sample_loads3 sample_loads)
  then have "load64 sample_mem3 (walk_slot sample_mem 0x1000 sample_vaddr l) = walk_entry sample_mem 0x1000 sample_vaddr l" for l
    using sample_slots3(2) [of l] walk_slot_entry by metis
  then show ?thesis
    unfolding sample_sys3_def using sample_walk_entries(4)
    by (intro page_state_memory [OF sample_page_state [of sample_sys] sample_sys_simps(14)])
      (simp_all add: sample_sys_simps ptedit_get_pfn_def pfn_width_def)
qed

lemma sample_nx_tables: "nx_tables sample_os 7 0x9000 0x1000 sample_vaddr [sample_vaddr] sample_sys3"
proof -
  have "walk_slot sample_mem3 0x1000 sample_vaddr l \<in> {0x1000, 0x2008, 0x3008, 0x4008}" for l
    using sample_own_page by (cases l) (simp_all add: page_state_def sample_sys3_simps sample_entries_def walk_slot_def below_mask level_index_x86 sample_vaddr_def)
  moreover have "\<forall>x \<in> {0x1000, 0x2008, 0x3008, 0x4008}. apart 0xc008 x" by (simp add: apart_def)
  ultimately have "apart 0xc008 (walk_slot sample_mem3 0x1000 sample_vaddr l)" for l by blast
  then have "apart (walk_slot (phys sample_sys3) 0x9000 sample_vaddr PTE) (walk_slot (phys sample_sys3) 0x1000 sample_vaddr l)" for l
    by (simp add: sample_sys3_simps sample_slots3(1))
  moreover have "\<forall>l \<in> {PGD, PUD, PMD}. \<not> bit (sample_entries3 l) 63" by (simp add: sample_entries3_def)
  moreover have "bit (0x8000000000005067 :: u64) 0" "bit (0x8000000000005067 :: u64) 63" by simp_all
  moreover have "same_page sample_vaddr sample_vaddr" by (simp add: same_page_def)
  ultimately show ?thesis
    unfolding nx_tables_def using sample_child_page sample_own_page sample_sys3_simps(2)
    by (intro conjI) (blast | simp)+
qed

lemma sample_child_load: "load_char (as_process 7 sample_os) sample_proc sample_vaddr sample_sys3 = Some (0x90, sample_sys3)"
proof -
  have root: "process_root (as_process 7 sample_os) sample_sys3 = 0x9000"
    using sample_child_page by (simp add: page_state_def process_root_config)
  have "ptedit_get_pfn X86_64 0x8000000000005067 = 5" by (simp add: ptedit_get_pfn_def pfn_width_def)
  then have "translate sample_mem3 0x9000 sample_vaddr = Some 0x5000"
    using translate_page [OF sample_child_page, of sample_vaddr]
    by (simp add: same_page_def sample_sys3_simps sample_vaddr_def take_bit_eq_mask mask_numeral)
  moreover have "mappings sample_sys3 = []" by (simp add: sample_sys3_def sample_sys_eq sample_defs)
  moreover have "sample_mem3 0x5000 = 0x90" by (simp add: sample_mem3_def store64_def store_bytes_apply bytes64_def)
  ultimately show ?thesis
    by (simp add: load_char_def touch_def access_address_def mapped_def root sample_sys3_simps)
qed

text \<open>The parent can call the function before its page loses the right to execute.\<close>

lemma sample_first_call:
  "call_nx_function sample_os [sample_vaddr] ((start_sys sample_kstate)\<lparr>phys := store64 sample_mem 0x4008 0x5067\<rparr>) = Some [(''Hello'', [])]"
proof -
  have slot: "walk_slot sample_mem 0x1000 sample_vaddr PTE = 0x4008"
    using sample_walk_entries by (simp add: walk_slot_def below_mask level_index_x86 sample_vaddr_def)
  have "page_state sample_os 0x1000 sample_vaddr sample_entries 0x5067 (sample_sys\<lparr>phys := store64 sample_mem 0x4008 0x5067\<rparr>)"
    using page_state_store_pte [OF sample_page_state [of sample_sys] sample_sys_simps(14), of "0x5067"]
    by (simp add: sample_sys_simps slot ptedit_get_pfn_def pfn_width_def)
  from fetchable_page [OF this, of sample_vaddr] have "fetchable (store64 sample_mem 0x4008 0x5067) 0x1000 sample_vaddr"
    by (simp add: same_page_def sample_entries_def)
  moreover have "process_root sample_os ((start_sys sample_kstate)\<lparr>phys := m\<rparr>) = 0x1000" for m
    by (simp add: process_root_def sample_defs get_mm_def sample_roots_def)
  ultimately show ?thesis by (simp add: call_nx_function_def)
qed

theorem nx_child_executes_witness:
  "\<exists>out t. nx_main sample_os (as_process 7 sample_os) sample_proc
      \<lparr>mprotect_read = (\<lambda>a s. s\<lparr>phys := sample_mem\<rparr>), fork_child = (\<lambda>s. (42, s\<lparr>phys := sample_mem3\<rparr>))\<rparr>
      [sample_vaddr] 0x40200800 ((start_sys sample_kstate)\<lparr>phys := store64 sample_mem 0x4008 0x5067\<rparr>) =
    Some (0, out, [(''Function is mapped'', []), (''Executing previously non-executable function'', []), (''Hello'', []),
          (''Child exited normally!'', [])], t) \<and> last (butlast (map fst out)) = ''Success''"
proof -
  let ?s = "(start_sys sample_kstate)\<lparr>phys := store64 sample_mem 0x4008 0x5067\<rparr>"
    and ?N = "\<lparr>mprotect_read = (\<lambda>a s. s\<lparr>phys := sample_mem\<rparr>), fork_child = (\<lambda>s. (42, s\<lparr>phys := sample_mem3\<rparr>))\<rparr>"
  have a: "nx_function_aligned 0x40200800 = sample_vaddr" by (simp add: nx_function_aligned_def sample_vaddr_def)
  have fork: "fork_child ?N (mprotect_read ?N sample_vaddr ?s) = (42, (start_sys sample_kstate)\<lparr>phys := sample_mem3\<rparr>)"
    by simp
  have init: "ptedit_init sample_os ((start_sys sample_kstate)\<lparr>phys := sample_mem3\<rparr>) = (0, sample_sys3)"
    by (simp add: sample_sys3_def sample_sys_eq ptedit_init_def open_device_def device_open_def open_umem_file_def
        lowest_fd_def ptedit_use_implementation_def PTEDIT_IMPL_KERNEL_def sample_defs Let_def)
  have "(0x90 :: u8) \<noteq> 0" by simp
  note run = nx_child_executes [where f = "0x40200800", unfolded a, OF sample_first_call fork init sample_child_load this
      sample_child_mm sample_nx_tables]
  have "last (butlast (x # y @ nx_report @ [''Success'', ''Done''])) = ''Success''" for x and y :: "string list"
    by (simp add: butlast_append)
  with run show ?thesis by (metis (no_types, lifting))
qed

end
