(* ===== verification/PT_MemTypes.thy ===== *)
theory PT_MemTypes
  imports PT_Walk
begin

text \<open>
  The memory types of \<open>ptedit.c\<close>: reading and programming the PAT (x86) or MAIR (ARMv8) register
  through the module, single types, the search for a type and the names of types.  The shift counts
  are computed from an \<open>unsigned char\<close>, so an out-of-range index is undefined behaviour, \<open>None\<close>.
\<close>

section \<open>The operations\<close>

definition c_shr_ull :: "u64 \<Rightarrow> int \<Rightarrow> u64 option" where
  "c_shr_ull x n = (if 0 \<le> n \<and> n < 64 then Some (drop_bit (nat n) x) else None)"

definition mt_field :: "arch \<Rightarrow> u64" where
  "mt_field A = (case A of X86_64 \<Rightarrow> 7 | AArch64 \<Rightarrow> 0xff)"

definition ptedit_get_mts :: "os \<Rightarrow> sys \<Rightarrow> u64" where
  "ptedit_get_mts OS s =
     (case fst (snd (ioctl OS (ptedit_fd s) CMD_GET_PAT s)) of Out_word w \<Rightarrow> w | _ \<Rightarrow> 0)"

definition ptedit_set_mts :: "os \<Rightarrow> u64 \<Rightarrow> sys \<Rightarrow> sys" where
  "ptedit_set_mts OS mts s = snd (snd (ioctl OS (ptedit_fd s) (CMD_SET_PAT mts) s))"

definition ptedit_get_mt :: "os \<Rightarrow> u8 \<Rightarrow> sys \<Rightarrow> u8 option" where
  "ptedit_get_mt OS mt s = do {
     let mts = ptedit_get_mts OS s;
     w \<leftarrow> c_shr_ull mts (uint mt * 8);
     Some (ucast (w AND mt_field (cfg_arch (os_kernel OS))))
   }"

text \<open>
  The mask is an \<open>int\<close>: it is shifted as an \<open>int\<close>, complemented and then widened with its sign.
\<close>

definition ptedit_set_mt :: "os \<Rightarrow> u8 \<Rightarrow> u8 \<Rightarrow> sys \<Rightarrow> sys option" where
  "ptedit_set_mt OS mt value s = do {
     let mts = ptedit_get_mts OS s;
     mask \<leftarrow> c_shl_int (ucast (mt_field (cfg_arch (os_kernel OS)))) (uint mt * 8);
     let mts = mts AND size_of_int (NOT mask);
     v \<leftarrow> c_shl_ull (ucast value) (uint mt * 8);
     Some (ptedit_set_mts OS (mts OR v) s)
   }"

definition mt_matches :: "arch \<Rightarrow> u64 \<Rightarrow> u8 \<Rightarrow> nat \<Rightarrow> bool" where
  "mt_matches A mts ty i =
     (case A of
        X86_64 \<Rightarrow> drop_bit (i * 8) mts AND 7 = ucast ty
      | AArch64 \<Rightarrow>
          (if drop_bit (i * 8) mts AND 0xff = ucast ty then True
           else
             let plow = (ucast (drop_bit (i * 8) mts AND 0xf) :: u8);
                 phigh = (ucast (drop_bit 4 (drop_bit (i * 8) mts) AND 0xf) :: u8)
             in plow = phigh \<and> plow = ty))"

text \<open>The loop over the eight types; \<open>found\<close> is an \<open>unsigned char\<close>.\<close>

fun find_mt_loop :: "arch \<Rightarrow> u64 \<Rightarrow> u8 \<Rightarrow> nat list \<Rightarrow> u8 \<Rightarrow> u8" where
  "find_mt_loop A mts ty [] found = found"
| "find_mt_loop A mts ty (i # is) found =
     find_mt_loop A mts ty is (if mt_matches A mts ty i then found OR push_bit i 1 else found)"

definition ptedit_find_mt :: "os \<Rightarrow> u8 \<Rightarrow> sys \<Rightarrow> u8" where
  "ptedit_find_mt OS ty s =
     find_mt_loop (cfg_arch (os_kernel OS)) (ptedit_get_mts OS s) ty [0..<8] 0"

text \<open>\<open>__builtin_ffs\<close>: one plus the index of the lowest set bit, or 0.\<close>

definition builtin_ffs :: "u8 \<Rightarrow> int" where
  "builtin_ffs x = (case find (\<lambda>i. bit x i) [0..<8] of None \<Rightarrow> 0 | Some i \<Rightarrow> int i + 1)"

definition ptedit_find_first_mt :: "os \<Rightarrow> u8 \<Rightarrow> sys \<Rightarrow> int" where
  "ptedit_find_first_mt OS ty s = builtin_ffs (ptedit_find_mt OS ty s) - 1"

definition arm_nibble_name :: "u8 \<Rightarrow> string" where
  "arm_nibble_name n =
     (if n = 0 then ''DM'' else if n \<le> 3 then ''WT'' else if n = 4 then ''UC'' else if n \<le> 7 then ''WB''
      else if n \<le> 11 then ''WT'' else ''WB'')"

definition arm_name_step :: "u8 \<Rightarrow> nat \<Rightarrow> string \<Rightarrow> string" where
  "arm_name_step mt i mts =
     (let mts = mts @ (if i = 0 then ''I'' else ''O'');
          mts = (if mt AND 0xf = drop_bit 4 mt AND 0xf then '''' else mts)
      in mts @ arm_nibble_name (drop_bit (i * 4) mt AND 0xf))"

definition ptedit_mt_to_string :: "arch \<Rightarrow> u8 \<Rightarrow> string option" where
  "ptedit_mt_to_string A mt =
     (case A of
        X86_64 \<Rightarrow>
          (let mts = [''UC'', ''WC'', ''Rsvd'', ''Rsvd'', ''WT'', ''WP'', ''WB'', ''UC-'', ''Rsvd'']
           in if mt \<le> 7 then Some (mts ! unat mt) else None)
      | AArch64 \<Rightarrow> Some (arm_name_step mt 1 (arm_name_step mt 0 '''')))"

section \<open>Reading and writing the register\<close>

definition device_ready :: "sys \<Rightarrow> bool" where
  "device_ready s \<longleftrightarrow> fd_file (ptedit_fd s) s = Some F_device"

text \<open>
  The register as the library sees it.  Bit 31 of the PAT register is reserved and reads as 0.
\<close>

definition mts_ok :: "os \<Rightarrow> u64 \<Rightarrow> bool" where
  "mts_ok OS w \<longleftrightarrow> cfg_arch (os_kernel OS) = X86_64 \<longrightarrow> \<not> bit w 31"

lemma pat_halves:
  fixes w :: u64
  assumes "\<not> bit w 31"
  shows "size_of_int (ucast w) OR push_bit 32 (size_of_int (ucast (drop_bit 32 w))) = w"
proof (rule u64_eqI)
  fix n :: nat
  assume n: "n < 64"
  show "bit (size_of_int (ucast w) OR push_bit 32 (size_of_int (ucast (drop_bit 32 w)))) n = bit w n"
  proof (cases "32 \<le> n")
    case True
    have "32 + min 31 (n - 32) = n" if "n - 32 < 32" using that True by simp
    with True n assms show ?thesis by (auto simp: size_of_int_def bit_simps)
  next
    case False
    then have "min 31 n = n" by simp
    with False n show ?thesis by (auto simp: size_of_int_def bit_simps)
  qed
qed

lemma set_pat_cpu_id: "set_pat_cpu K w = w"
proof -
  have half: "(x AND 0xffffffff :: u64) = take_bit 32 x" for x
    by (simp add: take_bit_eq_mask mask_numeral)
  show ?thesis
    by (cases "cfg_arch K", rule u64_eqI)
      (auto simp: set_pat_cpu_def wrmsr_def pat_low_def pat_high_def half bit_simps)
qed

lemma get_mts_reg:
  "device_ready s \<Longrightarrow> mts_ok OS (pat_msr s (this_cpu (os_kernel OS))) \<Longrightarrow>
   ptedit_get_mts OS s = pat_msr s (this_cpu (os_kernel OS))"
  by (auto simp: ptedit_get_mts_def ioctl_def device_ready_def get_pat_def mts_ok_def pat_halves Let_def
      split: arch.split)

lemma set_mts_reg: "device_ready s \<Longrightarrow> ptedit_set_mts OS w s = s\<lparr>pat_msr := \<lambda>cpu. w\<rparr>"
  by (simp add: ptedit_set_mts_def ioctl_def device_ready_def set_pat_def set_pat_cpu_id)

lemma set_get_mts:
  "device_ready s \<Longrightarrow> mts_ok OS w \<Longrightarrow> ptedit_get_mts OS (ptedit_set_mts OS w s) = w"
  using get_mts_reg [of "s\<lparr>pat_msr := \<lambda>cpu. w\<rparr>" OS]
  by (simp add: set_mts_reg device_ready_def fd_file_def)

section \<open>Bytes of the register\<close>

lemma mt_field_bits: "x AND mt_field A = take_bit (case A of X86_64 \<Rightarrow> 3 | AArch64 \<Rightarrow> 8) x"
  by (simp add: mt_field_def take_bit_eq_mask mask_numeral split: arch.split)

definition mt_byte :: "arch \<Rightarrow> u64 \<Rightarrow> nat \<Rightarrow> u8" where
  "mt_byte A mts i = ucast (take_bit (case A of X86_64 \<Rightarrow> 3 | AArch64 \<Rightarrow> 8) (drop_bit (i * 8) mts))"

lemma mt_shift: "mt < of_nat k \<Longrightarrow> k < 256 \<Longrightarrow> uint (mt :: u8) < int k" "nat (uint mt * 8) = unat mt * 8"
proof -
  show "nat (uint mt * 8) = unat mt * 8"
    by (simp add: nat_mult_distrib)
  assume "mt < of_nat k" and "k < 256"
  then show "uint mt < int k" by (simp add: word_less_def unsigned_of_nat take_bit_nat_eq_self)
qed

lemma get_mt_byte:
  "mt < 8 \<Longrightarrow> ptedit_get_mt OS mt s = Some (mt_byte (cfg_arch (os_kernel OS)) (ptedit_get_mts OS s) (unat mt))"
  using mt_shift(1) [of mt 8]
  by (simp add: ptedit_get_mt_def c_shr_ull_def mt_field_bits mt_byte_def mt_shift(2))

lemma bit_mt_byte:
  "bit (mt_byte A mts i) n \<longleftrightarrow> n < (case A of X86_64 \<Rightarrow> 3 | AArch64 \<Rightarrow> 8) \<and> bit mts (i * 8 + n)"
  by (cases A) (auto simp: mt_byte_def bit_simps)

lemma mt_byte_eqI:
  "(\<And>n. n < (case A of X86_64 \<Rightarrow> 3 | AArch64 \<Rightarrow> 8) \<Longrightarrow> bit mts (i * 8 + n) = bit x n) \<Longrightarrow>
   take_bit (case A of X86_64 \<Rightarrow> 3 | AArch64 \<Rightarrow> 8) x = x \<Longrightarrow> mt_byte A mts i = x"
  by (rule bit_word_eqI) (metis bit_mt_byte bit_take_bit_iff)

text \<open>The register after \<open>ptedit_set_mt\<close>, bit by bit.\<close>

definition set_mt_reg :: "arch \<Rightarrow> u64 \<Rightarrow> nat \<Rightarrow> u8 \<Rightarrow> u64" where
  "set_mt_reg A mts k value =
     (mts AND size_of_int (NOT (push_bit (k * 8) (ucast (mt_field A))))) OR push_bit (k * 8) (ucast value)"

lemma bit_mt_mask:
  "bit (size_of_int (NOT (push_bit (k * 8) (ucast (mt_field A))))) n \<longleftrightarrow>
     n < 64 \<and> \<not> (k * 8 \<le> min 31 n \<and> min 31 n - k * 8 < (case A of X86_64 \<Rightarrow> 3 | AArch64 \<Rightarrow> 8))"
proof -
  have f: "(ucast (mt_field A) :: i32) = mask (case A of X86_64 \<Rightarrow> 3 | AArch64 \<Rightarrow> 8)"
    by (simp add: mt_field_def mask_numeral split: arch.split)
  show ?thesis
    unfolding f by (cases A) (auto simp: size_of_int_def bit_simps)
qed

lemma set_mt_eq:
  assumes "mt < 4"
  shows "ptedit_set_mt OS mt value s =
    Some (ptedit_set_mts OS (set_mt_reg (cfg_arch (os_kernel OS)) (ptedit_get_mts OS s) (unat mt) value) s)"
  using mt_shift(1) [of mt 4] assms
  by (simp add: ptedit_set_mt_def c_shl_int_def c_shl_ull_def set_mt_reg_def mt_shift(2))

lemma set_mt_undefined: "4 \<le> mt \<Longrightarrow> ptedit_set_mt OS mt value s = None"
proof -
  assume "4 \<le> mt"
  then have "\<not> uint mt < 4" by (simp add: word_le_def)
  then show ?thesis by (simp add: ptedit_set_mt_def c_shl_int_def)
qed

lemma bit_set_mt_reg:
  "bit (set_mt_reg A mts k value) n \<longleftrightarrow>
     n < 64 \<and> (bit mts n \<and> \<not> (k * 8 \<le> min 31 n \<and> min 31 n - k * 8 < (case A of X86_64 \<Rightarrow> 3 | AArch64 \<Rightarrow> 8))
       \<or> k * 8 \<le> n \<and> bit value (n - k * 8))"
  unfolding set_mt_reg_def by (auto simp: bit_or_iff bit_and_iff bit_mt_mask bit_push_bit_iff bit_ucast_iff
      dest: bit_imp_le_length)

lemma value_bits: "(value :: u8) < 8 \<Longrightarrow> bit value n \<Longrightarrow> n < 3"
proof -
  assume "value < 8" and b: "bit value n"
  then have "unat value < 2 ^ 3" by (simp add: word_less_nat_alt)
  moreover have "bit (unat value) n" using b by (simp add: bit_unsigned_iff bit_imp_le_length)
  ultimately show "n < 3" by (metis bit_take_bit_iff take_bit_nat_eq_self)
qed

lemma set_mt_reg_same:
  assumes "k < 8" and "A = X86_64 \<longrightarrow> value < 8 \<and> k < 4" and "A = AArch64 \<longrightarrow> k < 4"
  shows "mt_byte A (set_mt_reg A mts k value) k = value"
proof (cases A)
  case X86_64
  then show ?thesis
    using assms value_bits [of "value"]
    by (intro bit_word_eqI) (auto simp: bit_mt_byte bit_set_mt_reg)
next
  case AArch64
  then show ?thesis
    using assms by (intro bit_word_eqI) (auto simp: bit_mt_byte bit_set_mt_reg min_def)
qed

lemma set_mt_reg_other:
  assumes "k < (case A of X86_64 \<Rightarrow> 4 | AArch64 \<Rightarrow> 3)" and "i \<noteq> k" and "i < 8"
  shows "mt_byte A (set_mt_reg A mts k value) i = mt_byte A mts i"
proof (rule bit_word_eqI)
  fix n :: nat
  let ?w = "(case A of X86_64 \<Rightarrow> 3 | AArch64 \<Rightarrow> 8) :: nat"
  have "bit (set_mt_reg A mts k value) (i * 8 + n) = bit mts (i * 8 + n)" if "n < ?w"
  proof -
    have w: "?w \<le> 8" and k: "k < 4" using assms(1) by (cases A; simp)+
    have n: "n < 8" using that w by simp
    have "\<not> (k * 8 \<le> min 31 (i * 8 + n) \<and> min 31 (i * 8 + n) - k * 8 < ?w)"
      using assms that n k by (cases A) (auto simp: min_def)
    moreover have "\<not> (k * 8 \<le> i * 8 + n \<and> bit value (i * 8 + n - k * 8))"
    proof
      assume "k * 8 \<le> i * 8 + n \<and> bit value (i * 8 + n - k * 8)"
      then have "k \<le> i" "i * 8 + n - k * 8 < 8" using n by (auto dest: bit_imp_le_length)
      with assms(2) show False by simp
    qed
    ultimately show ?thesis using assms(3) n unfolding bit_set_mt_reg by auto
  qed
  then show "bit (mt_byte A (set_mt_reg A mts k value) i) n = bit (mt_byte A mts i) n"
    by (auto simp: bit_mt_byte)
qed

section \<open>Properties\<close>

text \<open>
  Setting a memory type and reading it back returns it, and the other seven types keep their value,
  for the first four types on x86 and the first three on ARMv8; every CPU has the same register
  afterwards.  On x86 the type is a three-bit value and the reserved bit 31 of the register is clear.
\<close>

theorem set_mt_get_mt:
  assumes "device_ready s" and "A = cfg_arch (os_kernel OS)" and "mts_ok OS (pat_msr s (this_cpu (os_kernel OS)))"
    and "unat mt < (case A of X86_64 \<Rightarrow> 4 | AArch64 \<Rightarrow> 3)" and "A = X86_64 \<longrightarrow> value < 8"
  shows "\<exists>u. ptedit_set_mt OS mt value s = Some u \<and> ptedit_get_mt OS mt u = Some value
    \<and> (\<forall>k < 8. k \<noteq> mt \<longrightarrow> ptedit_get_mt OS k u = ptedit_get_mt OS k s)
    \<and> (\<forall>cpu. pat_msr u cpu = ptedit_get_mts OS u)"
proof -
  let ?mts = "ptedit_get_mts OS s"
  let ?w = "set_mt_reg A ?mts (unat mt) value"
  have lt: "unat mt < 4" using assms(4) by (cases A) simp_all
  then have mt: "mt < 4" "mt < 8" by (simp_all add: word_less_nat_alt)
  have "mts_ok OS ?w"
    unfolding mts_ok_def
  proof
    assume "cfg_arch (os_kernel OS) = X86_64"
    then have A: "A = X86_64" and "\<not> bit ?mts 31" using assms(2,3) get_mts_reg [OF assms(1,3)] by (simp_all add: mts_ok_def)
    moreover have "\<not> bit value (31 - unat mt * 8)" using value_bits [of "value" "31 - unat mt * 8"] assms(5) A lt by auto
    ultimately show "\<not> bit ?w 31" by (simp add: bit_set_mt_reg)
  qed
  then have reg: "ptedit_get_mts OS (ptedit_set_mts OS ?w s) = ?w" using assms(1) by (rule set_get_mts [rotated])
  have eq: "ptedit_set_mt OS mt value s = Some (ptedit_set_mts OS ?w s)" using set_mt_eq [OF mt(1)] assms(2) by simp
  have same: "mt_byte A ?w (unat mt) = value" using lt assms(5) by (intro set_mt_reg_same) simp_all
  have other: "mt_byte A ?w (unat k) = mt_byte A ?mts (unat k)" if "k < 8" "k \<noteq> mt" for k :: u8
    using that assms(4) by (intro set_mt_reg_other) (auto simp: word_less_nat_alt word_unat_eq_iff)
  show ?thesis
    by (rule exI [of _ "ptedit_set_mts OS ?w s"])
      (simp add: eq get_mt_byte mt reg same other assms(2) [symmetric], simp add: set_mts_reg assms(1))
qed

theorem set_mt_get_mt_witness:
  "\<exists>u. ptedit_set_mt sample_os 1 1 sample_sys = Some u \<and> ptedit_get_mt sample_os 1 u = Some 1"
proof -
  have "mts_ok sample_os (pat_msr sample_sys (this_cpu (os_kernel sample_os)))"
    by (simp add: mts_ok_def sample_sys_eq sample_defs bit_numeral_rec)
  moreover have "device_ready sample_sys" by (simp add: device_ready_def fd_file_def sample_sys_simps)
  ultimately show ?thesis
    using set_mt_get_mt [of sample_sys X86_64 sample_os 1 1] by (auto simp: sample_sys_simps)
qed

text \<open>
  For the upper four of the eight documented memory types \<open>ptedit_set_mt\<close> has undefined behaviour,
  because the mask is shifted as an \<open>int\<close>.  On ARMv8 setting type 3 erases the types 4 to 7, because
  the complemented mask is not negative and is widened with zeros.
\<close>

theorem set_mt_upper_types:
  "(4 \<le> mt \<longrightarrow> ptedit_set_mt OS mt value s = None) \<and>
   (device_ready s \<and> cfg_arch (os_kernel OS) = AArch64 \<longrightarrow>
      (\<exists>u. ptedit_set_mt OS 3 value s = Some u \<and> ptedit_get_mt OS 3 u = Some value
         \<and> (\<forall>k. 4 \<le> k \<and> k < 8 \<longrightarrow> ptedit_get_mt OS k u = Some 0)))"
proof (intro conjI impI; (elim conjE)?)
  show "4 \<le> mt \<Longrightarrow> ptedit_set_mt OS mt value s = None" by (rule set_mt_undefined)
  assume ready: "device_ready s" and arm: "cfg_arch (os_kernel OS) = AArch64"
  let ?w = "set_mt_reg AArch64 (ptedit_get_mts OS s) 3 value"
  have reg: "ptedit_get_mts OS (ptedit_set_mts OS ?w s) = ?w" using ready arm by (simp add: set_get_mts mts_ok_def)
  have zero: "mt_byte AArch64 ?w (unat k) = 0" if "4 \<le> k" "k < 8" for k :: u8
  proof (rule bit_word_eqI)
    fix n :: nat
    have "4 \<le> unat k" "unat k < 8" using that by (simp_all add: word_le_nat_alt word_less_nat_alt)
    then show "bit (mt_byte AArch64 ?w (unat k)) n = bit (0 :: u8) n"
      by (auto simp: bit_mt_byte bit_set_mt_reg min_def dest: bit_imp_le_length)
  qed
  have same: "mt_byte AArch64 ?w 3 = value" by (rule set_mt_reg_same) simp_all
  show "\<exists>u. ptedit_set_mt OS 3 value s = Some u \<and> ptedit_get_mt OS 3 u = Some value
      \<and> (\<forall>k. 4 \<le> k \<and> k < 8 \<longrightarrow> ptedit_get_mt OS k u = Some 0)"
    by (rule exI [of _ "ptedit_set_mts OS ?w s"]) (simp add: set_mt_eq arm get_mt_byte reg same zero)
qed

theorem set_mt_upper_types_witness:
  "ptedit_set_mt sample_os 4 0 sample_sys = None"
  using set_mt_upper_types [of 4 sample_os 0 sample_sys] by simp

section \<open>Searching a type\<close>

lemma find_mt_loop_bits:
  "bit (find_mt_loop A mts ty is found) n \<longleftrightarrow> bit found n \<or> n < 8 \<and> n \<in> set is \<and> mt_matches A mts ty n"
proof (induction "is" arbitrary: found)
  case (Cons i "is")
  have "bit (found OR push_bit i 1) n \<longleftrightarrow> bit found n \<or> n < 8 \<and> n = i"
    by (simp only: bit_or_iff bit_push_bit_iff bit_1_iff) auto
  with Cons.IH show ?case by auto
qed simp

lemma find_mt_bits:
  "bit (ptedit_find_mt OS ty s) n \<longleftrightarrow> n < 8 \<and> mt_matches (cfg_arch (os_kernel OS)) (ptedit_get_mts OS s) ty n"
  by (auto simp: ptedit_find_mt_def find_mt_loop_bits)

lemma find_upt_least:
  "case find P [0..<n] of None \<Rightarrow> \<forall>i < n. \<not> P i | Some i \<Rightarrow> i < n \<and> P i \<and> (\<forall>j < i. \<not> P j)"
proof (cases "find P [0..<n]")
  case None
  then have "\<forall>i < n. \<not> P i" by (simp add: find_None_iff)
  with None show ?thesis by simp
next
  case (Some i)
  then have "i < n" "P i" "\<forall>j < i. \<not> P j" by (auto simp: find_Some_iff)
  with Some show ?thesis by simp
qed

lemma ucast_u8_inject: "(ucast x :: u64) = ucast y \<longleftrightarrow> x = (y :: u8)"
proof
  assume eq: "(ucast x :: u64) = ucast y"
  show "x = y"
  proof (rule bit_word_eqI)
    fix n :: nat
    assume "n < LENGTH(8)"
    moreover have "bit (ucast x :: u64) n = bit (ucast y :: u64) n" by (simp add: eq)
    ultimately show "bit x n = bit y n" by (simp add: bit_ucast_iff)
  qed
qed simp

lemma mt_matches_x86: "mt_matches X86_64 mts ty i \<longleftrightarrow> mt_byte X86_64 mts i = ty"
proof -
  have f: "drop_bit (i * 8) mts AND 7 = take_bit 3 (drop_bit (i * 8) mts)"
    by (simp add: take_bit_eq_mask mask_numeral)
  have "ucast (mt_byte X86_64 mts i) = take_bit 3 (drop_bit (i * 8) mts)"
    by (rule u64_eqI) (auto simp: mt_byte_def bit_simps)
  then have "mt_matches X86_64 mts ty i \<longleftrightarrow> (ucast (mt_byte X86_64 mts i) :: u64) = ucast ty"
    by (simp add: mt_matches_def f)
  then show ?thesis by (simp add: ucast_u8_inject)
qed

text \<open>
  The search for a memory type returns the index of the first of the eight types that matches, and
  -1 when none does.
\<close>

theorem find_first_mt_spec:
  fixes OS :: os and s :: sys and ty :: u8
  shows "(ptedit_find_first_mt OS ty s = - 1 \<and> (\<forall>i < 8. \<not> mt_matches (cfg_arch (os_kernel OS)) (ptedit_get_mts OS s) ty i))
    \<or> (\<exists>i < 8. ptedit_find_first_mt OS ty s = int i \<and> mt_matches (cfg_arch (os_kernel OS)) (ptedit_get_mts OS s) ty i
         \<and> (\<forall>j < i. \<not> mt_matches (cfg_arch (os_kernel OS)) (ptedit_get_mts OS s) ty j))"
  using find_upt_least [of 8 "\<lambda>i. bit (ptedit_find_mt OS ty s) i"]
  by (auto simp: ptedit_find_first_mt_def builtin_ffs_def find_mt_bits split: option.splits)

lemma sample_mts: "ptedit_get_mts sample_os sample_sys = 0x0007040600070406"
  by (simp add: ptedit_get_mts_def ioctl_def fd_file_def sample_sys_simps get_pat_def Let_def size_of_int_def)
    (simp add: sample_sys_eq sample_defs)

theorem find_first_mt_spec_witness: "ptedit_find_first_mt sample_os 0 sample_sys = 3"
proof -
  let ?P = "mt_matches (cfg_arch (os_kernel sample_os)) (ptedit_get_mts sample_os sample_sys) 0"
  have P: "\<not> ?P 0" "\<not> ?P 1" "\<not> ?P 2" "?P 3"
    by (simp_all add: sample_mts sample_sys_simps mt_matches_def)
  from find_first_mt_spec [of sample_os 0 sample_sys] P(4) obtain i
    where i: "ptedit_find_first_mt sample_os 0 sample_sys = int i" "?P i" "\<forall>j < i. \<not> ?P j"
    by fastforce
  have "i \<noteq> 0" "i \<noteq> 1" "i \<noteq> 2" using i(2) P by metis+
  moreover have "\<not> 3 < i" using i(3) P(4) by blast
  ultimately have "i = 3" by linarith
  with i(1) show ?thesis by simp
qed

text \<open>
  On x86 the index that the search finds, applied to a page-table entry, selects the wanted type:
  extracting the index from the entry and reading that type of the register gives the type searched for.
\<close>

theorem find_apply_mt:
  assumes "cfg_arch (os_kernel OS) = X86_64" and "0 \<le> ptedit_find_first_mt OS ty s"
  shows "ptedit_get_mt OS (ptedit_extract_mt X86_64 (ptedit_apply_mt X86_64 entry (of_int (ptedit_find_first_mt OS ty s)))) s = Some ty
    \<and> ptedit_get_mt OS (ptedit_extract_mt_huge X86_64 (ptedit_apply_mt_huge X86_64 entry (of_int (ptedit_find_first_mt OS ty s)))) s = Some ty"
proof -
  let ?A = "cfg_arch (os_kernel OS)"
  obtain i where i: "i < 8" "ptedit_find_first_mt OS ty s = int i" "mt_matches ?A (ptedit_get_mts OS s) ty i"
    using find_upt_least [of 8 "\<lambda>i. bit (ptedit_find_mt OS ty s) i"] assms(2)
    by (auto simp: ptedit_find_first_mt_def builtin_ffs_def find_mt_bits split: option.splits)
  have nat: "unat (of_nat i :: u8) = i" using i(1) by (simp add: unat_of_nat)
  have lt: "(of_nat i :: u8) < 8" using i(1) by (simp add: word_less_nat_alt nat)
  have idx: "x = of_nat i" if "\<And>n. bit (x :: u8) n \<longleftrightarrow> n < 3 \<and> bit (of_nat i :: u8) n" for x
    using that value_bits [OF lt] by (intro bit_word_eqI) blast
  have "ptedit_extract_mt X86_64 (ptedit_apply_mt X86_64 entry (of_nat i)) = of_nat i"
    by (rule idx) (auto simp: bit_extract_mt bit_apply_mt mt_bits_def less_3)
  moreover have "ptedit_extract_mt_huge X86_64 (ptedit_apply_mt_huge X86_64 entry (of_nat i)) = of_nat i"
    by (rule idx) (auto simp: bit_extract_mt_huge bit_apply_mt_huge mt_bits_huge_def less_3)
  ultimately show ?thesis
    using i(3) assms(1) by (simp add: i(2) get_mt_byte [OF lt] nat mt_matches_x86)
qed

theorem find_apply_mt_witness:
  "ptedit_get_mt sample_os (ptedit_extract_mt X86_64 (ptedit_apply_mt X86_64 0x8000000000005067
      (of_int (ptedit_find_first_mt sample_os 0 sample_sys)))) sample_sys = Some 0"
proof -
  have "mt_matches X86_64 (ptedit_get_mts sample_os sample_sys) 0 3"
    by (simp add: sample_mts mt_matches_def)
  then have "bit (ptedit_find_mt sample_os 0 sample_sys) 3" by (simp add: find_mt_bits sample_sys_simps)
  then have "0 \<le> ptedit_find_first_mt sample_os 0 sample_sys"
    using find_upt_least [of 8 "\<lambda>i. bit (ptedit_find_mt sample_os 0 sample_sys) i"]
    by (auto simp: ptedit_find_first_mt_def builtin_ffs_def split: option.splits)
  from find_apply_mt [OF sample_sys_simps(17) this] show ?thesis by blast
qed

section \<open>Names of types\<close>

text \<open>
  The name of a type: on x86 it exists exactly for the values 0 to 7 and every documented type has
  its documented name; on ARMv8 it always exists, fits the sixteen-byte buffer with its terminator, is
  the common name of both halves when inner and outer type are equal and names both otherwise.
\<close>

theorem mt_to_string_names:
  "(ptedit_mt_to_string X86_64 v = None \<longleftrightarrow> 7 < v) \<and>
   map (\<lambda>t. Option.bind (mt_value X86_64 t) (ptedit_mt_to_string X86_64)) [UC, WC, WT, WP, WB, UCMINUS] =
     [Some ''UC'', Some ''WC'', Some ''WT'', Some ''WP'', Some ''WB'', Some ''UC-''] \<and>
   map (\<lambda>t. Option.bind (mt_value AArch64 t) (ptedit_mt_to_string AArch64)) [UC, WT, WB] =
     [Some ''UC'', Some ''WT'', Some ''WB''] \<and>
   ptedit_mt_to_string AArch64 v =
     Some (if v AND 0xf = drop_bit 4 v AND 0xf then arm_nibble_name (v AND 0xf)
           else ''I'' @ arm_nibble_name (v AND 0xf) @ ''O'' @ arm_nibble_name (drop_bit 4 v AND 0xf)) \<and>
   length (the (ptedit_mt_to_string AArch64 v)) < 16"
proof -
  have len: "length (arm_nibble_name n) = 2" for n by (simp add: arm_nibble_name_def)
  have arm: "ptedit_mt_to_string AArch64 v =
     Some (if v AND 0xf = drop_bit 4 v AND 0xf then arm_nibble_name (v AND 0xf)
           else ''I'' @ arm_nibble_name (v AND 0xf) @ ''O'' @ arm_nibble_name (drop_bit 4 v AND 0xf))"
    by (simp add: ptedit_mt_to_string_def arm_name_step_def Let_def)
  then have "length (the (ptedit_mt_to_string AArch64 v)) < 16" by (simp add: len)
  moreover have "ptedit_mt_to_string X86_64 v = None \<longleftrightarrow> 7 < v"
    by (auto simp: ptedit_mt_to_string_def Let_def not_le)
  moreover have "map (\<lambda>t. Option.bind (mt_value X86_64 t) (ptedit_mt_to_string X86_64)) [UC, WC, WT, WP, WB, UCMINUS] =
     [Some ''UC'', Some ''WC'', Some ''WT'', Some ''WP'', Some ''WB'', Some ''UC-'']"
    by (simp add: ptedit_mt_to_string_def)
  moreover have "map (\<lambda>t. Option.bind (mt_value AArch64 t) (ptedit_mt_to_string AArch64)) [UC, WT, WB] =
     [Some ''UC'', Some ''WT'', Some ''WB'']"
    by (simp add: ptedit_mt_to_string_def arm_name_step_def arm_nibble_name_def)
  ultimately show ?thesis using arm by blast
qed

end
