(* ===== verification/PT_Uncachable.thy ===== *)
theory PT_Uncachable
  imports PT_Example PT_MemTypes
begin

text \<open>
  The demonstration \<open>demos/uncachable.c\<close>: the program gives one of its pages the memory type
  uncachable, measures its access time, and makes it cachable again; then the same for a huge page.
  The values of \<open>rdtsc\<close> are a parameter; flushing a cache line does not change the state of the model.
\<close>

section \<open>The program\<close>

definition MEASUREMENTS :: nat where "MEASUREMENTS = 1000000"

definition mt_name :: "os \<Rightarrow> u8 \<Rightarrow> sys \<Rightarrow> string option" where
  "mt_name OS i s = do {
     v \<leftarrow> ptedit_get_mt OS i s;
     ptedit_mt_to_string (cfg_arch (os_kernel OS)) v
   }"

fun dump_lines :: "os \<Rightarrow> nat list \<Rightarrow> sys \<Rightarrow> line list option" where
  "dump_lines OS [] s = Some []"
| "dump_lines OS (i # is) s = do {
     v \<leftarrow> ptedit_get_mt OS (of_nat i) s;
     name \<leftarrow> mt_name OS (of_nat i) s;
     rest \<leftarrow> dump_lines OS is s;
     Some ((''MT'', [Arg_int (int i), Arg_int (uint v), Arg_str name]) # rest)
   }"

definition dump_mts :: "os \<Rightarrow> sys \<Rightarrow> line list option" where
  "dump_mts OS s =
     map_option (\<lambda>ls. (''MTs (raw):'', [Arg_num (ptedit_get_mts OS s)]) # ls) (dump_lines OS [0..<8] s)"

text \<open>The readings of the clock are numbered; the loop returns the sum and the next number.\<close>

fun access_loop ::
  "os \<Rightarrow> process_os \<Rightarrow> (nat \<Rightarrow> u64) \<Rightarrow> u64 \<Rightarrow> nat \<Rightarrow> nat \<Rightarrow> u64 \<Rightarrow> sys \<Rightarrow> (u64 \<times> nat \<times> sys) option" where
  "access_loop OS P clock ptr 0 k acc s = Some (acc, k, s)"
| "access_loop OS P clock ptr (Suc n) k acc s = do {
     let start = clock k;
     (p, s) \<leftarrow> touch OS P ptr 8 s;
     let stop = clock (k + 1);
     access_loop OS P clock ptr n (k + 2) (acc + (stop - start)) s
   }"

definition access_time ::
  "os \<Rightarrow> process_os \<Rightarrow> (nat \<Rightarrow> u64) \<Rightarrow> u64 \<Rightarrow> nat \<Rightarrow> sys \<Rightarrow> (int \<times> nat \<times> sys) option" where
  "access_time OS P clock ptr k s = do {
     (acc, k, s) \<leftarrow> access_loop OS P clock ptr MEASUREMENTS k 0 s;
     Some (sint (ucast (acc div of_nat MEASUREMENTS) :: i32), k, s)
   }"

text \<open>
  Searching a memory type and giving it to the page.  Without such a type the program jumps to its
  end, which is the result \<open>None\<close> inside.
\<close>

definition set_page_type ::
  "os \<Rightarrow> process_os \<Rightarrow> (nat \<Rightarrow> u64) \<Rightarrow> u64 \<Rightarrow> string \<Rightarrow> u8 \<Rightarrow> string \<Rightarrow> ptedit_entry_t \<Rightarrow> nat \<Rightarrow> sys \<Rightarrow>
   (line list \<times> (ptedit_entry_t \<times> int) option \<times> nat \<times> sys) option" where
  "set_page_type OS P clock page name ty msg entry k s =
     (let A = cfg_arch (os_kernel OS); i = ptedit_find_first_mt OS ty s in
      if i = - 1 then Some ([(''No '' @ name @ '' MT available!'', [])], None, k, s)
      else do {
        let found = ptedit_find_mt OS ty s;
        let o1 = (''MTs for '' @ name, [Arg_int (int (length (filter (bit found) [0..<8]))), Arg_int i]);
        let entry = entry\<lparr>pte := ptedit_apply_mt A (pte entry) (of_int i), valid := valid_mask PTE\<rparr>;
        (entry, s) \<leftarrow> ptedit_update OS page 0 entry s;
        (t, k, s) \<leftarrow> access_time OS P clock page k s;
        Some ([o1, (msg, []), (''Average access time:'', [Arg_int t])], Some (entry, i), k, s)
      })"

definition set_huge_pmd ::
  "os \<Rightarrow> process_os \<Rightarrow> (nat \<Rightarrow> u64) \<Rightarrow> u64 \<Rightarrow> u64 \<Rightarrow> string \<Rightarrow> ptedit_entry_t \<Rightarrow> nat \<Rightarrow> sys \<Rightarrow>
   (line list \<times> ptedit_entry_t \<times> nat \<times> sys) option" where
  "set_huge_pmd OS P clock huge_page v msg huge_entry k s = do {
     let huge_entry = huge_entry\<lparr>pmd := v, valid := valid_mask PMD\<rparr>;
     (huge_entry, s) \<leftarrow> ptedit_update OS huge_page 0 huge_entry s;
     (t, k, s) \<leftarrow> access_time OS P clock huge_page k s;
     Some ([(msg, []), (''Average access time:'', [Arg_int t])], huge_entry, k, s)
   }"

text \<open>\<open>mmap_huge\<close> is Linux's answer to the mapping of a huge page, all bits set when it fails.\<close>

definition uncachable_huge ::
  "os \<Rightarrow> process_os \<Rightarrow> (sys \<Rightarrow> u64 \<times> sys) \<Rightarrow> (nat \<Rightarrow> u64) \<Rightarrow> int \<Rightarrow> nat \<Rightarrow> sys \<Rightarrow> (line list \<times> sys) option" where
  "uncachable_huge OS P mmap_huge clock uc_mt k s =
     (let A = cfg_arch (os_kernel OS); (huge_page, s) = mmap_huge s in
      if huge_page \<noteq> - 1 then do {
        (huge_entry, s) \<leftarrow> ptedit_resolve OS huge_page 0 s;
        name \<leftarrow> mt_name OS (ptedit_extract_mt_huge A (pmd huge_entry)) s;
        let original_pmd = pmd huge_entry;
        (t, k, s) \<leftarrow> access_time OS P clock huge_page k s;
        (o1, huge_entry', k, s) \<leftarrow> set_huge_pmd OS P clock huge_page (ptedit_apply_mt_huge A original_pmd (of_int uc_mt))
          ''Mapping should now be uncachable'' huge_entry k s;
        (o2, huge_entry', k, s) \<leftarrow> set_huge_pmd OS P clock huge_page original_pmd
          ''Mapping should now be cachable again'' huge_entry' k s;
        let s = munmap_anon P huge_page (2 * 1024 * 1024) s;
        Some ([(''Allocated huge page'', []), ('''', [Arg_str (ptedit_print_entry_t A huge_entry)]),
               (''Mapping is'', [Arg_str name]), (''Average access time:'', [Arg_int t])] @ o1 @ o2, s)
      }
      else Some ([(''Note: Could not allocate huge page.'', [])], s))"

definition uncachable_run ::
  "os \<Rightarrow> process_os \<Rightarrow> (sys \<Rightarrow> u64 \<times> sys) \<Rightarrow> (nat \<Rightarrow> u64) \<Rightarrow> u64 \<Rightarrow> sys \<Rightarrow> (line list \<times> sys) option" where
  "uncachable_run OS P mmap_huge clock page s = do {
     let A = cfg_arch (os_kernel OS);
     (entry, s) \<leftarrow> ptedit_resolve OS page 0 s;
     name \<leftarrow> mt_name OS (ptedit_extract_mt A (pte entry)) s;
     (t, k, s) \<leftarrow> access_time OS P clock page 0 s;
     dump \<leftarrow> dump_mts OS s;
     uc \<leftarrow> mt_value A UC;
     wb \<leftarrow> mt_value A WB;
     let o1 = [('''', [Arg_str (ptedit_print_entry A (pte entry))]), (''Mapping is'', [Arg_str name]),
               (''Average access time:'', [Arg_int t])] @ dump;
     (o2, r, k, s) \<leftarrow> set_page_type OS P clock page ''UC'' uc ''Mapping should now be uncachable'' entry k s;
     (case r of
        None \<Rightarrow> Some (o1 @ o2, s)
      | Some (entry, uc_mt) \<Rightarrow> do {
          (o3, r, k, s) \<leftarrow> set_page_type OS P clock page ''WB'' wb ''Mapping should now be cachable again'' entry k s;
          (case r of
             None \<Rightarrow> Some (o1 @ o2 @ o3, s)
           | Some (entry, wb_mt) \<Rightarrow> do {
               (o4, s) \<leftarrow> uncachable_huge OS P mmap_huge clock uc_mt k s;
               Some (o1 @ o2 @ o3 @ o4, s)
             })
        })
   }"

definition uncachable_main ::
  "os \<Rightarrow> process_os \<Rightarrow> (sys \<Rightarrow> u64 \<times> sys) \<Rightarrow> (nat \<Rightarrow> u64) \<Rightarrow> sys \<Rightarrow> (int \<times> line list \<times> sys) option" where
  "uncachable_main OS P mmap_huge clock s = do {
     let (page, s) = mmap_anon P 4096 s;
     s \<leftarrow> memset OS P page 0x41 4096 s;
     let (r, s) = ptedit_init OS s;
     if r \<noteq> 0 then
       Some (1, [(''Error: Could not initalize PTEditor, did you load the kernel module?'', [])], s)
     else do {
       (out, s) \<leftarrow> uncachable_run OS P mmap_huge clock page s;
       let s = ptedit_cleanup s;
       Some (0, out @ [(''Done'', [])], s)
     }
   }"

section \<open>The type of the page\<close>

lemma access_loop_run:
  "access_address OS a 8 s = Some p \<Longrightarrow> \<exists>x. access_loop OS P clock a n k acc s = Some (x, k + 2 * n, s)"
proof (induction n arbitrary: k acc)
  case (Suc n)
  from Suc.IH [OF Suc.prems, of "k + 2" "acc + (clock (k + 1) - clock k)"] Suc.prems show ?case by (simp add: touch_def)
qed simp

lemma access_time_run:
  assumes "access_address OS a 8 s = Some p"
  shows "\<exists>x. access_time OS P clock a k s = Some (x, k + 2 * MEASUREMENTS, s)"
  using access_loop_run [OF assms, of P clock MEASUREMENTS k 0] by (auto simp: access_time_def)

lemma get_mt_frame: "same_lib s t \<Longrightarrow> ptedit_get_mt OS i t = ptedit_get_mt OS i s"
  unfolding same_lib_def
  by (elim ssubst) (simp add: ptedit_get_mt_def ptedit_get_mts_def ioctl_def get_pat_def fd_file_def split: arch.split)

lemma apply_mt_page:
  "ptedit_get_pfn X86_64 (ptedit_apply_mt X86_64 w mt) = ptedit_get_pfn X86_64 w"
  "bit (ptedit_apply_mt X86_64 w mt) 0 = bit w 0"
  by (intro get_pfn_cong) (auto simp: bit_apply_mt)

text \<open>
  Giving a page of the program a memory type: where the register has no such type the program says
  so and changes nothing; otherwise the update takes effect, the page stays mapped to its frame, and
  the type that its entry now selects is the wanted one.  In particular the page is uncachable after
  the first step of the demonstration and write-back after the second.
\<close>

theorem set_page_type_takes_effect:
  assumes own: "own_page OS root a up w s" and e: "pte e = w"
  shows "(ptedit_find_first_mt OS ty s = - 1 \<longrightarrow>
      set_page_type OS P clock a name ty msg e k s = Some ([(''No '' @ name @ '' MT available!'', [])], None, k, s))
    \<and> (0 \<le> ptedit_find_first_mt OS ty s \<longrightarrow>
      (\<exists>out e' t. set_page_type OS P clock a name ty msg e k s =
          Some (out, Some (e', ptedit_find_first_mt OS ty s), k + 2 * MEASUREMENTS, t)
        \<and> own_page OS root a up (pte e') t \<and> ptedit_get_pfn X86_64 (pte e') = ptedit_get_pfn X86_64 w
        \<and> ptedit_get_mt OS (ptedit_extract_mt X86_64 (pte e')) t = Some ty))"
proof (intro conjI impI)
  show "set_page_type OS P clock a name ty msg e k s = Some ([(''No '' @ name @ '' MT available!'', [])], None, k, s)"
    if "ptedit_find_first_mt OS ty s = - 1"
    using that by (simp add: set_page_type_def)
next
  let ?i = "ptedit_find_first_mt OS ty s"
  assume i: "0 \<le> ?i"
  have A: "cfg_arch (os_kernel OS) = X86_64" using own_pageD(1) [OF own] by (simp add: page_state_def mmu_config_def)
  let ?v = "ptedit_apply_mt X86_64 w (of_int ?i)"
  let ?new = "e\<lparr>pte := ?v, valid := valid_mask PTE\<rparr>"
  obtain vm u where u: "ptedit_update OS a 0 ?new s = Some (vm, u)" "same_lib s u" "own_page OS root a up ?v u"
    using own_page_update [OF own, of ?new] own_pageD(4,5) [OF own] page_state_walk(3) [OF own_pageD(1) [OF own]]
    by (auto simp: apply_mt_page)
  have vm: "pte vm = ?v"
    using u(1) page_state_kernel(4) [OF own_pageD(1,2) [OF own]] by (auto simp: ptedit_update_def ptedit_update_kernel_def Let_def)
  have "access_address OS a 8 u = Some (ptedit_get_pfn X86_64 ?v * 4096)"
    using process_page_reaches [OF own_pageD(3) [OF u(3)], of 0 8] by simp
  then obtain x where x: "access_time OS P clock a k u = Some (x, k + 2 * MEASUREMENTS, u)"
    using access_time_run by blast
  have "ptedit_get_mt OS (ptedit_extract_mt X86_64 ?v) u = Some ty"
    using find_apply_mt [OF A i, of w] get_mt_frame [OF u(2)] by simp
  moreover have "\<exists>out. set_page_type OS P clock a name ty msg e k s = Some (out, Some (vm, ?i), k + 2 * MEASUREMENTS, u)"
    using i by (simp add: set_page_type_def A e u(1) x Let_def)
  ultimately show "\<exists>out e' t. set_page_type OS P clock a name ty msg e k s = Some (out, Some (e', ?i), k + 2 * MEASUREMENTS, t)
        \<and> own_page OS root a up (pte e') t \<and> ptedit_get_pfn X86_64 (pte e') = ptedit_get_pfn X86_64 w
        \<and> ptedit_get_mt OS (ptedit_extract_mt X86_64 (pte e')) t = Some ty"
    using u(3) vm by (fastforce simp: apply_mt_page)
qed

theorem set_page_type_takes_effect_witness:
  "\<exists>out e t. set_page_type sample_os sample_process (\<lambda>n. 0) sample_vaddr ''UC'' 0 ''Mapping should now be uncachable''
      (zero_entry\<lparr>pte := 0x8000000000005067\<rparr>) 0 sample_sys2 = Some (out, Some (e, 3), 2 * MEASUREMENTS, t)
    \<and> ptedit_get_mt sample_os (ptedit_extract_mt X86_64 (pte e)) t = Some 0"
proof -
  have mts: "ptedit_get_mts sample_os sample_sys2 = 0x0007040600070406"
    using sample_mts by (simp add: sample_sys2_def ptedit_get_mts_def ioctl_def fd_file_def sample_sys_simps get_pat_def)
  have "find (\<lambda>i. bit (ptedit_find_mt sample_os 0 sample_sys2) i) [0..<8] = Some 3"
    by (simp add: upt_8 find_mt_bits mts sample_sys_simps mt_matches_def)
  then have i: "ptedit_find_first_mt sample_os 0 sample_sys2 = 3" by (simp add: ptedit_find_first_mt_def builtin_ffs_def)
  from conjunct2 [OF set_page_type_takes_effect [OF sample_own_pages(1), of "zero_entry\<lparr>pte := 0x8000000000005067\<rparr>" 0
      sample_process "\<lambda>n. 0" "''UC''" "''Mapping should now be uncachable''" 0]]
  show ?thesis by (simp add: i) blast
qed

end
