(* ===== verification/PT_Windows.thy ===== *)
theory PT_Windows
  imports PT_Walk
begin

text \<open>
  The Windows driver, \<open>driver/PTEdit/Driver.c\<close>, and the Windows build of the library functions that
  send requests to it (the \<open>#else\<close> branches of \<open>ptedit.c\<close>).  What the driver calls of the Windows kernel
  is collected in the record \<open>nt\<close>, an argument of every definition.  Requests are byte buffers, as the
  driver casts them; an access beyond the end of the buffer is the value \<open>None\<close>.  Attaching to a
  process, writing the control register and flushing a page are recorded in a trace.  The log
  messages of the driver and the error messages of the library are not modelled.
\<close>

section \<open>What the driver uses of Windows\<close>

record nt =
  PsLookupProcessByProcessId :: "u64 \<Rightarrow> nat option"
  readcr3 :: "nat \<Rightarrow> u64"
  MmGetVirtualForPhysical :: "u64 \<Rightarrow> u64"
  behind :: "u64 \<Rightarrow> u64"
  copied_physical :: "u64 \<Rightarrow> nat \<Rightarrow> nat"
  copied_virtual :: "u64 \<Rightarrow> nat \<Rightarrow> nat"
  buffer_tail :: "nat \<Rightarrow> u8"
  IoCreateDevice :: i32
  IoCreateSymbolicLink :: i32
  GetCurrentProcessId :: u64
  dwPageSize :: nat
  nt_cpu :: nat

datatype nt_event = Attach nat | Detach nat | Write_cr3 u64 | Invlpg_all u64

datatype dispatch = Dispatch_default | Dispatch_pass_thru | Dispatch_device_ctl

text \<open>\<open>DeviceObject\<close>, the symbolic link and the table \<open>MajorFunction\<close> of the driver object.\<close>

record nt_state =
  nt_phys :: mem
  nt_pat :: "nat \<Rightarrow> u64"
  nt_trace :: "nt_event list"
  device_object :: bool
  symbolic_link :: bool
  driver_unload :: bool
  major_function :: "dispatch list"

definition nt_emit :: "nt_event list \<Rightarrow> 'a nt_state_scheme \<Rightarrow> 'a nt_state_scheme" where
  "nt_emit es s = s\<lparr>nt_trace := nt_trace s @ es\<rparr>"

section \<open>Control codes\<close>

definition CTL_CODE :: "nat \<Rightarrow> nat \<Rightarrow> nat \<Rightarrow> nat \<Rightarrow> nat" where
  "CTL_CODE device fn meth access = device * 2 ^ 16 + access * 2 ^ 14 + fn * 4 + meth"

definition PTEDITOR_READ_PAGE :: nat where "PTEDITOR_READ_PAGE = CTL_CODE 0x22 0x801 0 0"
definition PTEDITOR_WRITE_PAGE :: nat where "PTEDITOR_WRITE_PAGE = CTL_CODE 0x22 0x802 0 1"
definition PTEDITOR_GET_CR3 :: nat where "PTEDITOR_GET_CR3 = CTL_CODE 0x22 0x803 0 0"
definition PTEDITOR_SET_CR3 :: nat where "PTEDITOR_SET_CR3 = CTL_CODE 0x22 0x807 0 0"
definition PTEDITOR_FLUSH_TLB :: nat where "PTEDITOR_FLUSH_TLB = CTL_CODE 0x22 0x804 0 0"
definition PTEDITOR_READ_PHYS_VAL :: nat where "PTEDITOR_READ_PHYS_VAL = CTL_CODE 0x22 0x805 0 0"
definition PTEDITOR_WRITE_PHYS_VAL :: nat where "PTEDITOR_WRITE_PHYS_VAL = CTL_CODE 0x22 0x806 0 0"
definition PTEDITOR_SET_PAT :: nat where "PTEDITOR_SET_PAT = CTL_CODE 0x22 0x808 0 0"
definition PTEDITOR_GET_PAT :: nat where "PTEDITOR_GET_PAT = CTL_CODE 0x22 0x809 0 0"

lemmas control_codes = PTEDITOR_READ_PAGE_def PTEDITOR_WRITE_PAGE_def PTEDITOR_GET_CR3_def PTEDITOR_SET_CR3_def
  PTEDITOR_FLUSH_TLB_def PTEDITOR_READ_PHYS_VAL_def PTEDITOR_WRITE_PHYS_VAL_def PTEDITOR_SET_PAT_def
  PTEDITOR_GET_PAT_def CTL_CODE_def

definition STATUS_SUCCESS :: i32 where "STATUS_SUCCESS = 0"
definition STATUS_INVALID_PARAMETER :: i32 where "STATUS_INVALID_PARAMETER = 0xC000000D"

definition NT_SUCCESS :: "i32 \<Rightarrow> bool" where "NT_SUCCESS st \<longleftrightarrow> 0 \<le> sint st"

section \<open>The system buffer\<close>

definition buffer_read :: "u8 list \<Rightarrow> nat \<Rightarrow> nat \<Rightarrow> u8 list option" where
  "buffer_read b off n = (if off + n \<le> length b then Some (take n (drop off b)) else None)"

definition buffer_u64 :: "u8 list \<Rightarrow> nat \<Rightarrow> u64 option" where
  "buffer_u64 b off = map_option le64 (buffer_read b off 8)"

definition buffer_write :: "u8 list \<Rightarrow> u8 list \<Rightarrow> u8 list option" where
  "buffer_write b xs = (if length xs \<le> length b then Some (xs @ drop (length xs) b) else None)"

section \<open>Serving a request\<close>

text \<open>The result of a command: the buffer, the length to return and the state.\<close>

type_synonym 'a nt_reply = "(u8 list \<times> nat \<times> 'a nt_state_scheme) option"

definition ctl_write_page :: "nt \<Rightarrow> u8 list \<Rightarrow> 'a nt_state_scheme \<Rightarrow> 'a nt_reply" where
  "ctl_write_page NT b s = do {
     pa \<leftarrow> buffer_u64 b 4096;
     let va = MmGetVirtualForPhysical NT pa;
     if va \<noteq> 0 then do {
       content \<leftarrow> buffer_read b 0 4096;
       Some (b, 0, s\<lparr>nt_phys := store_bytes (nt_phys s) (behind NT va) (take (copied_virtual NT va 4096) content)\<rparr>)
     } else Some (b, 0, s)
   }"

definition ctl_read_physical :: "nt \<Rightarrow> nat \<Rightarrow> u8 list \<Rightarrow> 'a nt_state_scheme \<Rightarrow> 'a nt_reply" where
  "ctl_read_physical NT n b s = do {
     pa \<leftarrow> buffer_u64 b 0;
     b \<leftarrow> buffer_write b (load_bytes (nt_phys s) pa (min n (copied_physical NT pa n)));
     Some (b, n, s)
   }"

definition ctl_get_cr3 :: "nt \<Rightarrow> u8 list \<Rightarrow> 'a nt_state_scheme \<Rightarrow> 'a nt_reply" where
  "ctl_get_cr3 NT b s = do {
     proc \<leftarrow> buffer_u64 b 0;
     let (cr3, s) = (case PsLookupProcessByProcessId NT proc of
                       Some p \<Rightarrow> (readcr3 NT p, nt_emit [Attach p, Detach p] s)
                     | None \<Rightarrow> (0, s));
     b \<leftarrow> buffer_write b (bytes64 cr3);
     Some (b, 8, s)
   }"

definition ctl_flush_tlb :: "nt \<Rightarrow> u8 list \<Rightarrow> 'a nt_state_scheme \<Rightarrow> 'a nt_reply" where
  "ctl_flush_tlb NT b s = do {
     addr \<leftarrow> buffer_u64 b 0;
     Some (b, 0, nt_emit [Invlpg_all addr] s)
   }"

text \<open>\<open>PTEDITOR_SET_CR3\<close> has no \<open>break\<close> and continues with \<open>PTEDITOR_FLUSH_TLB\<close>.\<close>

definition ctl_set_cr3 :: "nt \<Rightarrow> u8 list \<Rightarrow> 'a nt_state_scheme \<Rightarrow> 'a nt_reply" where
  "ctl_set_cr3 NT b s = do {
     proc \<leftarrow> buffer_u64 b 0;
     s \<leftarrow> (case PsLookupProcessByProcessId NT proc of
             Some p \<Rightarrow> do {
               root \<leftarrow> buffer_u64 b 8;
               Some (nt_emit [Attach p, Write_cr3 root, Detach p] s)
             }
           | None \<Rightarrow> Some s);
     ctl_flush_tlb NT b s
   }"

definition ctl_write_phys_val :: "nt \<Rightarrow> u8 list \<Rightarrow> 'a nt_state_scheme \<Rightarrow> 'a nt_reply" where
  "ctl_write_phys_val NT b s = do {
     v \<leftarrow> buffer_u64 b 8;
     pa \<leftarrow> buffer_u64 b 0;
     let va = MmGetVirtualForPhysical NT pa;
     Some (b, 0, if va \<noteq> 0 then s\<lparr>nt_phys := store64 (nt_phys s) (behind NT va) v\<rparr> else s)
   }"

definition ctl_get_pat :: "nt \<Rightarrow> u8 list \<Rightarrow> 'a nt_state_scheme \<Rightarrow> 'a nt_reply" where
  "ctl_get_pat NT b s = do {
     b \<leftarrow> buffer_write b (bytes64 (nt_pat s (nt_cpu NT)));
     Some (b, 8, s)
   }"

definition ctl_set_pat :: "nt \<Rightarrow> u8 list \<Rightarrow> 'a nt_state_scheme \<Rightarrow> 'a nt_reply" where
  "ctl_set_pat NT b s = do {
     v \<leftarrow> buffer_u64 b 0;
     Some (b, 0, s\<lparr>nt_pat := (\<lambda>cpu. v)\<rparr>)
   }"

definition DispatchDeviceCtl ::
  "nt \<Rightarrow> nat \<Rightarrow> u8 list \<Rightarrow> 'a nt_state_scheme \<Rightarrow> (i32 \<times> nat \<times> u8 list \<times> 'a nt_state_scheme) option" where
  "DispatchDeviceCtl NT code b s =
     (let reply = (if code = PTEDITOR_WRITE_PAGE then Some (ctl_write_page NT b s)
                   else if code = PTEDITOR_READ_PAGE then Some (ctl_read_physical NT 4096 b s)
                   else if code = PTEDITOR_GET_CR3 then Some (ctl_get_cr3 NT b s)
                   else if code = PTEDITOR_SET_CR3 then Some (ctl_set_cr3 NT b s)
                   else if code = PTEDITOR_FLUSH_TLB then Some (ctl_flush_tlb NT b s)
                   else if code = PTEDITOR_READ_PHYS_VAL then Some (ctl_read_physical NT 8 b s)
                   else if code = PTEDITOR_WRITE_PHYS_VAL then Some (ctl_write_phys_val NT b s)
                   else if code = PTEDITOR_GET_PAT then Some (ctl_get_pat NT b s)
                   else if code = PTEDITOR_SET_PAT then Some (ctl_set_pat NT b s)
                   else None)
      in case reply of
           None \<Rightarrow> Some (STATUS_INVALID_PARAMETER, 0, b, s)
         | Some r \<Rightarrow> map_option (\<lambda>(b, n, s). (STATUS_SUCCESS, n, b, s)) r)"

definition IRP_MJ_CREATE :: nat where "IRP_MJ_CREATE = 0x00"
definition IRP_MJ_CLOSE :: nat where "IRP_MJ_CLOSE = 0x02"
definition IRP_MJ_DEVICE_CONTROL :: nat where "IRP_MJ_DEVICE_CONTROL = 0x0e"
definition IRP_MJ_CLEANUP :: nat where "IRP_MJ_CLEANUP = 0x12"
definition IRP_MJ_MAXIMUM_FUNCTION :: nat where "IRP_MJ_MAXIMUM_FUNCTION = 0x1b"

text \<open>The status and the length in the completed request.\<close>

definition DispatchPassThru :: "nat \<Rightarrow> i32 \<times> nat" where
  "DispatchPassThru major =
     (if major = IRP_MJ_CREATE \<or> major = IRP_MJ_CLOSE \<or> major = IRP_MJ_CLEANUP then (STATUS_SUCCESS, 0)
      else (STATUS_INVALID_PARAMETER, 0))"

section \<open>Loading and unloading the driver\<close>

definition fill_table :: "dispatch list \<Rightarrow> nat \<Rightarrow> dispatch list" where
  "fill_table t n = foldl (\<lambda>t i. t[i := Dispatch_pass_thru]) t [0..<n]"

definition DriverEntry :: "nt \<Rightarrow> 'a nt_state_scheme \<Rightarrow> i32 \<times> 'a nt_state_scheme" where
  "DriverEntry NT s =
     (let s = s\<lparr>driver_unload := True\<rparr>;
          status = IoCreateDevice NT in
      if \<not> NT_SUCCESS status then (status, s)
      else
        let s = s\<lparr>device_object := True\<rparr>;
            status = IoCreateSymbolicLink NT in
        if \<not> NT_SUCCESS status then (status, s\<lparr>device_object := False\<rparr>)
        else
          let s = s\<lparr>symbolic_link := True\<rparr>;
              s = s\<lparr>major_function := fill_table (major_function s) IRP_MJ_MAXIMUM_FUNCTION\<rparr>;
              s = s\<lparr>major_function := (major_function s)[IRP_MJ_DEVICE_CONTROL := Dispatch_device_ctl]\<rparr>
          in (status, s))"

definition Unload :: "'a nt_state_scheme \<Rightarrow> 'a nt_state_scheme" where
  "Unload s = s\<lparr>symbolic_link := False, device_object := False\<rparr>"

section \<open>The library on Windows\<close>

record win_sys = nt_state +
  win_fd :: bool
  win_pagesize :: nat
  win_paging_root :: u64
  win_definition :: ptedit_paging_definition_t
  win_resolve_ptr :: resolve_fn
  win_update_ptr :: update_fn

text \<open>
  \<open>CreateFile\<close> finds the device through its symbolic link and asks the driver.  \<open>DeviceIoControl\<close> with
  buffered transfer copies the input to a system buffer that is large enough for input and output, and
  copies the returned length back; the tail of the buffer is not initialised.
\<close>

definition CreateFile :: "win_sys \<Rightarrow> bool" where
  "CreateFile s \<longleftrightarrow>
     symbolic_link s \<and> major_function s ! IRP_MJ_CREATE = Dispatch_pass_thru
     \<and> fst (DispatchPassThru IRP_MJ_CREATE) = STATUS_SUCCESS"

definition system_buffer :: "nt \<Rightarrow> u8 list \<Rightarrow> u8 list \<Rightarrow> u8 list" where
  "system_buffer NT inp out = inp @ map (buffer_tail NT) [length inp..<length out]"

definition DeviceIoControl :: "nt \<Rightarrow> nat \<Rightarrow> u8 list \<Rightarrow> u8 list \<Rightarrow> win_sys \<Rightarrow> (u8 list \<times> win_sys) option" where
  "DeviceIoControl NT code inp out s =
     (if \<not> win_fd s \<or> major_function s ! IRP_MJ_DEVICE_CONTROL \<noteq> Dispatch_device_ctl then Some (out, s)
      else do {
        (status, n, b, s) \<leftarrow> DispatchDeviceCtl NT code (system_buffer NT inp out) s;
        Some (if NT_SUCCESS status then take (min n (length out)) b @ drop (min n (length out)) out else out, s)
      })"

definition ptedit_phys_read_pread_win :: "nt \<Rightarrow> u64 \<Rightarrow> win_sys \<Rightarrow> (u64 \<times> win_sys) option" where
  "ptedit_phys_read_pread_win NT address s = do {
     (out, s) \<leftarrow> DeviceIoControl NT PTEDITOR_READ_PHYS_VAL (bytes64 address) (bytes64 0) s;
     Some (le64 out, s)
   }"

definition ptedit_phys_write_pwrite_win :: "nt \<Rightarrow> u64 \<Rightarrow> u64 \<Rightarrow> win_sys \<Rightarrow> win_sys option" where
  "ptedit_phys_write_pwrite_win NT address v s =
     (let info = bytes64 address @ bytes64 v
      in map_option snd (DeviceIoControl NT PTEDITOR_WRITE_PHYS_VAL info info s))"

definition ptedit_get_pagesize_win :: "nt \<Rightarrow> nat" where
  "ptedit_get_pagesize_win NT = dwPageSize NT"

definition ptedit_read_physical_page_win :: "nt \<Rightarrow> u64 \<Rightarrow> u8 list \<Rightarrow> win_sys \<Rightarrow> (u8 list \<times> win_sys) option" where
  "ptedit_read_physical_page_win NT pfn buffer s =
     (let pa = pfn * of_nat (win_pagesize s)
      in map_option (\<lambda>(out, s). (out @ drop 4096 buffer, s))
           (DeviceIoControl NT PTEDITOR_READ_PAGE (bytes64 pa) (take 4096 buffer) s))"

definition ptedit_write_physical_page_win :: "nt \<Rightarrow> u64 \<Rightarrow> u8 list \<Rightarrow> win_sys \<Rightarrow> win_sys option" where
  "ptedit_write_physical_page_win NT pfn content s =
     (if win_pagesize s \<noteq> 4096 then Some s
      else
        let page = take (win_pagesize s) content @ bytes64 (pfn * of_nat (win_pagesize s))
        in map_option snd (DeviceIoControl NT PTEDITOR_WRITE_PAGE page page s))"

text \<open>\<open>pid_t\<close> is \<open>size_t\<close> on Windows.\<close>

definition ptedit_get_paging_root_win :: "nt \<Rightarrow> u64 \<Rightarrow> win_sys \<Rightarrow> (u64 \<times> win_sys) option" where
  "ptedit_get_paging_root_win NT proc s =
     (let proc = (if proc = 0 then GetCurrentProcessId NT else proc)
      in map_option (\<lambda>(out, s). (le64 out AND size_of_int (NOT 0xfff), s))
           (DeviceIoControl NT PTEDITOR_GET_CR3 (bytes64 proc) (bytes64 0) s))"

definition ptedit_set_paging_root_win :: "nt \<Rightarrow> u64 \<Rightarrow> u64 \<Rightarrow> win_sys \<Rightarrow> win_sys option" where
  "ptedit_set_paging_root_win NT proc root s =
     (let proc = (if proc = 0 then GetCurrentProcessId NT else proc);
          info = bytes64 proc @ bytes64 root
      in map_option snd (DeviceIoControl NT PTEDITOR_SET_CR3 info info s))"

definition ptedit_invalidate_tlb_pid_win :: "nt \<Rightarrow> u64 \<Rightarrow> u64 \<Rightarrow> win_sys \<Rightarrow> win_sys option" where
  "ptedit_invalidate_tlb_pid_win NT proc address s =
     map_option snd (DeviceIoControl NT PTEDITOR_FLUSH_TLB (bytes64 address) (bytes64 address) s)"

definition ptedit_invalidate_tlb_win :: "nt \<Rightarrow> u64 \<Rightarrow> win_sys \<Rightarrow> win_sys option" where
  "ptedit_invalidate_tlb_win NT address s =
     map_option snd (DeviceIoControl NT PTEDITOR_FLUSH_TLB (bytes64 address) (bytes64 address) s)"

definition ptedit_get_mts_win :: "nt \<Rightarrow> win_sys \<Rightarrow> (u64 \<times> win_sys) option" where
  "ptedit_get_mts_win NT s =
     map_option (\<lambda>(out, s). (le64 out, s)) (DeviceIoControl NT PTEDITOR_GET_PAT (bytes64 0) (bytes64 0) s)"

text \<open>The Windows branch of \<open>ptedit_set_mts\<close> sends \<open>PTEDITOR_GET_PAT\<close>.\<close>

definition ptedit_set_mts_win :: "nt \<Rightarrow> u64 \<Rightarrow> win_sys \<Rightarrow> win_sys option" where
  "ptedit_set_mts_win NT mts s =
     map_option snd (DeviceIoControl NT PTEDITOR_GET_PAT (bytes64 mts) (bytes64 mts) s)"

definition ptedit_full_serializing_barrier_win :: "nt \<Rightarrow> win_sys \<Rightarrow> win_sys option" where
  "ptedit_full_serializing_barrier_win NT s = do {
     (root, s) \<leftarrow> ptedit_get_paging_root_win NT 0 s;
     ptedit_set_paging_root_win NT 0 root s
   }"

definition ptedit_use_implementation_win :: "nt \<Rightarrow> int \<Rightarrow> win_sys \<Rightarrow> win_sys option" where
  "ptedit_use_implementation_win NT implementation s =
     (if implementation = PTEDIT_IMPL_USER_PREAD then do {
        let s = s\<lparr>win_resolve_ptr := Resolve_user, win_update_ptr := Update_user\<rparr>;
        (root, s) \<leftarrow> ptedit_get_paging_root_win NT 0 s;
        Some (s\<lparr>win_paging_root := root\<rparr>)
      }
      else Some s)"

definition ptedit_init_win :: "nt \<Rightarrow> win_sys \<Rightarrow> (int \<times> win_sys) option" where
  "ptedit_init_win NT s =
     (let s = s\<lparr>win_fd := CreateFile s\<rparr> in
      if \<not> win_fd s then Some (- 1, s)
      else do {
        s \<leftarrow> ptedit_use_implementation_win NT PTEDIT_IMPL_USER_PREAD s;
        let s = s\<lparr>win_pagesize := ptedit_get_pagesize_win NT\<rparr>;
        Some (0, s\<lparr>win_definition := x86_definition\<rparr>)
      })"

definition ptedit_cleanup_win :: "win_sys \<Rightarrow> win_sys" where
  "ptedit_cleanup_win s = s\<lparr>win_fd := False\<rparr>"

section \<open>Fields of a buffer\<close>

lemma buffer_u64_first [simp]: "buffer_u64 (bytes64 a @ xs) 0 = Some a"
  by (simp add: buffer_u64_def buffer_read_def)

lemma buffer_u64_second [simp]: "buffer_u64 (bytes64 a @ bytes64 v @ xs) 8 = Some v"
  by (simp add: buffer_u64_def buffer_read_def)

lemma buffer_u64_after: "length xs = n \<Longrightarrow> buffer_u64 (xs @ bytes64 a @ ys) n = Some a"
  by (simp add: buffer_u64_def buffer_read_def)

lemma buffer_read_first: "length xs = n \<Longrightarrow> buffer_read (xs @ ys) 0 n = Some xs"
  by (simp add: buffer_read_def)

lemma buffer_write_first: "length xs \<le> length b \<Longrightarrow> buffer_write b xs = Some (xs @ drop (length xs) b)"
  by (simp add: buffer_write_def)

lemma system_buffer_same: "length out \<le> length inp \<Longrightarrow> system_buffer NT inp out = inp"
  by (simp add: system_buffer_def)

lemma length_system_buffer [simp]: "length (system_buffer NT inp out) = max (length inp) (length out)"
  by (simp add: system_buffer_def)

lemma buffer_u64_system [simp]: "buffer_u64 (system_buffer NT (bytes64 a) out) 0 = Some a"
  by (simp add: system_buffer_def)

lemma buffer_write_full: "length xs = length b \<Longrightarrow> buffer_write b xs = Some xs"
  by (simp add: buffer_write_def)

section \<open>Requests that reach the driver\<close>

definition connected :: "win_sys \<Rightarrow> bool" where
  "connected s \<longleftrightarrow> win_fd s \<and> major_function s ! IRP_MJ_DEVICE_CONTROL = Dispatch_device_ctl"

lemma status_success [simp]: "NT_SUCCESS STATUS_SUCCESS"
  by (simp add: NT_SUCCESS_def STATUS_SUCCESS_def)

lemma DeviceIoControl_connected:
  assumes "connected s" and "DispatchDeviceCtl NT code (system_buffer NT inp out) s = Some (STATUS_SUCCESS, n, b, t)"
  shows "DeviceIoControl NT code inp out s = Some (take (min n (length out)) b @ drop (min n (length out)) out, t)"
  using assms by (simp add: DeviceIoControl_def connected_def)

lemma dispatch_codes:
  "DispatchDeviceCtl NT PTEDITOR_WRITE_PAGE b s = map_option (\<lambda>(b, n, s). (STATUS_SUCCESS, n, b, s)) (ctl_write_page NT b s)"
  "DispatchDeviceCtl NT PTEDITOR_READ_PAGE b s = map_option (\<lambda>(b, n, s). (STATUS_SUCCESS, n, b, s)) (ctl_read_physical NT 4096 b s)"
  "DispatchDeviceCtl NT PTEDITOR_GET_CR3 b s = map_option (\<lambda>(b, n, s). (STATUS_SUCCESS, n, b, s)) (ctl_get_cr3 NT b s)"
  "DispatchDeviceCtl NT PTEDITOR_SET_CR3 b s = map_option (\<lambda>(b, n, s). (STATUS_SUCCESS, n, b, s)) (ctl_set_cr3 NT b s)"
  "DispatchDeviceCtl NT PTEDITOR_FLUSH_TLB b s = map_option (\<lambda>(b, n, s). (STATUS_SUCCESS, n, b, s)) (ctl_flush_tlb NT b s)"
  "DispatchDeviceCtl NT PTEDITOR_READ_PHYS_VAL b s = map_option (\<lambda>(b, n, s). (STATUS_SUCCESS, n, b, s)) (ctl_read_physical NT 8 b s)"
  "DispatchDeviceCtl NT PTEDITOR_WRITE_PHYS_VAL b s = map_option (\<lambda>(b, n, s). (STATUS_SUCCESS, n, b, s)) (ctl_write_phys_val NT b s)"
  "DispatchDeviceCtl NT PTEDITOR_GET_PAT b s = map_option (\<lambda>(b, n, s). (STATUS_SUCCESS, n, b, s)) (ctl_get_pat NT b s)"
  "DispatchDeviceCtl NT PTEDITOR_SET_PAT b s = map_option (\<lambda>(b, n, s). (STATUS_SUCCESS, n, b, s)) (ctl_set_pat NT b s)"
  by (simp_all add: DispatchDeviceCtl_def control_codes)

section \<open>Access to physical memory on both systems\<close>

text \<open>
  The contract of the accessors that the page walk uses, independent of the operating system: where
  access is granted, a read returns the eight bytes at the address and changes nothing, and a write
  stores exactly these bytes and revokes no access.
\<close>

locale phys_store =
  fixes rd :: "'e \<Rightarrow> u64 \<Rightarrow> 's \<Rightarrow> (u64 \<times> 's) option"
    and wr :: "'e \<Rightarrow> u64 \<Rightarrow> u64 \<Rightarrow> 's \<Rightarrow> 's option"
    and acc :: "'e \<Rightarrow> u64 \<Rightarrow> 's \<Rightarrow> bool"
    and content :: "'s \<Rightarrow> mem"
  assumes rd_acc: "acc E a s \<Longrightarrow> rd E a s = Some (load64 (content s) a, s)"
    and wr_acc: "acc E a s \<Longrightarrow> \<exists>t. wr E a v s = Some t \<and> content t = store64 (content s) a v"
    and acc_wr: "acc E a s \<Longrightarrow> acc E b s \<Longrightarrow> wr E a v s = Some t \<Longrightarrow> acc E b t"
begin

lemma write_then_read:
  assumes "acc E a s" and "acc E b s" and "b = a \<or> apart a b"
  shows "\<exists>t. wr E a v s = Some t \<and> rd E a t = Some (v, t)
    \<and> rd E b t = Some (if b = a then v else load64 (content s) b, t)"
proof -
  from wr_acc [OF assms(1)] obtain t where t: "wr E a v s = Some t" "content t = store64 (content s) a v" by blast
  have "acc E a t" "acc E b t" using acc_wr assms(1,2) t(1) by blast+
  then show ?thesis using t assms(3) by (auto simp: rd_acc mem_simps)
qed

end

text \<open>The Linux accessors of both user-space implementations keep this contract.\<close>

sublocale phys_access \<subseteq> store: phys_store "\<lambda>OS a s. map_option (\<lambda>v. (v, s)) (deref OS a s)" pset acc phys
proof
  show "acc OS a s \<Longrightarrow> map_option (\<lambda>v. (v, s)) (deref OS a s) = Some (load64 (phys s) a, s)" for OS a s
    by (simp add: deref_acc)
  show "acc OS a s \<Longrightarrow> \<exists>t. pset OS a v s = Some t \<and> phys t = store64 (phys s) a v" for OS a s v
    by (simp add: pset_acc)
  show "acc OS a s \<Longrightarrow> acc OS b s \<Longrightarrow> pset OS a v s = Some t \<Longrightarrow> acc OS b t" for OS a b s v t
    using acc_same by (auto simp: pset_acc)
qed

text \<open>
  The driver: the handle is open, and Windows maps the physical address (the documented behaviour of
  \<open>MmGetVirtualForPhysical\<close> and \<open>MmCopyMemory\<close> for memory it maps).
\<close>

definition nt_serves :: "nt \<Rightarrow> u64 \<Rightarrow> nat \<Rightarrow> bool" where
  "nt_serves NT a n \<longleftrightarrow>
     (let va = MmGetVirtualForPhysical NT a in
      va \<noteq> 0 \<and> behind NT va = a \<and> copied_virtual NT va n = n \<and> copied_physical NT a n = n)"

definition win_acc :: "nt \<Rightarrow> u64 \<Rightarrow> win_sys \<Rightarrow> bool" where
  "win_acc NT a s \<longleftrightarrow> connected s \<and> nt_serves NT a 8"

lemma phys_read_win:
  assumes "win_acc NT a s"
  shows "ptedit_phys_read_pread_win NT a s = Some (load64 (nt_phys s) a, s)"
proof -
  have "ctl_read_physical NT 8 (bytes64 a) s = Some (load_bytes (nt_phys s) a 8, 8, s)"
    using assms buffer_u64_first [of a "[]"]
    by (simp add: ctl_read_physical_def win_acc_def nt_serves_def buffer_write_first Let_def)
  then have "DeviceIoControl NT PTEDITOR_READ_PHYS_VAL (bytes64 a) (bytes64 0) s = Some (load_bytes (nt_phys s) a 8, s)"
    using assms DeviceIoControl_connected [of s NT PTEDITOR_READ_PHYS_VAL "bytes64 a" "bytes64 0"]
    by (simp add: dispatch_codes system_buffer_same win_acc_def)
  then show ?thesis by (simp add: ptedit_phys_read_pread_win_def load64_def)
qed

lemma phys_write_win:
  assumes "win_acc NT a s"
  shows "ptedit_phys_write_pwrite_win NT a v s = Some (s\<lparr>nt_phys := store64 (nt_phys s) a v\<rparr>)"
proof -
  let ?info = "bytes64 a @ bytes64 v"
  have "ctl_write_phys_val NT ?info s = Some (?info, 0, s\<lparr>nt_phys := store64 (nt_phys s) a v\<rparr>)"
    using assms buffer_u64_second [of a v "[]"]
    by (simp add: ctl_write_phys_val_def win_acc_def nt_serves_def Let_def)
  then show ?thesis
    using assms DeviceIoControl_connected [of s NT PTEDITOR_WRITE_PHYS_VAL ?info ?info]
    by (simp add: dispatch_codes system_buffer_same win_acc_def ptedit_phys_write_pwrite_win_def Let_def)
qed

interpretation win_phys: phys_store ptedit_phys_read_pread_win ptedit_phys_write_pwrite_win win_acc nt_phys
proof
  show "win_acc NT a s \<Longrightarrow> ptedit_phys_read_pread_win NT a s = Some (load64 (nt_phys s) a, s)" for NT a s
    by (rule phys_read_win)
  show "win_acc NT a s \<Longrightarrow> \<exists>t. ptedit_phys_write_pwrite_win NT a v s = Some t \<and> nt_phys t = store64 (nt_phys s) a v" for NT a s v
    by (simp add: phys_write_win)
  show "win_acc NT a s \<Longrightarrow> win_acc NT b s \<Longrightarrow> ptedit_phys_write_pwrite_win NT a v s = Some t \<Longrightarrow> win_acc NT b t" for NT a b s v t
    by (auto simp: phys_write_win win_acc_def connected_def)
qed

text \<open>Requesting a root and flushing a page only extend the trace.\<close>

lemma nt_emit_nil: "nt_emit [] s = s"
  by (simp add: nt_emit_def)

lemma nt_emit_emit: "nt_emit es (nt_emit es' s) = nt_emit (es' @ es) s"
  by (simp add: nt_emit_def)

lemma nt_emit_fields [simp]:
  "nt_phys (nt_emit es s) = nt_phys s" "win_definition (nt_emit es s) = win_definition s"
  "win_paging_root (nt_emit es s) = win_paging_root s" "connected (nt_emit es s) = connected s"
  "win_resolve_ptr (nt_emit es s) = win_resolve_ptr s" "win_acc NT a (nt_emit es s) = win_acc NT a s"
  by (simp_all add: nt_emit_def connected_def win_acc_def)

lemma get_paging_root_win:
  assumes "connected s"
  shows "ptedit_get_paging_root_win NT proc s =
    (case PsLookupProcessByProcessId NT (if proc = 0 then GetCurrentProcessId NT else proc) of
       Some p \<Rightarrow> Some (readcr3 NT p AND size_of_int (NOT 0xfff), nt_emit [Attach p, Detach p] s)
     | None \<Rightarrow> Some (0, s))"
proof -
  let ?q = "if proc = 0 then GetCurrentProcessId NT else proc"
  let ?r = "case PsLookupProcessByProcessId NT ?q of
      Some p \<Rightarrow> (readcr3 NT p, nt_emit [Attach p, Detach p] s) | None \<Rightarrow> (0, s)"
  have "ctl_get_cr3 NT (bytes64 ?q) s = Some (bytes64 (fst ?r), 8, snd ?r)"
    using buffer_u64_first [of ?q "[]"] by (simp add: ctl_get_cr3_def buffer_write_full case_prod_beta)
  then have "DeviceIoControl NT PTEDITOR_GET_CR3 (bytes64 ?q) (bytes64 0) s = Some (bytes64 (fst ?r), snd ?r)"
    using assms DeviceIoControl_connected [of s NT PTEDITOR_GET_CR3 "bytes64 ?q" "bytes64 0"]
    by (simp add: dispatch_codes system_buffer_same)
  then show ?thesis
    by (simp add: ptedit_get_paging_root_win_def Let_def split: option.split)
qed

lemma invalidate_tlb_pid_win:
  assumes "connected s"
  shows "ptedit_invalidate_tlb_pid_win NT proc addr s = Some (nt_emit [Invlpg_all addr] s)"
proof -
  have "ctl_flush_tlb NT (bytes64 addr) s = Some (bytes64 addr, 0, nt_emit [Invlpg_all addr] s)"
    using buffer_u64_first [of addr "[]"] by (simp add: ctl_flush_tlb_def)
  then show ?thesis
    using assms DeviceIoControl_connected [of s NT PTEDITOR_FLUSH_TLB "bytes64 addr" "bytes64 addr"]
    by (simp add: dispatch_codes system_buffer_same ptedit_invalidate_tlb_pid_win_def)
qed

section \<open>A concrete Windows machine\<close>

definition sample_nt :: nt where
  "sample_nt =
    \<lparr>PsLookupProcessByProcessId = (\<lambda>p. if p = 1234 then Some 1 else None), readcr3 = (\<lambda>p. 0x1002),
     MmGetVirtualForPhysical = (\<lambda>a. a + 0xffff800000000000), behind = (\<lambda>v. v - 0xffff800000000000),
     copied_physical = (\<lambda>a n. n), copied_virtual = (\<lambda>a n. n), buffer_tail = (\<lambda>i. 0xcc),
     IoCreateDevice = 0, IoCreateSymbolicLink = 0, GetCurrentProcessId = 1234, dwPageSize = 4096, nt_cpu = 0\<rparr>"

definition sample_boot_win :: win_sys where
  "sample_boot_win =
    \<lparr>nt_phys = (\<lambda>a. 0), nt_pat = (\<lambda>cpu. 0x0007040600070406), nt_trace = [], device_object = False,
     symbolic_link = False, driver_unload = False, major_function = replicate 28 Dispatch_default,
     win_fd = False, win_pagesize = 0, win_paging_root = 0, win_definition = zero_definition,
     win_resolve_ptr = Resolve_null, win_update_ptr = Update_null\<rparr>"

definition sample_win :: win_sys where
  "sample_win = (snd (DriverEntry sample_nt sample_boot_win))
     \<lparr>win_fd := True, win_pagesize := 4096, win_paging_root := 0x1000, win_definition := x86_definition\<rparr>"

lemma sample_lookup: "PsLookupProcessByProcessId sample_nt (GetCurrentProcessId sample_nt) = Some 1"
  by (simp add: sample_nt_def)

lemma length_fill_table [simp]: "length (fill_table t n) = length t"
  unfolding fill_table_def by (induction n) simp_all

lemma nth_fill_table:
  "n \<le> length t \<Longrightarrow> i < length t \<Longrightarrow> fill_table t n ! i = (if i < n then Dispatch_pass_thru else t ! i)"
proof (induction n)
  case (Suc n)
  have "fill_table t (Suc n) = (fill_table t n)[n := Dispatch_pass_thru]" by (simp add: fill_table_def)
  then show ?case using Suc by (auto simp: nth_list_update less_Suc_eq)
qed (simp add: fill_table_def)

lemma sample_connected: "connected sample_win"
  by (simp add: sample_win_def connected_def DriverEntry_def sample_nt_def sample_boot_win_def NT_SUCCESS_def
      IRP_MJ_DEVICE_CONTROL_def Let_def)

section \<open>Properties of the driver and the library on Windows\<close>

text \<open>
  The physical accessors of the Windows build: a value written through the driver reads back, every
  other value that does not overlap it reads as before, and reading changes nothing.
\<close>

theorem phys_val_roundtrip_win:
  assumes "win_acc NT a s" and "win_acc NT b s" and "b = a \<or> apart a b"
  shows "\<exists>t. ptedit_phys_write_pwrite_win NT a v s = Some t
    \<and> ptedit_phys_read_pread_win NT a t = Some (v, t)
    \<and> ptedit_phys_read_pread_win NT b t = Some (if b = a then v else load64 (nt_phys s) b, t)"
  using assms by (rule win_phys.write_then_read)

theorem phys_val_roundtrip_win_witness:
  "\<exists>t. ptedit_phys_write_pwrite_win sample_nt 0x4000 77 sample_win = Some t
    \<and> ptedit_phys_read_pread_win sample_nt 0x4000 t = Some (77, t)
    \<and> ptedit_phys_read_pread_win sample_nt 0x4008 t = Some (load64 (nt_phys sample_win) 0x4008, t)"
proof -
  have "win_acc sample_nt 0x4000 sample_win" "win_acc sample_nt 0x4008 sample_win"
    using sample_connected by (simp_all add: win_acc_def nt_serves_def sample_nt_def)
  from phys_val_roundtrip_win [OF this, of 77] show ?thesis by (simp add: apart_def)
qed

lemma read_page_win:
  assumes "connected s" and "win_pagesize s = 4096" and "nt_serves NT (pfn * 4096) 4096" and "length buffer = 4096"
  shows "ptedit_read_physical_page_win NT pfn buffer s = Some (load_bytes (nt_phys s) (pfn * 4096) 4096, s)"
proof -
  let ?b = "system_buffer NT (bytes64 (pfn * 4096)) buffer"
  have "ctl_read_physical NT 4096 ?b s = Some (load_bytes (nt_phys s) (pfn * 4096) 4096, 4096, s)"
    using assms by (simp add: ctl_read_physical_def nt_serves_def buffer_write_full Let_def)
  then show ?thesis
    using assms DeviceIoControl_connected [of s NT PTEDITOR_READ_PAGE "bytes64 (pfn * 4096)" buffer]
    by (simp add: dispatch_codes ptedit_read_physical_page_win_def Let_def)
qed

lemma write_page_win:
  assumes "connected s" and "win_pagesize s = 4096" and "nt_serves NT (pfn * 4096) 4096" and "length content = 4096"
  shows "ptedit_write_physical_page_win NT pfn content s = Some (s\<lparr>nt_phys := store_bytes (nt_phys s) (pfn * 4096) content\<rparr>)"
proof -
  let ?page = "content @ bytes64 (pfn * 4096)"
  have "ctl_write_page NT ?page s = Some (?page, 0, s\<lparr>nt_phys := store_bytes (nt_phys s) (pfn * 4096) content\<rparr>)"
    using assms buffer_u64_after [of content 4096 "pfn * 4096" "[]"]
    by (simp add: ctl_write_page_def nt_serves_def buffer_read_first Let_def)
  then show ?thesis
    using assms DeviceIoControl_connected [of s NT PTEDITOR_WRITE_PAGE ?page ?page]
    by (simp add: dispatch_codes system_buffer_same ptedit_write_physical_page_win_def Let_def)
qed

text \<open>
  Physical pages on Windows: the page structure of the library and the one of the driver agree, so
  a written page reads back and no byte outside the page changes.
\<close>

theorem physical_page_roundtrip_win:
  assumes "connected s" and "win_pagesize s = 4096" and "nt_serves NT (pfn * 4096) 4096"
    and "length content = 4096" and "length buffer = 4096"
  shows "\<exists>t. ptedit_write_physical_page_win NT pfn content s = Some t
    \<and> ptedit_read_physical_page_win NT pfn buffer t = Some (content, t)
    \<and> (\<forall>b. 4096 \<le> unat (b - pfn * 4096) \<longrightarrow> nt_phys t b = nt_phys s b)"
proof -
  let ?t = "s\<lparr>nt_phys := store_bytes (nt_phys s) (pfn * 4096) content\<rparr>"
  have "load_bytes (nt_phys ?t) (pfn * 4096) 4096 = content"
    using load_bytes_store_bytes [of content "nt_phys s" "pfn * 4096"] assms(4) by simp
  moreover have "connected ?t" using assms(1) by (simp add: connected_def)
  ultimately have "ptedit_read_physical_page_win NT pfn buffer ?t = Some (content, ?t)"
    using read_page_win [of ?t NT pfn buffer] assms(2,3,5) by simp
  then show ?thesis using write_page_win [OF assms(1-4)] assms(4) by (simp add: store_bytes_apply)
qed

theorem physical_page_roundtrip_win_witness:
  "\<exists>t. ptedit_write_physical_page_win sample_nt 5 (replicate 4096 0x41) sample_win = Some t
    \<and> ptedit_read_physical_page_win sample_nt 5 (replicate 4096 0) t = Some (replicate 4096 0x41, t)"
proof -
  have "win_pagesize sample_win = 4096" "nt_serves sample_nt (5 * 4096) 4096"
    by (simp_all add: sample_win_def nt_serves_def sample_nt_def)
  from physical_page_roundtrip_win [OF sample_connected this, of "replicate 4096 0x41" "replicate 4096 0"]
  show ?thesis by auto
qed

text \<open>
  Setting the paging root on Windows: the driver attaches to the process, loads the control
  register and detaches, and then, for want of a \<open>break\<close>, flushes the TLB entry of the page whose
  address is the process id.  For a process that does not exist only this flush happens.
\<close>

theorem set_paging_root_win_flushes:
  assumes "connected s" and "proc \<noteq> 0"
  shows "ptedit_set_paging_root_win NT proc root s = Some (nt_emit
     (case PsLookupProcessByProcessId NT proc of
        Some p \<Rightarrow> [Attach p, Write_cr3 root, Detach p, Invlpg_all proc]
      | None \<Rightarrow> [Invlpg_all proc]) s)"
proof -
  let ?info = "bytes64 proc @ bytes64 root"
  have "ctl_set_cr3 NT ?info s = Some (?info, 0, nt_emit
     (case PsLookupProcessByProcessId NT proc of
        Some p \<Rightarrow> [Attach p, Write_cr3 root, Detach p, Invlpg_all proc]
      | None \<Rightarrow> [Invlpg_all proc]) s)"
    using buffer_u64_second [of proc root "[]"]
    by (simp add: ctl_set_cr3_def ctl_flush_tlb_def nt_emit_def split: option.split)
  then show ?thesis
    using assms DeviceIoControl_connected [of s NT PTEDITOR_SET_CR3 ?info ?info]
    by (simp add: dispatch_codes system_buffer_same ptedit_set_paging_root_win_def Let_def)
qed

theorem set_paging_root_win_flushes_witness:
  "map_option nt_trace (ptedit_set_paging_root_win sample_nt 1234 0x5000 sample_win) =
     Some [Attach 1, Write_cr3 0x5000, Detach 1, Invlpg_all 1234]"
  using set_paging_root_win_flushes [OF sample_connected, of 1234 sample_nt "0x5000"]
  by (simp add: nt_emit_def sample_nt_def sample_win_def DriverEntry_def NT_SUCCESS_def sample_boot_win_def Let_def)

text \<open>
  Memory types on Windows: reading returns the register of the CPU, but setting them has no effect
  at all, because the request that is sent is the one that reads; the request that would program the
  register on every CPU exists in the driver.
\<close>

theorem set_mts_win_no_effect:
  assumes "connected s"
  shows "ptedit_get_mts_win NT s = Some (nt_pat s (nt_cpu NT), s)
    \<and> ptedit_set_mts_win NT mts s = Some s
    \<and> DispatchDeviceCtl NT PTEDITOR_SET_PAT (bytes64 mts) s =
        Some (STATUS_SUCCESS, 0, bytes64 mts, s\<lparr>nt_pat := (\<lambda>cpu. mts)\<rparr>)"
proof -
  have get: "ctl_get_pat NT (bytes64 x) s = Some (bytes64 (nt_pat s (nt_cpu NT)), 8, s)" for x
    by (simp add: ctl_get_pat_def buffer_write_first)
  have "ctl_set_pat NT (bytes64 mts) s = Some (bytes64 mts, 0, s\<lparr>nt_pat := (\<lambda>cpu. mts)\<rparr>)"
    using buffer_u64_first [of mts "[]"] by (simp add: ctl_set_pat_def)
  then show ?thesis
    using get assms DeviceIoControl_connected [of s NT PTEDITOR_GET_PAT "bytes64 0" "bytes64 0"]
      DeviceIoControl_connected [of s NT PTEDITOR_GET_PAT "bytes64 mts" "bytes64 mts"]
    by (simp add: dispatch_codes system_buffer_same ptedit_get_mts_win_def ptedit_set_mts_win_def)
qed

theorem set_mts_win_no_effect_witness: "ptedit_set_mts_win sample_nt 0 sample_win = Some sample_win"
  using set_mts_win_no_effect [OF sample_connected] by blast

definition ctl_codes :: "nat set" where
  "ctl_codes = {PTEDITOR_READ_PAGE, PTEDITOR_WRITE_PAGE, PTEDITOR_GET_CR3, PTEDITOR_SET_CR3, PTEDITOR_FLUSH_TLB,
     PTEDITOR_READ_PHYS_VAL, PTEDITOR_WRITE_PHYS_VAL, PTEDITOR_SET_PAT, PTEDITOR_GET_PAT}"

lemma buffer_short: "length b < n + 8 \<Longrightarrow> buffer_u64 b n = None"
  by (simp add: buffer_u64_def buffer_read_def)

lemma buffer_long: "n + 8 \<le> length b \<Longrightarrow> \<exists>v. buffer_u64 b n = Some v"
  by (simp add: buffer_u64_def buffer_read_def)

lemmas ctl_defs = ctl_write_page_def ctl_read_physical_def ctl_get_cr3_def ctl_set_cr3_def ctl_flush_tlb_def
  ctl_write_phys_val_def ctl_get_pat_def ctl_set_pat_def

lemma dispatch_other: "code \<notin> ctl_codes \<Longrightarrow> DispatchDeviceCtl NT code b s = Some (STATUS_INVALID_PARAMETER, 0, b, s)"
  by (simp add: DispatchDeviceCtl_def ctl_codes_def)

lemma dispatch_short:
  assumes "length b < 8" and "code \<in> ctl_codes"
  shows "DispatchDeviceCtl NT code b s = None"
proof -
  have none: "buffer_u64 b 0 = None" "buffer_u64 b 8 = None" "buffer_u64 b 4096 = None"
    using assms(1) by (simp_all add: buffer_short)
  have "ctl_get_pat NT b s = None" using assms(1) by (simp add: ctl_get_pat_def buffer_write_def)
  then show ?thesis
    using assms(2) none by (elim ctl_codes_def [THEN equalityD1, THEN subsetD, THEN insertE] insertE)
      (simp_all add: dispatch_codes ctl_defs)
qed

lemma dispatch_long:
  assumes "4104 \<le> length b"
  shows "DispatchDeviceCtl NT code b s \<noteq> None"
proof -
  obtain x y z where some: "buffer_u64 b 0 = Some x" "buffer_u64 b 8 = Some y" "buffer_u64 b 4096 = Some z"
    using buffer_long [of 0 b] buffer_long [of 8 b] buffer_long [of 4096 b] assms by auto
  have "buffer_read b 0 4096 = Some (take 4096 b)" using assms by (simp add: buffer_read_def)
  then have "ctl_write_page NT b s \<noteq> None" "ctl_read_physical NT 4096 b s \<noteq> None" "ctl_get_cr3 NT b s \<noteq> None"
    "ctl_set_cr3 NT b s \<noteq> None" "ctl_flush_tlb NT b s \<noteq> None" "ctl_read_physical NT 8 b s \<noteq> None"
    "ctl_write_phys_val NT b s \<noteq> None" "ctl_get_pat NT b s \<noteq> None" "ctl_set_pat NT b s \<noteq> None"
    using some assms
    by (simp_all add: ctl_defs buffer_write_def Let_def split: option.split prod.split)
  then show ?thesis
    unfolding DispatchDeviceCtl_def Let_def by (simp split: if_split del: not_None_eq)
qed

text \<open>
  C35. The driver does not check the length of a buffer: for a buffer shorter than eight bytes every
  request it knows accesses memory beyond the buffer, and only unknown requests are refused.  A buffer
  as large as the page structure is always enough.
\<close>

theorem dispatch_buffer_bounds:
  "(length b < 8 \<longrightarrow> (DispatchDeviceCtl NT code b s = None \<longleftrightarrow> code \<in> ctl_codes))
   \<and> (4104 \<le> length b \<longrightarrow> DispatchDeviceCtl NT code b s \<noteq> None)
   \<and> (code \<notin> ctl_codes \<longrightarrow> DispatchDeviceCtl NT code b s = Some (STATUS_INVALID_PARAMETER, 0, b, s))"
  using dispatch_short [of b code NT s] dispatch_long [of b NT code s] dispatch_other [of code NT b s]
  by (cases "code \<in> ctl_codes") simp_all

theorem dispatch_buffer_bounds_witness:
  "DispatchDeviceCtl sample_nt PTEDITOR_FLUSH_TLB [1, 2, 3, 4] sample_win = None"
  using dispatch_buffer_bounds [of "[1, 2, 3, 4]" sample_nt PTEDITOR_FLUSH_TLB sample_win] by (simp add: ctl_codes_def)

lemma DriverEntry_success:
  assumes "DriverEntry NT s = (st, t)" and "NT_SUCCESS st"
  shows "t = s\<lparr>driver_unload := True, device_object := True, symbolic_link := True,
    major_function := (fill_table (major_function s) 27)[14 := Dispatch_device_ctl]\<rparr>"
  using assms by (auto simp: DriverEntry_def IRP_MJ_MAXIMUM_FUNCTION_def IRP_MJ_DEVICE_CONTROL_def Let_def split: if_splits)

lemma DriverEntry_failure:
  assumes "DriverEntry NT s = (st, t)" and "\<not> NT_SUCCESS st"
  shows "major_function t = major_function s \<and> symbolic_link t = symbolic_link s
    \<and> (device_object s \<or> \<not> device_object t)"
  using assms by (auto simp: DriverEntry_def Let_def split: if_splits)

text \<open>
  C34. Loading and unloading the driver: either the device, its link and the dispatch table are all set
  up, or neither device nor link is left behind; the table serves control requests and passes the
  other requests through, except for the last entry, which the loop does not reach; unloading removes
  device and link.
\<close>

theorem driver_entry_unload:
  assumes "DriverEntry NT s = (st, t)" and "length (major_function s) = 28"
    and "\<not> device_object s" and "\<not> symbolic_link s"
  shows "device_object t = NT_SUCCESS st \<and> symbolic_link t = NT_SUCCESS st
    \<and> (\<forall>i<27. major_function t ! i =
          (if \<not> NT_SUCCESS st then major_function s ! i
           else if i = IRP_MJ_DEVICE_CONTROL then Dispatch_device_ctl else Dispatch_pass_thru))
    \<and> major_function t ! 27 = major_function s ! 27
    \<and> \<not> device_object (Unload t) \<and> \<not> symbolic_link (Unload t)"
proof (cases "NT_SUCCESS st")
  case True
  with DriverEntry_success [OF assms(1)] assms(2) show ?thesis
    by (auto simp: nth_list_update nth_fill_table IRP_MJ_DEVICE_CONTROL_def Unload_def)
next
  case False
  with DriverEntry_failure [OF assms(1)] assms(3,4) show ?thesis by (auto simp: Unload_def)
qed

theorem driver_entry_unload_witness:
  "device_object sample_win \<and> major_function sample_win ! 27 = Dispatch_default"
proof -
  obtain st t where t: "DriverEntry sample_nt sample_boot_win = (st, t)" by fastforce
  then have "NT_SUCCESS st" by (auto simp: DriverEntry_def sample_nt_def NT_SUCCESS_def Let_def)
  then show ?thesis
    using driver_entry_unload [OF t] t by (simp add: sample_boot_win_def sample_win_def)
qed

text \<open>
  With the driver loaded the library comes up: \<open>ptedit_init\<close> returns 0, is connected to the driver,
  takes the root of the current process without its attribute bits and the x86 paging definition;
  without the driver it returns -1.
\<close>

theorem driver_then_init_win:
  assumes "DriverEntry NT s = (st, t)" and "length (major_function s) = 28" and "\<not> symbolic_link s"
    and "PsLookupProcessByProcessId NT (GetCurrentProcessId NT) = Some p"
  shows "if NT_SUCCESS st
    then \<exists>u. ptedit_init_win NT t = Some (0, u) \<and> connected u \<and> win_definition u = x86_definition
             \<and> win_paging_root u = readcr3 NT p AND NOT 0xfff \<and> nt_phys u = nt_phys s
    else ptedit_init_win NT t = Some (- 1, t\<lparr>win_fd := False\<rparr>)"
proof (cases "NT_SUCCESS st")
  case False
  with DriverEntry_failure [OF assms(1)] assms(3) show ?thesis
    by (simp add: ptedit_init_win_def CreateFile_def Let_def)
next
  case True
  note t = DriverEntry_success [OF assms(1) True]
  let ?u = "t\<lparr>win_fd := True, win_resolve_ptr := Resolve_user, win_update_ptr := Update_user\<rparr>"
  have conn: "connected ?u" using assms(2) by (simp add: t connected_def IRP_MJ_DEVICE_CONTROL_def)
  have opens: "CreateFile t"
    using assms(2) by (simp add: t CreateFile_def nth_list_update nth_fill_table IRP_MJ_CREATE_def DispatchPassThru_def)
  have "ptedit_get_paging_root_win NT 0 ?u = Some (readcr3 NT p AND size_of_int (NOT 0xfff), nt_emit [Attach p, Detach p] ?u)"
    using get_paging_root_win [OF conn, of NT 0] assms(4) by simp
  then show ?thesis
    using True opens conn
    by (simp add: ptedit_init_win_def ptedit_use_implementation_win_def Let_def nt_emit_def connected_def t size_of_int_def)
qed

theorem driver_then_init_win_witness:
  "map_option fst (ptedit_init_win sample_nt (snd (DriverEntry sample_nt sample_boot_win))) = Some 0"
proof -
  obtain st t where t: "DriverEntry sample_nt sample_boot_win = (st, t)" by fastforce
  then have "NT_SUCCESS st" by (auto simp: DriverEntry_def sample_nt_def NT_SUCCESS_def Let_def)
  then have "\<exists>u. ptedit_init_win sample_nt t = Some (0, u)"
    using driver_then_init_win [OF t, of 1] sample_lookup by (auto simp: sample_boot_win_def)
  then show ?thesis by (auto simp: t)
qed

end
