(* ===== verification/PT_WinWalk.thy ===== *)
theory PT_WinWalk
  imports PT_Windows
begin

text \<open>
  The page walk and the update of the library on Windows.  The code is that of the Linux build, with
  the driver behind every access to physical memory; the steps of \<open>PT_Library\<close> are run on the static
  variables of the Windows build, and the contract \<open>phys_access\<close> of \<open>PT_Walk\<close> is interpreted on the
  requests to the driver.
\<close>

section \<open>The walk on the state of the Windows build\<close>

text \<open>
  The static variables the walk reads, with the memory they are about.  The other components are those
  of a program that has not called the library yet.
\<close>

definition win_statics :: "win_sys \<Rightarrow> sys" where
  "win_statics s =
     (start_sys (initial_kstate (nt_phys s) (\<lambda>p. 0) (nt_pat s)))
       \<lparr>ptedit_paging_definition := win_definition s, ptedit_paging_root := win_paging_root s\<rparr>"

text \<open>The accessors, called while physical memory is that of the walk.\<close>

definition win_deref :: "nt \<Rightarrow> win_sys \<Rightarrow> deref_fn" where
  "win_deref NT s a g = map_option fst (ptedit_phys_read_pread_win NT a (s\<lparr>nt_phys := phys g\<rparr>))"

definition win_pset :: "nt \<Rightarrow> win_sys \<Rightarrow> pset_fn" where
  "win_pset NT s a v g =
     map_option (\<lambda>t. g\<lparr>phys := nt_phys t\<rparr>) (ptedit_phys_write_pwrite_win NT a v (s\<lparr>nt_phys := phys g\<rparr>))"

definition user_root_win :: "nt \<Rightarrow> u64 \<Rightarrow> win_sys \<Rightarrow> (u64 \<times> win_sys) option" where
  "user_root_win NT proc s = do {
     (root, s) \<leftarrow> (if proc = 0 then Some (win_paging_root s, s) else ptedit_get_paging_root_win NT proc s);
     Some (root AND size_of_int (NOT 1), s)
   }"

definition ptedit_resolve_user_ext_win ::
  "nt \<Rightarrow> u64 \<Rightarrow> u64 \<Rightarrow> (win_sys \<Rightarrow> deref_fn) \<Rightarrow> win_sys \<Rightarrow> (ptedit_entry_t \<times> win_sys) option" where
  "ptedit_resolve_user_ext_win NT address proc deref s = do {
     (root, s) \<leftarrow> user_root_win NT proc s;
     let g = win_statics s;
     let resolved = zero_entry\<lparr>vaddr := address, pid := proc, valid := 0\<rparr>;
     if root = 0 then Some (resolved, s)
     else do {
       pgd_entry \<leftarrow> deref s (root + size_of_int (level_index_int (ptedit_paging_definition g) PGD address)
                               * ptedit_entry_size g) g;
       if cast_present X86_64 pgd_entry \<noteq> PTEDIT_PAGE_PRESENT X86_64 then Some (resolved, s)
       else do {
         e \<leftarrow> resolve_user_p4d X86_64 (deref s) address pgd_entry
               (resolved\<lparr>pgd := pgd_entry, valid := valid resolved OR valid_mask PGD\<rparr>) g;
         Some (e, s)
       }
     }
   }"

definition ptedit_resolve_user_win :: "nt \<Rightarrow> u64 \<Rightarrow> u64 \<Rightarrow> win_sys \<Rightarrow> (ptedit_entry_t \<times> win_sys) option" where
  "ptedit_resolve_user_win NT address proc = ptedit_resolve_user_ext_win NT address proc (win_deref NT)"

text \<open>The kernel implementation has no Windows part: it prints a message and returns the request.\<close>

definition ptedit_resolve_kernel_win :: "u64 \<Rightarrow> u64 \<Rightarrow> win_sys \<Rightarrow> (ptedit_entry_t \<times> win_sys) option" where
  "ptedit_resolve_kernel_win address proc s = Some (zero_entry\<lparr>vaddr := address, pid := proc\<rparr>, s)"

definition ptedit_update_kernel_win ::
  "u64 \<Rightarrow> u64 \<Rightarrow> ptedit_entry_t \<Rightarrow> win_sys \<Rightarrow> (ptedit_entry_t \<times> win_sys) option" where
  "ptedit_update_kernel_win address proc vm s = Some (vm\<lparr>vaddr := address, pid := proc\<rparr>, s)"

text \<open>
  The call through \<open>ptedit_resolve\<close>.  The third implementation reads through \<open>ptedit_vmem\<close>, which the
  Windows build never sets.
\<close>

definition ptedit_resolve_win :: "nt \<Rightarrow> u64 \<Rightarrow> u64 \<Rightarrow> win_sys \<Rightarrow> (ptedit_entry_t \<times> win_sys) option" where
  "ptedit_resolve_win NT address proc s =
     (case win_resolve_ptr s of
        Resolve_null \<Rightarrow> None
      | Resolve_kernel \<Rightarrow> ptedit_resolve_kernel_win address proc s
      | Resolve_user \<Rightarrow> ptedit_resolve_user_win NT address proc s
      | Resolve_user_map \<Rightarrow> None)"

definition ptedit_update_user_ext_win ::
  "nt \<Rightarrow> u64 \<Rightarrow> u64 \<Rightarrow> ptedit_entry_t \<Rightarrow> (win_sys \<Rightarrow> pset_fn) \<Rightarrow> win_sys \<Rightarrow> win_sys option" where
  "ptedit_update_user_ext_win NT address proc vm pset s = do {
     (current, s) \<leftarrow> ptedit_resolve_win NT address proc s;
     (root, s) \<leftarrow> user_root_win NT proc s;
     let D = win_definition s;
     if root = 0 then Some s
     else do {
       g \<leftarrow> update_user_level X86_64 (pset s) PTE True address vm current (pmd current) (win_statics s);
       g \<leftarrow> update_user_level X86_64 (pset s) PMD (has_pmd D) address vm current (pud current) g;
       g \<leftarrow> update_user_level X86_64 (pset s) PUD (has_pud D) address vm current (p4d current) g;
       g \<leftarrow> update_user_level X86_64 (pset s) P4D (has_p4d D) address vm current (pgd current) g;
       g \<leftarrow> (if has_valid (valid vm) PGD \<and> has_valid (valid current) PGD \<and> has_pgd D then
               pset s (root + level_index D PGD address * ptedit_entry_size g) (pgd vm) g
             else Some g);
       ptedit_invalidate_tlb_pid_win NT proc address (s\<lparr>nt_phys := phys g\<rparr>)
     }
   }"

definition ptedit_update_user_win ::
  "nt \<Rightarrow> u64 \<Rightarrow> u64 \<Rightarrow> ptedit_entry_t \<Rightarrow> win_sys \<Rightarrow> (ptedit_entry_t \<times> win_sys) option" where
  "ptedit_update_user_win NT address proc vm s = do {
     s \<leftarrow> ptedit_update_user_ext_win NT address proc vm (win_pset NT) s;
     s \<leftarrow> ptedit_invalidate_tlb_pid_win NT proc address s;
     Some (vm, s)
   }"

definition ptedit_update_win ::
  "nt \<Rightarrow> u64 \<Rightarrow> u64 \<Rightarrow> ptedit_entry_t \<Rightarrow> win_sys \<Rightarrow> (ptedit_entry_t \<times> win_sys) option" where
  "ptedit_update_win NT address proc vm s =
     (case win_update_ptr s of
        Update_null \<Rightarrow> None
      | Update_kernel \<Rightarrow> ptedit_update_kernel_win address proc vm s
      | Update_user \<Rightarrow> ptedit_update_user_win NT address proc vm s
      | Update_user_map \<Rightarrow> None)"

section \<open>The driver behind the walk\<close>

lemma win_statics_simps [simp]:
  "phys (win_statics s) = nt_phys s" "ptedit_paging_definition (win_statics s) = win_definition s"
  "lib_const (win_statics s)"
  by (simp_all add: win_statics_def start_sys_def initial_kstate_def kstate.defs lib_const_def)

definition walk_acc :: "nt \<Rightarrow> win_sys \<Rightarrow> u64 \<Rightarrow> sys \<Rightarrow> bool" where
  "walk_acc NT s a g \<longleftrightarrow> win_acc NT a s"

lemma win_acc_content: "win_acc NT a (s\<lparr>nt_phys := m\<rparr>) = win_acc NT a s"
  by (simp add: win_acc_def connected_def)

interpretation win_walk: phys_access "\<lambda>OS. win_deref NT s" "\<lambda>OS. win_pset NT s" "\<lambda>OS. walk_acc NT s" for NT s
proof
  show "walk_acc NT s a g \<Longrightarrow> win_deref NT s a g = Some (load64 (phys g) a)" for a g
    using phys_read_win [of NT a "s\<lparr>nt_phys := phys g\<rparr>"]
    by (simp add: walk_acc_def win_deref_def win_acc_content)
  show "walk_acc NT s a g \<Longrightarrow> win_pset NT s a v g = Some (g\<lparr>phys := store64 (phys g) a v\<rparr>)" for a v g
    using phys_write_win [of NT a "s\<lparr>nt_phys := phys g\<rparr>"]
    by (simp add: walk_acc_def win_pset_def win_acc_content)
  show "walk_acc NT s a g \<Longrightarrow> same_lib g h \<Longrightarrow> walk_acc NT s a h" for a g h
    by (simp add: walk_acc_def)
qed

text \<open>The root of a process, and the events of requesting it, do not depend on the trace.\<close>

definition root_events :: "nt \<Rightarrow> u64 \<Rightarrow> nt_event list" where
  "root_events NT proc =
     (if proc = 0 then []
      else case PsLookupProcessByProcessId NT proc of Some p \<Rightarrow> [Attach p, Detach p] | None \<Rightarrow> [])"

definition root_of :: "nt \<Rightarrow> u64 \<Rightarrow> win_sys \<Rightarrow> u64" where
  "root_of NT proc s =
     (if proc = 0 then win_paging_root s
      else case PsLookupProcessByProcessId NT proc of
             Some p \<Rightarrow> readcr3 NT p AND NOT 0xfff | None \<Rightarrow> 0) AND NOT 1"

lemma user_root_win:
  assumes "connected s"
  shows "user_root_win NT proc s = Some (root_of NT proc s, nt_emit (root_events NT proc) s)"
  using get_paging_root_win [OF assms, of NT proc]
  by (simp add: user_root_win_def root_of_def root_events_def size_of_int_def nt_emit_nil split: option.split)

lemma resolve_user_win_walk:
  assumes conn: "connected s" and wf: "wf_definition (win_definition s)" and root: "root_of NT proc s \<noteq> 0"
    and W: "W = lib_walk X86_64 (win_definition s) (nt_phys s) (root_of NT proc s) addr"
    and acc: "\<forall>(l, slot, v) \<in> set W. win_acc NT slot s"
    and present: "cast_present X86_64 (snd (snd (hd W))) = PTEDIT_PAGE_PRESENT X86_64"
  shows "\<exists>e. ptedit_resolve_user_win NT addr proc s = Some (e, nt_emit (root_events NT proc) s)
    \<and> matches X86_64 (win_definition s) addr W e \<and> vaddr e = addr \<and> pid e = proc"
proof -
  define t where "t = nt_emit (root_events NT proc) s"
  define g where "g = win_statics t"
  let ?D = "ptedit_paging_definition g"
  let ?z = "zero_entry\<lparr>vaddr := addr, pid := proc, valid := 0\<rparr>"
  have D: "?D = win_definition s" and const: "lib_const g" and m: "phys g = nt_phys s"
    by (simp_all add: g_def t_def)
  have W': "W = lib_walk X86_64 ?D (phys g) (root_of NT proc s) addr" by (simp add: W D m)
  have acc': "granted (walk_acc NT t) W g" using acc by (auto simp: granted_def walk_acc_def t_def)
  obtain e x where "win_deref NT t (root_of NT proc s + size_of_int (level_index_int ?D PGD addr) * ptedit_entry_size g) g = Some e"
    "cast_present X86_64 e = PTEDIT_PAGE_PRESENT X86_64"
    "resolve_user_p4d X86_64 (win_deref NT t) addr e (?z\<lparr>pgd := e, valid := valid ?z OR valid_mask PGD\<rparr>) g = Some x"
    "matches X86_64 ?D addr W x" "vaddr x = addr" "pid x = proc"
    using win_walk.walk_from_pgd [OF const _ W' acc' present, of ?z] wf by (auto simp: D)
  then show ?thesis
    using root user_root_win [OF conn, of NT proc]
    by (simp add: ptedit_resolve_user_win_def ptedit_resolve_user_ext_win_def D Let_def g_def t_def)
qed
lemma update_user_win_writes:
  assumes conn: "connected s" and wf: "wf_definition (win_definition s)" and root: "root_of NT proc s \<noteq> 0"
    and W: "W = lib_walk X86_64 (win_definition s) (nt_phys s) (root_of NT proc s) addr"
    and acc: "\<forall>(l, slot, v) \<in> set W. win_acc NT slot s"
    and present: "cast_present X86_64 (snd (snd (hd W))) = PTEDIT_PAGE_PRESENT X86_64"
    and ptr: "win_resolve_ptr s = Resolve_user"
  shows "ptedit_update_user_win NT addr proc vm s = Some (vm,
    nt_emit (root_events NT proc @ root_events NT proc @ [Invlpg_all addr, Invlpg_all addr])
      (s\<lparr>nt_phys := write_back vm (by_level W [PTE, PMD, PUD, P4D, PGD]) (nt_phys s)\<rparr>))"
proof -
  define t where "t = nt_emit (root_events NT proc @ root_events NT proc) s"
  define g where "g = win_statics t"
  define m where "m = write_back vm (by_level W [PTE, PMD, PUD, P4D, PGD]) (nt_phys s)"
  let ?D = "win_definition s"
  have D: "ptedit_paging_definition g = ?D" and const: "lib_const g" and phys: "phys g = nt_phys s"
    by (simp_all add: g_def t_def)
  obtain cur where cur: "ptedit_resolve_user_win NT addr proc s = Some (cur, nt_emit (root_events NT proc) s)"
    and match: "matches X86_64 ?D addr W cur"
    using resolve_user_win_walk [OF conn wf root W acc present] by blast
  have root': "user_root_win NT proc (nt_emit (root_events NT proc) s) = Some (root_of NT proc s, t)"
    using user_root_win [of "nt_emit (root_events NT proc) s" NT proc] conn
    by (simp add: root_of_def t_def nt_emit_emit)
  have acc': "granted (walk_acc NT t) W g" using acc by (auto simp: granted_def walk_acc_def t_def)
  obtain g1 g2 g3 g4 where writes:
    "update_user_level X86_64 (win_pset NT t) PTE True addr vm cur (pmd cur) g = Some g1"
    "update_user_level X86_64 (win_pset NT t) PMD (has_pmd ?D) addr vm cur (pud cur) g1 = Some g2"
    "update_user_level X86_64 (win_pset NT t) PUD (has_pud ?D) addr vm cur (p4d cur) g2 = Some g3"
    "update_user_level X86_64 (win_pset NT t) P4D (has_p4d ?D) addr vm cur (pgd cur) g3 = Some g4"
    "(if has_valid (valid vm) PGD \<and> has_valid (valid cur) PGD \<and> has_pgd ?D
       then win_pset NT t (root_of NT proc s + level_index ?D PGD addr * ptedit_entry_size g4) (pgd vm) g4 else Some g4) =
      Some (g\<lparr>phys := m\<rparr>)"
    using win_walk.levels_written [OF const D wf W match acc', of vm] unfolding phys m_def by blast
  have D': "win_definition t = ?D" by (simp add: t_def)
  have conn': "connected (t\<lparr>nt_phys := m\<rparr>)" using conn by (simp add: t_def connected_def nt_emit_def)
  have "ptedit_update_user_ext_win NT addr proc vm (win_pset NT) s =
      Some (nt_emit [Invlpg_all addr] (t\<lparr>nt_phys := m\<rparr>))"
    using root invalidate_tlb_pid_win [OF conn', of NT proc addr]
    by (simp add: ptedit_update_user_ext_win_def ptedit_resolve_win_def ptr cur root' writes [folded D'] Let_def flip: g_def split del: if_split)
  moreover have "t\<lparr>nt_phys := m\<rparr> = nt_emit (root_events NT proc @ root_events NT proc) (s\<lparr>nt_phys := m\<rparr>)"
    by (simp add: t_def nt_emit_def)
  ultimately show ?thesis
    using conn' invalidate_tlb_pid_win [of "nt_emit [Invlpg_all addr] (t\<lparr>nt_phys := m\<rparr>)" NT proc addr]
    by (simp add: ptedit_update_user_win_def nt_emit_emit m_def [symmetric])
qed

section \<open>Properties of the walk on Windows\<close>

definition sample_win_tables :: win_sys where
  "sample_win_tables = sample_win\<lparr>nt_phys := sample_mem, win_resolve_ptr := Resolve_user, win_update_ptr := Update_user\<rparr>"

lemma sample_win_tables_facts:
  "connected sample_win_tables" "win_definition sample_win_tables = x86_definition"
  "nt_phys sample_win_tables = sample_mem" "root_of sample_nt 0 sample_win_tables = 0x1000"
  "root_events sample_nt 0 = []" "win_resolve_ptr sample_win_tables = Resolve_user"
  "win_acc sample_nt 0x1000 sample_win_tables" "win_acc sample_nt 0x2008 sample_win_tables"
  "win_acc sample_nt 0x3008 sample_win_tables" "win_acc sample_nt 0x4008 sample_win_tables"
  using sample_connected
  by (simp_all add: sample_win_tables_def connected_def win_acc_def nt_serves_def root_of_def root_events_def)
    (simp_all add: sample_win_def sample_nt_def)

text \<open>
  C32. The library on Windows performs the hardware's page walk too, with every entry read by a request
  to the driver: where the PGD entry is present, no entry on the way maps a 1 GB page and the frame
  numbers on the way are below 2^28, it returns an entry whose valid levels are
  exactly those the hardware visits, with the entries the hardware reads, and apart from the
  attachment to the process for reading its root it leaves no trace.
\<close>

theorem resolve_user_win_hw_walk:
  assumes "connected s" and "D = win_definition s" and "wf_definition D"
    and "root = root_of NT proc s" and "root \<noteq> 0"
    and "W = hw_walk X86_64 D (nt_phys s) root addr" and "plain_tables X86_64 W"
    and "\<forall>(l, slot, v) \<in> set W. win_acc NT slot s"
    and "cast_present X86_64 (snd (snd (hd W))) = PTEDIT_PAGE_PRESENT X86_64"
  shows "\<exists>e. ptedit_resolve_user_win NT addr proc s = Some (e, nt_emit (root_events NT proc) s)
    \<and> vaddr e = addr \<and> pid e = proc
    \<and> (\<forall>l. has_valid (valid e) l \<longleftrightarrow> l \<in> fst ` set W) \<and> (\<forall>(l, slot, v) \<in> set W. entry_of l e = v)"
proof -
  have "W = lib_walk X86_64 (win_definition s) (nt_phys s) (root_of NT proc s) addr"
    using assms(2,4,6,7) plain_walk by simp
  from resolve_user_win_walk [OF assms(1) assms(3) [unfolded assms(2)] assms(5) [unfolded assms(4)] this assms(8,9)]
  show ?thesis by (rule matches_exI)
qed

theorem resolve_user_win_hw_walk_witness:
  "\<exists>e. ptedit_resolve_user_win sample_nt sample_vaddr 0 sample_win_tables = Some (e, sample_win_tables)
     \<and> has_valid (valid e) PTE \<and> pte e = 0x8000000000005067"
proof -
  let ?W = "hw_walk X86_64 x86_definition sample_mem 0x1000 sample_vaddr"
  have present: "cast_present X86_64 (snd (snd (hd ?W))) = PTEDIT_PAGE_PRESENT X86_64"
    by (simp add: sample_hw_walk cast_present_bits PTEDIT_PAGE_PRESENT_def)
  show ?thesis
    using resolve_user_win_hw_walk [of sample_win_tables x86_definition "0x1000" sample_nt 0 ?W sample_vaddr]
      sample_win_tables_facts wf_definitions(1) sample_plain present
    by (auto simp: sample_hw_walk nt_emit_nil)
qed

text \<open>
  C33. An update on Windows writes exactly the slots of the walk that the request names, each with its
  new entry, from the PTE up to the PGD, and the driver flushes the page on all CPUs afterwards; nothing
  else of memory, the driver or the library changes.
\<close>

theorem update_win_writes_and_flushes:
  assumes "connected s" and "D = win_definition s" and "wf_definition D"
    and "root = root_of NT proc s" and "root \<noteq> 0"
    and "W = lib_walk X86_64 D (nt_phys s) root addr"
    and "\<forall>(l, slot, v) \<in> set W. win_acc NT slot s"
    and "cast_present X86_64 (snd (snd (hd W))) = PTEDIT_PAGE_PRESENT X86_64"
    and "win_resolve_ptr s = Resolve_user" and "win_update_ptr s = Update_user"
  shows "ptedit_update_win NT addr proc vm s = Some (vm,
    nt_emit (root_events NT proc @ root_events NT proc @ [Invlpg_all addr, Invlpg_all addr])
      (s\<lparr>nt_phys := write_back vm (by_level W [PTE, PMD, PUD, P4D, PGD]) (nt_phys s)\<rparr>))"
  using update_user_win_writes [OF assms(1) assms(3) [unfolded assms(2)] assms(5) [unfolded assms(4)]
      assms(6) [unfolded assms(2,4)] assms(7-9), of vm] assms(10)
  by (simp add: ptedit_update_win_def)

theorem update_win_writes_and_flushes_witness:
  "\<exists>u. ptedit_update_win sample_nt sample_vaddr 0 (zero_entry\<lparr>pte := 0x6067, valid := 16\<rparr>) sample_win_tables =
        Some (zero_entry\<lparr>pte := 0x6067, valid := 16\<rparr>, u)
     \<and> nt_phys u = store64 sample_mem 0x4008 0x6067
     \<and> nt_trace u = nt_trace sample_win @ [Invlpg_all sample_vaddr, Invlpg_all sample_vaddr]"
proof -
  let ?W = "lib_walk X86_64 x86_definition sample_mem 0x1000 sample_vaddr"
  let ?vm = "zero_entry\<lparr>pte := 0x6067, valid := 16\<rparr>"
  have present: "cast_present X86_64 (snd (snd (hd ?W))) = PTEDIT_PAGE_PRESENT X86_64"
    by (simp add: sample_walk cast_present_bits PTEDIT_PAGE_PRESENT_def)
  have "write_back ?vm (by_level ?W [PTE, PMD, PUD, P4D, PGD]) sample_mem = store64 sample_mem 0x4008 0x6067"
    by (simp add: sample_walk by_level_def at_level_def write_back_def has_valid_def valid_mask_def ull_bit_def)
  moreover have "win_update_ptr sample_win_tables = Update_user" "nt_trace sample_win_tables = nt_trace sample_win"
    by (simp_all add: sample_win_tables_def)
  ultimately show ?thesis
    using update_win_writes_and_flushes [of sample_win_tables x86_definition "0x1000" sample_nt 0 ?W sample_vaddr ?vm]
      sample_win_tables_facts wf_definitions(1) present
    by (auto simp: nt_emit_def sample_walk)
qed

end
