(* ===== verification/PT_Tests.thy ===== *)
theory PT_Tests
  imports PT_Performance PT_Example PT_MemTypes
begin

text \<open>
  The tests of the repository, \<open>test/tests.c\<close>: each is a function of the state that says whether all its
  assertions hold.  Proving that a test passes relates the expectations that the authors wrote down to
  the model of the library, the module and the processor, and shows what the test relies on.
  The tests that compare access times are not modelled; the loop they measure is.
\<close>

section \<open>Tests of the operations on one entry\<close>

text \<open>A failed assertion ends a test.\<close>

definition test_set_pfn_basic :: "arch \<Rightarrow> bool" where
  "test_set_pfn_basic A \<longleftrightarrow>
     (let entry = 0 in
      entry = ptedit_set_pfn A entry 0 \<and> entry \<noteq> ptedit_set_pfn A entry 1
      \<and> entry = ptedit_set_pfn A (ptedit_set_pfn A entry 1234) 0
      \<and> ptedit_set_pfn A entry 2 > ptedit_set_pfn A entry 1
      \<and> (let entry = - 1 in 0 \<noteq> ptedit_set_pfn A entry 0))"

definition test_apply :: "arch \<Rightarrow> bool" where
  "test_apply A \<longleftrightarrow> (let entry = 0 in ptedit_apply_mt A entry 1 \<noteq> entry \<and> ptedit_apply_mt A entry 0 = entry)"

definition test_apply_huge :: "arch \<Rightarrow> bool" where
  "test_apply_huge A \<longleftrightarrow> (let entry = 0 in ptedit_apply_mt_huge A entry 1 \<noteq> entry \<and> ptedit_apply_mt_huge A entry 0 = entry)"

definition test_extract :: "arch \<Rightarrow> bool" where
  "test_extract A \<longleftrightarrow> ptedit_extract_mt A (ptedit_apply_mt A 0 5) = 5 \<and> ptedit_extract_mt A (ptedit_apply_mt A (- 1) 2) = 2"

definition test_extract_huge :: "arch \<Rightarrow> bool" where
  "test_extract_huge A \<longleftrightarrow>
     ptedit_extract_mt_huge A (ptedit_apply_mt_huge A 0 5) = 5 \<and> ptedit_extract_mt_huge A (ptedit_apply_mt_huge A (- 1) 2) = 2"

section \<open>Tests of resolving an address\<close>

text \<open>\<open>diff\<close> is an \<open>int\<close>, as in the comparison of \<open>demos/performance.c\<close>.\<close>

definition entry_equal :: "ptedit_entry_t \<Rightarrow> ptedit_entry_t \<Rightarrow> bool" where
  "entry_equal e1 e2 =
     (let diff = 0;
          diff = diff_level e1 e2 PGD diff;
          diff = diff_level e1 e2 P4D diff;
          diff = diff_level e1 e2 PUD diff;
          diff = diff_level e1 e2 PMD diff;
          diff = diff_level e1 e2 PTE diff
      in diff = 0)"

type_synonym test = "sys \<Rightarrow> (bool \<times> sys) option"

definition test_resolve_basic :: "os \<Rightarrow> u64 \<Rightarrow> test" where
  "test_resolve_basic OS page1 s = do {
     (vm, s) \<leftarrow> ptedit_resolve OS page1 0 s;
     Some (pgd vm \<noteq> 0 \<and> pte vm \<noteq> 0 \<and> has_valid (valid vm) PTE \<and> has_valid (valid vm) PGD, s)
   }"

definition test_resolve_valid_mask :: "os \<Rightarrow> u64 \<Rightarrow> test" where
  "test_resolve_valid_mask OS page1 s = do {
     (vm, s) \<leftarrow> ptedit_resolve OS page1 0 s;
     Some ((has_valid (valid vm) PGD \<longrightarrow> pgd vm \<noteq> 0) \<and> (has_valid (valid vm) P4D \<longrightarrow> p4d vm \<noteq> 0)
           \<and> (has_valid (valid vm) PMD \<longrightarrow> pmd vm \<noteq> 0) \<and> (has_valid (valid vm) PUD \<longrightarrow> pud vm \<noteq> 0)
           \<and> (has_valid (valid vm) PTE \<longrightarrow> pte vm \<noteq> 0), s)
   }"

definition test_resolve_deterministic :: "os \<Rightarrow> u64 \<Rightarrow> test" where
  "test_resolve_deterministic OS page1 s = do {
     (vm1, s) \<leftarrow> ptedit_resolve OS page1 0 s;
     (vm2, s) \<leftarrow> ptedit_resolve OS page1 0 s;
     Some (entry_equal vm1 vm2, s)
   }"

definition test_resolve_different :: "os \<Rightarrow> u64 \<Rightarrow> u64 \<Rightarrow> test" where
  "test_resolve_different OS page1 page2 s = do {
     (vm1, s) \<leftarrow> ptedit_resolve OS page1 0 s;
     (vm2, s) \<leftarrow> ptedit_resolve OS page2 0 s;
     Some (\<not> entry_equal vm1 vm2, s)
   }"

definition test_resolve_invalid :: "os \<Rightarrow> test" where
  "test_resolve_invalid OS s = do {
     (vm1, s) \<leftarrow> ptedit_resolve OS 0 0 s;
     Some (\<not> has_valid (valid vm1) PTE, s)
   }"

definition test_resolve_invalid_pid :: "os \<Rightarrow> u64 \<Rightarrow> test" where
  "test_resolve_invalid_pid OS page1 s = do {
     (vm1, s) \<leftarrow> ptedit_resolve OS page1 (- 1) s;
     Some (valid vm1 = 0, s)
   }"

definition test_resolve_page_offset :: "os \<Rightarrow> u64 \<Rightarrow> test" where
  "test_resolve_page_offset OS page1 s = do {
     (vm1, s) \<leftarrow> ptedit_resolve OS page1 0 s;
     (vm2, s) \<leftarrow> ptedit_resolve OS (page1 + 1) 0 s;
     if \<not> entry_equal (vm1\<lparr>vaddr := 0\<rparr>) (vm2\<lparr>vaddr := 0\<rparr>) then Some (False, s)
     else do {
       (vm3, s) \<leftarrow> ptedit_resolve OS (page1 + 1024) 0 s;
       if \<not> entry_equal (vm1\<lparr>vaddr := 0\<rparr>) (vm3\<lparr>vaddr := 0\<rparr>) then Some (False, s)
       else do {
         (vm4, s) \<leftarrow> ptedit_resolve OS (page1 + 4095) 0 s;
         Some (entry_equal (vm1\<lparr>vaddr := 0\<rparr>) (vm4\<lparr>vaddr := 0\<rparr>), s)
       }
     }
   }"

section \<open>Tests of updating an address\<close>

definition test_update_nop :: "os \<Rightarrow> u64 \<Rightarrow> u64 \<Rightarrow> test" where
  "test_update_nop OS scratch parts s = do {
     (vm1, s) \<leftarrow> ptedit_resolve OS scratch 0 s;
     if valid vm1 = 0 then Some (False, s)
     else do {
       let v = valid vm1;
       (vm1, s) \<leftarrow> ptedit_update OS scratch 0 (vm1\<lparr>valid := parts\<rparr>) s;
       (vm2, s) \<leftarrow> ptedit_resolve OS scratch 0 s;
       Some (entry_equal (vm1\<lparr>valid := v\<rparr>) vm2, s)
     }
   }"

text \<open>The tests \<open>nop\<close> and \<open>pte_nop\<close> differ in the levels the update names.\<close>

definition test_nop :: "os \<Rightarrow> u64 \<Rightarrow> test" where "test_nop OS scratch = test_update_nop OS scratch 0"
definition test_pte_nop :: "os \<Rightarrow> u64 \<Rightarrow> test" where "test_pte_nop OS scratch = test_update_nop OS scratch (valid_mask PTE)"

definition test_new_pte :: "os \<Rightarrow> u64 \<Rightarrow> test" where
  "test_new_pte OS scratch s = do {
     let A = cfg_arch (os_kernel OS);
     (vm, s) \<leftarrow> ptedit_resolve OS scratch 0 s;
     (vm1, s) \<leftarrow> ptedit_resolve OS scratch 0 s;
     if valid vm1 = 0 then Some (False, s)
     else do {
       let old = pte vm1;
       (vm1, s) \<leftarrow> ptedit_update OS scratch 0 (vm1\<lparr>pte := ptedit_set_pfn A (pte vm1) 0x1234, valid := valid_mask PTE\<rparr>) s;
       (check, s) \<leftarrow> ptedit_resolve OS scratch 0 s;
       if cast_pte_pfn A (pte check) = ptedit_get_pfn A old \<or> cast_pte_pfn A (pte check) \<noteq> 0x1234 then Some (False, s)
       else do {
         (vm1, s) \<leftarrow> ptedit_update OS scratch 0 (vm1\<lparr>valid := valid_mask PTE, pte := old\<rparr>) s;
         (vm2, s) \<leftarrow> ptedit_resolve OS scratch 0 s;
         Some (entry_equal vm vm2, s)
       }
     }
   }"

section \<open>Tests of the PTE\<close>

definition test_get_pfn :: "os \<Rightarrow> u64 \<Rightarrow> test" where
  "test_get_pfn OS page1 s = do {
     let A = cfg_arch (os_kernel OS);
     (vm, s) \<leftarrow> ptedit_resolve OS page1 0 s;
     Some (ptedit_get_pfn A (pte vm) = cast_pte_pfn A (pte vm), s)
   }"

definition test_get_pte_pfn :: "os \<Rightarrow> u64 \<Rightarrow> test" where
  "test_get_pte_pfn OS page1 s = do {
     let A = cfg_arch (os_kernel OS);
     (vm, s) \<leftarrow> ptedit_resolve OS page1 0 s;
     (pfn, s) \<leftarrow> ptedit_pte_get_pfn OS page1 0 s;
     Some (pfn = cast_pte_pfn A (pte vm), s)
   }"

definition test_get_pte_pfn_invalid :: "os \<Rightarrow> test" where
  "test_get_pte_pfn_invalid OS s = do {
     (pfn, s) \<leftarrow> ptedit_pte_get_pfn OS 0 0 s;
     Some (pfn = 0, s)
   }"

definition test_pte_present :: "os \<Rightarrow> u64 \<Rightarrow> test" where
  "test_pte_present OS page1 s = do {
     let A = cfg_arch (os_kernel OS);
     (vm, s) \<leftarrow> ptedit_resolve OS page1 0 s;
     Some (cast_pte_present A (pte vm) = PTEDIT_PAGE_PRESENT A, s)
   }"

definition assert_byte :: "os \<Rightarrow> process_os \<Rightarrow> u64 \<Rightarrow> u8 \<Rightarrow> test" where
  "assert_byte OS P a c s = do { (x, s) \<leftarrow> load_char OS P a s; Some (x = c, s) }"

definition assert_pfn :: "os \<Rightarrow> u64 \<Rightarrow> sys \<Rightarrow> (u64 \<times> bool \<times> sys) option" where
  "assert_pfn OS a s = do { (pfn, s) \<leftarrow> ptedit_pte_get_pfn OS a 0 s; Some (pfn, pfn \<noteq> 0, s) }"

text \<open>Replacing the frame of \<open>accessor\<close> and reading through it.\<close>

definition redirect :: "os \<Rightarrow> process_os \<Rightarrow> u64 \<Rightarrow> u64 \<Rightarrow> u8 \<Rightarrow> test" where
  "redirect OS P accessor pfn c s = do {
     s \<leftarrow> ptedit_pte_set_pfn OS accessor 0 pfn s;
     assert_byte OS P accessor c s
   }"

definition test_pte_set_pfn :: "os \<Rightarrow> process_os \<Rightarrow> u64 \<Rightarrow> u64 \<Rightarrow> u64 \<Rightarrow> test" where
  "test_pte_set_pfn OS P accessor page1 page2 s = do {
     (ok, s) \<leftarrow> assert_byte OS P accessor 2 s;
     if \<not> ok then Some (False, s) else do {
     (accessor_pfn, ok, s) \<leftarrow> assert_pfn OS accessor s;
     if \<not> ok then Some (False, s) else do {
     (page1_pfn, ok, s) \<leftarrow> assert_pfn OS page1 s;
     if \<not> ok then Some (False, s) else do {
     (page2_pfn, ok, s) \<leftarrow> assert_pfn OS page2 s;
     if \<not> ok then Some (False, s) else do {
     (ok, s) \<leftarrow> redirect OS P accessor page1_pfn 0 s;
     if \<not> ok then Some (False, s) else do {
     (ok, s) \<leftarrow> redirect OS P accessor page2_pfn 1 s;
     if \<not> ok then Some (False, s) else
     redirect OS P accessor accessor_pfn 2 s
   }}}}}}"

section \<open>The entries of a page and of its addresses\<close>

lemma entry_equal_is_same: "entry_equal e1 e2 = is_same e1 e2"
  by (simp add: entry_equal_def is_same_def)

text \<open>The comparison depends on the valid entries only, and on their lower halves.\<close>

lemma entry_equal_view:
  "entry_equal e1 e2 \<longleftrightarrow>
     (\<forall>l x y. view e1 l = Some x \<longrightarrow> view e2 l = Some y \<longrightarrow> take_bit 32 x = take_bit 32 y)"
  unfolding entry_equal_def Let_def diff_level_zero view_def all_levels by auto

text \<open>With the kernel implementation the P4D level is folded into the PGD and valid from Linux 4.11 on.\<close>

definition page_entries :: "os \<Rightarrow> (level \<Rightarrow> u64) \<Rightarrow> u64 \<Rightarrow> level \<Rightarrow> u64 option" where
  "page_entries OS up w l =
     (case l of PTE \<Rightarrow> Some w | P4D \<Rightarrow> (if cfg_4_11 (os_kernel OS) then Some (up PGD) else None) | _ \<Rightarrow> Some (up l))"

lemma kernel_vm_P4D:
  assumes "fst (kernel_vm OS a p s) = 0"
  shows "vm_p4d (snd (kernel_vm OS a p s)) \<noteq> None \<longleftrightarrow> cfg_4_11 (os_kernel OS)"
  using assms
  by (auto simp: kernel_vm_def resolve_vm_walk_def resolve_vm_pud_def Let_def fresh_vm_def split: if_splits option.splits)

lemma kernel_page_entries:
  assumes st: "page_state OS root a up w s" and ptr: "ptedit_resolve_ptr s = Resolve_kernel"
  shows "kernel_entries OS a 0 s = page_entries OS up w" "api_entries OS a 0 s = page_entries OS up w"
proof -
  note k = page_state_kernel [OF st ptr]
  have "kernel_entries OS a 0 s l = page_entries OS up w l" for l
  proof (cases "l = P4D")
    case False
    then show ?thesis
      using kernel_entries_walk [OF k(1-3)] page_state_walk(2) [OF st] st
      by (cases l) (simp_all add: page_entries_def page_state_def)
  next
    case True
    have "kernel_entries OS a 0 s P4D = (if cfg_4_11 (os_kernel OS) then Some (walk_entry (phys s) root a PGD) else None)"
      using kernel_vm_P4D [of OS a 0 s] kernel_vm_walk(2) [OF k(1-3), of P4D] k(2)
      by (auto simp: kernel_ok_def kernel_entries_def kread_def walk_slot_entry walk_P4D)
    then show ?thesis using True st by (simp add: page_entries_def page_state_def)
  qed
  then show "kernel_entries OS a 0 s = page_entries OS up w" by blast
  then show "api_entries OS a 0 s = page_entries OS up w" by (simp add: api_entries_def ptr)
qed

lemma resolve_page_view:
  assumes "page_state OS root a up w s" and "ptedit_resolve_ptr s = Resolve_kernel"
  obtains e t where "ptedit_resolve OS a 0 s = Some (e, t)" "view e = page_entries OS up w" "pte e = w"
    "same_lib s t" "phys t = phys s"
proof -
  have ok: "api_ok OS a 0 s" using assms(1) by (simp add: page_state_def)
  obtain e t where "ptedit_resolve OS a 0 s = Some (e, t)" "view e = page_entries OS up w" "same_lib s t" "phys t = phys s"
    using api.resolve_entries [OF ok] by (auto simp: kernel_page_entries [OF assms])
  moreover from this have "pte e = w" using resolve_page [OF assms(1)] by auto
  ultimately show thesis using that by blast
qed

text \<open>
  All addresses of a page have the state of the page: the accessors of Linux may return other pointers,
  but to the same slots.
\<close>

lemma kernel_vm_same_page:
  assumes acc: "x86_accessors (os_kernel OS)" and "complete_walk (phys s) (virt_to_phys (os_kernel OS) (mm_pgd s mm)) a"
    and mm: "get_mm (os_kernel OS) (size_of_int 0) = Some mm" and same: "same_page b a" and ok: "fst (kernel_vm OS a 0 s) = 0"
  shows "fst (kernel_vm OS b 0 s) = 0"
    and "map_option (virt_to_phys (os_kernel OS)) (vm_ptr l (snd (kernel_vm OS b 0 s))) =
      map_option (virt_to_phys (os_kernel OS)) (vm_ptr l (snd (kernel_vm OS a 0 s)))"
proof -
  let ?K = "os_kernel OS" and ?m = "phys s"
  let ?root = "virt_to_phys ?K (mm_pgd s mm)"
  define q4 where "q4 = (\<lambda>a. pgd_offset ?K (mm_pgd s mm) a)"
  define q3 where "q3 = (\<lambda>a. pud_offset ?K ?m (q4 a) a)"
  define q2 where "q2 = (\<lambda>a. pmd_offset ?K ?m (q3 a) a)"
  note index = same_page_index [OF same]
  have fold4: "p4d_offset ?K ?m q x = q" for q x using acc by (simp add: x86_accessors_def)
  have v4: "virt_to_phys ?K (q4 b) = virt_to_phys ?K (q4 a)" using acc index unfolding x86_accessors_def q4_def by simp
  then have k4: "kread ?K ?m (q4 b) = kread ?K ?m (q4 a)" by (simp add: kread_def)
  have v3: "virt_to_phys ?K (q3 b) = virt_to_phys ?K (q3 a)" using acc index k4 unfolding x86_accessors_def q3_def by simp
  then have k3: "kread ?K ?m (q3 b) = kread ?K ?m (q3 a)" by (simp add: kread_def)
  have v2: "virt_to_phys ?K (q2 b) = virt_to_phys ?K (q2 a)" using acc index k3 unfolding x86_accessors_def q2_def by simp
  then have k2: "kread ?K ?m (q2 b) = kread ?K ?m (q2 a)" by (simp add: kread_def)
  have "kread ?K ?m (q4 a) = walk_entry ?m ?root a PGD"
    using acc unfolding x86_accessors_def q4_def kread_def by (simp add: walk_entry_loads)
  then have "kread ?K ?m (q3 a) = walk_entry ?m ?root a PUD"
    using acc unfolding x86_accessors_def q3_def kread_def [of ?K ?m "pud_offset ?K ?m (q4 a) a"] by (simp add: walk_entry_loads)
  then have "kread ?K ?m (q2 a) = walk_entry ?m ?root a PMD"
    using acc unfolding x86_accessors_def q2_def kread_def [of ?K ?m "pmd_offset ?K ?m (q3 a) a"] by (simp add: walk_entry_loads)
  then have "bit (kread ?K ?m (q2 a)) 0" "\<not> bit (kread ?K ?m (q2 a)) 7"
    using assms(2) by (simp_all add: complete_walk_def)
  then obtain ra rb where r: "pte_offset ?K ?m (q2 a) a = Some ra" "pte_offset ?K ?m (q2 b) b = Some rb"
    "virt_to_phys ?K ra = below (kread ?K ?m (q2 a)) + level_index x86_definition PTE a * 8"
    "virt_to_phys ?K rb = below (kread ?K ?m (q2 b)) + level_index x86_definition PTE b * 8"
    using acc k2 unfolding x86_accessors_def by metis
  then have v1: "virt_to_phys ?K rb = virt_to_phys ?K ra" by (simp add: k2 index)
  have walk: "kernel_vm OS x 0 s = resolve_vm_walk ?K ?m (mm_pgd s mm) x (fresh_vm (size_of_int 0))" for x
    by (simp add: kernel_vm_def mm)
  have "pgd_offset ?K (mm_pgd s mm) x = q4 x" "pud_offset ?K ?m (q4 x) x = q3 x" "pmd_offset ?K ?m (q3 x) x = q2 x" for x
    by (simp_all add: q4_def q3_def q2_def)
  note defs = walk resolve_vm_walk_def resolve_vm_pud_def fold4 this Let_def fresh_vm_def
  have path: "\<not> pgd_none ?K (kread ?K ?m (q4 a))" "\<not> pgd_bad ?K (kread ?K ?m (q4 a))"
    "cfg_4_11 ?K \<longrightarrow> \<not> p4d_none ?K (kread ?K ?m (q4 a)) \<and> \<not> p4d_bad ?K (kread ?K ?m (q4 a))"
    "\<not> pud_none ?K (kread ?K ?m (q3 a))" "\<not> pud_leaf ?K (kread ?K ?m (q3 a))"
    "\<not> pmd_none ?K (kread ?K ?m (q2 a))" "\<not> pmd_leaf ?K (kread ?K ?m (q2 a))"
    using ok by (auto simp: defs r(1) split: if_splits)
  then show "fst (kernel_vm OS b 0 s) = 0" by (simp add: defs k4 k3 k2 r(2))
  show "map_option (virt_to_phys ?K) (vm_ptr l (snd (kernel_vm OS b 0 s))) =
      map_option (virt_to_phys ?K) (vm_ptr l (snd (kernel_vm OS a 0 s)))"
    using path by (cases l) (simp_all add: defs k4 k3 k2 r(1,2) v4 v3 v2 v1)
qed

lemma page_state_same_page:
  assumes st: "page_state OS root a up w s" and ptr: "ptedit_resolve_ptr s = Resolve_kernel" and same: "same_page b a"
  shows "page_state OS root b up w s"
proof -
  let ?K = "os_kernel OS"
  note k = page_state_kernel [OF st ptr]
  from k(1) obtain mm where mm: "get_mm ?K (size_of_int 0) = Some mm" "virt_to_phys ?K (mm_pgd s mm) = root" and acc: "x86_accessors ?K"
    by (auto simp: mmu_config_def)
  have complete: "complete_walk (phys s) (virt_to_phys ?K (mm_pgd s mm)) a" using page_state_walk(1) [OF st] mm(2) by simp
  have ok: "fst (kernel_vm OS a 0 s) = 0" using k(2) by (simp add: kernel_ok_def)
  note vm = kernel_vm_same_page [OF acc complete mm(1) same ok]
  have E: "kernel_entries OS b 0 s = kernel_entries OS a 0 s"
  proof
    fix l
    have "map_option (load64 (phys s)) (map_option (virt_to_phys ?K) (vm_ptr l (snd (kernel_vm OS b 0 s)))) =
        map_option (load64 (phys s)) (map_option (virt_to_phys ?K) (vm_ptr l (snd (kernel_vm OS a 0 s))))"
      by (simp only: vm(2))
    then show "kernel_entries OS b 0 s l = kernel_entries OS a 0 s l"
      by (simp add: kernel_entries_def kread_def [abs_def] option.map_comp comp_def)
  qed
  obtain q where "vm_pte (snd (kernel_vm OS a 0 s)) = Some q" by (rule kernel_pte [OF ok])
  with vm(2) [of PTE] obtain r where r: "vm_pte (snd (kernel_vm OS b 0 s)) = Some r"
    "virt_to_phys ?K r = virt_to_phys ?K (the (vm_pte (snd (kernel_vm OS a 0 s))))"
    by auto
  have "apart (virt_to_phys ?K r) (virt_to_phys ?K x)" if "l \<noteq> PTE" "vm_ptr l (snd (kernel_vm OS b 0 s)) = Some x" for l x
  proof -
    from vm(2) [of l] that(2) obtain y where "vm_ptr l (snd (kernel_vm OS a 0 s)) = Some y" "virt_to_phys ?K x = virt_to_phys ?K y"
      by (cases "vm_ptr l (snd (kernel_vm OS a 0 s))") simp_all
    with k(2) that(1) r(2) show ?thesis by (simp add: kernel_ok_def)
  qed
  then have "kernel_ok OS b 0 s" using k(2) vm(1) r(1) by (simp add: kernel_ok_def)
  then show ?thesis
    using st ptr k(4) E by (simp add: page_state_def api_ok_def api_entries_def same_page_walk [OF same])
qed

section \<open>The tests pass\<close>

definition passes :: "test \<Rightarrow> sys \<Rightarrow> bool" where
  "passes T s \<longleftrightarrow> map_option fst (T s) = Some True"

text \<open>
  The tests of the operations on one entry hold for both architectures.
\<close>

theorem entry_tests_pass:
  "test_set_pfn_basic A \<and> test_apply A \<and> test_apply_huge A \<and> test_extract A \<and> test_extract_huge A"
proof -
  have "test_set_pfn_basic A" by (cases A) (simp_all add: test_set_pfn_basic_def ptedit_set_pfn_def pfn_width_def)
  moreover have "test_apply A" "test_apply_huge A"
    by (cases A; simp add: test_apply_def test_apply_huge_def ptedit_apply_mt_def ptedit_apply_mt_huge_def ull_bit_def size_of_int_def)+
  moreover have "test_extract A" "test_extract_huge A"
    by (cases A; simp add: test_extract_def test_extract_huge_def ptedit_apply_mt_def ptedit_apply_mt_huge_def
        ptedit_extract_mt_def ptedit_extract_mt_huge_def ull_bit_def size_of_int_def c_bool_def)+
  ultimately show ?thesis by blast
qed

lemma page_entries_simps [simp]:
  "page_entries OS up w PGD = Some (up PGD)" "page_entries OS up w PUD = Some (up PUD)" "page_entries OS up w PMD = Some (up PMD)"
  "page_entries OS up w PTE = Some w" "page_entries OS up w P4D = (if cfg_4_11 (os_kernel OS) then Some (up PGD) else None)"
  by (simp_all add: page_entries_def)

lemma entry_equal_pages:
  assumes "view e1 = page_entries OS up w" and "view e2 = page_entries OS up' w'"
  shows "entry_equal e1 e2 \<longleftrightarrow>
    take_bit 32 w = take_bit 32 w' \<and> (\<forall>l \<in> {PGD, PUD, PMD}. take_bit 32 (up l) = take_bit 32 (up' l))"
  unfolding entry_equal_view assms all_levels by auto

lemma page_view_valid:
  assumes "view e = page_entries OS up w"
  shows "has_valid (valid e) l \<longleftrightarrow> l \<noteq> P4D \<or> cfg_4_11 (os_kernel OS)"
    and "has_valid (valid e) l \<Longrightarrow> entry_of l e = the (page_entries OS up w l)"
proof -
  have "view e l = page_entries OS up w l" using assms by simp
  then show "has_valid (valid e) l \<longleftrightarrow> l \<noteq> P4D \<or> cfg_4_11 (os_kernel OS)"
    by (cases l) (simp_all add: view_def split: if_splits)
  show "has_valid (valid e) l \<Longrightarrow> entry_of l e = the (page_entries OS up w l)"
    using arg_cong [OF \<open>view e l = _\<close>, of the] by (simp add: view_def)
qed

lemma bit_nonzero: "bit (w :: u64) 0 \<Longrightarrow> w \<noteq> 0"
  by auto

lemma resolve_next:
  assumes "page_state OS root a up w s" and "ptedit_resolve_ptr s = Resolve_kernel" and "same_lib s t" and "phys t = phys s" and "same_page b a"
  obtains e u where "ptedit_resolve OS b 0 t = Some (e, u)" "view e = page_entries OS up w" "pte e = w" "same_lib s u" "phys u = phys s"
proof -
  have "page_state OS root b up w t" "ptedit_resolve_ptr t = Resolve_kernel"
    using page_state_frame [OF page_state_same_page [OF assms(1,2,5)] assms(3,4)] assms(2,3) by (simp_all add: same_lib_fields)
  then obtain e u where "ptedit_resolve OS b 0 t = Some (e, u)" "view e = page_entries OS up w" "pte e = w" "same_lib t u" "phys u = phys t"
    by (rule resolve_page_view)
  then show thesis using that same_lib_trans [OF assms(3)] assms(4) by simp
qed

lemma same_page_self [simp]: "same_page a a"
  by (simp add: same_page_def)

lemma resolve_page_tests:
  assumes st: "page_state OS root page1 up1 w1 s" and ptr: "ptedit_resolve_ptr s = Resolve_kernel"
    and present: "bit w1 0" and aligned: "take_bit 12 page1 = 0"
  shows "passes (test_resolve_basic OS page1) s" "passes (test_resolve_valid_mask OS page1) s"
    "passes (test_resolve_deterministic OS page1) s" "passes (test_resolve_page_offset OS page1) s"
proof -
  have nonzero: "w1 \<noteq> 0" "up1 l \<noteq> 0" if "l \<in> {PGD, PUD, PMD}" for l
    using present page_state_upper(2) [OF st that] by auto
  obtain e t where e: "ptedit_resolve OS page1 0 s = Some (e, t)" "view e = page_entries OS up1 w1" "pte e = w1" "same_lib s t" "phys t = phys s"
    by (rule resolve_page_view [OF st ptr])
  note valid = page_view_valid [OF e(2)]
  show "passes (test_resolve_basic OS page1) s" "passes (test_resolve_valid_mask OS page1) s"
    using nonzero [of PGD] nonzero [of PUD] nonzero [of PMD] valid(1) valid(2) [of PGD] valid(2) [of P4D] valid(2) [of PUD] valid(2) [of PMD] valid(2) [of PTE]
    by (auto simp: passes_def test_resolve_basic_def test_resolve_valid_mask_def e(1))
  have eq: "entry_equal e e'" if "view e' = page_entries OS up1 w1" for e'
    using that by (simp add: entry_equal_pages [OF e(2)])
  have vaddr: "entry_equal (x\<lparr>vaddr := 0\<rparr>) (y\<lparr>vaddr := 0\<rparr>) = entry_equal x y" for x y
    by (simp add: entry_equal_def diff_level_def Let_def)
  obtain e' t' where e': "ptedit_resolve OS page1 0 t = Some (e', t')" "view e' = page_entries OS up1 w1"
    by (rule resolve_next [OF st ptr e(4,5) same_page_self])
  then show "passes (test_resolve_deterministic OS page1) s"
    by (simp add: passes_def test_resolve_deterministic_def e(1) eq)
  have page: "same_page (page1 + 1) page1" "same_page (page1 + 1024) page1" "same_page (page1 + 4095) page1"
    using page_offset_add(1) [OF aligned, of 1] page_offset_add(1) [OF aligned, of 1024] page_offset_add(1) [OF aligned, of 4095] by simp_all
  obtain e2 t2 where e2: "ptedit_resolve OS (page1 + 1) 0 t = Some (e2, t2)" "view e2 = page_entries OS up1 w1" "same_lib s t2" "phys t2 = phys s"
    by (rule resolve_next [OF st ptr e(4,5) page(1)])
  obtain e3 t3 where e3: "ptedit_resolve OS (page1 + 1024) 0 t2 = Some (e3, t3)" "view e3 = page_entries OS up1 w1" "same_lib s t3" "phys t3 = phys s"
    by (rule resolve_next [OF st ptr e2(3,4) page(2)])
  obtain e4 t4 where e4: "ptedit_resolve OS (page1 + 4095) 0 t3 = Some (e4, t4)" "view e4 = page_entries OS up1 w1"
    by (rule resolve_next [OF st ptr e3(3,4) page(3)])
  show "passes (test_resolve_page_offset OS page1) s"
    by (simp add: passes_def test_resolve_page_offset_def e(1) e2(1) e3(1) e4(1) vaddr eq [OF e2(2)] eq [OF e3(2)] eq [OF e4(2)])
qed

text \<open>
  C23. The tests of resolving an address, for two pages that are mapped: a page resolves to present and
  nonzero entries, every level that is marked valid has a nonzero entry, resolving twice and resolving
  any address inside the page give the same entries, and an unknown process gives no valid entry.  That
  two pages resolve differently is observed exactly when they differ in the lower half of an entry of
  some level; that address 0 does not resolve, exactly when there is no page table for it.
\<close>

theorem resolve_tests_pass:
  assumes st: "page_state OS root page1 up1 w1 s" and st2: "page_state OS root page2 up2 w2 s"
    and ptr: "ptedit_resolve_ptr s = Resolve_kernel" and "bit w1 0" and aligned: "take_bit 12 page1 = 0"
    and none: "get_mm (os_kernel OS) (size_of_int (- 1)) = None"
  shows "passes (test_resolve_basic OS page1) s \<and> passes (test_resolve_valid_mask OS page1) s
    \<and> passes (test_resolve_deterministic OS page1) s \<and> passes (test_resolve_page_offset OS page1) s
    \<and> passes (test_resolve_invalid_pid OS page1) s
    \<and> (passes (test_resolve_different OS page1 page2) s \<longleftrightarrow>
         take_bit 32 w1 \<noteq> take_bit 32 w2 \<or> (\<exists>l \<in> {PGD, PUD, PMD}. take_bit 32 (up1 l) \<noteq> take_bit 32 (up2 l)))
    \<and> (passes (test_resolve_invalid OS) s \<longleftrightarrow> kernel_entries OS 0 0 s PTE = None)"
proof -
  let ?K = "os_kernel OS"
  obtain e t where e: "ptedit_resolve OS page1 0 s = Some (e, t)" "view e = page_entries OS up1 w1" "same_lib s t" "phys t = phys s"
    by (rule resolve_page_view [OF st ptr])
  have "fd_file (ptedit_fd s) s = Some F_device" "get_mm ?K (size_of_int 0) \<noteq> None"
    using page_state_kernel(2) [OF st ptr] by (simp_all add: kernel_ok_def)
  then obtain mm where dev: "fd_file (ptedit_fd s) s = Some F_device" and mm: "get_mm ?K (size_of_int 0) = Some mm" by blast
  have 4: "passes (test_resolve_invalid_pid OS page1) s"
    using none dev by (simp add: passes_def test_resolve_invalid_pid_def ptedit_resolve_def ptr ptedit_resolve_kernel_def ioctl_def
        ioctl_vm_resolve_def resolve_vm_def vm_to_user_def fresh_vm_def Let_def)
  obtain f u where f: "ptedit_resolve OS page2 0 t = Some (f, u)" "view f = page_entries OS up2 w2"
    by (rule resolve_next [OF st2 ptr e(3,4) same_page_self])
  have 5: "passes (test_resolve_different OS page1 page2) s \<longleftrightarrow>
         take_bit 32 w1 \<noteq> take_bit 32 w2 \<or> (\<exists>l \<in> {PGD, PUD, PMD}. take_bit 32 (up1 l) \<noteq> take_bit 32 (up2 l))"
    using entry_equal_pages [OF e(2) f(2)] by (auto simp: passes_def test_resolve_different_def e(1) f(1))
  obtain z y where z: "ptedit_resolve_kernel OS 0 0 s = Some (z, y)" "view z = kernel_entries OS 0 0 s"
    using kernel_resolve [OF dev mm, of 0] by blast
  have "has_valid (valid z) PTE \<longleftrightarrow> kernel_entries OS 0 0 s PTE \<noteq> None"
    unfolding z(2) [symmetric] by (simp add: view_def)
  then have 6: "passes (test_resolve_invalid OS) s \<longleftrightarrow> kernel_entries OS 0 0 s PTE = None"
    by (simp add: passes_def test_resolve_invalid_def ptedit_resolve_def ptr z(1))
  show ?thesis using resolve_page_tests [OF st ptr assms(4) aligned] 4 5 6 by blast
qed

section \<open>The tests of updates pass\<close>

lemma update_nothing:
  assumes st: "page_state OS root a up w s" and ptr: "ptedit_resolve_ptr s = Resolve_kernel" and vm: "valid vm = 0"
  shows "\<exists>u. ptedit_update OS a 0 vm s = Some (vm\<lparr>vaddr := a, pid := size_of_int 0\<rparr>, u) \<and> same_lib s u \<and> phys u = phys s"
proof -
  let ?K = "os_kernel OS" and ?vm = "vm\<lparr>vaddr := a, pid := size_of_int 0\<rparr>"
  note k = page_state_kernel [OF st ptr]
  from k(2) obtain mm where dev: "fd_file (ptedit_fd s) s = Some F_device" and mm: "get_mm ?K (size_of_int 0) = Some mm"
    by (auto simp: kernel_ok_def)
  have none: "update_entries ?K ?vm old t = t" for old t
    using vm by (simp add: update_entries_def update_level_def has_valid_def Let_def)
  have inval: "same_lib x (PT_Linux.invalidate_tlb ?K p b x)" "phys (PT_Linux.invalidate_tlb ?K p b x) = phys x" for x p b
    by (auto simp: PT_Linux.invalidate_tlb_def invalidate_tlb_kernel_def invalidate_tlb_custom_def
        split: tlb_fn.split arch.split option.split)
  define u where "u = snd (snd (device_ioctl ?K (CMD_VM_UPDATE ?vm) s))"
  define t where "t = (if \<not> mm_is_locked s then emit (Write_lock mm) s else s)"
  obtain r old where res: "resolve_vm ?K a (size_of_int 0) False t = (r, old, t)"
    using resolve_vm_unlocked_trace by (metis prod_cases3)
  have u: "u = (if \<not> mm_is_locked s then emit (Write_unlock mm) (PT_Linux.invalidate_tlb ?K (ucast (vm_pid old)) a t)
      else PT_Linux.invalidate_tlb ?K (ucast (vm_pid old)) a t)"
    using mm res by (simp add: u_def ioctl_vm_update_def update_vm_def none t_def Let_def)
  have t: "same_lib s t" "phys t = phys s" by (simp_all add: t_def)
  then have "same_lib s (PT_Linux.invalidate_tlb ?K (ucast (vm_pid old)) a t)" using same_lib_trans [OF t(1) inval(1)] by simp
  then have "same_lib s u" "phys u = phys s"
    using same_lib_trans [of s "PT_Linux.invalidate_tlb ?K (ucast (vm_pid old)) a t"] t(2) by (simp_all add: u inval)
  moreover have "ptedit_update OS a 0 vm s = Some (?vm, u)"
    using dev by (simp add: ptedit_update_def k(4) ptedit_update_kernel_def ioctl_def u_def Let_def)
  ultimately show ?thesis by blast
qed

lemma update_pte:
  assumes "page_state OS root a up w s" and "ptedit_resolve_ptr s = Resolve_kernel"
    and "valid vm = valid_mask PTE" and "ptedit_get_pfn X86_64 (pte vm) < 2 ^ 28"
  obtains u where "ptedit_update OS a 0 vm s = Some (vm\<lparr>vaddr := a, pid := size_of_int 0\<rparr>, u)" "same_lib s u"
    "phys u = store64 (phys s) (walk_slot (phys s) root a PTE) (pte vm)" "page_state OS root a up (pte vm) u"
proof -
  obtain vm' u where u: "ptedit_update OS a 0 vm s = Some (vm', u)" "same_lib s u"
    "phys u = store64 (phys s) (walk_slot (phys s) root a PTE) (pte vm)" "page_state OS root a up (pte vm) u"
    using update_page [OF assms] by blast
  then have "vm' = vm\<lparr>vaddr := a, pid := size_of_int 0\<rparr>"
    using page_state_kernel(4) [OF assms(1,2)] by (auto simp: ptedit_update_def ptedit_update_kernel_def Let_def)
  with u that show thesis by simp
qed

lemma same_lib_ptr: "same_lib s t \<Longrightarrow> ptedit_resolve_ptr t = ptedit_resolve_ptr s"
  by (simp add: same_lib_fields)

lemma cast_pte_pfn_small: "ptedit_get_pfn X86_64 w < 2 ^ 28 \<Longrightarrow> cast_pte_pfn X86_64 w = ptedit_get_pfn X86_64 w"
  by (simp add: cast_pte_pfn_bits cast_pfn_x86_iff)

lemma store64_load64: "store64 m a (load64 m a) = m"
  by (rule ext) (simp add: store64_def load64_def bytes64_le64 store_bytes_apply load_bytes_def)

lemma store64_store64: "store64 (store64 m a v) a w = store64 m a w"
  by (rule ext) (simp add: store64_def store_bytes_apply)

text \<open>The test passes and leaves the whole physical memory and the library as they were.\<close>

definition restores :: "test \<Rightarrow> sys \<Rightarrow> bool" where
  "restores T s \<longleftrightarrow> (\<exists>t. T s = Some (True, t) \<and> phys t = phys s \<and> same_lib s t)"

lemma resolve_back:
  assumes "page_state OS root a up w s" and "ptedit_resolve_ptr s = Resolve_kernel"
    and "same_lib s t" and "phys t = phys s"
  obtains e u where "ptedit_resolve OS a 0 t = Some (e, u)" "view e = page_entries OS up w" "phys u = phys s" "same_lib s u"
  by (rule resolve_next [OF assms same_page_self])

lemma nop_tests:
  assumes st: "page_state OS root a up w s" and ptr: "ptedit_resolve_ptr s = Resolve_kernel"
  shows "restores (test_nop OS a) s" "restores (test_pte_nop OS a) s"
proof -
  note small = page_state_walk(3) [OF st]
  obtain e t where e: "ptedit_resolve OS a 0 s = Some (e, t)" "view e = page_entries OS up w" "pte e = w" "same_lib s t" "phys t = phys s"
    by (rule resolve_page_view [OF st ptr])
  note st_t = page_state_frame [OF st e(4,5)] and ptr_t = same_lib_ptr [OF e(4), unfolded ptr]
  have "has_valid (valid e) PTE" using page_view_valid(1) [OF e(2), of PTE] by simp
  then have valid: "valid e \<noteq> 0" by (auto simp: has_valid_def)
  have keep: "view (e\<lparr>valid := x, vaddr := y, pid := z, valid := valid e\<rparr>) = page_entries OS up w" for x y z
  proof -
    have "entry_of l (e\<lparr>vaddr := y, pid := z, valid := valid e\<rparr>) = entry_of l e" for l by (cases l) simp_all
    then have "view (e\<lparr>vaddr := y, pid := z, valid := valid e\<rparr>) = view e" by (simp add: view_def [abs_def] cong: if_cong)
    then show ?thesis using e(2) by simp
  qed
  have eq: "entry_equal x y" if "view x = page_entries OS up w" "view y = page_entries OS up w" for x y
    using entry_equal_pages [OF that] by simp
  show "restores (test_nop OS a) s"
  proof -
    obtain u where u: "ptedit_update OS a 0 (e\<lparr>valid := 0\<rparr>) t = Some (e\<lparr>valid := 0, vaddr := a, pid := size_of_int 0\<rparr>, u)"
      "same_lib t u" "phys u = phys t"
      using update_nothing [OF st_t ptr_t, of "e\<lparr>valid := 0\<rparr>"] by auto
    obtain f y where f: "ptedit_resolve OS a 0 u = Some (f, y)" "view f = page_entries OS up w" "phys y = phys t" "same_lib t y"
      by (rule resolve_back [OF st_t ptr_t u(2,3)])
    show ?thesis
      using eq [OF keep f(2)] valid f(3,4) same_lib_trans [OF e(4) f(4)] e(5)
      by (simp add: restores_def test_nop_def test_update_nop_def e(1) u(1) f(1))
  qed
  show "restores (test_pte_nop OS a) s"
  proof -
    have "ptedit_get_pfn X86_64 (pte (e\<lparr>valid := valid_mask PTE\<rparr>)) < 2 ^ 28" using e(3) small by simp
    then obtain u where u: "ptedit_update OS a 0 (e\<lparr>valid := valid_mask PTE\<rparr>) t = Some (e\<lparr>valid := valid_mask PTE, vaddr := a, pid := size_of_int 0\<rparr>, u)"
      "same_lib t u" "phys u = store64 (phys t) (walk_slot (phys t) root a PTE) (load64 (phys t) (walk_slot (phys t) root a PTE))"
      using update_pte [OF st_t ptr_t, of "e\<lparr>valid := valid_mask PTE\<rparr>"] e(3) page_state_walk(2) [OF st_t] by (auto simp: walk_slot_entry)
    obtain f y where f: "ptedit_resolve OS a 0 u = Some (f, y)" "view f = page_entries OS up w" "phys y = phys t" "same_lib t y"
      by (rule resolve_back [OF st_t ptr_t u(2) u(3) [unfolded store64_load64]])
    show ?thesis
      using eq [OF keep f(2)] valid f(3,4) same_lib_trans [OF e(4) f(4)] e(5)
      by (simp add: restores_def test_pte_nop_def test_update_nop_def e(1) u(1) f(1))
  qed
qed

lemma new_pte_test:
  assumes st: "page_state OS root a up w s" and ptr: "ptedit_resolve_ptr s = Resolve_kernel"
    and "ptedit_get_pfn X86_64 w \<noteq> 0x1234"
  shows "restores (test_new_pte OS a) s"
proof -
  have A: "cfg_arch (os_kernel OS) = X86_64" using st by (simp add: page_state_def mmu_config_def)
  note small = page_state_walk(3) [OF st]
  obtain e t where e: "ptedit_resolve OS a 0 s = Some (e, t)" "view e = page_entries OS up w" "pte e = w" "same_lib s t" "phys t = phys s"
    by (rule resolve_page_view [OF st ptr])
  note st_t = page_state_frame [OF st e(4,5)] and ptr_t = same_lib_ptr [OF e(4), unfolded ptr]
  have eq: "entry_equal x y" if "view x = page_entries OS up w" "view y = page_entries OS up w" for x y
    using entry_equal_pages [OF that] by simp
  have pfn: "(0x1234 :: u64) < 2 ^ 28" by simp
  let ?v = "ptedit_set_pfn X86_64 w 0x1234"
  obtain e2 t2 where e2: "ptedit_resolve OS a 0 t = Some (e2, t2)" "view e2 = page_entries OS up w" "pte e2 = w" "same_lib t t2" "phys t2 = phys t"
    by (rule resolve_page_view [OF st_t ptr_t])
  note st2 = page_state_frame [OF st_t e2(4,5)] and ptr2 = same_lib_ptr [OF e2(4), unfolded ptr_t]
  have "has_valid (valid e2) PTE" using page_view_valid(1) [OF e2(2), of PTE] by simp
  then have valid2: "valid e2 \<noteq> 0" by (auto simp: has_valid_def)
  let ?n = "e2\<lparr>pte := ?v, valid := valid_mask PTE\<rparr>"
  have "ptedit_get_pfn X86_64 (pte ?n) < 2 ^ 28" using pfn_28(1) [OF pfn] by simp
  then obtain u where u: "ptedit_update OS a 0 ?n t2 = Some (?n\<lparr>vaddr := a, pid := size_of_int 0\<rparr>, u)" "same_lib t2 u" "page_state OS root a up ?v u"
    "phys u = store64 (phys t2) (walk_slot (phys t2) root a PTE) ?v"
    using update_pte [OF st2 ptr2, of ?n] by auto
  note ptr3 = same_lib_ptr [OF u(2), unfolded ptr2]
  obtain c x where c: "ptedit_resolve OS a 0 u = Some (c, x)" "pte c = ?v" "same_lib u x" "phys x = phys u"
    by (rule resolve_page_view [OF u(3) ptr3])
  let ?o = "?n\<lparr>vaddr := a, pid := size_of_int 0, valid := valid_mask PTE, pte := w\<rparr>"
  have "ptedit_get_pfn X86_64 (pte ?o) < 2 ^ 28" using small by simp
  note st_x = page_state_frame [OF u(3) c(3,4)] and ptr4 = same_lib_ptr [OF c(3), unfolded ptr3]
  from small obtain u' where u': "ptedit_update OS a 0 ?o x = Some (?o\<lparr>vaddr := a, pid := size_of_int 0\<rparr>, u')" "same_lib x u'"
    "phys u' = store64 (phys x) (walk_slot (phys x) root a PTE) w"
    using update_pte [OF st_x ptr4, of ?o] by auto
  have "walk_slot (phys x) root a PTE = walk_slot (phys t2) root a PTE" by (rule page_state_slots [OF st2 st_x])
  moreover have "load64 (phys t2) (walk_slot (phys t2) root a PTE) = w" using page_state_walk(2) [OF st2] by (simp add: walk_slot_entry)
  ultimately have phys: "phys u' = phys t2" using store64_load64 [of "phys t2" "walk_slot (phys t2) root a PTE"]
    by (simp add: u'(3) c(4) u(4) store64_store64)
  have lib: "same_lib t2 u'" using same_lib_trans [OF same_lib_trans [OF u(2) c(3)] u'(2)] .
  obtain f y where f: "ptedit_resolve OS a 0 u' = Some (f, y)" "view f = page_entries OS up w" "phys y = phys t2" "same_lib t2 y"
    by (rule resolve_back [OF st2 ptr2 lib phys])
  have "cast_pte_pfn X86_64 ?v = 0x1234" using pfn_28(1) [OF pfn, of w] by (simp add: cast_pte_pfn_small)
  moreover have "same_lib s y" using same_lib_trans [OF same_lib_trans [OF e(4) e2(4)] f(4)] .
  ultimately show ?thesis
    using eq [OF e(2) f(2)] valid2 assms(3) u(1) u'(1) f(3) e(5) e2(5)
    by (simp add: restores_def test_new_pte_def A e(1) e2(1,3) c(1,2) f(1))
qed

text \<open>
  C22. The tests of updating an address on x86, for a page of frame below 2^28 that is mapped and is not on frame
  0x1234: each passes and leaves the whole physical memory, with the entries of all levels in full, as it was.
  An update that names no level, or the PTE with its own value, writes nothing new; a new frame number
  reads back through the library and through the bit fields, and writing the old PTE undoes it.
\<close>

theorem update_tests_pass:
  assumes "page_state OS root a up w s" and "ptedit_resolve_ptr s = Resolve_kernel"
    and "ptedit_get_pfn X86_64 w \<noteq> 0x1234"
  shows "\<forall>T \<in> {test_nop OS a, test_pte_nop OS a, test_new_pte OS a}.
    \<exists>t. T s = Some (True, t) \<and> phys t = phys s \<and> api_entries OS a 0 t = api_entries OS a 0 s \<and> same_lib s t"
proof
  fix T assume "T \<in> {test_nop OS a, test_pte_nop OS a, test_new_pte OS a}"
  then have "restores T s" using nop_tests [OF assms(1,2)] new_pte_test [OF assms] by blast
  then obtain t where t: "T s = Some (True, t)" "phys t = phys s" "same_lib s t" by (auto simp: restores_def)
  moreover have "api_entries OS a 0 t = api_entries OS a 0 s"
    using api.ok_frame [of OS a 0 s t] assms(1) t(2,3) by (simp add: page_state_def)
  ultimately show "\<exists>t. T s = Some (True, t) \<and> phys t = phys s \<and> api_entries OS a 0 t = api_entries OS a 0 s \<and> same_lib s t" by blast
qed

section \<open>The tests of the PTE pass\<close>

text \<open>Redirecting a page of the program and reading the first byte of the frame.\<close>

lemma redirect_page:
  assumes own: "own_page OS root a up v s" and pfn: "pfn < 2 ^ 28"
    and off: "\<And>l. off_frame pfn (walk_slot (phys s) root a l)" and byte: "phys s (pfn * 4096) = c"
  obtains t where "redirect OS P a pfn c s = Some (True, t)" "own_page OS root a up (ptedit_set_pfn X86_64 v pfn) t"
    "\<And>l. walk_slot (phys t) root a l = walk_slot (phys s) root a l"
    "\<And>F. off_frame F (walk_slot (phys s) root a PTE) \<Longrightarrow> phys t (F * 4096) = phys s (F * 4096)"
proof -
  let ?v = "ptedit_set_pfn X86_64 v pfn"
  note st = own_pageD(1) [OF own]
  have A: "cfg_arch (os_kernel OS) = X86_64" using st by (simp add: page_state_def mmu_config_def)
  obtain e t where e: "ptedit_resolve OS a 0 s = Some (e, t)" "has_valid (valid e) PTE" "pte e = v" "same_lib s t" "phys t = phys s"
    using resolve_page [OF st] by blast
  have own_t: "own_page OS root a up v t" by (rule own_page_frame [OF own e(4,5)])
  let ?n = "e\<lparr>pte := ?v, valid := valid_mask PTE\<rparr>"
  have "bit (pte ?n) 0" "ptedit_get_pfn X86_64 (pte ?n) < 2 ^ 28" "off_frame (ptedit_get_pfn X86_64 (pte ?n)) (walk_slot (phys t) root a l)" for l
    using own_pageD(4) [OF own] pfn off by (simp_all add: pfn_28 [OF pfn] e(5))
  then obtain vm u where u: "ptedit_update OS a 0 ?n t = Some (vm, u)" "same_lib t u"
    "phys u = store64 (phys t) (walk_slot (phys t) root a PTE) ?v" "own_page OS root a up ?v u"
    using own_page_update [OF own_t, of ?n] by auto
  have mem: "phys u (F * 4096) = phys s (F * 4096)" if "off_frame F (walk_slot (phys s) root a PTE)" for F
    using store64_off_frame [OF that, of 0 "phys s" ?v] by (simp add: u(3) e(5))
  have "phys u (pfn * 4096) = c" using mem off byte by simp
  then have "redirect OS P a pfn c s = Some (True, u)"
    using process_page_load_char [OF own_pageD(3) [OF u(4)], of P]
    by (simp add: redirect_def ptedit_pte_set_pfn_def e(1-3) A u(1) assert_byte_def pfn_28 [OF pfn])
  moreover have "walk_slot (phys u) root a l = walk_slot (phys s) root a l" for l
    by (rule page_state_slots [OF st own_pageD(1) [OF u(4)]])
  ultimately show thesis using that u(4) mem by blast
qed

lemma assert_pfn_page:
  assumes "page_state OS root a up w s" and "ptedit_get_pfn X86_64 w \<noteq> 0"
  obtains t where "assert_pfn OS a s = Some (ptedit_get_pfn X86_64 w, True, t)" "same_lib s t" "phys t = phys s"
  using get_pfn_page [OF assms(1)] assms(2) by (auto simp: assert_pfn_def)

text \<open>
  C21. Four tests of the PTE, for three pages on different frames below 2^28 that hold the bytes the test program has
  written (0, 1 and 2), where no frame holds a table of the page \<open>accessor\<close>: both ways to read the frame
  number agree and the page is present; through \<open>accessor\<close> the program reads the first page after its
  frame is installed, then the second, and its own byte after its own frame is restored.
\<close>

theorem pte_tests_pass:
  assumes own: "own_page OS root accessor up w s" and st1: "page_state OS root page1 up1 w1 s" and st2: "page_state OS root page2 up2 w2 s"
    and present: "bit w1 0"
    and frames: "ptedit_get_pfn X86_64 w \<noteq> 0" "ptedit_get_pfn X86_64 w1 \<noteq> 0" "ptedit_get_pfn X86_64 w2 \<noteq> 0"
    and bytes: "phys s (ptedit_get_pfn X86_64 w * 4096) = 2" "phys s (ptedit_get_pfn X86_64 w1 * 4096) = 0" "phys s (ptedit_get_pfn X86_64 w2 * 4096) = 1"
    and off: "\<And>l. off_frame (ptedit_get_pfn X86_64 w1) (walk_slot (phys s) root accessor l)"
      "\<And>l. off_frame (ptedit_get_pfn X86_64 w2) (walk_slot (phys s) root accessor l)"
  shows "passes (test_get_pfn OS page1) s \<and> passes (test_get_pte_pfn OS page1) s \<and> passes (test_pte_present OS page1) s
    \<and> passes (test_pte_set_pfn OS P accessor page1 page2) s"
proof -
  let ?F = "ptedit_get_pfn X86_64 w" and ?F1 = "ptedit_get_pfn X86_64 w1" and ?F2 = "ptedit_get_pfn X86_64 w2"
  have A: "cfg_arch (os_kernel OS) = X86_64" using st1 by (simp add: page_state_def mmu_config_def)
  note st = own_pageD(1) [OF own]
  note small = page_state_walk(3) [OF st] page_state_walk(3) [OF st1] page_state_walk(3) [OF st2]
  obtain e x where e: "ptedit_resolve OS page1 0 s = Some (e, x)" "pte e = w1" "same_lib s x" "phys x = phys s"
    using resolve_page [OF st1] by blast
  obtain y where y: "ptedit_pte_get_pfn OS page1 0 x = Some (?F1, y)"
    using get_pfn_page [OF page_state_frame [OF st1 e(3,4)]] by blast
  have "cast_pte_present X86_64 w1 = PTEDIT_PAGE_PRESENT X86_64"
    using present odd_iff_mod_2_eq_one [of w1] by (simp add: cast_pte_present_bits cast_present_bits PTEDIT_PAGE_PRESENT_def bit_0)
  then have 1: "passes (test_get_pfn OS page1) s \<and> passes (test_get_pte_pfn OS page1) s \<and> passes (test_pte_present OS page1) s"
    by (simp add: passes_def test_get_pfn_def test_get_pte_pfn_def test_pte_present_def A e(1,2) y cast_pte_pfn_small [OF small(2)])
  have a0: "assert_byte OS P accessor 2 s = Some (True, s)"
    using process_page_load_char [OF own_pageD(3) [OF own], of P] bytes(1) by (simp add: assert_byte_def)
  obtain s1 where s1: "assert_pfn OS accessor s = Some (?F, True, s1)" "same_lib s s1" "phys s1 = phys s"
    by (rule assert_pfn_page [OF st frames(1)])
  obtain s2 where s2: "assert_pfn OS page1 s1 = Some (?F1, True, s2)" "same_lib s1 s2" "phys s2 = phys s1"
    by (rule assert_pfn_page [OF page_state_frame [OF st1 s1(2,3)] frames(2)])
  have lib2: "same_lib s s2" "phys s2 = phys s" using same_lib_trans [OF s1(2) s2(2)] s1(3) s2(3) by simp_all
  obtain s3 where s3: "assert_pfn OS page2 s2 = Some (?F2, True, s3)" "same_lib s2 s3" "phys s3 = phys s2"
    by (rule assert_pfn_page [OF page_state_frame [OF st2 lib2] frames(3)])
  have lib3: "same_lib s s3" "phys s3 = phys s" using same_lib_trans [OF lib2(1) s3(2)] s3(3) lib2(2) by simp_all
  have own3: "own_page OS root accessor up w s3" by (rule own_page_frame [OF own lib3])
  obtain t1 where t1: "redirect OS P accessor ?F1 0 s3 = Some (True, t1)" "own_page OS root accessor up (ptedit_set_pfn X86_64 w ?F1) t1"
    "\<And>l. walk_slot (phys t1) root accessor l = walk_slot (phys s3) root accessor l"
    "\<And>F. off_frame F (walk_slot (phys s3) root accessor PTE) \<Longrightarrow> phys t1 (F * 4096) = phys s3 (F * 4096)"
    using redirect_page [OF own3 small(2), of 0 P] off(1) bytes(2) lib3(2) by auto
  obtain t2 where t2: "redirect OS P accessor ?F2 1 t1 = Some (True, t2)"
    "own_page OS root accessor up (ptedit_set_pfn X86_64 (ptedit_set_pfn X86_64 w ?F1) ?F2) t2"
    "\<And>l. walk_slot (phys t2) root accessor l = walk_slot (phys t1) root accessor l"
    "\<And>F. off_frame F (walk_slot (phys t1) root accessor PTE) \<Longrightarrow> phys t2 (F * 4096) = phys t1 (F * 4096)"
    using redirect_page [OF t1(2) small(3), of 1 P] off(2) bytes(3) lib3(2) t1(3,4) by auto
  have offF: "off_frame ?F (walk_slot (phys s) root accessor l)" for l by (rule own_pageD(5) [OF own])
  obtain t3 where t3: "redirect OS P accessor ?F 2 t2 = Some (True, t3)"
    by (rule redirect_page [OF t2(2) small(1), of 2 P]) (use offF bytes(1) lib3(2) t1(3,4) t2(3,4) in simp_all)
  have "passes (test_pte_set_pfn OS P accessor page1 page2) s"
    by (simp add: passes_def test_pte_set_pfn_def a0 s1(1) s2(1) s3(1) t1(1) t2(1) t3)
  with 1 show ?thesis by blast
qed

section \<open>The tests on the sample machine\<close>

text \<open>A third page, 0x40203000 on frame 7; the first holds the byte 2 and the third the byte 1.\<close>

definition sample_vaddr_third :: u64 where "sample_vaddr_third = 0x40203000"

definition sample_mem_third :: mem where
  "sample_mem_third = store64 sample_mem2 0x4018 0x8000000000007067"

definition sample_third :: sys where
  "sample_third = sample_sys2\<lparr>phys := sample_mem_third\<rparr>"

lemma sample_loads_third:
  "load64 sample_mem_third 0x1000 = 0x2067" "load64 sample_mem_third 0x2008 = 0x3067" "load64 sample_mem_third 0x3008 = 0x4067"
  "load64 sample_mem_third 0x4008 = 0x8000000000005067" "load64 sample_mem_third 0x4010 = 0x8000000000006067"
  "load64 sample_mem_third 0x4018 = 0x8000000000007067"
  by (simp_all add: sample_mem_third_def mem_simps apart_def sample_loads2)

lemma sample_third_simps:
  "phys sample_third = sample_mem_third" "ptedit_resolve_ptr sample_third = Resolve_kernel" "ptedit_fd sample_third = 3"
  "fd_table sample_third = fd_table sample_sys2" "mm_pgd sample_third = sample_roots" "\<not> mm_is_locked sample_third" "mappings sample_third = []"
  "ptedit_update_ptr sample_third = Update_kernel"
  by (simp_all add: sample_third_def sample_sys2_simps) (simp add: sample_sys2_def sample_sys_simps)

lemma sample_kernel_vm_third:
  "kernel_vm sample_os sample_vaddr_third 0 sample_third =
     (0, \<lparr>vm_pid = 0, vm_pgd = Some (0x1000 + direct_map), vm_p4d = Some (0x1000 + direct_map),
          vm_pud = Some (0x2008 + direct_map), vm_pmd = Some (0x3008 + direct_map),
          vm_pte = Some (0x4018 + direct_map), vm_valid = 31\<rparr>)"
  by (simp add: kernel_vm_def sample_third_simps get_mm_def resolve_vm_walk_def resolve_vm_pud_def
      sample_os_def sample_linux_def Let_def kread_def table_ptr_def sample_vaddr_third_def sample_roots_def
      direct_map_def sample_loads_third fresh_vm_def valid_mask_def ull_bit_def size_of_int_def)

definition sample_entries_third :: "level \<Rightarrow> u64" where
  "sample_entries_third = sample_entries(PTE := 0x8000000000007067)"

lemma sample_page_third: "page_state sample_os 0x1000 sample_vaddr_third sample_entries 0x8000000000007067 sample_third"
proof -
  have "\<forall>l q. l \<noteq> PTE \<longrightarrow> vm_ptr l (snd (kernel_vm sample_os sample_vaddr_third 0 sample_third)) = Some q \<longrightarrow>
      apart 0x4018 (q - direct_map)"
    by (simp add: sample_kernel_vm_third all_levels apart_def)
  then have ok: "kernel_ok sample_os sample_vaddr_third 0 sample_third"
    using sample_kernel_laws
    by (simp add: kernel_ok_def sample_kernel_vm_third sample_third_simps sample_sys2_simps(7) fd_file_def get_mm_def size_of_int_def)
      (simp add: sample_os_def sample_linux_def)
  have conf: "mmu_config sample_os 0x1000 sample_third"
    using mmu_config_same [OF sample_mmu_config(1), of sample_third] by (simp add: sample_third_def sample_sys2_def)
  have E: "kernel_entries sample_os sample_vaddr_third 0 sample_third l = Some (sample_entries_third l)" for l
    by (cases l) (simp_all add: kernel_entries_def sample_kernel_vm_third sample_entries_third_def sample_entries_def,
      simp_all add: kread_def sample_os_def sample_linux_def sample_third_simps sample_loads_third)
  have "ptedit_get_pfn X86_64 (sample_entries_third l) < 2 ^ 28 \<and> bit (sample_entries_third l) 0 \<and> \<not> bit (sample_entries_third l) 7" for l
    by (cases l) (simp_all add: sample_entries_third_def sample_entries_def ptedit_get_pfn_def pfn_width_def bit_numeral_rec)
  then have plain: "plain_entries (kernel_entries sample_os sample_vaddr_third 0 sample_third)" by (simp add: plain_entries_def E)
  have "walk_entry (phys sample_third) 0x1000 sample_vaddr_third l = sample_entries l" if "l \<in> {PGD, PUD, PMD}" for l
    using kernel_entries_walk [OF conf ok plain] E [of l] that by (auto simp: sample_entries_third_def)
  then show ?thesis
    using conf ok plain E [of PTE]
    by (simp add: page_state_def api_ok_def api_entries_def sample_third_simps sample_entries_third_def)
qed

text \<open>The state after the program has filled its pages, as \<open>main\<close> does before it runs the tests.\<close>

definition sample_filled :: sys where
  "sample_filled = sample_third\<lparr>phys := store_bytes (store_bytes sample_mem_third (5 * 4096) (replicate 4096 2)) (7 * 4096) (replicate 4096 1)\<rparr>"

lemma sample_tables_apart:
  assumes "a \<in> {sample_vaddr, sample_vaddr2}"
  shows "walk_slot (phys sample_sys2) 0x1000 a l \<in> {0x1000, 0x2008, 0x3008, 0x4008, 0x4010}"
proof -
  have "walk_entry (phys sample_sys2) 0x1000 a l = sample_entries l" if "l \<in> {PGD, PUD, PMD}" for l
    using that assms sample_page1 sample_page2 by (auto simp: page_state_def)
  then show ?thesis
    using sample_slots [of "phys sample_sys2" a] assms by (cases l) (auto simp: sample_entries_def)
qed

lemma sample_pages_third:
  assumes "a \<in> {sample_vaddr, sample_vaddr2}" and "own_page sample_os 0x1000 a sample_entries w sample_sys2"
  shows "own_page sample_os 0x1000 a sample_entries w sample_third"
    and "walk_slot (phys sample_third) 0x1000 a l \<in> {0x1000, 0x2008, 0x3008, 0x4008, 0x4010}"
proof -
  have "apart 0x4018 q" if "q \<in> {0x1000, 0x2008, 0x3008, 0x4008, 0x4010}" for q
    using that by (auto simp: apart_def)
  then have "apart 0x4018 (walk_slot (phys sample_sys2) 0x1000 a l)" for l
    using sample_tables_apart [OF assms(1)] by blast
  then have "load64 sample_mem_third (walk_slot (phys sample_sys2) 0x1000 a l) = walk_entry (phys sample_sys2) 0x1000 a l" for l
    by (simp add: sample_mem_third_def mem_simps sample_sys2_simps(1) [symmetric] walk_slot_entry)
  then show own: "own_page sample_os 0x1000 a sample_entries w sample_third"
    unfolding sample_third_def by (intro own_page_memory [OF assms(2)])
  show "walk_slot (phys sample_third) 0x1000 a l \<in> {0x1000, 0x2008, 0x3008, 0x4008, 0x4010}"
    using sample_tables_apart [OF assms(1)] page_state_slots [OF own_pageD(1) [OF assms(2)] own_pageD(1) [OF own]] by (simp only:)
qed

lemma sample_pages_filled:
  "own_page sample_os 0x1000 sample_vaddr sample_entries 0x8000000000005067 sample_filled"
  "page_state sample_os 0x1000 sample_vaddr2 sample_entries 0x8000000000006067 sample_filled"
  "page_state sample_os 0x1000 sample_vaddr_third sample_entries 0x8000000000007067 sample_filled"
  "off_frame 6 (walk_slot (phys sample_filled) 0x1000 sample_vaddr l)" "off_frame 7 (walk_slot (phys sample_filled) 0x1000 sample_vaddr l)"
proof -
  let ?m = "store_bytes sample_mem_third (5 * 4096) (replicate 4096 2)"
  have off: "\<forall>x \<in> {0x1000, 0x2008, 0x3008, 0x4008, 0x4010, 0x4018}. off_frame 5 x \<and> off_frame 6 x \<and> off_frame 7 x"
    by (simp add: off_frame_def)
  have fill: "load64 (phys sample_filled) x = load64 sample_mem_third x" if "off_frame 5 x" "off_frame 7 x" for x
    using load64_off_frame [OF that(2), of "replicate 4096 1" ?m] load64_off_frame [OF that(1), of "replicate 4096 2" sample_mem_third]
    by (simp add: sample_filled_def)
  have own: "own_page sample_os 0x1000 a sample_entries w sample_filled"
    if "own_page sample_os 0x1000 a sample_entries w sample_sys2" "a \<in> {sample_vaddr, sample_vaddr2}" for a w
  proof -
    note at = sample_pages_third [OF that(2,1)]
    have "load64 (phys sample_filled) (walk_slot (phys sample_third) 0x1000 a l) = walk_entry (phys sample_third) 0x1000 a l" for l
    proof -
      have "off_frame 5 (walk_slot (phys sample_third) 0x1000 a l)" "off_frame 7 (walk_slot (phys sample_third) 0x1000 a l)"
        using off at(2) by blast+
      from fill [OF this] show ?thesis by (simp add: sample_third_simps(1) [symmetric] walk_slot_entry)
    qed
    from own_page_memory [OF at(1) this] show ?thesis by (simp add: sample_filled_def)
  qed
  show 1: "own_page sample_os 0x1000 sample_vaddr sample_entries 0x8000000000005067 sample_filled"
    by (rule own [OF sample_own_pages(1)]) simp
  show "page_state sample_os 0x1000 sample_vaddr2 sample_entries 0x8000000000006067 sample_filled"
    by (rule own_pageD(1) [OF own [OF sample_own_pages(2)]]) simp
  have up: "walk_entry (phys sample_third) 0x1000 sample_vaddr_third l = sample_entries l" if "l \<in> {PGD, PUD, PMD}" for l
    using that sample_page_third by (auto simp: page_state_def)
  have slot: "walk_slot (phys sample_third) 0x1000 sample_vaddr_third l \<in> {0x1000, 0x2008, 0x3008, 0x4018}" for l
    using up by (cases l) (auto simp: walk_slot_def below_mask level_index_x86 sample_vaddr_third_def sample_entries_def)
  have "load64 (phys sample_filled) (walk_slot (phys sample_third) 0x1000 sample_vaddr_third l) = walk_entry (phys sample_third) 0x1000 sample_vaddr_third l" for l
  proof -
    have "off_frame 5 (walk_slot (phys sample_third) 0x1000 sample_vaddr_third l)" "off_frame 7 (walk_slot (phys sample_third) 0x1000 sample_vaddr_third l)"
      using off slot [of l] by blast+
    from fill [OF this] show ?thesis by (simp add: sample_third_simps(1) [symmetric] walk_slot_entry)
  qed
  note m = this
  have "page_state sample_os 0x1000 sample_vaddr_third sample_entries 0x8000000000007067 (sample_third\<lparr>phys := phys sample_filled\<rparr>)"
    using page_state_memory [OF sample_page_third sample_third_simps(2) m m] page_state_walk(2,3) [OF sample_page_third] by simp
  then show "page_state sample_os 0x1000 sample_vaddr_third sample_entries 0x8000000000007067 sample_filled"
    by (simp add: sample_filled_def)
  have eq: "walk_slot (phys sample_filled) 0x1000 sample_vaddr l = walk_slot (phys sample_third) 0x1000 sample_vaddr l"
    by (rule page_state_slots [OF own_pageD(1) [OF sample_pages_third(1) [OF _ sample_own_pages(1)]] own_pageD(1) [OF 1]]) simp
  show "off_frame 6 (walk_slot (phys sample_filled) 0x1000 sample_vaddr l)" "off_frame 7 (walk_slot (phys sample_filled) 0x1000 sample_vaddr l)"
    unfolding eq using off sample_pages_third(2) [OF _ sample_own_pages(1), of l] by blast+
qed

lemma sample_bytes: "phys sample_filled 0x5000 = 2" "phys sample_filled 0x6000 = 0" "phys sample_filled 0x7000 = 1"
  by (simp_all add: sample_filled_def sample_mem_third_def sample_mem2_def sample_mem_def store64_def store_bytes_apply)

lemma sample_frames:
  "ptedit_get_pfn X86_64 0x8000000000005067 = 5" "ptedit_get_pfn X86_64 0x8000000000006067 = 6"
  "ptedit_get_pfn X86_64 0x8000000000007067 = 7"
  by (simp_all add: ptedit_get_pfn_def pfn_width_def)

theorem pte_tests_pass_witness:
  "passes (test_get_pfn sample_os sample_vaddr2) sample_filled \<and> passes (test_get_pte_pfn sample_os sample_vaddr2) sample_filled
   \<and> passes (test_pte_present sample_os sample_vaddr2) sample_filled
   \<and> passes (test_pte_set_pfn sample_os sample_process sample_vaddr sample_vaddr2 sample_vaddr_third) sample_filled"
  by (rule pte_tests_pass [OF sample_pages_filled(1-3)])
    (simp_all add: sample_frames sample_bytes sample_pages_filled(4,5) bit_numeral_rec)

lemma sample_no_process: "get_mm (os_kernel sample_os) (size_of_int (- 1)) = None"
  by (simp add: get_mm_def sample_os_def sample_linux_def size_of_int_def) code_simp

theorem resolve_tests_pass_witness:
  "passes (test_resolve_basic sample_os sample_vaddr) sample_sys2 \<and> passes (test_resolve_different sample_os sample_vaddr sample_vaddr2) sample_sys2"
proof -
  have "take_bit 12 sample_vaddr = 0" "bit (0x8000000000005067 :: u64) 0"
    by (simp_all add: sample_vaddr_def take_bit_eq_mask mask_numeral bit_numeral_rec)
  from resolve_tests_pass [OF sample_page1 sample_page2 sample_sys2_simps(2) this(2,1) sample_no_process]
  show ?thesis by (simp add: take_bit_eq_mask mask_numeral)
qed

theorem update_tests_pass_witness:
  "\<exists>t. test_new_pte sample_os sample_vaddr2 sample_sys2 = Some (True, t) \<and> phys t = phys sample_sys2"
  using update_tests_pass [OF sample_page2 sample_sys2_simps(2)] by (auto simp: sample_frames)

end
