(* ===== verification/PT_SystemTests.thy ===== *)
theory PT_SystemTests
  imports PT_Tests
begin

text \<open>
  The tests of \<open>test/tests.c\<close> on physical pages, paging roots, memory types and TLB invalidation, and the
  loop that its access-time tests measure.  The uninitialised buffer of a test is a parameter.
\<close>

section \<open>Tests of physical pages\<close>

text \<open>Reading \<open>n\<close> bytes of the program's memory, as \<open>memcmp\<close> and the system calls do.\<close>

fun load_chars :: "os \<Rightarrow> process_os \<Rightarrow> u64 \<Rightarrow> nat \<Rightarrow> sys \<Rightarrow> (u8 list \<times> sys) option" where
  "load_chars OS P a 0 s = Some ([], s)"
| "load_chars OS P a (Suc n) s = do {
     (c, s) \<leftarrow> load_char OS P a s;
     (cs, s) \<leftarrow> load_chars OS P (a + 1) n s;
     Some (c # cs, s)
   }"

text \<open>One half of a test: the physical page equals the page of the program.\<close>

definition read_half :: "os \<Rightarrow> process_os \<Rightarrow> u64 \<Rightarrow> u8 list \<Rightarrow> sys \<Rightarrow> (bool \<times> u8 list \<times> sys) option" where
  "read_half OS P page buffer s = do {
     (pfn, ok, s) \<leftarrow> assert_pfn OS page s;
     if \<not> ok then Some (False, buffer, s)
     else do {
       let (buffer, s) = ptedit_read_physical_page OS pfn buffer s;
       (bs, s) \<leftarrow> load_chars OS P page 4096 s;
       Some (buffer = bs, buffer, s)
     }
   }"

definition test_page_read :: "os \<Rightarrow> process_os \<Rightarrow> u64 \<Rightarrow> u64 \<Rightarrow> u8 list \<Rightarrow> test" where
  "test_page_read OS P page1 page2 buffer s = do {
     (ok, buffer, s) \<leftarrow> read_half OS P page1 buffer s;
     if \<not> ok then Some (False, s)
     else do {
       (ok, buffer, s) \<leftarrow> read_half OS P page2 buffer s;
       Some (ok, s)
     }
   }"

definition write_half :: "os \<Rightarrow> process_os \<Rightarrow> u64 \<Rightarrow> u64 \<Rightarrow> u8 list \<Rightarrow> sys \<Rightarrow> (bool \<times> u8 list \<times> sys) option" where
  "write_half OS P pfn page buffer s = do {
     (bs, s) \<leftarrow> load_chars OS P page 4096 s;
     let s = ptedit_write_physical_page OS pfn bs s;
     let (buffer, s) = ptedit_read_physical_page OS pfn buffer s;
     (bs, s) \<leftarrow> load_chars OS P page 4096 s;
     Some (bs = buffer, buffer, s)
   }"

definition test_page_write :: "os \<Rightarrow> process_os \<Rightarrow> u64 \<Rightarrow> u64 \<Rightarrow> u64 \<Rightarrow> u8 list \<Rightarrow> test" where
  "test_page_write OS P scratch page1 page2 buffer s = do {
     (pfn, ok, s) \<leftarrow> assert_pfn OS scratch s;
     if \<not> ok then Some (False, s)
     else do {
       (ok, buffer, s) \<leftarrow> write_half OS P pfn page1 buffer s;
       if \<not> ok then Some (False, s)
       else do {
         (ok, buffer, s) \<leftarrow> write_half OS P pfn page2 buffer s;
         Some (ok, s)
       }
     }
   }"

section \<open>Tests of paging roots\<close>

definition test_get_root :: "os \<Rightarrow> test" where
  "test_get_root OS s = (let (root, s) = ptedit_get_paging_root OS 0 s in Some (root \<noteq> 0, s))"

definition test_get_root_deterministic :: "os \<Rightarrow> test" where
  "test_get_root_deterministic OS s =
     (let (root, s) = ptedit_get_paging_root OS 0 s in
      if root = 0 then Some (False, s)
      else let (root_check, s) = ptedit_get_paging_root OS 0 s in Some (root = root_check, s))"

definition test_get_root_invalid_pid :: "os \<Rightarrow> test" where
  "test_get_root_invalid_pid OS s = (let (root, s) = ptedit_get_paging_root OS (- 1) s in Some (root = 0, s))"

definition test_root_page_aligned :: "os \<Rightarrow> test" where
  "test_root_page_aligned OS s =
     (let (root, s) = ptedit_get_paging_root OS 0 s in
      if root = 0 then Some (False, s) else Some (root mod of_int (ptedit_get_pagesize OS s) = 0, s))"

definition test_correct_root :: "os \<Rightarrow> u8 list \<Rightarrow> test" where
  "test_correct_root OS buffer s = do {
     let (root, s) = ptedit_get_paging_root OS 0 s;
     let (buffer, s) = ptedit_read_physical_page OS (root div of_int (ptedit_get_pagesize OS s)) buffer s;
     (vm, s) \<leftarrow> ptedit_resolve OS 0 0 s;
     Some (pgd vm = le64 (take 8 buffer), s)
   }"

section \<open>Tests of memory types and TLB invalidation\<close>

definition test_get_mts :: "os \<Rightarrow> test" where
  "test_get_mts OS s = Some (ptedit_get_mts OS s \<noteq> 0, s)"

definition test_get_mts_deterministic :: "os \<Rightarrow> test" where
  "test_get_mts_deterministic OS s = Some (ptedit_get_mts OS s = ptedit_get_mts OS s, s)"

text \<open>The tests \<open>uncachable\<close> and \<open>writeback\<close>.\<close>

definition test_has_type :: "os \<Rightarrow> memory_type \<Rightarrow> test" where
  "test_has_type OS ty s = do {
     v \<leftarrow> mt_value (cfg_arch (os_kernel OS)) ty;
     Some (ptedit_find_first_mt OS v s \<noteq> - 1, s)
   }"

definition test_invalid_tlb_method :: "os \<Rightarrow> test" where
  "test_invalid_tlb_method OS s = (let (ret, s) = ptedit_switch_tlb_invalidation OS 3 s in Some (ret \<noteq> 0, s))"

definition test_valid_tlb_method :: "os \<Rightarrow> test" where
  "test_valid_tlb_method OS s = (let (ret, s) = ptedit_switch_tlb_invalidation OS TLB_INVALIDATION_KERNEL s in Some (ret = 0, s))"

section \<open>The measured loop\<close>

text \<open>
  The counter is an \<open>int\<close> and the bound a \<open>size_t\<close>, so the counter is converted for the comparison, and
  the increment of the largest \<open>int\<close> is undefined (\<open>None\<close>); so is the division when no measurement is
  made.  \<open>cb\<close> is the callback, \<open>None\<close> for a null pointer; the readings of the clock are numbered.
\<close>

function time_loop ::
  "os \<Rightarrow> process_os \<Rightarrow> (nat \<Rightarrow> u64) \<Rightarrow> (u64 \<Rightarrow> sys \<Rightarrow> sys) option \<Rightarrow> u64 \<Rightarrow> u64 \<Rightarrow> int \<Rightarrow> nat \<Rightarrow> u64 \<Rightarrow> sys \<Rightarrow>
   (u64 \<times> nat \<times> sys) option" where
  "time_loop OS P clock cb ptr m i k acc s =
     (if of_int i < m then do {
        let start = clock k;
        (p, s) \<leftarrow> touch OS P ptr 8 s;
        let stop = clock (k + 1);
        let s = (case cb of None \<Rightarrow> s | Some f \<Rightarrow> f ptr s);
        if 2147483647 \<le> i then None
        else time_loop OS P clock cb ptr m (i + 1) (k + 2) (acc + (stop - start)) s
      }
      else Some (acc, k, s))"
  by pat_completeness auto
termination
  by (relation "measure (\<lambda>(OS, P, clock, cb, ptr, m, i, k, acc, s). nat (2147483647 - i))") auto

declare time_loop.simps [simp del]

definition access_time_ext ::
  "os \<Rightarrow> process_os \<Rightarrow> (nat \<Rightarrow> u64) \<Rightarrow> (u64 \<Rightarrow> sys \<Rightarrow> sys) option \<Rightarrow> u64 \<Rightarrow> u64 \<Rightarrow> nat \<Rightarrow> sys \<Rightarrow> (u64 \<times> nat \<times> sys) option" where
  "access_time_ext OS P clock cb ptr m k s = do {
     (acc, k, s) \<leftarrow> time_loop OS P clock cb ptr m 0 k 0 s;
     if m = 0 then None else Some (10 * acc div m, k, s)
   }"

section \<open>The measured loop ends\<close>

lemma counter_less: "0 \<le> i \<Longrightarrow> i \<le> 2147483647 \<Longrightarrow> (of_int i < (m :: u64)) \<longleftrightarrow> nat i < unat m"
proof -
  assume i: "0 \<le> i" "i \<le> 2147483647"
  then have "of_int i = (of_nat (nat i) :: u64)" "nat i < 2 ^ 64" by simp_all
  then have "unat (of_int i :: u64) = nat i" by (simp add: unat_of_nat)
  then show ?thesis by (simp add: word_less_nat_alt)
qed

definition harmless :: "os \<Rightarrow> (u64 \<Rightarrow> sys \<Rightarrow> sys) option \<Rightarrow> bool" where
  "harmless OS cb \<longleftrightarrow> (\<forall>f a s. cb = Some f \<longrightarrow> same_lib s (f a s) \<and> phys (f a s) = phys s)"

lemma harmless_callbacks: "harmless OS None" "harmless OS (Some (ptedit_invalidate_tlb OS))"
  by (simp_all add: harmless_def invalidate_tlb_same)

lemma time_loop_run:
  assumes "harmless OS cb"
  shows "own_page OS root a up w s \<Longrightarrow> 0 \<le> i \<Longrightarrow> i \<le> 2147483647 \<Longrightarrow>
    (if unat m < 2 ^ 31
     then \<exists>x t. time_loop OS P clock cb a m i k acc s = Some (x, k + 2 * (unat m - nat i), t) \<and> same_lib s t \<and> phys t = phys s
     else time_loop OS P clock cb a m i k acc s = None)"
proof (induction "nat (2147483647 - i)" arbitrary: i k acc s rule: less_induct)
  case less
  let ?t = "case cb of None \<Rightarrow> s | Some f \<Rightarrow> f a s" and ?acc = "acc + (clock (k + 1) - clock k)"
  have t: "same_lib s ?t" "phys ?t = phys s" using assms by (auto simp: harmless_def split: option.split)
  have own: "own_page OS root a up w ?t" by (rule own_page_frame [OF less.prems(1) t])
  have "access_address OS a 8 s = Some (ptedit_get_pfn X86_64 w * 4096)"
    using process_page_reaches [OF own_pageD(3) [OF less.prems(1)], of 0 8] by simp
  then have touch: "touch OS P a 8 s = Some (ptedit_get_pfn X86_64 w * 4096, s)" by (simp add: touch_def)
  have step: "time_loop OS P clock cb a m i k acc s =
      (if \<not> nat i < unat m then Some (acc, k, s)
       else if i = 2147483647 then None else time_loop OS P clock cb a m (i + 1) (k + 2) ?acc ?t)"
    using less.prems(2,3) by (subst time_loop.simps) (simp add: touch counter_less)
  show ?case
  proof (cases "nat i < unat m \<and> i \<noteq> 2147483647")
    case True
    then have "nat (2147483647 - (i + 1)) < nat (2147483647 - i)" "0 \<le> i + 1" "i + 1 \<le> 2147483647"
      using less.prems(2,3) by simp_all
    from less.hyps [OF this(1) own this(2,3), of "k + 2" ?acc] True less.prems(2) show ?thesis
      using same_lib_trans [OF t(1)] t(2) by (auto simp: step nat_add_distrib Suc_diff_Suc split: if_splits)
  next
    case False
    show ?thesis
    proof (cases "nat i < unat m")
      case True
      with False have "i = 2147483647" by simp
      with True step show ?thesis by simp
    next
      case stop: False
      with less.prems(2,3) have "unat m < 2 ^ 31" by simp
      with stop show ?thesis by (simp add: step)
    qed
  qed
qed

text \<open>
  C40. The loop that measures access times ends with a result exactly when the number of measurements is
  between 1 and the largest \<open>int\<close>: it then has read the clock twice per measurement and left memory and
  library alone.  Without measurements the average divides by zero, and from 2^31 measurements on the
  \<open>int\<close> counter overflows before it reaches the bound.
\<close>

theorem access_time_ext_ends:
  assumes own: "own_page OS root a up w s" and cb: "cb = None \<or> cb = Some (ptedit_invalidate_tlb OS)"
  shows "(access_time_ext OS P clock cb a m k s \<noteq> None \<longleftrightarrow> 0 < unat m \<and> unat m < 2 ^ 31)
    \<and> (\<forall>x j t. access_time_ext OS P clock cb a m k s = Some (x, j, t) \<longrightarrow>
        j = k + 2 * unat m \<and> same_lib s t \<and> phys t = phys s)"
proof -
  have ok: "harmless OS cb" using cb harmless_callbacks by blast
  show ?thesis
    using time_loop_run [OF ok own, of 0 m P clock k 0]
    by (auto simp: access_time_ext_def unat_gt_0 split: if_splits)
qed

theorem access_time_ext_ends_witness:
  "access_time_ext sample_os sample_process (\<lambda>n. of_nat n) (Some (ptedit_invalidate_tlb sample_os)) sample_vaddr 1000000 0 sample_sys2 \<noteq> None
   \<and> access_time_ext sample_os sample_process (\<lambda>n. of_nat n) None sample_vaddr 0x80000000 0 sample_sys2 = None"
proof -
  have cb: "Some (ptedit_invalidate_tlb sample_os) = None \<or> Some (ptedit_invalidate_tlb sample_os) = Some (ptedit_invalidate_tlb sample_os)"
    "None = None \<or> None = Some (ptedit_invalidate_tlb sample_os)" by simp_all
  show ?thesis
    using conjunct1 [OF access_time_ext_ends [where m = 1000000, OF sample_own_pages(1) cb(1)]]
      conjunct1 [OF access_time_ext_ends [where m = "0x80000000", OF sample_own_pages(1) cb(2)]]
    by (simp del: not_Some_eq not_None_eq)
qed

section \<open>The tests of physical pages pass\<close>

lemma load_chars_page:
  "process_page OS root a w s \<Longrightarrow> k + n \<le> 4096 \<Longrightarrow>
   load_chars OS P (a + of_nat k) n s = Some (load_bytes (phys s) (ptedit_get_pfn X86_64 w * 4096 + of_nat k) n, s)"
proof (induction n arbitrary: k)
  case 0
  then show ?case by (simp add: load_bytes_def)
next
  case (Suc n)
  let ?p = "ptedit_get_pfn X86_64 w * 4096 + of_nat k"
  have "load_char OS P (a + of_nat k) s = Some (phys s ?p, s)"
    using process_page_reaches [OF Suc.prems(1), of k 1] Suc.prems(2) unfolding load_char_def touch_def by simp
  moreover have "load_chars OS P (a + of_nat k + 1) n s = Some (load_bytes (phys s) (?p + 1) n, s)"
    using Suc.IH [OF Suc.prems(1), of "Suc k"] Suc.prems(2) by (simp add: algebra_simps)
  moreover have "load_bytes (phys s) ?p (Suc n) = phys s ?p # load_bytes (phys s) (?p + 1) n"
    by (simp add: load_bytes_def upt_conv_Cons map_Suc_upt [symmetric] algebra_simps del: upt_Suc)
  ultimately show ?case by simp
qed

lemma load_page:
  assumes "own_page OS root a up w s"
  shows "load_chars OS P a 4096 s = Some (load_bytes (phys s) (ptedit_get_pfn X86_64 w * 4096) 4096, s)"
  using load_chars_page [OF own_pageD(3) [OF assms], of 0 4096 P] by simp

lemma page_access_frame: "same_lib s t \<Longrightarrow> page_access OS pfn t = page_access OS pfn s"
  by (simp add: page_access_def same_lib_fields fd_file_def)

lemma read_half_page:
  assumes own: "own_page OS root a up w s" and "ptedit_get_pfn X86_64 w \<noteq> 0" and "page_access OS (ptedit_get_pfn X86_64 w) s"
    and size: "ptedit_pagesize s = 4096" and "length buffer = 4096"
  obtains bs t where "read_half OS P a buffer s = Some (True, bs, t)" "length bs = 4096" "same_lib s t" "phys t = phys s"
proof -
  let ?F = "ptedit_get_pfn X86_64 w"
  obtain t where t: "assert_pfn OS a s = Some (?F, True, t)" "same_lib s t" "phys t = phys s"
    by (rule assert_pfn_page [OF own_pageD(1) [OF own] assms(2)])
  have own_t: "own_page OS root a up w t" by (rule own_page_frame [OF own t(2,3)])
  have "ptedit_pagesize t = 4096" using size t(2) by (simp add: same_lib_fields)
  then have "ptedit_read_physical_page OS ?F buffer t = (load_bytes (phys t) (?F * 4096) 4096, t)"
    using read_physical_page_loads [of OS ?F t buffer] page_access_frame [OF t(2)] assms(3,5) by simp
  then show thesis using that t by (simp add: read_half_def load_page [OF own_t])
qed

lemma load_frame_apart:
  assumes "F < 2 ^ 28" and "G < 2 ^ 28" and "F \<noteq> G" and "length bs = 4096"
  shows "load_bytes (store_bytes m (G * 4096) bs) (F * 4096) 4096 = load_bytes m (F * 4096) 4096"
proof -
  have "\<not> unat (F * 4096 + of_nat i - G * 4096) < 4096" if "i < 4096" for i
    using unat_circle [OF frames_distinct [OF assms(1-3)] frames_distinct [OF assms(2,1) assms(3) [symmetric]] that] by simp
  then show ?thesis using assms(4) by (simp add: load_bytes_def store_bytes_apply)
qed

lemma write_half_page:
  assumes own: "own_page OS root a up w s" and G: "G < 2 ^ 28" "G \<noteq> ptedit_get_pfn X86_64 w" and access: "page_access OS G s"
    and off: "\<And>l. off_frame G (walk_slot (phys s) root a l)" and size: "ptedit_pagesize s = 4096" and buffer: "length buffer = 4096"
  defines "t \<equiv> s\<lparr>phys := store_bytes (phys s) (G * 4096) (load_bytes (phys s) (ptedit_get_pfn X86_64 w * 4096) 4096)\<rparr>"
  shows "write_half OS P G a buffer s = Some (True, load_bytes (phys s) (ptedit_get_pfn X86_64 w * 4096) 4096, t)"
proof -
  let ?bs = "load_bytes (phys s) (ptedit_get_pfn X86_64 w * 4096) 4096"
  have F: "ptedit_get_pfn X86_64 w < 2 ^ 28" by (rule page_state_walk(3) [OF own_pageD(1) [OF own]])
  have written: "ptedit_write_physical_page OS G ?bs s = t"
    using write_physical_page_stores [OF access, of ?bs] size by (simp add: t_def)
  have own_t: "own_page OS root a up w t" unfolding t_def by (rule own_page_write_frame [OF own off]) simp
  have "same_lib s t" by (simp add: t_def)
  then have "ptedit_read_physical_page OS G buffer t = (load_bytes (phys t) (G * 4096) 4096, t)"
    using read_physical_page_loads [of OS G t buffer] page_access_frame [of s t OS G] access size buffer by (simp add: same_lib_fields)
  moreover have "load_bytes (phys t) (G * 4096) 4096 = ?bs"
    using load_bytes_store_bytes [of ?bs "phys s" "G * 4096"] by (simp add: t_def)
  moreover have "load_bytes (phys t) (ptedit_get_pfn X86_64 w * 4096) 4096 = ?bs"
    using load_frame_apart [OF F G(1) G(2) [symmetric]] by (simp add: t_def)
  ultimately show ?thesis
    by (simp add: write_half_def load_page [OF own] load_page [OF own_t] written)
qed

text \<open>
  The tests of physical pages, for three pages of the program on different frames that the files of
  the module or its requests can access: a physical page reads as the page of the program on it, and a
  page written to the frame of another one reads back.
\<close>

theorem page_tests_pass:
  assumes own1: "own_page OS root page1 up1 w1 s" and own2: "own_page OS root page2 up2 w2 s" and own: "own_page OS root scratch up w s"
    and frames: "ptedit_get_pfn X86_64 w1 \<noteq> 0" "ptedit_get_pfn X86_64 w2 \<noteq> 0" "ptedit_get_pfn X86_64 w \<noteq> 0"
      "ptedit_get_pfn X86_64 w \<noteq> ptedit_get_pfn X86_64 w1" "ptedit_get_pfn X86_64 w \<noteq> ptedit_get_pfn X86_64 w2"
    and access: "page_access OS (ptedit_get_pfn X86_64 w1) s" "page_access OS (ptedit_get_pfn X86_64 w2) s" "page_access OS (ptedit_get_pfn X86_64 w) s"
    and off: "\<And>l. off_frame (ptedit_get_pfn X86_64 w) (walk_slot (phys s) root page1 l)"
      "\<And>l. off_frame (ptedit_get_pfn X86_64 w) (walk_slot (phys s) root page2 l)"
    and size: "ptedit_pagesize s = 4096" and buffer: "length buffer = 4096"
  shows "passes (test_page_read OS P page1 page2 buffer) s \<and> passes (test_page_write OS P scratch page1 page2 buffer) s"
proof
  let ?G = "ptedit_get_pfn X86_64 w"
  obtain b1 s1 where 1: "read_half OS P page1 buffer s = Some (True, b1, s1)" "length b1 = 4096" "same_lib s s1" "phys s1 = phys s"
    by (rule read_half_page [OF own1 frames(1) access(1) size buffer])
  have "page_access OS (ptedit_get_pfn X86_64 w2) s1" "ptedit_pagesize s1 = 4096"
    using page_access_frame [OF 1(3)] access(2) size 1(3) by (simp_all add: same_lib_fields)
  then obtain b2 s2 where 2: "read_half OS P page2 b1 s1 = Some (True, b2, s2)"
    using read_half_page [OF own_page_frame [OF own2 1(3,4)] frames(2) _ _ 1(2), of P] by blast
  show "passes (test_page_read OS P page1 page2 buffer) s" by (simp add: passes_def test_page_read_def 1(1) 2)
  obtain t where t: "assert_pfn OS scratch s = Some (?G, True, t)" "same_lib s t" "phys t = phys s"
    by (rule assert_pfn_page [OF own_pageD(1) [OF own] frames(3)])
  have G: "?G < 2 ^ 28" by (rule page_state_walk(3) [OF own_pageD(1) [OF own]])
  note own1' = own_page_frame [OF own1 t(2,3)] and own2' = own_page_frame [OF own2 t(2,3)]
  have t': "page_access OS ?G t" "ptedit_pagesize t = 4096" "\<And>l. off_frame ?G (walk_slot (phys t) root page1 l)"
    "\<And>l. off_frame ?G (walk_slot (phys t) root page2 l)"
    using page_access_frame [OF t(2)] access(3) size t(2,3) off by (simp_all add: same_lib_fields)
  let ?b1 = "load_bytes (phys t) (ptedit_get_pfn X86_64 w1 * 4096) 4096"
  let ?u = "t\<lparr>phys := store_bytes (phys t) (?G * 4096) ?b1\<rparr>"
  have h1: "write_half OS P ?G page1 buffer t = Some (True, ?b1, ?u)"
    by (rule write_half_page [OF own1' G frames(4) t'(1,3,2) buffer])
  have own2'': "own_page OS root page2 up2 w2 ?u" by (rule own_page_write_frame [OF own2' t'(4)]) simp
  have off2: "off_frame ?G (walk_slot (phys ?u) root page2 l)" for l
    using t'(4) page_state_slots [OF own_pageD(1) [OF own2'] own_pageD(1) [OF own2'']] by (simp only:)
  have "same_lib t ?u" by simp
  then have u: "page_access OS ?G ?u" "ptedit_pagesize ?u = 4096" using page_access_frame t'(1,2) by (blast, simp)
  obtain b v where "write_half OS P ?G page2 ?b1 ?u = Some (True, b, v)"
    using write_half_page [OF own2'' G frames(5) u(1) off2 u(2), of ?b1 P] by simp
  then show "passes (test_page_write OS P scratch page1 page2 buffer) s" by (simp add: passes_def test_page_write_def t(1) h1)
qed

section \<open>The tests of roots, memory types and invalidation pass\<close>

lemma kernel_vm_pgd:
  assumes "\<not> pgd_none (os_kernel OS) (kread (os_kernel OS) (phys s) q)" and "\<not> pgd_bad (os_kernel OS) (kread (os_kernel OS) (phys s) q)"
    and "q = pgd_offset (os_kernel OS) (mm_pgd s (the (get_mm (os_kernel OS) (size_of_int p)))) a"
  shows "vm_pgd (snd (kernel_vm OS a p s)) = Some q"
  using assms by (auto simp: kernel_vm_def resolve_vm_walk_def resolve_vm_pud_def Let_def split: option.split)

lemma get_root_kernel:
  assumes "cfg_arch (os_kernel OS) = X86_64" and "fd_file (ptedit_fd s) s = Some F_device" and "get_mm (os_kernel OS) (size_of_int p) = Some mm"
  obtains t where "ptedit_get_paging_root OS p s = (virt_to_phys (os_kernel OS) (mm_pgd s mm), t)" "same_lib s t" "phys t = phys s"
proof -
  obtain r t where t: "ptedit_get_paging_root OS p s = (r, t)" by fastforce
  then have "r = virt_to_phys (os_kernel OS) (mm_pgd s mm)"
    using assms by (auto simp: ptedit_get_paging_root_def ioctl_def ioctl_get_root_def emit_def Let_def)
  then show thesis using that get_paging_root_same [OF t] t by simp
qed

text \<open>
  What the tests rely on: the device is open on x86, the process exists with a page-aligned root, there
  is no process -1, the file or the requests of the module reach the root table, and its first entry is
  one the module follows.
\<close>

definition root_ready :: "os \<Rightarrow> u64 \<Rightarrow> sys \<Rightarrow> bool" where
  "root_ready OS root s \<longleftrightarrow>
     (let K = os_kernel OS in
      cfg_arch K = X86_64 \<and> x86_accessors K \<and> fd_file (ptedit_fd s) s = Some F_device
      \<and> (\<exists>mm. get_mm K (size_of_int 0) = Some mm \<and> virt_to_phys K (mm_pgd s mm) = root)
      \<and> get_mm K (size_of_int (- 1)) = None \<and> root \<noteq> 0 \<and> take_bit 12 root = 0
      \<and> real_page_size s = 4096 \<and> ptedit_pagesize s = 4096 \<and> ptedit_resolve_ptr s = Resolve_kernel
      \<and> page_access OS (root div 4096) s \<and> \<not> pgd_none K (load64 (phys s) root) \<and> \<not> pgd_bad K (load64 (phys s) root))"

lemma aligned_root: "take_bit 12 root = 0 \<Longrightarrow> root div 4096 * 4096 = (root :: u64)" "take_bit 12 root = 0 \<Longrightarrow> root mod 4096 = (0 :: u64)"
  using div_mult_mod_eq [of root 4096] by (simp_all add: take_bit_eq_mod)

lemma first_word: "le64 (take 8 (load_bytes m a 4096)) = load64 m a"
  by (simp add: load64_def load_bytes_def take_map)

lemma root_readyD:
  assumes "root_ready OS root s"
  shows "cfg_arch (os_kernel OS) = X86_64" "x86_accessors (os_kernel OS)" "fd_file (ptedit_fd s) s = Some F_device"
    "\<exists>mm. get_mm (os_kernel OS) (size_of_int 0) = Some mm \<and> virt_to_phys (os_kernel OS) (mm_pgd s mm) = root"
    "get_mm (os_kernel OS) (size_of_int (- 1)) = None" "root \<noteq> 0" "take_bit 12 root = 0" "real_page_size s = 4096"
    "ptedit_pagesize s = 4096" "ptedit_resolve_ptr s = Resolve_kernel" "page_access OS (root div 4096) s"
    "\<not> pgd_none (os_kernel OS) (load64 (phys s) root)" "\<not> pgd_bad (os_kernel OS) (load64 (phys s) root)"
  using assms unfolding root_ready_def Let_def by blast+

lemma root_ready_frame: "root_ready OS root s \<Longrightarrow> same_lib s t \<Longrightarrow> phys t = phys s \<Longrightarrow> root_ready OS root t"
  using page_access_frame [of s t OS "root div 4096"] by (simp add: root_ready_def Let_def same_lib_fields fd_file_def)

lemma root_request:
  assumes "root_ready OS root s"
  obtains t where "ptedit_get_paging_root OS 0 s = (root, t)" "root_ready OS root t" "phys t = phys s"
proof -
  note r = root_readyD [OF assms]
  obtain mm where mm: "get_mm (os_kernel OS) (size_of_int 0) = Some mm" "virt_to_phys (os_kernel OS) (mm_pgd s mm) = root"
    using r(4) by blast
  obtain t where t: "ptedit_get_paging_root OS 0 s = (root, t)" "same_lib s t" "phys t = phys s"
    using get_root_kernel [OF r(1,3) mm(1)] mm(2) by metis
  show thesis by (rule that [OF t(1) root_ready_frame [OF assms t(2,3)] t(3)])
qed

lemma root_tests:
  assumes ready: "root_ready OS root s"
  shows "passes (test_get_root OS) s" "passes (test_get_root_deterministic OS) s" "passes (test_root_page_aligned OS) s"
    "passes (test_get_root_invalid_pid OS) s"
proof -
  obtain t where t: "ptedit_get_paging_root OS 0 s = (root, t)" "root_ready OS root t" by (rule root_request [OF ready])
  obtain u where u: "ptedit_get_paging_root OS 0 t = (root, u)" by (rule root_request [OF t(2)])
  note r = root_readyD [OF ready] and rt = root_readyD [OF t(2)]
  show "passes (test_get_root OS) s" "passes (test_get_root_deterministic OS) s"
    using r(6) by (simp_all add: passes_def test_get_root_def test_get_root_deterministic_def t(1) u)
  show "passes (test_root_page_aligned OS) s"
    using r(6) aligned_root(2) [OF r(7)] rt(3,8) by (simp add: passes_def test_root_page_aligned_def t(1) ptedit_get_pagesize_def ioctl_def)
  show "passes (test_get_root_invalid_pid OS) s"
    using r(1,3,5) by (simp add: passes_def test_get_root_invalid_pid_def ptedit_get_paging_root_def ioctl_def ioctl_get_root_def Let_def)
qed

lemma root_entry:
  assumes "root_ready OS root s"
  obtains e t where "ptedit_resolve OS 0 0 s = Some (e, t)" "pgd e = load64 (phys s) root"
proof -
  let ?K = "os_kernel OS"
  note r = root_readyD [OF assms]
  obtain mm where mm: "get_mm ?K (size_of_int 0) = Some mm" "virt_to_phys ?K (mm_pgd s mm) = root" using r(4) by blast
  let ?q = "pgd_offset ?K (mm_pgd s mm) 0"
  have load: "kread ?K (phys s) ?q = load64 (phys s) root"
    using r(2) mm(2) unfolding x86_accessors_def kread_def by (simp add: level_index_x86)
  then have q: "vm_pgd (snd (kernel_vm OS 0 0 s)) = Some ?q"
    by (intro kernel_vm_pgd) (simp_all only: load r(12,13) mm(1) option.sel simp_thms)
  obtain e u where e: "ptedit_resolve_kernel OS 0 0 s = Some (e, u)" "view e = kernel_entries OS 0 0 s"
    using kernel_resolve [OF r(3) mm(1)] by blast
  have "view e PGD = Some (load64 (phys s) root)" by (simp add: e(2) kernel_entries_def q load)
  then have "pgd e = load64 (phys s) root" by (simp add: view_def split: if_splits)
  then show thesis using that e(1) r(10) by (simp add: ptedit_resolve_def)
qed

lemma correct_root:
  assumes ready: "root_ready OS root s" and buffer: "length buffer = 4096"
  shows "passes (test_correct_root OS buffer) s"
proof -
  obtain t where t: "ptedit_get_paging_root OS 0 s = (root, t)" "root_ready OS root t" "phys t = phys s" by (rule root_request [OF ready])
  note r = root_readyD [OF t(2)]
  have read: "ptedit_read_physical_page OS (root div 4096) buffer t = (load_bytes (phys t) root 4096, t)"
    using read_physical_page_loads [OF r(11), of buffer] r(9) buffer aligned_root(1) [OF r(7)] by simp
  obtain e u where e: "ptedit_resolve OS 0 0 t = Some (e, u)" "pgd e = load64 (phys t) root" by (rule root_entry [OF t(2)])
  show ?thesis using r(3,8)
    by (simp add: passes_def test_correct_root_def t(1) ptedit_get_pagesize_def ioctl_def read e first_word)
qed

lemma invalidation_tests:
  "fd_file (ptedit_fd s) s = Some F_device \<Longrightarrow> passes (test_invalid_tlb_method OS) s"
  "fd_file (ptedit_fd s) s = Some F_device \<Longrightarrow> passes (test_valid_tlb_method OS) s"
  by (simp_all add: passes_def test_invalid_tlb_method_def test_valid_tlb_method_def ptedit_switch_tlb_invalidation_def
      ioctl_def ioctl_switch_tlb_def TLB_INVALIDATION_KERNEL_def TLB_INVALIDATION_CUSTOM_def size_of_int_def)

lemma type_tests:
  assumes "cfg_arch (os_kernel OS) = X86_64"
  shows "passes (test_get_mts OS) s \<longleftrightarrow> ptedit_get_mts OS s \<noteq> 0" "passes (test_get_mts_deterministic OS) s"
    "mt_value X86_64 ty = Some v \<Longrightarrow>
       (passes (test_has_type OS ty) s \<longleftrightarrow> (\<exists>i < 8. mt_byte X86_64 (ptedit_get_mts OS s) i = v))"
  using find_first_mt_spec [of OS v s] assms
  by (auto simp: passes_def test_get_mts_def test_get_mts_deterministic_def test_has_type_def mt_matches_x86)

text \<open>
  The tests of paging roots and of TLB invalidation: the root is nonzero, page-aligned and the same on
  every request, its first entry read as physical memory is the PGD of address 0, and an unknown process
  has the root 0; an unknown method of invalidation is refused and the kernel's method accepted.  The
  tests of memory types expect a nonzero register with the type in one of its eight fields, and pass
  exactly then.
\<close>

theorem system_tests_pass:
  assumes ready: "root_ready OS root s" and buffer: "length buffer = 4096" and ty: "mt_value X86_64 ty = Some v"
  shows "passes (test_get_root OS) s \<and> passes (test_get_root_deterministic OS) s \<and> passes (test_get_root_invalid_pid OS) s
    \<and> passes (test_root_page_aligned OS) s \<and> passes (test_correct_root OS buffer) s
    \<and> passes (test_invalid_tlb_method OS) s \<and> passes (test_valid_tlb_method OS) s
    \<and> (passes (test_get_mts OS) s \<longleftrightarrow> ptedit_get_mts OS s \<noteq> 0) \<and> passes (test_get_mts_deterministic OS) s
    \<and> (passes (test_has_type OS ty) s \<longleftrightarrow> (\<exists>i < 8. mt_byte X86_64 (ptedit_get_mts OS s) i = v))"
proof (intro conjI)
  note r = root_readyD [OF ready]
  show "passes (test_get_root OS) s" "passes (test_get_root_deterministic OS) s" "passes (test_root_page_aligned OS) s"
    "passes (test_get_root_invalid_pid OS) s" by (rule root_tests [OF ready])+
  show "passes (test_correct_root OS buffer) s" by (rule correct_root [OF ready buffer])
  show "passes (test_invalid_tlb_method OS) s" "passes (test_valid_tlb_method OS) s" by (rule invalidation_tests [OF r(3)])+
  show "passes (test_get_mts OS) s \<longleftrightarrow> ptedit_get_mts OS s \<noteq> 0" "passes (test_get_mts_deterministic OS) s"
    "passes (test_has_type OS ty) s \<longleftrightarrow> (\<exists>i < 8. mt_byte X86_64 (ptedit_get_mts OS s) i = v)"
    by (rule type_tests(1) [OF r(1)], rule type_tests(2) [OF r(1)], rule type_tests(3) [OF r(1) ty])
qed

section \<open>The tests on the sample machine\<close>

lemma sample_page_access: "page_access sample_os pfn sample_sys2"
  by (simp add: page_access_def sample_sys2_simps fd_file_def umem_serves_def) (simp add: sample_os_def)

theorem page_tests_pass_witness:
  "passes (test_page_read sample_os sample_process sample_vaddr sample_vaddr (replicate 4096 0)) sample_sys2
   \<and> passes (test_page_write sample_os sample_process sample_vaddr2 sample_vaddr sample_vaddr (replicate 4096 0)) sample_sys2"
  by (rule page_tests_pass [OF sample_own_pages(1) sample_own_pages(1) sample_own_pages(2)])
    (simp_all add: sample_frames sample_page_access sample_own_pages(4) [unfolded sample_sys2_simps(1)] sample_sys2_simps)

lemma sample_root_ready: "root_ready sample_os 0x1000 sample_sys2"
proof -
  have "x86_accessors (os_kernel sample_os)" using sample_mmu_config(1) by (simp add: mmu_config_def)
  moreover have "get_mm (os_kernel sample_os) (size_of_int 0) = Some 3" "cfg_arch (os_kernel sample_os) = X86_64"
    "virt_to_phys (os_kernel sample_os) (mm_pgd sample_sys2 3) = 0x1000"
    "pgd_none (os_kernel sample_os) v = False" "pgd_bad (os_kernel sample_os) v = False" for v
    by (simp_all add: sample_sys2_simps sample_roots_def) (simp_all add: sample_os_def sample_linux_def get_mm_def size_of_int_def)
  moreover have "take_bit 12 0x1000 = (0 :: u64)" by (simp add: take_bit_eq_mask mask_numeral)
  ultimately show ?thesis
    using sample_no_process by (simp add: root_ready_def sample_sys2_simps fd_file_def sample_page_access)
qed

theorem system_tests_pass_witness:
  "passes (test_correct_root sample_os (replicate 4096 0)) sample_sys2 \<and> passes (test_has_type sample_os WB) sample_sys2"
proof -
  have "mt_value X86_64 WB = Some 6" by simp
  note pass = system_tests_pass [OF sample_root_ready _ this, of "replicate 4096 0"]
  have "mt_byte X86_64 (ptedit_get_mts sample_os sample_sys2) 0 = 6"
    using sample_mts
    by (simp add: sample_sys2_def ptedit_get_mts_def ioctl_def fd_file_def sample_sys_simps get_pat_def mt_byte_def take_bit_eq_mask mask_numeral)
  then have "\<exists>i < 8. mt_byte X86_64 (ptedit_get_mts sample_os sample_sys2) i = 6" by (intro exI [of _ 0]) simp
  with pass show ?thesis by simp
qed

end
