(* ===== verification/PT_Loader.thy ===== *)
theory PT_Loader
  imports PT_Windows
begin

text \<open>
  The Windows loader, \<open>driver/PTEditorLoader/PTEditorLoader.cpp\<close>, which installs and starts the driver
  as a service, or stops and removes it.  What it calls of Windows is the record \<open>scm\<close>, on a state of
  the machine of any type \<open>'w\<close>; the documented behaviour of these calls is the locale
  \<open>service_control\<close>.  A handle is a number; a null handle and \<open>INVALID_HANDLE_VALUE\<close> are the value \<open>None\<close>.
\<close>

section \<open>What the loader uses of Windows\<close>

record 'w scm =
  CreateFile :: "string \<Rightarrow> 'w \<Rightarrow> nat option \<times> 'w"
  CloseHandle :: "nat \<Rightarrow> 'w \<Rightarrow> 'w"
  GetFullPathName :: "string \<Rightarrow> nat \<Rightarrow> 'w \<Rightarrow> string"
  OpenSCManager :: "'w \<Rightarrow> nat option \<times> 'w"
  CreateService :: "nat \<Rightarrow> string \<Rightarrow> string \<Rightarrow> 'w \<Rightarrow> nat option \<times> 'w"
  OpenService :: "nat \<Rightarrow> string \<Rightarrow> 'w \<Rightarrow> nat option \<times> 'w"
  StartService :: "nat \<Rightarrow> 'w \<Rightarrow> 'w"
  ControlService_stop :: "nat \<Rightarrow> 'w \<Rightarrow> 'w"
  DeleteService :: "nat \<Rightarrow> 'w \<Rightarrow> 'w"
  CloseServiceHandle :: "nat \<Rightarrow> 'w \<Rightarrow> 'w"

definition PTEDITOR_DEVICE_NAME :: string where "PTEDITOR_DEVICE_NAME = ''PTEditorLink''"
definition PTEDITOR_DEVICE_PATH :: string where
  "PTEDITOR_DEVICE_PATH = [CHR 0x5C, CHR 0x5C, CHR ''.'', CHR 0x5C] @ PTEDITOR_DEVICE_NAME"
definition DRIVER_NAME :: string where "DRIVER_NAME = ''PTEdit.sys''"
definition SERVICE_NAME :: string where "SERVICE_NAME = ''PTEditor''"

section \<open>The program\<close>

text \<open>
  The state of a run: the machine, the lines printed and the calls that create, use or close a handle of
  a file or of the service manager, each with the handles it was given and returned.
\<close>

datatype scm_call =
    Open_file "nat option"
  | Close_file nat
  | Open_manager "nat option"
  | Create_service nat "nat option"
  | Open_service nat "nat option"
  | Start_service nat
  | Stop_service nat
  | Delete_service nat
  | Close_handle nat

record 'w loader =
  world :: 'w
  printed :: "string list"
  scm_calls :: "scm_call list"

definition say :: "string \<Rightarrow> 'w loader \<Rightarrow> 'w loader" where
  "say msg l = l\<lparr>printed := printed l @ [msg]\<rparr>"

definition call_open :: "(nat option \<Rightarrow> scm_call) \<Rightarrow> ('w \<Rightarrow> nat option \<times> 'w) \<Rightarrow> 'w loader \<Rightarrow> nat option \<times> 'w loader" where
  "call_open c f l = (let (r, w) = f (world l) in (r, l\<lparr>world := w, scm_calls := scm_calls l @ [c r]\<rparr>))"

definition call_on :: "scm_call \<Rightarrow> ('w \<Rightarrow> 'w) \<Rightarrow> 'w loader \<Rightarrow> 'w loader" where
  "call_on c f l = l\<lparr>world := f (world l), scm_calls := scm_calls l @ [c]\<rparr>"

definition unload_flag :: "string list \<Rightarrow> bool" where
  "unload_flag argv \<longleftrightarrow> 2 \<le> length argv \<and> argv ! 1 = ''--unload''"

text \<open>The early returns of \<open>main\<close> are the left side of the results, with the exit code.\<close>

definition find_driver :: "'w scm \<Rightarrow> 'w loader \<Rightarrow> (int \<times> 'w loader) + (string \<times> 'w loader)" where
  "find_driver S l =
     (let (fd, l) = call_open Open_file (CreateFile S DRIVER_NAME) l in
      case fd of
        None \<Rightarrow> Inl (1, say ''[-] Could not find driver PTEdit.sys in current directory'' l)
      | Some h \<Rightarrow>
          (let l = call_on (Close_file h) (CloseHandle S h) l;
               driverPath = GetFullPathName S DRIVER_NAME 1023 (world l)
           in Inr (driverPath, say (''[+] Found driver: '' @ driverPath) l)))"

definition check_loaded :: "'w scm \<Rightarrow> bool \<Rightarrow> string \<Rightarrow> 'w loader \<Rightarrow> (int \<times> 'w loader) + 'w loader" where
  "check_loaded S unload argv0 l =
     (let (fd, l) = call_open Open_file (CreateFile S PTEDITOR_DEVICE_PATH) l in
      if fd = None \<and> unload then Inl (1, say ''[-] Could not unload driver, driver is not loaded'' l)
      else
        (case fd of
           None \<Rightarrow> Inr l
         | Some h \<Rightarrow>
             (let l = call_on (Close_file h) (CloseHandle S h) l in
              if \<not> unload then
                Inl (0, say (''[+] PTEditor driver is already loaded. To unload the driver, run '' @ argv0 @ '' --unload'') l)
              else Inr l)))"

definition service_handle :: "'w scm \<Rightarrow> nat \<Rightarrow> string \<Rightarrow> 'w loader \<Rightarrow> nat option \<times> 'w loader" where
  "service_handle S m driverPath l =
     (let (h, l) = call_open (Create_service m) (CreateService S m SERVICE_NAME driverPath) l in
      if h = None then
        call_open (Open_service m) (OpenService S m SERVICE_NAME)
          (say ''[+] Service not running, try to open service'' l)
      else (h, l))"

definition control_service :: "'w scm \<Rightarrow> bool \<Rightarrow> nat \<Rightarrow> 'w loader \<Rightarrow> 'w loader" where
  "control_service S unload h l =
     (let l = (if \<not> unload then
                 call_on (Start_service h) (StartService S h) (say ''[+] Starting service'' l)
               else
                 call_on (Delete_service h) (DeleteService S h)
                   (call_on (Stop_service h) (ControlService_stop S h) (say ''[+] Stopping service'' l)))
      in call_on (Close_handle h) (CloseServiceHandle S h) l)"

definition with_manager :: "'w scm \<Rightarrow> bool \<Rightarrow> string \<Rightarrow> nat \<Rightarrow> 'w loader \<Rightarrow> 'w loader" where
  "with_manager S unload driverPath m l =
     (let l = say (if \<not> unload then ''[+] Creating service'' else ''[+] Connecting to service'') l;
          (h, l) = service_handle S m driverPath l;
          l = (case h of None \<Rightarrow> l | Some h \<Rightarrow> control_service S unload h l)
      in call_on (Close_handle m) (CloseServiceHandle S m) l)"

definition loader_services :: "'w scm \<Rightarrow> bool \<Rightarrow> string \<Rightarrow> 'w loader \<Rightarrow> 'w loader" where
  "loader_services S unload driverPath l =
     (let (m, l) = call_open Open_manager (OpenSCManager S) l;
          l = say (if unload then ''[+] Unload PTEditor driver'' else ''[+] Load PTEditor driver'') l
      in case m of None \<Rightarrow> l | Some m \<Rightarrow> with_manager S unload driverPath m l)"

definition loader_main :: "'w scm \<Rightarrow> string list \<Rightarrow> 'w loader \<Rightarrow> int \<times> 'w loader" where
  "loader_main S argv l =
     (let unload = unload_flag argv in
      case find_driver S l of
        Inl r \<Rightarrow> r
      | Inr (driverPath, l) \<Rightarrow>
          (case check_loaded S unload (argv ! 0) l of
             Inl r \<Rightarrow> r
           | Inr l \<Rightarrow> (0, loader_services S unload driverPath l)))"

definition start_loader :: "'w \<Rightarrow> 'w loader" where
  "start_loader w = \<lparr>world = w, printed = [], scm_calls = []\<rparr>"


section \<open>Handles\<close>

text \<open>
  The handles open after a sequence of calls, and \<open>None\<close> when a call was given a handle that is not
  open or of the wrong kind.
\<close>

datatype handle = File nat | Service nat

definition opened :: "(nat \<Rightarrow> handle) \<Rightarrow> nat option \<Rightarrow> handle list \<Rightarrow> handle list" where
  "opened kind r hs = (case r of None \<Rightarrow> hs | Some h \<Rightarrow> kind h # hs)"

lemma opened_simps [simp]: "opened kind None hs = hs" "opened kind (Some h) hs = kind h # hs"
  by (simp_all add: opened_def)

fun open_handles :: "scm_call list \<Rightarrow> handle list \<Rightarrow> handle list option" where
  "open_handles [] hs = Some hs"
| "open_handles (Open_file r # cs) hs = open_handles cs (opened File r hs)"
| "open_handles (Close_file h # cs) hs = (if File h \<in> set hs then open_handles cs (remove1 (File h) hs) else None)"
| "open_handles (Open_manager r # cs) hs = open_handles cs (opened Service r hs)"
| "open_handles (Create_service m r # cs) hs = (if Service m \<in> set hs then open_handles cs (opened Service r hs) else None)"
| "open_handles (Open_service m r # cs) hs = (if Service m \<in> set hs then open_handles cs (opened Service r hs) else None)"
| "open_handles (Start_service h # cs) hs = (if Service h \<in> set hs then open_handles cs hs else None)"
| "open_handles (Stop_service h # cs) hs = (if Service h \<in> set hs then open_handles cs hs else None)"
| "open_handles (Delete_service h # cs) hs = (if Service h \<in> set hs then open_handles cs hs else None)"
| "open_handles (Close_handle h # cs) hs = (if Service h \<in> set hs then open_handles cs (remove1 (Service h) hs) else None)"

fun file_call :: "scm_call \<Rightarrow> bool" where
  "file_call (Open_file r) = True"
| "file_call (Close_file h) = True"
| "file_call c = False"

lemma open_handles_append: "open_handles (cs @ ds) hs = Option.bind (open_handles cs hs) (open_handles ds)"
  by (induction cs hs rule: open_handles.induct) simp_all

text \<open>\<open>keeps_open l t\<close>: the calls between \<open>l\<close> and \<open>t\<close> find their handles open and leave the same ones open.\<close>

definition keeps_open :: "handle list \<Rightarrow> handle list \<Rightarrow> 'w loader \<Rightarrow> 'w loader \<Rightarrow> bool" where
  "keeps_open hs gs l t \<longleftrightarrow> (\<exists>cs. scm_calls t = scm_calls l @ cs \<and> open_handles cs hs = Some gs)"

lemma keeps_open_trans: "keeps_open hs gs l t \<Longrightarrow> keeps_open gs fs t u \<Longrightarrow> keeps_open hs fs l u"
  by (auto simp: keeps_open_def open_handles_append)

lemma keeps_open_say: "keeps_open hs hs l (say msg l)"
  by (simp add: keeps_open_def say_def)

lemma keeps_open_on: "open_handles [c] hs = Some gs \<Longrightarrow> keeps_open hs gs l (call_on c f l)"
  by (simp add: keeps_open_def call_on_def)

lemma keeps_open_opening:
  "open_handles [c r] hs = Some gs \<Longrightarrow> call_open c f l = (r, t) \<Longrightarrow> keeps_open hs gs l t"
  by (auto simp: keeps_open_def call_open_def split: prod.splits)

lemma control_service_handles: "keeps_open (Service h # hs) hs l (control_service S unload h l)"
  unfolding control_service_def Let_def
  by (cases unload) (simp_all add: keeps_open_def call_on_def say_def)

lemma service_handle_handles:
  assumes "service_handle S m path l = (h, t)" and "Service m \<in> set hs"
  shows "keeps_open hs (opened Service h hs) l t"
proof -
  obtain h1 l1 where 1: "call_open (Create_service m) (CreateService S m SERVICE_NAME path) l = (h1, l1)" by fastforce
  have k1: "keeps_open hs (opened Service h1 hs) l l1"
    by (rule keeps_open_opening [OF _ 1]) (simp add: assms(2))
  show ?thesis
  proof (cases h1)
    case (Some k)
    with assms(1) 1 k1 show ?thesis by (simp add: service_handle_def)
  next
    case None
    let ?l2 = "say ''[+] Service not running, try to open service'' l1"
    have 2: "call_open (Open_service m) (OpenService S m SERVICE_NAME) ?l2 = (h, t)"
      using assms(1) 1 None by (simp add: service_handle_def)
    have "keeps_open hs (opened Service h hs) ?l2 t"
      by (rule keeps_open_opening [OF _ 2]) (simp add: assms(2))
    moreover have "keeps_open hs hs l ?l2" using k1 None keeps_open_say keeps_open_trans by fastforce
    ultimately show ?thesis using keeps_open_trans by blast
  qed
qed

lemma with_manager_handles: "keeps_open (Service m # hs) hs l (with_manager S unload path m l)"
proof -
  let ?l = "say (if \<not> unload then ''[+] Creating service'' else ''[+] Connecting to service'') l"
  obtain h t where t: "service_handle S m path ?l = (h, t)" by fastforce
  let ?u = "case h of None \<Rightarrow> t | Some k \<Rightarrow> control_service S unload k t"
  have 0: "keeps_open (Service m # hs) (Service m # hs) l ?l" by (rule keeps_open_say)
  have 1: "keeps_open (Service m # hs) (opened Service h (Service m # hs)) ?l t"
    by (rule service_handle_handles [OF t]) simp
  have 2: "keeps_open (opened Service h (Service m # hs)) (Service m # hs) t ?u"
    by (cases h) (simp_all add: control_service_handles, simp add: keeps_open_def)
  have 3: "keeps_open (Service m # hs) hs ?u (call_on (Close_handle m) (CloseServiceHandle S m) ?u)"
    by (rule keeps_open_on) simp
  show ?thesis
    unfolding with_manager_def Let_def t prod.case
    by (rule keeps_open_trans [OF 0 keeps_open_trans [OF 1 keeps_open_trans [OF 2 3]]])
qed

lemma loader_services_handles: "keeps_open hs hs l (loader_services S unload path l)"
proof -
  obtain m t where t: "call_open Open_manager (OpenSCManager S) l = (m, t)" by fastforce
  have "keeps_open hs (opened Service m hs) l t"
    by (rule keeps_open_opening [OF _ t]) simp
  then have 1: "keeps_open hs (opened Service m hs) l (say msg t)" for msg
    using keeps_open_say by (rule keeps_open_trans)
  have 2: "keeps_open (opened Service m hs) hs u (case m of None \<Rightarrow> u | Some h \<Rightarrow> with_manager S unload path h u)" for u
    by (cases m) (simp_all add: with_manager_handles, simp add: keeps_open_def)
  show ?thesis
    unfolding loader_services_def t Let_def prod.case by (rule keeps_open_trans [OF 1 2])
qed

text \<open>Probing for a file opens and closes it.\<close>

definition probed :: "'w loader \<Rightarrow> 'w loader \<Rightarrow> bool" where
  "probed l t \<longleftrightarrow> (\<exists>cs. scm_calls t = scm_calls l @ cs \<and> list_all file_call cs \<and> (\<forall>hs. open_handles cs hs = Some hs))"

lemma find_driver_probed:
  "find_driver S l = Inl (r, t) \<Longrightarrow> probed l t \<and> r = 1"
  "find_driver S l = Inr (path, t) \<Longrightarrow> probed l t"
  by (auto simp: find_driver_def call_open_def call_on_def say_def probed_def Let_def split: prod.splits option.splits)

lemma check_loaded_probed:
  "check_loaded S unload argv0 l = Inl (r, t) \<Longrightarrow> probed l t"
  "check_loaded S unload argv0 l = Inr t \<Longrightarrow> probed l t"
  by (auto simp: check_loaded_def call_open_def call_on_def say_def probed_def Let_def split: prod.splits option.splits if_splits)

lemma probed_trans: "probed l t \<Longrightarrow> probed t u \<Longrightarrow> probed l u"
  by (fastforce simp: probed_def open_handles_append)

lemma probed_keeps_open: "probed l t \<Longrightarrow> keeps_open hs hs l t"
  by (auto simp: probed_def keeps_open_def)

text \<open>
  C37. Whatever Windows answers, every handle the loader obtains, of the driver file, of the device, of the
  service manager and of the service, is closed exactly once before it exits; no call is given a handle
  that is null, already closed or of the wrong kind; and a run that returns 1 makes no call of the service
  manager at all.
\<close>

theorem loader_handles_balanced:
  "open_handles (scm_calls (snd (loader_main S argv (start_loader w)))) [] = Some []
   \<and> (fst (loader_main S argv (start_loader w)) = 1 \<longrightarrow>
        list_all file_call (scm_calls (snd (loader_main S argv (start_loader w)))))"
proof -
  let ?l = "start_loader w" and ?u = "unload_flag argv"
  have none: "scm_calls ?l = []" by (simp add: start_loader_def)
  have fine: ?thesis if "loader_main S argv ?l = (r, t)" "probed ?l t" for r t
    using that none by (auto simp: probed_def)
  show ?thesis
  proof (cases "find_driver S ?l")
    case (Inl x)
    with find_driver_probed(1) fine show ?thesis by (cases x) (fastforce simp: loader_main_def)
  next
    case (Inr y)
    obtain path l1 where y: "y = (path, l1)" by fastforce
    note 1 = find_driver_probed(2) [OF Inr [unfolded y]]
    show ?thesis
    proof (cases "check_loaded S ?u (argv ! 0) l1")
      case Inl': (Inl x)
      with check_loaded_probed(1) probed_trans [OF 1] fine Inr y show ?thesis by (cases x) (fastforce simp: loader_main_def)
    next
      case Inr': (Inr l2)
      have "keeps_open [] [] ?l (loader_services S ?u path l2)"
        by (rule keeps_open_trans [OF probed_keeps_open loader_services_handles])
          (rule probed_trans [OF 1 check_loaded_probed(2) [OF Inr']])
      with none Inr Inr' y show ?thesis by (auto simp: keeps_open_def loader_main_def)
    qed
  qed
qed


section \<open>The documented behaviour of the service manager\<close>

text \<open>
  What matters of the machine: the driver file, the device, and the service with the path it was
  registered with.  A service that is marked for deletion disappears when it does not run and its last
  handle is closed.
\<close>

record service_view =
  driver_found :: bool
  driver_path :: string
  device_present :: bool
  registered :: "string option"
  running :: bool
  marked :: bool
  files :: "nat set"
  managers :: "nat set"
  services :: "nat set"
  administrator :: bool
  startable :: "string \<Rightarrow> bool"
  stoppable :: bool

definition settle :: "service_view \<Rightarrow> service_view" where
  "settle v = (if marked v \<and> \<not> running v \<and> services v = {} then v\<lparr>registered := None, marked := False\<rparr> else v)"

definition start_view :: "service_view \<Rightarrow> service_view" where
  "start_view v =
     (case registered v of
        Some p \<Rightarrow> if \<not> running v \<and> \<not> marked v \<and> startable v p then v\<lparr>running := True, device_present := True\<rparr> else v
      | None \<Rightarrow> v)"

definition stop_view :: "service_view \<Rightarrow> service_view" where
  "stop_view v = (if running v \<and> stoppable v then v\<lparr>running := False, device_present := False\<rparr> else v)"

definition delete_view :: "service_view \<Rightarrow> service_view" where
  "delete_view v = (if registered v \<noteq> None then v\<lparr>marked := True\<rparr> else v)"

text \<open>The contract of the loader: what a run does to the machine, and its exit code.\<close>

definition register_view :: "service_view \<Rightarrow> service_view" where
  "register_view v = (if registered v = None then v\<lparr>registered := Some (driver_path v)\<rparr> else v)"

definition load_view :: "service_view \<Rightarrow> service_view" where
  "load_view v =
     (if \<not> driver_found v \<or> device_present v \<or> \<not> administrator v then v else settle (start_view (register_view v)))"

definition unload_view :: "service_view \<Rightarrow> service_view" where
  "unload_view v =
     (if \<not> driver_found v \<or> \<not> device_present v \<or> \<not> administrator v then v
      else settle (delete_view (stop_view (register_view v))))"

definition exit_code :: "bool \<Rightarrow> service_view \<Rightarrow> int" where
  "exit_code unload v = (if \<not> driver_found v \<or> unload \<and> \<not> device_present v then 1 else 0)"

definition fresh_handle :: "nat \<Rightarrow> service_view \<Rightarrow> bool" where
  "fresh_handle h v \<longleftrightarrow> h \<notin> managers v \<and> h \<notin> services v"

text \<open>Steps on the machine do not depend on the handles, and keep them.\<close>

lemma view_steps_handles [simp]:
  "start_view (v\<lparr>services := X\<rparr>) = (start_view v)\<lparr>services := X\<rparr>" "start_view (v\<lparr>managers := X\<rparr>) = (start_view v)\<lparr>managers := X\<rparr>"
  "stop_view (v\<lparr>services := X\<rparr>) = (stop_view v)\<lparr>services := X\<rparr>" "stop_view (v\<lparr>managers := X\<rparr>) = (stop_view v)\<lparr>managers := X\<rparr>"
  "delete_view (v\<lparr>services := X\<rparr>) = (delete_view v)\<lparr>services := X\<rparr>" "delete_view (v\<lparr>managers := X\<rparr>) = (delete_view v)\<lparr>managers := X\<rparr>"
  "register_view (v\<lparr>managers := X\<rparr>) = (register_view v)\<lparr>managers := X\<rparr>" "settle (v\<lparr>managers := X\<rparr>) = (settle v)\<lparr>managers := X\<rparr>"
  by (simp_all add: start_view_def stop_view_def delete_view_def register_view_def settle_def split: option.split)

lemma view_steps_fields [simp]:
  "services (start_view v) = services v" "services (stop_view v) = services v" "services (delete_view v) = services v"
  "services (register_view v) = services v" "services (settle v) = services v"
  "managers (start_view v) = managers v" "managers (stop_view v) = managers v" "managers (delete_view v) = managers v"
  "managers (register_view v) = managers v" "managers (settle v) = managers v"
  "device_present (register_view v) = device_present v"
  by (simp_all add: start_view_def stop_view_def delete_view_def register_view_def settle_def split: option.split)

lemma keep_services: "services v = X \<Longrightarrow> v\<lparr>services := X\<rparr> = v"
  by auto

lemma keep_files: "files v = X \<Longrightarrow> v\<lparr>files := X\<rparr> = v"
  by auto

locale service_control =
  fixes S :: "'w scm" and view :: "'w \<Rightarrow> service_view"
  assumes open_driver: "CreateFile S DRIVER_NAME w = (r, w') \<Longrightarrow>
      (case r of None \<Rightarrow> \<not> driver_found (view w) \<and> view w' = view w
       | Some h \<Rightarrow> driver_found (view w) \<and> h \<notin> files (view w) \<and> view w' = (view w)\<lparr>files := insert h (files (view w))\<rparr>)"
    and open_device: "CreateFile S PTEDITOR_DEVICE_PATH w = (r, w') \<Longrightarrow>
      (case r of None \<Rightarrow> \<not> device_present (view w) \<and> view w' = view w
       | Some h \<Rightarrow> device_present (view w) \<and> h \<notin> files (view w) \<and> view w' = (view w)\<lparr>files := insert h (files (view w))\<rparr>)"
    and close_file: "h \<in> files (view w) \<Longrightarrow> view (CloseHandle S h w) = (view w)\<lparr>files := files (view w) - {h}\<rparr>"
    and full_path: "GetFullPathName S DRIVER_NAME 1023 w = driver_path (view w)"
    and open_manager: "OpenSCManager S w = (r, w') \<Longrightarrow>
      (case r of None \<Rightarrow> \<not> administrator (view w) \<and> view w' = view w
       | Some h \<Rightarrow> administrator (view w) \<and> fresh_handle h (view w)
           \<and> view w' = (view w)\<lparr>managers := insert h (managers (view w))\<rparr>)"
    and create_service: "m \<in> managers (view w) \<Longrightarrow> CreateService S m SERVICE_NAME p w = (r, w') \<Longrightarrow>
      (case r of None \<Rightarrow> registered (view w) \<noteq> None \<and> view w' = view w
       | Some h \<Rightarrow> registered (view w) = None \<and> fresh_handle h (view w)
           \<and> view w' = (view w)\<lparr>registered := Some p, services := insert h (services (view w))\<rparr>)"
    and open_service: "m \<in> managers (view w) \<Longrightarrow> OpenService S m SERVICE_NAME w = (r, w') \<Longrightarrow>
      (case r of None \<Rightarrow> registered (view w) = None \<and> view w' = view w
       | Some h \<Rightarrow> registered (view w) \<noteq> None \<and> fresh_handle h (view w)
           \<and> view w' = (view w)\<lparr>services := insert h (services (view w))\<rparr>)"
    and start_service: "h \<in> services (view w) \<Longrightarrow> \<not> device_present (view w) \<Longrightarrow>
      view (StartService S h w) = start_view (view w)"
    and stop_service: "h \<in> services (view w) \<Longrightarrow> view (ControlService_stop S h w) = stop_view (view w)"
    and delete_service: "h \<in> services (view w) \<Longrightarrow> view (DeleteService S h w) = delete_view (view w)"
    and close_service: "h \<in> services (view w) \<Longrightarrow>
      view (CloseServiceHandle S h w) = settle ((view w)\<lparr>services := services (view w) - {h}\<rparr>)"
    and close_manager: "h \<in> managers (view w) \<Longrightarrow> h \<notin> services (view w) \<Longrightarrow>
      view (CloseServiceHandle S h w) = (view w)\<lparr>managers := managers (view w) - {h}\<rparr>"
begin

lemma service_handle_view:
  assumes "service_handle S m (driver_path (view (world l))) l = (r, t)" and m: "m \<in> managers (view (world l))"
  obtains h where "r = Some h" "fresh_handle h (view (world l))"
    "view (world t) = (register_view (view (world l)))\<lparr>services := insert h (services (view (world l)))\<rparr>"
proof -
  let ?v = "view (world l)"
  obtain r1 w1 where 1: "CreateService S m SERVICE_NAME (driver_path ?v) (world l) = (r1, w1)" by fastforce
  note create = create_service [OF m 1]
  show thesis
  proof (cases r1)
    case (Some h)
    then show thesis
      using that [of h] assms(1) 1 create by (auto simp: service_handle_def call_open_def register_view_def)
  next
    case None
    then have reg: "registered ?v \<noteq> None" and w1: "view w1 = ?v" using create by auto
    obtain r2 w2 where 2: "OpenService S m SERVICE_NAME w1 = (r2, w2)" by fastforce
    have "m \<in> managers (view w1)" using m w1 by simp
    from open_service [OF this 2] reg w1 obtain h where "r2 = Some h" "fresh_handle h ?v"
      "view w2 = ?v\<lparr>services := insert h (services ?v)\<rparr>"
      by (auto split: option.splits)
    then show thesis
      using that [of h] assms(1) 1 2 None reg by (auto simp: service_handle_def call_open_def say_def register_view_def)
  qed
qed

lemma control_service_view:
  assumes v: "view (world l) = v\<lparr>services := insert h (services v)\<rparr>" and h: "h \<notin> services v" and "device_present v = unload"
  shows "view (world (control_service S unload h l)) = settle (if unload then delete_view (stop_view v) else start_view v)"
proof -
  let ?w = "world l"
  let ?x = "if unload then DeleteService S h (ControlService_stop S h ?w) else StartService S h ?w"
  have x: "view ?x = (if unload then delete_view (stop_view v) else start_view v)\<lparr>services := insert h (services v)\<rparr>"
    using v assms(3) by (cases unload) (simp_all add: start_service stop_service delete_service)
  have "world (control_service S unload h l) = CloseServiceHandle S h ?x"
    by (simp add: control_service_def call_on_def say_def)
  then show ?thesis using x h by (simp add: close_service keep_services)
qed

lemma with_manager_view:
  assumes v: "view (world l) = v\<lparr>managers := insert m (managers v)\<rparr>" and m: "fresh_handle m v" and "device_present v = unload"
  shows "view (world (with_manager S unload (driver_path v) m l)) =
    settle (if unload then delete_view (stop_view (register_view v)) else start_view (register_view v))"
proof -
  let ?l = "say (if \<not> unload then ''[+] Creating service'' else ''[+] Connecting to service'') l"
  let ?z = "settle (if unload then delete_view (stop_view (register_view v)) else start_view (register_view v))"
  have w: "world ?l = world l" by (simp add: say_def)
  obtain r t where t: "service_handle S m (driver_path v) ?l = (r, t)" by fastforce
  with v w obtain h where h: "r = Some h" "fresh_handle h (view (world l))"
    "view (world t) = (register_view (view (world l)))\<lparr>services := insert h (services (view (world l)))\<rparr>"
    using service_handle_view [of m ?l r t] by auto
  have "view (world (control_service S unload h t)) = ?z\<lparr>managers := insert m (managers v)\<rparr>"
    using control_service_view [where v = "(register_view v)\<lparr>managers := insert m (managers v)\<rparr>" and l = t and h = h and unload = unload] h v assms(3)
    by (simp add: fresh_handle_def)
  then show ?thesis
    using m t h(1) by (simp add: with_manager_def call_on_def Let_def close_manager fresh_handle_def)
qed

lemma loader_services_view:
  assumes "device_present (view (world l)) = unload"
  shows "view (world (loader_services S unload (driver_path (view (world l))) l)) =
    (if \<not> administrator (view (world l)) then view (world l)
     else settle (if unload then delete_view (stop_view (register_view (view (world l)))) else start_view (register_view (view (world l)))))"
proof -
  let ?v = "view (world l)"
  obtain r w where 1: "OpenSCManager S (world l) = (r, w)" by fastforce
  note law = open_manager [OF 1]
  show ?thesis
  proof (cases r)
    case None
    with 1 law show ?thesis by (simp add: loader_services_def call_open_def say_def)
  next
    case (Some m)
    define t where "t = say (if unload then ''[+] Unload PTEditor driver'' else ''[+] Load PTEditor driver'')
      (l\<lparr>world := w, scm_calls := scm_calls l @ [Open_manager (Some m)]\<rparr>)"
    have "view (world t) = ?v\<lparr>managers := insert m (managers ?v)\<rparr>" "fresh_handle m ?v" "administrator ?v"
      using law Some by (simp_all add: t_def say_def)
    moreover have "loader_services S unload (driver_path ?v) l = with_manager S unload (driver_path ?v) m t"
      using 1 Some by (simp add: loader_services_def call_open_def t_def)
    ultimately show ?thesis using with_manager_view assms by simp
  qed
qed

text \<open>Probing for the driver and for the device leaves the machine as it was.\<close>

lemma find_driver_view:
  "case find_driver S l of
     Inl (r, t) \<Rightarrow> r = 1 \<and> \<not> driver_found (view (world l)) \<and> view (world t) = view (world l)
   | Inr (path, t) \<Rightarrow> driver_found (view (world l)) \<and> path = driver_path (view (world l)) \<and> view (world t) = view (world l)"
proof -
  obtain fd w where fd: "CreateFile S DRIVER_NAME (world l) = (fd, w)" by fastforce
  from open_driver [OF fd] show ?thesis
    by (cases fd) (simp_all add: find_driver_def call_open_def call_on_def say_def fd full_path close_file keep_files Let_def)
qed

lemma check_loaded_view:
  "case check_loaded S unload argv0 l of
     Inl (r, t) \<Rightarrow> (device_present (view (world l)) \<longleftrightarrow> \<not> unload) \<and> r = (if unload then 1 else 0) \<and> view (world t) = view (world l)
   | Inr t \<Rightarrow> (device_present (view (world l)) \<longleftrightarrow> unload) \<and> view (world t) = view (world l)"
proof -
  obtain fd w where fd: "CreateFile S PTEDITOR_DEVICE_PATH (world l) = (fd, w)" by fastforce
  from open_device [OF fd] show ?thesis
    by (cases fd) (simp_all add: check_loaded_def call_open_def call_on_def say_def fd close_file keep_files Let_def)
qed

text \<open>A run of the loader implements its contract.\<close>

lemma loader_main_view:
  "fst (loader_main S argv l) = exit_code (unload_flag argv) (view (world l))
   \<and> view (world (snd (loader_main S argv l))) =
       (if unload_flag argv then unload_view (view (world l)) else load_view (view (world l)))"
proof (cases "find_driver S l")
  case (Inl x)
  then show ?thesis
    using find_driver_view [where l = l] by (auto simp: loader_main_def exit_code_def load_view_def unload_view_def split: prod.splits)
next
  case (Inr y)
  obtain path l1 where y: "y = (path, l1)" by fastforce
  have 1: "driver_found (view (world l))" "path = driver_path (view (world l))" "view (world l1) = view (world l)"
    using find_driver_view [where l = l] by (simp_all add: Inr y)
  show ?thesis
  proof (cases "check_loaded S (unload_flag argv) (argv ! 0) l1")
    case Inl': (Inl x)
    then show ?thesis
      using check_loaded_view [where unload = "unload_flag argv" and ?argv0.0 = "argv ! 0" and l = l1] Inr y 1
      by (auto simp: loader_main_def exit_code_def load_view_def unload_view_def split: prod.splits)
  next
    case Inr': (Inr l2)
    have 2: "device_present (view (world l2)) = unload_flag argv" "view (world l2) = view (world l)"
      using check_loaded_view [where unload = "unload_flag argv" and ?argv0.0 = "argv ! 0" and l = l1] by (simp_all add: Inr' 1)
    then show ?thesis
      using loader_services_view [OF 2(1)] Inr Inr' y 1 by (simp add: loader_main_def exit_code_def load_view_def unload_view_def)
  qed
qed

end

section \<open>A machine with the driver\<close>

text \<open>
  The service manager of a machine on which the registered file is the driver of \<open>PT_Windows\<close>: starting
  the service runs \<open>DriverEntry\<close>, stopping it runs \<open>Unload\<close>, and the device can be opened while its link
  exists.
\<close>

record scm_state = nt_state +
  file_here :: bool
  file_path :: string
  service_path :: "string option"
  service_running :: bool
  service_marked :: bool
  file_handles :: "nat list"
  manager_handles :: "nat list"
  service_handles :: "nat list"
  may_administer :: bool
  may_stop :: bool

definition new_handle :: "scm_state \<Rightarrow> nat" where
  "new_handle s = Suc (sum_list (manager_handles s @ service_handles s))"

definition open_file :: "bool \<Rightarrow> scm_state \<Rightarrow> nat option \<times> scm_state" where
  "open_file found s =
     (let h = Suc (sum_list (file_handles s)) in
      if found then (Some h, s\<lparr>file_handles := h # file_handles s\<rparr>) else (None, s))"

definition drop_marked :: "scm_state \<Rightarrow> scm_state" where
  "drop_marked s =
     (if service_marked s \<and> \<not> service_running s \<and> service_handles s = []
      then s\<lparr>service_path := None, service_marked := False\<rparr> else s)"

definition start_driver :: "nt \<Rightarrow> scm_state \<Rightarrow> scm_state" where
  "start_driver NT s =
     (if \<not> service_running s \<and> \<not> service_marked s \<and> service_path s = Some (file_path s) then
        let (status, t) = DriverEntry NT s in if NT_SUCCESS status then t\<lparr>service_running := True\<rparr> else t
      else s)"

definition nt_scm :: "nt \<Rightarrow> scm_state scm" where
  "nt_scm NT =
    \<lparr>CreateFile = (\<lambda>name s. open_file (if name = DRIVER_NAME then file_here s else name = PTEDITOR_DEVICE_PATH \<and> symbolic_link s) s),
     CloseHandle = (\<lambda>h s. s\<lparr>file_handles := removeAll h (file_handles s)\<rparr>),
     GetFullPathName = (\<lambda>name n s. take n (file_path s)),
     OpenSCManager = (\<lambda>s. if may_administer s then (Some (new_handle s), s\<lparr>manager_handles := new_handle s # manager_handles s\<rparr>)
                          else (None, s)),
     CreateService = (\<lambda>m name path s. if service_path s = None
                          then (Some (new_handle s), s\<lparr>service_path := Some path, service_handles := new_handle s # service_handles s\<rparr>)
                          else (None, s)),
     OpenService = (\<lambda>m name s. if service_path s \<noteq> None
                          then (Some (new_handle s), s\<lparr>service_handles := new_handle s # service_handles s\<rparr>) else (None, s)),
     StartService = (\<lambda>h. start_driver NT),
     ControlService_stop = (\<lambda>h s. if service_running s \<and> may_stop s then (Unload s)\<lparr>service_running := False\<rparr> else s),
     DeleteService = (\<lambda>h s. if service_path s \<noteq> None then s\<lparr>service_marked := True\<rparr> else s),
     CloseServiceHandle = (\<lambda>h s. if h \<in> set (service_handles s)
                          then drop_marked (s\<lparr>service_handles := removeAll h (service_handles s)\<rparr>)
                          else s\<lparr>manager_handles := removeAll h (manager_handles s)\<rparr>)\<rparr>"

definition scm_view :: "nt \<Rightarrow> scm_state \<Rightarrow> service_view" where
  "scm_view NT s =
    \<lparr>driver_found = file_here s, driver_path = take 1023 (file_path s), device_present = symbolic_link s, registered = service_path s,
     running = service_running s, marked = service_marked s, files = set (file_handles s), managers = set (manager_handles s), services = set (service_handles s),
     administrator = may_administer s, startable = (\<lambda>p. p = file_path s \<and> NT_SUCCESS (fst (DriverEntry NT s))), stoppable = may_stop s\<rparr>"

lemma new_handle_fresh: "new_handle s \<notin> set (manager_handles s)" "new_handle s \<notin> set (service_handles s)"
proof -
  have "h < new_handle s" if "h \<in> set (manager_handles s @ service_handles s)" for h
    using member_le_sum_list [OF that] by (simp add: new_handle_def)
  then show "new_handle s \<notin> set (manager_handles s)" "new_handle s \<notin> set (service_handles s)" by fastforce+
qed

lemma DriverEntry_status: "fst (DriverEntry NT s) = (if NT_SUCCESS (IoCreateDevice NT) then IoCreateSymbolicLink NT else IoCreateDevice NT)"
  by (simp add: DriverEntry_def Let_def)

lemma start_driver_view:
  assumes "\<not> symbolic_link s"
  shows "scm_view NT (start_driver NT s) = start_view (scm_view NT s)"
proof (cases "service_running s \<or> service_marked s \<or> service_path s \<noteq> Some (file_path s)")
  case True
  then show ?thesis by (auto simp: start_driver_def scm_view_def start_view_def split: option.split)
next
  case False
  then show ?thesis
    using assms by (simp add: start_driver_def start_view_def scm_view_def DriverEntry_status)
      (simp add: DriverEntry_def Let_def)
qed

lemma open_file_view:
  assumes "open_file found s = (r, t)"
  shows "case r of None \<Rightarrow> \<not> found \<and> scm_view NT t = scm_view NT s
    | Some h \<Rightarrow> found \<and> h \<notin> files (scm_view NT s) \<and> scm_view NT t = (scm_view NT s)\<lparr>files := insert h (files (scm_view NT s))\<rparr>"
proof -
  have "Suc (sum_list (file_handles s)) \<notin> set (file_handles s)"
    using member_le_sum_list [of "Suc (sum_list (file_handles s))" "file_handles s"] by auto
  then show ?thesis
    using assms by (auto simp: open_file_def scm_view_def Let_def DriverEntry_status split: if_splits)
qed

lemma scm_view_fields:
  "driver_found (scm_view NT s) = file_here s" "device_present (scm_view NT s) = symbolic_link s"
  by (simp_all add: scm_view_def)

interpretation nt_services: service_control "nt_scm NT" "scm_view NT" for NT
proof
  show "case r of None \<Rightarrow> \<not> driver_found (scm_view NT w) \<and> scm_view NT w' = scm_view NT w
      | Some h \<Rightarrow> driver_found (scm_view NT w) \<and> h \<notin> files (scm_view NT w)
          \<and> scm_view NT w' = (scm_view NT w)\<lparr>files := insert h (files (scm_view NT w))\<rparr>"
    if "CreateFile (nt_scm NT) DRIVER_NAME w = (r, w')" for w r w'
    using open_file_view [of "file_here w" w r w' NT] that
    by (simp add: nt_scm_def scm_view_fields split: option.splits)
  show "case r of None \<Rightarrow> \<not> device_present (scm_view NT w) \<and> scm_view NT w' = scm_view NT w
      | Some h \<Rightarrow> device_present (scm_view NT w) \<and> h \<notin> files (scm_view NT w)
          \<and> scm_view NT w' = (scm_view NT w)\<lparr>files := insert h (files (scm_view NT w))\<rparr>"
    if "CreateFile (nt_scm NT) PTEDITOR_DEVICE_PATH w = (r, w')" for w r w'
    using open_file_view [of "symbolic_link w" w r w' NT] that
    by (simp add: nt_scm_def scm_view_fields DRIVER_NAME_def PTEDITOR_DEVICE_PATH_def PTEDITOR_DEVICE_NAME_def split: option.splits)
  show "scm_view NT (CloseHandle (nt_scm NT) h w) = (scm_view NT w)\<lparr>files := files (scm_view NT w) - {h}\<rparr>" for h w
    by (simp add: nt_scm_def scm_view_def DriverEntry_status)
  show "case r of None \<Rightarrow> \<not> administrator (scm_view NT w) \<and> scm_view NT w' = scm_view NT w
      | Some h \<Rightarrow> administrator (scm_view NT w) \<and> fresh_handle h (scm_view NT w)
          \<and> scm_view NT w' = (scm_view NT w)\<lparr>managers := insert h (managers (scm_view NT w))\<rparr>"
    if "OpenSCManager (nt_scm NT) w = (r, w')" for w r w'
    using that new_handle_fresh [of w]
    by (auto simp: nt_scm_def scm_view_def fresh_handle_def DriverEntry_status split: if_splits)
  show "case r of None \<Rightarrow> registered (scm_view NT w) \<noteq> None \<and> scm_view NT w' = scm_view NT w
      | Some h \<Rightarrow> registered (scm_view NT w) = None \<and> fresh_handle h (scm_view NT w)
          \<and> scm_view NT w' = (scm_view NT w)\<lparr>registered := Some p, services := insert h (services (scm_view NT w))\<rparr>"
    if "CreateService (nt_scm NT) m SERVICE_NAME p w = (r, w')" for m w p r w'
    using that new_handle_fresh [of w]
    by (auto simp: nt_scm_def scm_view_def fresh_handle_def DriverEntry_status split: if_splits)
  show "case r of None \<Rightarrow> registered (scm_view NT w) = None \<and> scm_view NT w' = scm_view NT w
      | Some h \<Rightarrow> registered (scm_view NT w) \<noteq> None \<and> fresh_handle h (scm_view NT w)
          \<and> scm_view NT w' = (scm_view NT w)\<lparr>services := insert h (services (scm_view NT w))\<rparr>"
    if "OpenService (nt_scm NT) m SERVICE_NAME w = (r, w')" for m w r w'
    using that new_handle_fresh [of w]
    by (auto simp: nt_scm_def scm_view_def fresh_handle_def DriverEntry_status split: if_splits)
  show "scm_view NT (StartService (nt_scm NT) h w) = start_view (scm_view NT w)" if "\<not> device_present (scm_view NT w)" for h w
    using that start_driver_view [of w NT] by (simp add: nt_scm_def scm_view_def)
  show "scm_view NT (ControlService_stop (nt_scm NT) h w) = stop_view (scm_view NT w)" for h w
    by (simp add: nt_scm_def scm_view_def stop_view_def Unload_def DriverEntry_status)
  show "scm_view NT (DeleteService (nt_scm NT) h w) = delete_view (scm_view NT w)" for h w
    by (simp add: nt_scm_def scm_view_def delete_view_def DriverEntry_status)
  show "scm_view NT (CloseServiceHandle (nt_scm NT) h w) = settle ((scm_view NT w)\<lparr>services := services (scm_view NT w) - {h}\<rparr>)"
    if "h \<in> services (scm_view NT w)" for h w
  proof -
    have "removeAll h (service_handles w) = [] \<longleftrightarrow> set (service_handles w) - {h} = {}" by (metis set_empty set_removeAll)
    then show ?thesis
      using that by (simp add: nt_scm_def scm_view_def drop_marked_def settle_def DriverEntry_status)
  qed
  show "scm_view NT (CloseServiceHandle (nt_scm NT) h w) = (scm_view NT w)\<lparr>managers := managers (scm_view NT w) - {h}\<rparr>"
    if "h \<notin> services (scm_view NT w)" for h w
    using that by (simp add: nt_scm_def scm_view_def DriverEntry_status)
qed (simp_all add: nt_scm_def scm_view_def)

text \<open>The sample driver on a machine without the service, and one where a failed start has left it behind.\<close>

definition sample_machine :: scm_state where
  "sample_machine =
    \<lparr>nt_phys = (\<lambda>a. 0), nt_pat = (\<lambda>cpu. 0), nt_trace = [], device_object = False, symbolic_link = False,
     driver_unload = False, major_function = replicate 28 Dispatch_default,
     file_here = True, file_path = ''C:/PTEdit.sys'', service_path = None, service_running = False, service_marked = False,
     file_handles = [], manager_handles = [], service_handles = [], may_administer = True, may_stop = True\<rparr>"

definition sample_leftover :: scm_state where
  "sample_leftover = sample_machine\<lparr>service_path := Some ''D:/old/PTEdit.sys''\<rparr>"

lemma sample_machine_view:
  "scm_view sample_nt sample_machine =
    \<lparr>driver_found = True, driver_path = ''C:/PTEdit.sys'', device_present = False, registered = None, running = False,
     marked = False, files = {}, managers = {}, services = {}, administrator = True, startable = (\<lambda>p. p = ''C:/PTEdit.sys''), stoppable = True\<rparr>"
  by (simp add: scm_view_def sample_machine_def DriverEntry_status sample_nt_def NT_SUCCESS_def)

section \<open>Properties of the loader\<close>

text \<open>
  On a machine whose service manager behaves as documented a run of the loader has the effect of
  its contract on driver and service, whichever state it finds.  In particular, a load that returns 0
  has loaded the driver only if it was loaded before, or the caller may use the service manager and the
  registered driver starts: a service left behind by an earlier failure is started with its old path.
\<close>

theorem loader_implements_contract:
  assumes "service_control S view"
  shows "fst (loader_main S argv (start_loader w)) = exit_code (unload_flag argv) (view w)
    \<and> view (world (snd (loader_main S argv (start_loader w)))) =
      (if unload_flag argv then unload_view (view w) else load_view (view w))
    \<and> (\<not> unload_flag argv \<and> driver_found (view w) \<longrightarrow>
      (device_present (view (world (snd (loader_main S argv (start_loader w))))) \<longleftrightarrow>
        device_present (view w) \<or> administrator (view w) \<and> \<not> running (view w) \<and> \<not> marked (view w)
          \<and> startable (view w) (case registered (view w) of None \<Rightarrow> driver_path (view w) | Some p \<Rightarrow> p)))"
proof -
  have w: "world (start_loader w) = w" by (simp add: start_loader_def)
  note run = service_control.loader_main_view [OF assms, of argv "start_loader w", unfolded w]
  moreover have "device_present (load_view (view w)) \<longleftrightarrow>
        device_present (view w) \<or> administrator (view w) \<and> \<not> running (view w) \<and> \<not> marked (view w)
          \<and> startable (view w) (case registered (view w) of None \<Rightarrow> driver_path (view w) | Some p \<Rightarrow> p)"
    if "driver_found (view w)"
    using that by (simp add: load_view_def settle_def start_view_def register_view_def split: option.split)
  ultimately show ?thesis by simp
qed

theorem loader_implements_contract_witness:
  "fst (loader_main (nt_scm sample_nt) [''loader''] (start_loader sample_leftover)) = 0
   \<and> \<not> symbolic_link (world (snd (loader_main (nt_scm sample_nt) [''loader''] (start_loader sample_leftover))))"
proof -
  have v: "scm_view sample_nt sample_leftover = (scm_view sample_nt sample_machine)\<lparr>registered := Some ''D:/old/PTEdit.sys''\<rparr>"
    by (simp add: scm_view_def sample_leftover_def DriverEntry_status)
  have link: "symbolic_link w = device_present (scm_view sample_nt w)" for w by (simp add: scm_view_def)
  note run = loader_implements_contract [OF nt_services.service_control_axioms, of sample_nt "[''loader'']" sample_leftover]
  show ?thesis
    unfolding link using conjunct1 [OF run] conjunct2 [OF conjunct2 [OF run]]
    by (simp add: unload_flag_def v sample_machine_view exit_code_def)
qed

text \<open>
  C38. Loading and unloading are inverse to each other: on a machine without the driver the loader
  registers the service and starts the driver, a second load changes nothing, and unloading stops the
  driver, removes the service and leaves the machine as it was.  All runs return 0.
\<close>

theorem load_unload_roundtrip:
  assumes "service_control S view" and "\<not> unload_flag load" and "unload_flag unload"
    and "driver_found (view w)" and "administrator (view w)" and "startable (view w) (driver_path (view w))" and "stoppable (view w)"
    and "\<not> device_present (view w)" and "registered (view w) = None" and "\<not> running (view w)" and "\<not> marked (view w)" and "services (view w) = {}"
    and "loader_main S load (start_loader w) = (r1, l1)" and "loader_main S load (start_loader (world l1)) = (r2, l2)"
    and "loader_main S unload (start_loader (world l2)) = (r3, l3)"
  shows "r1 = 0 \<and> r2 = 0 \<and> r3 = 0
    \<and> device_present (view (world l1)) \<and> registered (view (world l1)) = Some (driver_path (view w))
    \<and> view (world l2) = view (world l1) \<and> view (world l3) = view w"
proof -
  have w: "world (start_loader x) = x" for x by (simp add: start_loader_def)
  note run = service_control.loader_main_view [OF assms(1)]
  let ?v = "view w"
  have 1: "r1 = 0" "view (world l1) = ?v\<lparr>registered := Some (driver_path ?v), running := True, device_present := True\<rparr>"
    using run [of load "start_loader w"] assms(2-13)
    by (simp_all add: w exit_code_def load_view_def settle_def start_view_def register_view_def)
  have 2: "r2 = 0" "view (world l2) = view (world l1)"
    using run [of load "start_loader (world l1)"] assms(2-12,14) 1 by (simp_all add: w exit_code_def load_view_def)
  have 3: "r3 = 0" "view (world l3) = unload_view (view (world l1))"
    using run [of unload "start_loader (world l2)"] assms(2-12,15) 1 2 by (simp_all add: w exit_code_def)
  have "unload_view (view (world l1)) = ?v"
    using assms(2-12) by (simp add: 1 unload_view_def settle_def delete_view_def stop_view_def register_view_def)
  with 1 2 3 show ?thesis by simp
qed

theorem loader_handles_balanced_witness:
  "list_all file_call (scm_calls (snd (loader_main (nt_scm sample_nt) [''loader'', ''--unload''] (start_loader sample_machine))))"
proof -
  have "fst (loader_main (nt_scm sample_nt) [''loader'', ''--unload''] (start_loader sample_machine)) = 1"
    using nt_services.loader_main_view [of sample_nt "[''loader'', ''--unload'']" "start_loader sample_machine"]
    by (simp add: start_loader_def unload_flag_def sample_machine_view exit_code_def)
  then show ?thesis
    using loader_handles_balanced [of "nt_scm sample_nt" "[''loader'', ''--unload'']" sample_machine] by simp
qed

theorem load_unload_roundtrip_witness:
  "\<exists>l1 l2 l3. loader_main (nt_scm sample_nt) [''loader''] (start_loader sample_machine) = (0, l1)
    \<and> loader_main (nt_scm sample_nt) [''loader''] (start_loader (world l1)) = (0, l2)
    \<and> loader_main (nt_scm sample_nt) [''loader'', ''--unload''] (start_loader (world l2)) = (0, l3)
    \<and> symbolic_link (world l1) \<and> \<not> symbolic_link (world l3) \<and> service_path (world l3) = None"
proof -
  have flags: "\<not> unload_flag [''loader'']" "unload_flag [''loader'', ''--unload'']" by (simp_all add: unload_flag_def)
  obtain r1 l1 where 1: "loader_main (nt_scm sample_nt) [''loader''] (start_loader sample_machine) = (r1, l1)" by fastforce
  obtain r2 l2 where 2: "loader_main (nt_scm sample_nt) [''loader''] (start_loader (world l1)) = (r2, l2)" by fastforce
  obtain r3 l3 where 3: "loader_main (nt_scm sample_nt) [''loader'', ''--unload''] (start_loader (world l2)) = (r3, l3)" by fastforce
  have fields: "symbolic_link w = device_present (scm_view sample_nt w)" "service_path w = registered (scm_view sample_nt w)" for w
    by (simp_all add: scm_view_def)
  show ?thesis
    unfolding fields
    using load_unload_roundtrip [OF nt_services.service_control_axioms flags _ _ _ _ _ _ _ _ _ 1 2 3] 1 2 3
    by (simp add: sample_machine_view)
qed

end
