(* ===== verification/PT_Codes.thy ===== *)
theory PT_Codes
  imports PT_Windows
begin

text \<open>
  The numbers behind the requests: the model of the module dispatches on the constructors of \<open>ioctl_req\<close>,
  the code on the numbers of \<open>module/pteditor.h\<close>.  This theory models the numbers and shows that
  the dispatch is the same; likewise for the control codes that the header and the Windows driver define
  separately.  \<open>_IOC\<close> and \<open>CTL_CODE\<close> are macros of the systems.
\<close>

section \<open>Linux\<close>

text \<open>
  The encoding of Linux on x86 and AArch64: direction in the bits 30 and 31 (2 for reading), size in the
  bits 16 to 29, type in the bits 8 to 15, number in the bits 0 to 7.  Nothing is masked.
\<close>

definition IOC :: "u64 \<Rightarrow> u64 \<Rightarrow> u64 \<Rightarrow> u64 \<Rightarrow> u64" where
  "IOC dir type nr sz = push_bit 30 dir OR push_bit 8 type OR nr OR push_bit 16 sz"

definition IOC_DIR :: "32 word \<Rightarrow> 32 word" where "IOC_DIR c = take_bit 2 (drop_bit 30 c)"
definition IOC_TYPE :: "32 word \<Rightarrow> 32 word" where "IOC_TYPE c = take_bit 8 (drop_bit 8 c)"
definition IOC_NR :: "32 word \<Rightarrow> 32 word" where "IOC_NR c = take_bit 8 c"
definition IOC_SIZE :: "32 word \<Rightarrow> 32 word" where "IOC_SIZE c = take_bit 14 (drop_bit 16 c)"

definition PTEDITOR_IOCTL_MAGIC_NUMBER :: u64 where "PTEDITOR_IOCTL_MAGIC_NUMBER = 0x3d17"

text \<open>\<open>word\<close> is \<open>sizeof(size_t)\<close>.\<close>

datatype command = VM_RESOLVE | VM_UPDATE | VM_LOCK | VM_UNLOCK | READ_PAGE | WRITE_PAGE | GET_ROOT | SET_ROOT
  | GET_PAGESIZE | INVALIDATE_TLB | GET_PAT | SET_PAT | SWITCH_TLB_INVALIDATION | INVALIDATE_TLB_PID

fun command_nr :: "command \<Rightarrow> nat" where
  "command_nr VM_RESOLVE = 1"
| "command_nr VM_UPDATE = 2"
| "command_nr VM_LOCK = 3"
| "command_nr VM_UNLOCK = 4"
| "command_nr READ_PAGE = 5"
| "command_nr WRITE_PAGE = 6"
| "command_nr GET_ROOT = 7"
| "command_nr SET_ROOT = 8"
| "command_nr GET_PAGESIZE = 9"
| "command_nr INVALIDATE_TLB = 10"
| "command_nr GET_PAT = 11"
| "command_nr SET_PAT = 12"
| "command_nr SWITCH_TLB_INVALIDATION = 13"
| "command_nr INVALIDATE_TLB_PID = 14"

definition command_code :: "u64 \<Rightarrow> command \<Rightarrow> u64" where
  "command_code word c = IOC 2 PTEDITOR_IOCTL_MAGIC_NUMBER (of_nat (command_nr c)) word"

text \<open>The number of a request, as the library passes it to \<open>ioctl\<close>.\<close>

fun command_of :: "ioctl_req \<Rightarrow> command option" where
  "command_of (CMD_VM_RESOLVE e) = Some VM_RESOLVE"
| "command_of (CMD_VM_UPDATE e) = Some VM_UPDATE"
| "command_of CMD_VM_LOCK = Some VM_LOCK"
| "command_of CMD_VM_UNLOCK = Some VM_UNLOCK"
| "command_of (CMD_READ_PAGE p) = Some READ_PAGE"
| "command_of (CMD_WRITE_PAGE p) = Some WRITE_PAGE"
| "command_of (CMD_GET_ROOT p) = Some GET_ROOT"
| "command_of (CMD_SET_ROOT p) = Some SET_ROOT"
| "command_of CMD_GET_PAGESIZE = Some GET_PAGESIZE"
| "command_of (CMD_INVALIDATE_TLB a) = Some INVALIDATE_TLB"
| "command_of CMD_GET_PAT = Some GET_PAT"
| "command_of (CMD_SET_PAT v) = Some SET_PAT"
| "command_of (CMD_SWITCH_TLB_INVALIDATION i) = Some SWITCH_TLB_INVALIDATION"
| "command_of (CMD_INVALIDATE_TLB_PID a) = Some INVALIDATE_TLB_PID"
| "command_of (CMD_OTHER n) = None"

definition request_code :: "u64 \<Rightarrow> ioctl_req \<Rightarrow> u64" where
  "request_code word r = (case r of CMD_OTHER n \<Rightarrow> of_nat n | _ \<Rightarrow> command_code word (the (command_of r)))"

text \<open>
  The \<open>switch\<close> of \<open>device_ioctl\<close> over its \<open>unsigned int\<close>: the first label equal to the number, in the
  order of the source; \<open>None\<close> is the default case.
\<close>

definition case_labels :: "command list" where
  "case_labels = [VM_RESOLVE, VM_UPDATE, VM_LOCK, VM_UNLOCK, READ_PAGE, WRITE_PAGE, GET_ROOT, SET_ROOT, GET_PAGESIZE,
     INVALIDATE_TLB_PID, INVALIDATE_TLB, GET_PAT, SET_PAT, SWITCH_TLB_INVALIDATION]"

definition switch_case :: "u64 \<Rightarrow> 32 word \<Rightarrow> command option" where
  "switch_case word num = List.find (\<lambda>c. ucast (command_code word c) = num) case_labels"

lemma command_code_32:
  assumes "word = 4 \<or> word = 8"
  shows "ucast (command_code word c) = (0x803d1700 OR (of_nat (command_nr c) :: 32 word))"
    "command_code word c = 0x803d1700 OR (of_nat (command_nr c) :: u64)"
proof -
  have w: "push_bit 30 2 OR push_bit 8 0x3d17 OR push_bit 16 word = (0x803d1700 :: u64)"
    using assms by auto
  show "command_code word c = 0x803d1700 OR (of_nat (command_nr c) :: u64)"
    unfolding command_code_def IOC_def PTEDITOR_IOCTL_MAGIC_NUMBER_def w [symmetric] by (simp only: or.assoc or.commute or.left_commute)
  then show "ucast (command_code word c) = (0x803d1700 OR (of_nat (command_nr c) :: 32 word))"
    by (intro bit_word_eqI) (simp add: bit_simps)
qed

text \<open>
  C36. Every request of the library has a well-formed number that selects the case of its own command in
  the handler, for 32-bit and 64-bit programs alike; a number of no command reaches no case.  The number
  fits into the \<open>unsigned int\<close> of the handler and its direction is to read.  The magic number has 16 bits
  where the type field has 8: its upper byte runs into the size field, which always is 61 instead of the
  size of the argument, and the type field holds the lower byte.
\<close>

theorem request_codes_dispatch:
  assumes "word = 4 \<or> word = 8"
  shows "(\<forall>c. command_of r = Some c \<longrightarrow> switch_case word (ucast (request_code word r)) = Some c
      \<and> ucast (ucast (request_code word r) :: 32 word) = request_code word r
      \<and> IOC_NR (ucast (request_code word r)) = of_nat (command_nr c) \<and> IOC_DIR (ucast (request_code word r)) = 2
      \<and> IOC_TYPE (ucast (request_code word r)) = 0x17 \<and> IOC_SIZE (ucast (request_code word r)) = 61)
    \<and> ((\<forall>c. num \<noteq> ucast (command_code word c)) \<longrightarrow> switch_case word num = None)"
proof -
  have code: "request_code word r = command_code word c" if "command_of r = Some c" for c
    using that by (cases r) (simp_all add: request_code_def)
  have "List.find (\<lambda>d. (0x803d1700 OR of_nat (command_nr d) :: 32 word) = 0x803d1700 OR of_nat (command_nr c)) case_labels = Some c" for c
    by (cases c) (simp_all add: case_labels_def)
  then have sel: "switch_case word (ucast (command_code word c)) = Some c" for c
    by (simp only: switch_case_def command_code_32(1) [OF assms])
  have "ucast (0x803d1700 OR of_nat (command_nr c) :: 32 word) = (0x803d1700 OR of_nat (command_nr c) :: u64)" for c
    by (cases c) simp_all
  then have fits: "ucast (ucast (command_code word c) :: 32 word) = command_code word c" for c
    unfolding command_code_32(1) [OF assms] by (rule trans [OF _ command_code_32(2) [OF assms, symmetric]])
  have "IOC_NR (0x803d1700 OR of_nat (command_nr c)) = of_nat (command_nr c) \<and> IOC_DIR (0x803d1700 OR of_nat (command_nr c)) = 2
      \<and> IOC_TYPE (0x803d1700 OR of_nat (command_nr c)) = 0x17 \<and> IOC_SIZE (0x803d1700 OR of_nat (command_nr c)) = 61" for c
    by (cases c) (simp_all add: IOC_NR_def IOC_DIR_def IOC_TYPE_def IOC_SIZE_def take_bit_eq_mask mask_numeral)
  then have fields: "IOC_NR (ucast (command_code word c)) = of_nat (command_nr c) \<and> IOC_DIR (ucast (command_code word c)) = 2
      \<and> IOC_TYPE (ucast (command_code word c)) = 0x17 \<and> IOC_SIZE (ucast (command_code word c)) = 61" for c
    unfolding command_code_32(1) [OF assms] .
  have "(\<forall>c. num \<noteq> ucast (command_code word c)) \<longrightarrow> switch_case word num = None"
    by (auto simp: switch_case_def find_None_iff)
  then show ?thesis using sel fits fields by (simp add: code)
qed

theorem request_codes_dispatch_witness:
  "switch_case 8 (ucast (request_code 8 CMD_GET_PAT)) = Some GET_PAT \<and> switch_case 8 0x803d170f = None"
proof -
  have "\<forall>c. (0x803d170f :: 32 word) \<noteq> ucast (command_code 8 c)"
  proof
    fix c
    show "(0x803d170f :: 32 word) \<noteq> ucast (command_code 8 c)"
      by (cases c) (simp_all add: command_code_def IOC_def PTEDITOR_IOCTL_MAGIC_NUMBER_def)
  qed
  then show ?thesis using request_codes_dispatch [of 8 CMD_GET_PAT "0x803d170f"] by simp
qed

section \<open>Windows\<close>

text \<open>The control codes of the header, in its order.\<close>

definition lib_control_codes :: "nat list" where
  "lib_control_codes =
     [CTL_CODE 0x22 0x801 0 0, CTL_CODE 0x22 0x802 0 1, CTL_CODE 0x22 0x803 0 0, CTL_CODE 0x22 0x804 0 0,
      CTL_CODE 0x22 0x805 0 0, CTL_CODE 0x22 0x806 0 0, CTL_CODE 0x22 0x807 0 0, CTL_CODE 0x22 0x808 0 0,
      CTL_CODE 0x22 0x809 0 0]"

text \<open>
  The header of the library and the driver define the same nine control codes; they are distinct,
  fit into 32 bits, and none is taken for an unknown request.
\<close>

theorem control_codes_agree:
  "lib_control_codes = [PTEDITOR_READ_PAGE, PTEDITOR_WRITE_PAGE, PTEDITOR_GET_CR3, PTEDITOR_FLUSH_TLB,
      PTEDITOR_READ_PHYS_VAL, PTEDITOR_WRITE_PHYS_VAL, PTEDITOR_SET_CR3, PTEDITOR_SET_PAT, PTEDITOR_GET_PAT]
    \<and> distinct lib_control_codes \<and> (\<forall>code \<in> set lib_control_codes. code < 2 ^ 32)"
  by (simp add: lib_control_codes_def control_codes)

end
