(* ===== verification/PT_Build.thy ===== *)
theory PT_Build
  imports PT_Sample "HOL-Library.Sublist"
begin

text \<open>
  What the build does to the sources: the rule \<open>header\<close> of the \<open>Makefile\<close>, which concatenates the three
  sources of the library into \<open>ptedit_header.h\<close> line by line, and the tests for large pages that
  \<open>module/pteditor.c\<close> compiles on AArch64 for kernels without \<open>pud_leaf\<close> and \<open>pmd_leaf\<close>.
  A file is the list of its lines, without the line breaks.
\<close>

section \<open>The single header\<close>

text \<open>\<open>s/pat/rep/g\<close> for a pattern without special characters: the matches do not overlap.\<close>

function replace_all :: "string \<Rightarrow> string \<Rightarrow> string \<Rightarrow> string" where
  "replace_all pat rep s =
     (if pat \<noteq> [] \<and> prefix pat s then rep @ replace_all pat rep (drop (length pat) s)
      else case s of [] \<Rightarrow> [] | c # cs \<Rightarrow> c # replace_all pat rep cs)"
  by pat_completeness auto
termination
proof (relation "measure (\<lambda>(pat, rep, s). length s)")
  fix pat rep s :: string
  assume "pat \<noteq> [] \<and> prefix pat s"
  then show "((pat, rep, drop (length pat) s), pat, rep, s) \<in> measure (\<lambda>(pat, rep, s). length s)"
    by (auto simp: prefix_def)
qed auto

declare replace_all.simps [simp del]

text \<open>
  \<open>s/#include ".*"//g\<close>: the match starts at the first \<open>#include "\<close> that is followed by a quote and ends at
  the last quote of the line, so there is at most one.
\<close>

definition quote :: char where "quote = CHR 0x22"

definition include_start :: string where "include_start = ''#include '' @ [quote]"

definition after_last_quote :: "string \<Rightarrow> string" where
  "after_last_quote s = rev (takeWhile (\<lambda>c. c \<noteq> quote) (rev s))"

fun drop_include :: "string \<Rightarrow> string" where
  "drop_include [] = []"
| "drop_include (c # cs) =
     (let rest = drop (length include_start) (c # cs) in
      if prefix include_start (c # cs) \<and> quote \<in> set rest then after_last_quote rest
      else c # drop_include cs)"

definition drop_extern :: "string \<Rightarrow> string" where
  "drop_extern = replace_all ''extern '' ''''"

definition static_fnc :: "string \<Rightarrow> string" where
  "static_fnc = replace_all ''#define ptedit_fnc'' ''#define ptedit_fnc static''"

definition build_warning :: string where
  "build_warning = ''// Warning: this file was generated by make. DO NOT EDIT!''"

text \<open>The command \<open>1i\<close> inserts before the first line, if there is one.\<close>

definition insert_first :: "string \<Rightarrow> string list \<Rightarrow> string list" where
  "insert_first w xs = (if xs = [] then [] else w # xs)"

definition make_header :: "string list \<Rightarrow> string list \<Rightarrow> string list \<Rightarrow> string list" where
  "make_header pteditor_h ptedit_h ptedit_c =
     ''#pragma once''
     # map static_fnc (map drop_extern (insert_first build_warning (map drop_include (pteditor_h @ ptedit_h @ ptedit_c))))"

section \<open>Lines that the build keeps\<close>

lemma replace_all_absent: "\<not> sublist pat s \<Longrightarrow> replace_all pat rep s = s"
proof (induction s)
  case Nil
  then have "pat \<noteq> []" by auto
  then show ?case by (simp add: replace_all.simps)
next
  case (Cons c cs)
  then have "\<not> prefix pat (c # cs)" "\<not> sublist pat cs" by (auto simp: sublist_Cons_right)
  then show ?case using Cons.IH by (subst replace_all.simps) simp
qed

lemma replace_all_prefix: "pat \<noteq> [] \<Longrightarrow> replace_all pat rep (pat @ s) = rep @ replace_all pat rep s"
  by (subst replace_all.simps) simp

lemma drop_include_absent: "\<not> sublist include_start s \<Longrightarrow> drop_include s = s"
  by (induction s) (auto simp: sublist_Cons_right Let_def)

definition keeps_line :: "string \<Rightarrow> bool" where
  "keeps_line l \<longleftrightarrow> \<not> sublist include_start l \<and> \<not> sublist ''extern '' l \<and> \<not> sublist ''#define ptedit_fnc'' l"

lemma keeps_line: "keeps_line l \<Longrightarrow> static_fnc (drop_extern (drop_include l)) = l"
  by (simp add: keeps_line_def static_fnc_def drop_extern_def drop_include_absent replace_all_absent)

lemma make_header_lines:
  assumes "pteditor_h @ ptedit_h @ ptedit_c \<noteq> []"
  shows "make_header pteditor_h ptedit_h ptedit_c =
    ''#pragma once'' # static_fnc (drop_extern build_warning)
    # map (\<lambda>l. static_fnc (drop_extern (drop_include l))) (pteditor_h @ ptedit_h @ ptedit_c)"
proof -
  have "map static_fnc (map drop_extern (insert_first build_warning (map drop_include xs))) =
      static_fnc (drop_extern build_warning) # map (\<lambda>l. static_fnc (drop_extern (drop_include l))) xs" if "xs \<noteq> []" for xs
    using that by (simp add: insert_first_def)
  from this [OF assms] show ?thesis unfolding make_header_def by (simp only:)
qed

lemma make_header_nth:
  assumes "i < length (pteditor_h @ ptedit_h @ ptedit_c)"
  shows "make_header pteditor_h ptedit_h ptedit_c ! (2 + i) =
    static_fnc (drop_extern (drop_include ((pteditor_h @ ptedit_h @ ptedit_c) ! i)))"
proof -
  have "pteditor_h @ ptedit_h @ ptedit_c \<noteq> []" using assms by auto
  then show ?thesis using nth_map [OF assms] by (simp add: make_header_lines del: map_append append_is_Nil_conv)
qed

text \<open>
  The single header is the two header lines and then the lines of the three sources in order, one for
  one; a line that has no include of a file in quotes, no \<open>extern\<close> and does not define \<open>ptedit_fnc\<close> is
  unchanged, so the code of the library is the code of the sources.
\<close>

theorem make_header_keeps_lines:
  assumes "pteditor_h @ ptedit_h @ ptedit_c \<noteq> []"
  shows "length (make_header pteditor_h ptedit_h ptedit_c) = 2 + length (pteditor_h @ ptedit_h @ ptedit_c)
    \<and> take 2 (make_header pteditor_h ptedit_h ptedit_c) = [''#pragma once'', build_warning]
    \<and> (\<forall>i < length (pteditor_h @ ptedit_h @ ptedit_c). keeps_line ((pteditor_h @ ptedit_h @ ptedit_c) ! i) \<longrightarrow>
        make_header pteditor_h ptedit_h ptedit_c ! (2 + i) = (pteditor_h @ ptedit_h @ ptedit_c) ! i)"
proof -
  have "static_fnc (drop_extern build_warning) = build_warning" by code_simp
  then have "take 2 (make_header pteditor_h ptedit_h ptedit_c) = [''#pragma once'', build_warning]"
    "length (make_header pteditor_h ptedit_h ptedit_c) = 2 + length (pteditor_h @ ptedit_h @ ptedit_c)"
    using make_header_lines [OF assms] by simp_all
  then show ?thesis using make_header_nth keeps_line by simp
qed

theorem make_header_keeps_lines_witness:
  "make_header [''#define A''] [''int x;''] [] ! 3 = ''int x;''"
proof -
  have "keeps_line ''int x;''" by (simp add: keeps_line_def include_start_def quote_def sublist_Cons_right)
  then show ?thesis using make_header_keeps_lines [of "[''#define A'']" "[''int x;'']" "[]"] by (auto simp: numeral_eq_Suc dest: spec [of _ 1])
qed

text \<open>
  The rewriting of \<open>extern\<close> also hits the linkage specification for C++: its line of \<open>ptedit.h\<close> becomes
  a string followed by a brace, which no longer is C++; the definition of \<open>ptedit_fnc\<close> makes every function
  of the header static.
\<close>

theorem make_header_breaks_linkage:
  assumes "ptedit_h ! i = ''extern '' @ [quote] @ ''C'' @ [quote] @ '' {''" and "ptedit_h ! j = ''#define ptedit_fnc''"
    and "i < length ptedit_h" and "j < length ptedit_h"
  shows "make_header pteditor_h ptedit_h ptedit_c ! (2 + length pteditor_h + i) = [quote] @ ''C'' @ [quote] @ '' {''
    \<and> make_header pteditor_h ptedit_h ptedit_c ! (2 + length pteditor_h + j) = ''#define ptedit_fnc static''"
proof -
  have "static_fnc (drop_extern (drop_include (ptedit_h ! i))) = [quote] @ ''C'' @ [quote] @ '' {''"
    "static_fnc (drop_extern (drop_include (ptedit_h ! j))) = ''#define ptedit_fnc static''"
    unfolding assms(1,2) by code_simp+
  moreover have "make_header pteditor_h ptedit_h ptedit_c ! (2 + length pteditor_h + k) = static_fnc (drop_extern (drop_include (ptedit_h ! k)))"
    if "k < length ptedit_h" for k
    using that make_header_nth [of "length pteditor_h + k" pteditor_h ptedit_h ptedit_c] by (simp add: nth_append add.assoc)
  ultimately show ?thesis using assms(3,4) by simp
qed

theorem make_header_breaks_linkage_witness:
  "make_header [] [''extern '' @ [quote] @ ''C'' @ [quote] @ '' {'', ''#define ptedit_fnc''] [] ! 2 = [quote] @ ''C'' @ [quote] @ '' {''"
  using make_header_breaks_linkage
    [of "[''extern '' @ [quote] @ ''C'' @ [quote] @ '' {'', ''#define ptedit_fnc'']" 0 1 "[]" "[]"] by simp

section \<open>Large pages on AArch64 before Linux 5.6\<close>

text \<open>
  \<open>folded\<close> says that \<open>__PAGETABLE_PMD_FOLDED\<close> is defined, and \<open>table_bit\<close> is the bit of the kernel that
  marks an entry as a table.
\<close>

definition pud_large :: "bool \<Rightarrow> u64 \<Rightarrow> u64 \<Rightarrow> bool" where
  "pud_large folded table_bit v = (if folded then v \<noteq> 0 \<and> v AND table_bit = 0 else False)"

definition pmd_large :: "bool \<Rightarrow> u64 \<Rightarrow> u64 \<Rightarrow> bool" where
  "pmd_large folded table_bit v = (if folded then v \<noteq> 0 \<and> v AND table_bit = 0 else False)"

text \<open>
  With these tests in place of the kernel's, and a kernel that has page middle directories, resolving
  follows the entry of a large page: the frame of the page is taken for a page table, and a word of the
  page is reported as a valid PTE.  With the opposite condition it stops at the entry.
\<close>

theorem large_pages_followed:
  assumes "pud_leaf K = pud_large folded table_bit" and "pmd_leaf K = pmd_large folded table_bit"
    and "p = pud_offset K m parent a" "\<not> pud_none K (kread K m p)"
    and "q = pmd_offset K m p a" "\<not> pmd_none K (kread K m q)"
    and "kread K m p AND table_bit \<noteq> 0" and large: "kread K m q \<noteq> 0" "kread K m q AND table_bit = 0"
    and "pte_offset K m q a = Some r"
  shows "fst (resolve_vm_pud K m a parent e) = (if folded then 1 else 0)
    \<and> (\<not> folded \<longrightarrow> vm_pte (snd (resolve_vm_pud K m a parent e)) = Some r
        \<and> has_valid (vm_valid (snd (resolve_vm_pud K m a parent e))) PTE)
    \<and> (folded \<longrightarrow> vm_pte (snd (resolve_vm_pud K m a parent e)) = vm_pte e)"
  using assms by (simp add: resolve_vm_pud_def pud_large_def pmd_large_def Let_def)

text \<open>The sample tables with these tests: the huge page at 0x40400000.\<close>

theorem large_pages_followed_witness:
  "vm_pte (snd (resolve_vm_pud (sample_linux\<lparr>pud_leaf := pud_large False 2, pmd_leaf := pmd_large False 2,
       pte_offset := \<lambda>m p addr. Some (table_ptr m p addr 12)\<rparr>)
     (store64 sample_mem 0x3010 0x2000e5) 0x40401000 (0x1000 + direct_map) (fresh_vm 0))) = Some (0x200008 + direct_map)"
proof -
  let ?K = "sample_linux\<lparr>pud_leaf := pud_large False 2, pmd_leaf := pmd_large False 2,
       pte_offset := \<lambda>m p addr. Some (table_ptr m p addr 12)\<rparr>"
  let ?m = "store64 sample_mem 0x3010 0x2000e5"
  have m: "load64 ?m 0x1000 = 0x2067" "load64 ?m 0x2008 = 0x3067" "load64 ?m 0x3010 = 0x2000e5"
    by (simp_all add: mem_simps apart_def sample_loads)
  have "pud_offset ?K ?m (0x1000 + direct_map) 0x40401000 = 0x2008 + direct_map"
    "pmd_offset ?K ?m (0x2008 + direct_map) 0x40401000 = 0x3010 + direct_map"
    "pte_offset ?K ?m (0x3010 + direct_map) 0x40401000 = Some (0x200008 + direct_map)"
    "kread ?K ?m (0x2008 + direct_map) = 0x3067" "kread ?K ?m (0x3010 + direct_map) = 0x2000e5"
    by (simp_all add: sample_linux_def table_ptr_def kread_def m direct_map_def)
  then show ?thesis
    using large_pages_followed [of ?K False 2 "0x2008 + direct_map" ?m "0x1000 + direct_map" "0x40401000"
        "0x3010 + direct_map" "0x200008 + direct_map" "fresh_vm 0"]
    by (simp add: sample_linux_def)
qed

end
