(* ===== verification/Spec2Isabelle.thy ===== *)
theory Spec2Isabelle
  imports PT_Locks PT_Tlb PT_MapPt PT_Demos PT_Nx PT_Uncachable PT_WinWalk PT_SystemTests PT_Loader PT_Codes PT_Build
begin

text \<open>
  PTEditor lets a user program inspect and edit its own and other processes' page-table entries.  This
  development models the program's C sources and proves what makes them correct.

  \<^bold>\<open>The parts of the program.\<close>  The user library (\<open>ptedit.c\<close>, \<open>ptedit.h\<close>) offers operations on entries
  and addresses.  On Linux it sends \<open>ioctl\<close> requests to a kernel module (\<open>module/pteditor.c\<close>), or walks
  the tables itself through physical memory, which it reads and writes with \<open>pread\<close>/\<open>pwrite\<close> on
  \<open>/proc/umem\<close> or through a mapping of that file.  On Windows it sends requests to a driver
  (\<open>driver/PTEdit/Driver.c\<close>) and always walks itself.  Library, module and driver share the structures of
  \<open>module/pteditor.h\<close>.  The single-header build \<open>ptedit_header.h\<close> is generated from these files by the
  \<open>Makefile\<close>; the driver is installed by a loader (\<open>driver/PTEditorLoader\<close>).
  The example, the programs under \<open>demos\<close> and the tests (\<open>test/tests.c\<close>) use the library and access the
  memory whose entries they edit.

  \<^bold>\<open>The theories.\<close>
  \<^item> \<open>PT_Prelude\<close>: the machine integers of C, shifts with their undefined cases as \<open>None\<close>, physical
    memory as bytes with little-endian 64-bit accesses, and the lemma collections of the development.
  \<^item> \<open>PT_Entry\<close>: the shared structures of \<open>pteditor.h\<close>, bit numbers, memory types and the bit-field
    structures of \<open>ptedit.h\<close> for x86 and ARMv8.  The locale \<open>bitfield_struct\<close> gives for every structure
    that its fields and the 64-bit word determine each other.
  \<^item> \<open>PT_Fields\<close>: the operations on one entry (\<open>ptedit_set_pfn\<close>, \<open>ptedit_get_pfn\<close>, \<open>ptedit_apply_mt\<close>,
    \<open>ptedit_extract_mt\<close> and their huge-page variants): round trips, independence of the other bits, the
    limits of the field widths, and the agreement of the functions and the bit numbers with the members of the
    bit-field structures.
  \<^item> \<open>PT_Linux\<close>: the kernel module.  Its state is the record \<open>kstate\<close>; what it uses of Linux (process
    lookup, page-table accessors, direct map) is the record \<open>linux\<close>, an argument of every definition.
    Locks, flushes and messages are events of a trace.  There is one definition per request of
    \<open>device_ioctl\<close>, and the functions they call keep their names.
  \<^item> \<open>PT_Module\<close>: its properties: the result of a resolve request, the order of writes, TLB flush and
    unlock of an update request, reachable states (\<open>module_reach\<close>, by rule induction), balanced locks,
    round trips of pages, roots and memory types, error paths, loading and unloading.
  \<^item> \<open>PT_Locks\<close>: any number of threads make requests of every kind, one after the other, and wait for the
    address-space locks.  A step takes the next lock call from the trace the handler of \<open>PT_Linux\<close> leaves, so
    that a missing unlock or a nested lock of a handler shows as threads that are stuck: none are, unless a
    thread makes the lock request, which waits for itself.
  \<^item> \<open>PT_Concurrent\<close>: requests of several threads that overlap.  Resolve, update and set-root requests are
    split into their accesses and lock calls, and a step relation (\<open>kstep\<close>) interleaves them.  A request
    alone behaves like \<open>device_ioctl\<close>; overlapping requests are serialised in the
    order of their unlocks, except for the reply of a resolve request, which is read after the unlock.
  \<^item> \<open>PT_Library\<close>: the library on Linux, on the state \<open>sys\<close> that extends \<open>kstate\<close> by the descriptors
    and mappings of the process and the static variables of \<open>ptedit.c\<close>.  A call through a null function
    pointer, an access outside the mappings and an undefined shift are \<open>None\<close>.
  \<^item> \<open>PT_Walk\<close>: the user-space walk and update.  The specification is the hardware's page walk
    (\<open>hw_walk\<close>); the two ways to physical memory are interpretations of the locale \<open>phys_access\<close>.
  \<^item> \<open>PT_Api\<close>: the operations on the PTE of an address.  The locale \<open>pte_resolver\<close> is the contract of an
    implementation (a map from levels to entries that an update changes at the PTE only); the kernel
    implementation, both user-space implementations and the dispatch through the function pointers are its
    interpretations, and the clients are proved once.
  \<^item> \<open>PT_Agree\<close>: the module and the user-space walk return the same entries.
  \<^item> \<open>PT_MemTypes\<close>: reading, programming, naming and searching memory types.
  \<^item> \<open>PT_System\<close>: the states a program can bring the library into (\<open>lib_step\<close>, \<open>lib_reach\<close>), initialisation and
    cleanup, physical pages, mappings of physical memory, the serializing barrier.
  \<^item> \<open>PT_Print\<close>: the printed tables as strings.
  \<^item> \<open>PT_Windows\<close>: the driver, whose requests are byte buffers, and the Windows branches of the library.
    The locale \<open>phys_store\<close> is the contract of physical accesses on both systems; \<open>phys_access\<close> is a
    sublocale of it and the Windows accessors are an interpretation.
  \<^item> \<open>PT_WinWalk\<close>: the page walk and the update of the Windows build.  The steps of the walk are those of
    \<open>PT_Library\<close>, run on the static variables of the Windows build; the requests to the driver are an
    interpretation of \<open>phys_access\<close>, so the lemmas on the walk apply unchanged.
  \<^item> \<open>PT_Memmap\<close>: the tools \<open>demos/memmap.c\<close> and \<open>demos/virt2phys.c\<close>; the list \<open>memmap\<close> prints is compared
    with the hardware's walk.
  \<^item> \<open>PT_Mmu\<close>: the address translation of the processor on x86, on top of the page walk; what the
    operations on a PTE do to the accesses of the program.
  \<^item> \<open>PT_Tlb\<close>: the translations that processors cache while requests to the module are in progress: the
    page of an update never has a stale one while no exclusive request is in progress and the update was the
    last one (x86, 4 KB pages, the kernel's function for flushing); a set-root request leaves stale ones.
  \<^item> \<open>PT_Process\<close>: the accesses of a program to its own memory, with the page-fault handler and the
    anonymous mappings of Linux as parameters (\<open>process_os\<close>), and the lemmas on pages whose tables lie
    outside the frames the program writes.
  \<^item> \<open>PT_Example\<close>, \<open>PT_MapPt\<close>, \<open>PT_Performance\<close>, \<open>PT_Nx\<close>, \<open>PT_Demos\<close>, \<open>PT_Uncachable\<close>: \<open>example.c\<close>
    and the programs under \<open>demos\<close> (\<open>map_pt.c\<close> and \<open>map_pt_manual.c\<close>; \<open>performance.c\<close>; \<open>nx.c\<close>;
    \<open>tlb_test.c\<close>, \<open>clear_bits.c\<close>, \<open>virt2phys.c\<close>; \<open>uncachable.c\<close>), followed through whole runs: what they
    print is what the library, the module and the processor together produce.
  \<^item> \<open>PT_Tests\<close>, \<open>PT_SystemTests\<close>: the tests as functions that say whether all assertions hold, and that
    they pass in the model of library, module and processor, with what they rely on; the loop of the
    access-time tests, with its overflow.
  \<^item> \<open>PT_Loader\<close>: the loader of the driver.  What it calls of Windows is the record \<open>scm\<close>, the documented
    behaviour of the service manager the locale \<open>service_control\<close>, interpreted on a model of services and
    their handles.  The handles of the driver file, the device, the service manager and the service are
    closed on every path, a run implements its contract, and unloading undoes loading.
  \<^item> \<open>PT_Codes\<close>: the numbers of the requests, in the encodings of Linux and Windows: the dispatch on
    constructors that the models use is the dispatch of the code on numbers.
  \<^item> \<open>PT_Build\<close>: the rule that generates the single header, and the AArch64 helpers of the module.
  \<^item> \<open>PT_Sample\<close>: a concrete kernel and machine on which the theorems are exercised.

  \<^bold>\<open>Assumptions.\<close>  Code outside the repository enters as a parameter with its documented behaviour:
  the direct map inverts at the addresses used, \<open>/proc/umem\<close> serves reads and writes, \<open>mmap\<close> returns a
  mapping, the page-table accessors of Linux return the slots of an address (\<open>x86_accessors\<close>), Windows
  maps the physical page (\<open>nt_serves\<close>), an exclusive holder of the \<open>mmap\<close> lock excludes all others,
  anonymous mappings give the program pages of its own, which get their frame at the first access
  (\<open>first_touch\<close>, \<open>own_page\<close>), \<open>proc_create\<close> succeeds when the module is loaded (the module does not check
  it), the clock returns some sequence of values, the service manager of Windows keeps its documentation
  (\<open>service_control\<close>).  Every theorem with hypotheses has a witness on the sample machines, where they hold.

  \<^bold>\<open>Bounds.\<close>  There is no fuel: the loops of library, module, driver and demos run over constant ranges
  (eight memory types, four printed lines, 512 table entries, the dispatch table, the repetitions of a
  measurement, the bytes of a page) and are folds over these ranges or structural recursions, and the
  walks descend a fixed list of levels, so every function is total.  The measured loop of the tests has
  a variable bound and ends by a measure on its counter, an \<open>int\<close> whose overflow is \<open>None\<close>; the text
  replacement of the build ends by the length of the line.
  Words keep their width; where the source converts between \<open>int\<close> and \<open>size_t\<close> the model does.

  \<^bold>\<open>Not modelled.\<close>  Messages on the standard error and in the kernel log other than those of the update
  path; tags and colours in the output of the demonstration programs; cached
  translations in the runs of the demonstration programs and tests (an access of the program uses the tables as
  they are), and data caches; overlapping accesses of
  requests other than resolve, update and set-root requests, which take no lock or make a single access; the
  symbol lookup of the module beyond its results; schedules of \<open>nx.c\<close> other than the one its sleeps
  arrange; the comparisons of access times in the tests, which observe caches, and the vendored test
  framework; the conversions between entry types in the AArch64 part of the module, which are the identity
  on words; the text of \<open>ptedit_header.h\<close> as such, whose code is that of the three sources (\<open>PT_Build\<close>).
\<close>

end
